(* ===== verification/Prelude.thy ===== *)
theory Prelude
  imports Main "HOL-Library.Word"
begin

text \<open>
  Shared vocabulary of the development: the widths of the C integer types, the collections of
  rewrite rules the component theories extend, and the generic facts on array scans, list updates
  and words that more than one component uses.
\<close>

unbundle bit_operations_syntax

section \<open>C integer types\<close>

type_synonym u8 = "8 word"
type_synonym u16 = "16 word"
type_synonym u32 = "32 word"
type_synonym u64 = "64 word"

section \<open>Collections of rewrite rules\<close>

named_theorems buddy_simps \<open>unfolding rules of the buddy allocator's block and list helpers\<close>
named_theorems hdcp_simps \<open>unfolding rules of the HDCP state and output helpers\<close>
named_theorems hdcp_frame \<open>what an HDCP operation leaves unchanged\<close>

section \<open>Array scans\<close>

text \<open>
  The C idiom \<^verbatim>\<open>for (i = a; i < n; i++) if (P(t[i])) return i; return -1;\<close> over an
  array \<open>t\<close>. A read outside the array is undefined behaviour and is the value \<^term>\<open>None\<close>.
\<close>

fun scan_table :: "('v \<Rightarrow> bool) \<Rightarrow> 'v list \<Rightarrow> nat list \<Rightarrow> int option" where
  "scan_table P t [] = Some (-1)"
| "scan_table P t (i # js) =
     (if i < length t then (if P (t ! i) then Some (int i) else scan_table P t js) else None)"

lemma scan_table_in_range:
  "\<forall>i \<in> set js. i < length t \<Longrightarrow> \<exists>r. scan_table P t js = Some r"
  by (induction js) auto

lemma scan_table_found:
  "scan_table P t js = Some r \<Longrightarrow> r \<noteq> -1 \<Longrightarrow>
     0 \<le> r \<and> nat r \<in> set js \<and> nat r < length t \<and> P (t ! nat r)"
  by (induction js) (auto split: if_splits)

lemma scan_table_not_found:
  "scan_table P t js = Some (-1) \<Longrightarrow> i \<in> set js \<Longrightarrow> i < length t \<and> \<not> P (t ! i)"
  by (induction js) (auto split: if_splits)

lemma scan_table_hit:
  assumes "i \<in> set js" and "P (t ! i)" and "\<forall>j \<in> set js. j < length t"
  shows "\<exists>k. scan_table P t js = Some (int k) \<and> k \<in> set js \<and> P (t ! k)"
  using assms by (induction js) auto

section \<open>Words\<close>

lemma of_nat_word_eq_0 [simp]:
  "n < 2 ^ LENGTH('a) \<Longrightarrow> (of_nat n :: 'a :: len word) = 0 \<longleftrightarrow> n = 0"
  by (auto simp: word_of_nat_eq_0_iff dest: nat_dvd_not_less)

lemma unat_of_nat_small:
  "n < 2 ^ LENGTH('a) \<Longrightarrow> unat (of_nat n :: 'a :: len word) = n"
  by (simp add: unat_of_nat take_bit_nat_eq_self)

section \<open>Byte buffers\<close>

text \<open>
  Copying bytes into an array at an offset; what would fall outside the array is dropped, so the
  length of the array never changes.
\<close>

definition put_bytes :: "nat \<Rightarrow> u8 list \<Rightarrow> u8 list \<Rightarrow> u8 list" where
  "put_bytes off dat buf =
     take off buf @ take (length buf - off) dat @ drop (off + length dat) buf"

lemma length_put_bytes [simp]: "length (put_bytes off dat buf) = length buf"
  by (simp add: put_bytes_def min_def)

lemma nth_put_bytes:
  "i < length buf \<Longrightarrow>
     put_bytes off dat buf ! i = (if off \<le> i \<and> i < off + length dat then dat ! (i - off) else buf ! i)"
  by (auto simp: put_bytes_def nth_append min_def)

text \<open>The bytes of a 16-bit value in memory, little endian.\<close>

definition u16_bytes :: "u16 \<Rightarrow> u8 list" where
  "u16_bytes x = [ucast x, ucast (drop_bit 8 x)]"

definition bytes_u16 :: "u8 list \<Rightarrow> u16" where
  "bytes_u16 bs = ucast (bs ! 0) OR push_bit 8 (ucast (bs ! 1))"

lemma length_u16_bytes [simp]: "length (u16_bytes x) = 2"
  by (simp add: u16_bytes_def)

lemma bytes_u16_u16_bytes [simp]: "bytes_u16 (u16_bytes x) = x"
proof (rule bit_word_eqI)
  fix n assume "n < LENGTH(16)"
  then show "bit (bytes_u16 (u16_bytes x)) n = bit x n"
    by (auto simp: bytes_u16_def u16_bytes_def bit_or_iff bit_push_bit_iff bit_drop_bit_eq
        bit_ucast_iff dest: bit_imp_le_length)
qed

end
