(* ===== verification/Vmid.thy ===== *)
theory Vmid
  imports Prelude
begin

text \<open>
  The display VMID allocator (\<^verbatim>\<open>amd/display/modules/vmid/vmid.c\<close>) and the VMID usage
  tracker it asks which VMIDs are still in flight
  (\<^verbatim>\<open>amd/display/dc/core/dc_vm_helper.c\<close>). A VMID is a slot of a sixteen entry table that
  holds a page table base address; slot 0 is the physical address space. The theory has the model of
  every operation, the table invariant, and the lemmas that the allocator keeps it, never reads
  outside the table, and is stable: asking again for an address returns the same slot.
\<close>

section \<open>VMID usage tracker\<close>

definition MAX_HUBP :: nat where
  "MAX_HUBP = 6"

text \<open>\<^verbatim>\<open>struct vmid_usage\<close> is an array of two ints, here a pair.\<close>

type_synonym vmid_usage = "u32 \<times> u32"

record vm_helper =
  vh_num_vmid :: u32
  hubp_vmid_usage :: "vmid_usage list"

text \<open>
  The body works on \<^verbatim>\<open>struct vmid_usage vmids\<close>, a copy of the array element; nothing is
  written back to the helper. \<^term>\<open>None\<close> is a read outside the array.
\<close>

definition vm_helper_mark_vmid_used :: "vm_helper \<Rightarrow> u32 \<Rightarrow> u8 \<Rightarrow> vm_helper option" where
  "vm_helper_mark_vmid_used h pos hubp_idx =
     (if unat hubp_idx < length (hubp_vmid_usage h)
      then let vmids = hubp_vmid_usage h ! unat hubp_idx;
               vmids = (snd vmids, snd vmids);
               vmids = (fst vmids, push_bit (unat pos) (1 :: u32))
           in Some h
      else None)"

definition dc_get_vmid_use_vector :: "vm_helper \<Rightarrow> u32" where
  "dc_get_vmid_use_vector h =
     fold (\<lambda>i in_use. in_use OR (fst (hubp_vmid_usage h ! i) OR snd (hubp_vmid_usage h ! i)))
       [0..<MAX_HUBP] 0"

definition vm_helper_init :: "vm_helper \<Rightarrow> u32 \<Rightarrow> vm_helper" where
  "vm_helper_init h n = h\<lparr>vh_num_vmid := n, hubp_vmid_usage := replicate MAX_HUBP (0, 0)\<rparr>"

text \<open>A sequence of mark calls, as the flip path issues them.\<close>

fun mark_all :: "vm_helper \<Rightarrow> (u32 \<times> u8) list \<Rightarrow> vm_helper option" where
  "mark_all h [] = Some h"
| "mark_all h ((pos, i) # ms) =
     (case vm_helper_mark_vmid_used h pos i of None \<Rightarrow> None | Some h' \<Rightarrow> mark_all h' ms)"

section \<open>The allocator\<close>

definition MAX_VMID :: nat where
  "MAX_VMID = 16"

record dc_virtual_addr_space_config =
  page_table_base_addr :: u64
  page_table_start_addr :: u64
  page_table_end_addr :: u64
  page_table_block_size_in_bytes :: u32
  page_table_depth :: u8

record core_vmid =
  num_vmid :: u32
  num_vmids_available :: u32
  ptb_assigned_to_vmid :: "u64 list"
  base_config :: dc_virtual_addr_space_config

definition add_ptb_to_table :: "core_vmid \<Rightarrow> u32 \<Rightarrow> u64 \<Rightarrow> core_vmid" where
  "add_ptb_to_table c vmid ptb =
     (if unat vmid < MAX_VMID
      then c\<lparr>ptb_assigned_to_vmid := (ptb_assigned_to_vmid c)[unat vmid := ptb],
             num_vmids_available := num_vmids_available c - 1\<rparr>
      else c)"

definition clear_entry_from_vmid_table :: "core_vmid \<Rightarrow> u32 \<Rightarrow> core_vmid" where
  "clear_entry_from_vmid_table c vmid =
     (if unat vmid < MAX_VMID
      then c\<lparr>ptb_assigned_to_vmid := (ptb_assigned_to_vmid c)[unat vmid := 0],
             num_vmids_available := num_vmids_available c + 1\<rparr>
      else c)"

text \<open>\<open>ord\<close> is the use vector read from the display core, truncated to sixteen bits.\<close>

definition evict_vmids :: "u16 \<Rightarrow> core_vmid \<Rightarrow> core_vmid" where
  "evict_vmids ord c =
     fold (\<lambda>i c. if \<not> bit ord i then clear_entry_from_vmid_table c (of_nat i) else c)
       [1..<unat (num_vmid c)] c"

definition get_existing_vmid_for_ptb :: "core_vmid \<Rightarrow> u64 \<Rightarrow> int option" where
  "get_existing_vmid_for_ptb c ptb =
     scan_table (\<lambda>v. v = ptb) (ptb_assigned_to_vmid c) [0..<unat (num_vmid c)]"

definition get_next_available_vmid :: "core_vmid \<Rightarrow> int option" where
  "get_next_available_vmid c =
     scan_table (\<lambda>v. v = 0) (ptb_assigned_to_vmid c) [1..<unat (num_vmid c)]"

text \<open>
  The result is the returned \<^verbatim>\<open>uint8_t\<close>, the new allocator and the call of
  \<^verbatim>\<open>dc_setup_vm_context\<close>, if one is made. \<^term>\<open>None\<close> is a read outside the table.
\<close>

definition mod_vmid_get_for_ptb ::
    "u16 \<Rightarrow> core_vmid \<Rightarrow> u64 \<Rightarrow>
       (u8 \<times> core_vmid \<times> (dc_virtual_addr_space_config \<times> int) option) option" where
  "mod_vmid_get_for_ptb ord c ptb =
     (if ptb = 0 then Some (0, c, None)
      else case get_existing_vmid_for_ptb c ptb of
        None \<Rightarrow> None
      | Some vmid \<Rightarrow>
          if vmid = -1
          then let va_config = (base_config c)\<lparr>page_table_base_addr := ptb\<rparr>;
                   c = (if num_vmids_available c = 0 then evict_vmids ord c else c)
               in case get_next_available_vmid c of
                    None \<Rightarrow> None
                  | Some vmid \<Rightarrow>
                      if vmid \<noteq> -1
                      then Some (word_of_int vmid, add_ptb_to_table c (word_of_int vmid) ptb,
                                 Some (va_config, vmid))
                      else Some (word_of_int vmid, c, None)
          else Some (word_of_int vmid, c, None))"

definition mod_vmid_reset :: "core_vmid \<Rightarrow> core_vmid" where
  "mod_vmid_reset c =
     c\<lparr>num_vmids_available := num_vmid c - 1, ptb_assigned_to_vmid := replicate MAX_VMID 0\<rparr>"

text \<open>\<open>dc\<close> is whether the display core pointer is non-null, \<open>mem\<close> whether the allocation succeeds.\<close>

definition mod_vmid_create ::
    "bool \<Rightarrow> bool \<Rightarrow> u32 \<Rightarrow> dc_virtual_addr_space_config \<Rightarrow> core_vmid option" where
  "mod_vmid_create dc mem n va_config =
     (if n \<le> 1 then None
      else if \<not> dc then None
      else if \<not> mem then None
      else Some \<lparr>num_vmid = n, num_vmids_available = n - 1,
                 ptb_assigned_to_vmid = replicate MAX_VMID 0, base_config = va_config\<rparr>)"

section \<open>The table invariant\<close>

definition free_vmids :: "core_vmid \<Rightarrow> nat list" where
  "free_vmids c = filter (\<lambda>i. ptb_assigned_to_vmid c ! i = 0) [1..<unat (num_vmid c)]"

text \<open>
  The table has its declared size, the VMID count fits it, the counter counts the free slots, slot 0
  stays the physical address space, slots beyond the count stay empty and no address sits in two slots.
\<close>

definition vmid_inv :: "core_vmid \<Rightarrow> bool" where
  "vmid_inv c \<longleftrightarrow>
     length (ptb_assigned_to_vmid c) = MAX_VMID \<and>
     1 < unat (num_vmid c) \<and> unat (num_vmid c) \<le> MAX_VMID \<and>
     num_vmids_available c = of_nat (length (free_vmids c)) \<and>
     ptb_assigned_to_vmid c ! 0 = 0 \<and>
     (\<forall>i < MAX_VMID. unat (num_vmid c) \<le> i \<longrightarrow> ptb_assigned_to_vmid c ! i = 0) \<and>
     (\<forall>i < MAX_VMID. \<forall>j < MAX_VMID.
        ptb_assigned_to_vmid c ! i = ptb_assigned_to_vmid c ! j \<longrightarrow>
        ptb_assigned_to_vmid c ! i \<noteq> 0 \<longrightarrow> i = j)"

lemma vmid_invD:
  assumes "vmid_inv c"
  shows "length (ptb_assigned_to_vmid c) = 16" "1 < unat (num_vmid c)" "unat (num_vmid c) \<le> 16"
    "num_vmids_available c = of_nat (length (free_vmids c))"
    "ptb_assigned_to_vmid c ! 0 = 0"
  using assms by (auto simp: vmid_inv_def MAX_VMID_def)

lemma length_free_vmids: "vmid_inv c \<Longrightarrow> length (free_vmids c) < 16"
  using length_filter_le [of "\<lambda>i. ptb_assigned_to_vmid c ! i = 0" "[1..<unat (num_vmid c)]"]
  by (auto simp: free_vmids_def dest: vmid_invD)

lemma available_eq_0:
  "vmid_inv c \<Longrightarrow> num_vmids_available c = 0 \<longleftrightarrow> free_vmids c = []"
  using length_free_vmids [of c] by (simp add: vmid_invD)

lemma filter_upt_update:
  assumes "a \<le> k" "k < n"
  shows "length (filter (\<lambda>i. i \<noteq> k \<and> P i) [a..<n]) + (if P k then 1 else 0)
       = length (filter P [a..<n])"
proof -
  have split: "[a..<n] = [a..<k] @ k # [Suc k..<n]"
    using assms by (metis less_imp_le_nat upt_add_eq_append upt_conv_Cons le_Suc_ex)
  have "filter (\<lambda>i. i \<noteq> k \<and> P i) [a..<k] = filter P [a..<k]"
    by (rule filter_cong) auto
  moreover have "filter (\<lambda>i. i \<noteq> k \<and> P i) [Suc k..<n] = filter P [Suc k..<n]"
    by (rule filter_cong) auto
  ultimately show ?thesis by (simp add: split)
qed

lemma vmid_invI:
  assumes "length (ptb_assigned_to_vmid c) = 16" "1 < unat (num_vmid c)" "unat (num_vmid c) \<le> 16"
    "num_vmids_available c = of_nat (length (free_vmids c))" "ptb_assigned_to_vmid c ! 0 = 0"
    "\<And>i. i < 16 \<Longrightarrow> unat (num_vmid c) \<le> i \<Longrightarrow> ptb_assigned_to_vmid c ! i = 0"
    "\<And>i j. i < 16 \<Longrightarrow> j < 16 \<Longrightarrow> ptb_assigned_to_vmid c ! i = ptb_assigned_to_vmid c ! j \<Longrightarrow>
       ptb_assigned_to_vmid c ! i \<noteq> 0 \<Longrightarrow> i = j"
  shows "vmid_inv c"
  unfolding vmid_inv_def MAX_VMID_def using assms by blast

lemma vmid_inv_tail: "vmid_inv c \<Longrightarrow> unat (num_vmid c) \<le> i \<Longrightarrow> i < 16 \<Longrightarrow> ptb_assigned_to_vmid c ! i = 0"
  by (simp add: vmid_inv_def MAX_VMID_def)

lemma vmid_inv_unique:
  "vmid_inv c \<Longrightarrow> i < 16 \<Longrightarrow> j < 16 \<Longrightarrow> ptb_assigned_to_vmid c ! i = ptb_assigned_to_vmid c ! j \<Longrightarrow>
     ptb_assigned_to_vmid c ! i \<noteq> 0 \<Longrightarrow> i = j"
  unfolding vmid_inv_def MAX_VMID_def by blast

lemma add_ptb_inv:
  assumes inv: "vmid_inv c" and k: "Suc 0 \<le> unat k" "unat k < unat (num_vmid c)"
    and free: "ptb_assigned_to_vmid c ! unat k = 0"
    and new: "\<forall>i < unat (num_vmid c). ptb_assigned_to_vmid c ! i \<noteq> ptb" "ptb \<noteq> 0"
  shows "vmid_inv (add_ptb_to_table c k ptb)"
proof -
  let ?n = "unat (num_vmid c)" and ?t = "ptb_assigned_to_vmid c"
  have k16: "unat k < 16" using k inv by (auto dest: vmid_invD)
  have eq: "filter (\<lambda>i. ?t[unat k := ptb] ! i = 0) [Suc 0..<?n]
      = filter (\<lambda>i. i \<noteq> unat k \<and> ?t ! i = 0) [Suc 0..<?n]"
    using k16 new vmid_invD [OF inv] by (intro filter_cong) (auto simp: nth_list_update)
  have len: "length (free_vmids c) = Suc (length (free_vmids (add_ptb_to_table c k ptb)))"
    using filter_upt_update [OF k, of "\<lambda>i. ?t ! i = 0"] free k16
    by (simp add: free_vmids_def add_ptb_to_table_def MAX_VMID_def eq)
  have cnt: "num_vmids_available c - 1 = of_nat (length (free_vmids (add_ptb_to_table c k ptb)))"
    using len vmid_invD(4) [OF inv] by simp
  have fresh: "?t ! i \<noteq> ptb" if "i < 16" for i
    using that new vmid_inv_tail [OF inv] by (cases "i < ?n") auto
  have uniq: "?t[unat k := ptb] ! i = ?t[unat k := ptb] ! j \<Longrightarrow> ?t[unat k := ptb] ! i \<noteq> 0 \<Longrightarrow> i = j"
    if "i < 16" "j < 16" for i j
    using that vmid_inv_unique [OF inv that] fresh [of i] fresh [of j] k16 vmid_invD(1) [OF inv]
    by (auto simp: nth_list_update split: if_splits)
  have upd: "ptb_assigned_to_vmid (add_ptb_to_table c k ptb) = ?t[unat k := ptb]"
    "num_vmid (add_ptb_to_table c k ptb) = num_vmid c"
    "num_vmids_available (add_ptb_to_table c k ptb) = num_vmids_available c - 1"
    using k16 by (simp_all add: add_ptb_to_table_def MAX_VMID_def)
  show ?thesis
  proof (rule vmid_invI, unfold upd)
    show "?t[unat k := ptb] ! i = 0" if "i < 16" "?n \<le> i" for i
      using that k(2) vmid_inv_tail [OF inv that(2,1)] by simp
    show "i = j" if "i < 16" "j < 16" "?t[unat k := ptb] ! i = ?t[unat k := ptb] ! j" "?t[unat k := ptb] ! i \<noteq> 0" for i j
      using that by (rule uniq)
  qed (use vmid_invD [OF inv] cnt k in simp_all)
qed

lemma clear_entry_inv:
  assumes inv: "vmid_inv c" and k: "Suc 0 \<le> k" "k < unat (num_vmid c)"
    and used: "ptb_assigned_to_vmid c ! k \<noteq> 0"
  shows "vmid_inv (clear_entry_from_vmid_table c (of_nat k))"
proof -
  let ?n = "unat (num_vmid c)" and ?t = "ptb_assigned_to_vmid c"
  have k16: "k < 16" using k inv by (auto dest: vmid_invD)
  then have uk: "unat (of_nat k :: u32) = k" by (simp add: unat_of_nat_small)
  have eq: "filter (\<lambda>i. i \<noteq> k \<and> ?t[k := 0] ! i = 0) [Suc 0..<?n] = filter (\<lambda>i. ?t ! i = 0) [Suc 0..<?n]"
    using k16 used vmid_invD [OF inv] by (intro filter_cong) (auto simp: nth_list_update)
  have len: "length (free_vmids (clear_entry_from_vmid_table c (of_nat k))) = Suc (length (free_vmids c))"
    using filter_upt_update [OF k, of "\<lambda>i. ?t[k := 0] ! i = 0"] k16 vmid_invD(1) [OF inv]
    by (simp add: free_vmids_def clear_entry_from_vmid_table_def MAX_VMID_def uk eq)
  have cnt: "num_vmids_available c + 1
      = of_nat (length (free_vmids (clear_entry_from_vmid_table c (of_nat k))))"
    using len vmid_invD(4) [OF inv] by simp
  have uniq: "?t[k := 0] ! i = ?t[k := 0] ! j \<Longrightarrow> ?t[k := 0] ! i \<noteq> 0 \<Longrightarrow> i = j" if "i < 16" "j < 16" for i j
    using that vmid_inv_unique [OF inv that] k16 vmid_invD(1) [OF inv]
    by (auto simp: nth_list_update split: if_splits)
  have upd: "ptb_assigned_to_vmid (clear_entry_from_vmid_table c (of_nat k)) = ?t[k := 0]"
    "num_vmid (clear_entry_from_vmid_table c (of_nat k)) = num_vmid c"
    "num_vmids_available (clear_entry_from_vmid_table c (of_nat k)) = num_vmids_available c + 1"
    using k16 uk by (simp_all add: clear_entry_from_vmid_table_def MAX_VMID_def)
  show ?thesis
  proof (rule vmid_invI, unfold upd)
    show "?t[k := 0] ! i = 0" if "i < 16" "?n \<le> i" for i
      using that k(2) vmid_inv_tail [OF inv that(2,1)] by simp
    show "i = j" if "i < 16" "j < 16" "?t[k := 0] ! i = ?t[k := 0] ! j" "?t[k := 0] ! i \<noteq> 0" for i j
      using that by (rule uniq)
  qed (use vmid_invD [OF inv] cnt k in simp_all)
qed

lemma clear_entry_nth:
  "vmid_inv c \<Longrightarrow> k < 16 \<Longrightarrow> i < 16 \<Longrightarrow>
     ptb_assigned_to_vmid (clear_entry_from_vmid_table c (of_nat k)) ! i =
       (if i = k then 0 else ptb_assigned_to_vmid c ! i)"
  by (simp add: clear_entry_from_vmid_table_def MAX_VMID_def unat_of_nat_small vmid_invD)

lemma clear_entry_num_vmid [simp]: "num_vmid (clear_entry_from_vmid_table c k) = num_vmid c"
  by (simp add: clear_entry_from_vmid_table_def)

text \<open>
  Eviction runs only when every slot is taken, so each clear frees one slot and the counter stays
  exact.
\<close>

lemma evict_fold:
  fixes ord :: u16
  assumes "vmid_inv c" "distinct js"
    and "\<forall>i \<in> set js. Suc 0 \<le> i \<and> i < unat (num_vmid c) \<and> ptb_assigned_to_vmid c ! i \<noteq> 0"
  defines "c' \<equiv> fold (\<lambda>i c. if \<not> bit ord i then clear_entry_from_vmid_table c (of_nat i) else c) js c"
  shows "vmid_inv c' \<and> num_vmid c' = num_vmid c \<and>
    (\<forall>i < 16. ptb_assigned_to_vmid c' ! i =
       (if i \<in> set js \<and> \<not> bit ord i then 0 else ptb_assigned_to_vmid c ! i))"
  using assms(1-3) unfolding c'_def
proof (induction js arbitrary: c)
  case Nil
  then show ?case by simp
next
  case (Cons k js)
  let ?c = "if \<not> bit ord k then clear_entry_from_vmid_table c (of_nat k) else c"
  have k: "Suc 0 \<le> k" "k < unat (num_vmid c)" "ptb_assigned_to_vmid c ! k \<noteq> 0" "k < 16"
    using Cons.prems vmid_invD(3) [OF Cons.prems(1)] by auto
  have inv: "vmid_inv ?c" using clear_entry_inv [OF Cons.prems(1) k(1-3)] Cons.prems(1) by simp
  have n: "num_vmid ?c = num_vmid c" by simp
  have small: "i < 16" if "i \<in> set js" for i
    using that Cons.prems vmid_invD(3) [OF Cons.prems(1)] by force
  have ne: "\<forall>i \<in> set js. Suc 0 \<le> i \<and> i < unat (num_vmid ?c) \<and> ptb_assigned_to_vmid ?c ! i \<noteq> 0"
    using Cons.prems k(4) small by (auto simp: clear_entry_nth)
  show ?case
    using Cons.IH [OF inv _ ne] Cons.prems n k(4) by (auto simp: clear_entry_nth)
qed

lemma evict_vmids_inv:
  assumes "vmid_inv c" "free_vmids c = []"
  shows "vmid_inv (evict_vmids ord c)" "num_vmid (evict_vmids ord c) = num_vmid c"
    "i < 16 \<Longrightarrow> ptb_assigned_to_vmid (evict_vmids ord c) ! i =
       (if 1 \<le> i \<and> i < unat (num_vmid c) \<and> \<not> bit ord i then 0 else ptb_assigned_to_vmid c ! i)"
proof -
  have "\<forall>i \<in> set [1..<unat (num_vmid c)].
      Suc 0 \<le> i \<and> i < unat (num_vmid c) \<and> ptb_assigned_to_vmid c ! i \<noteq> 0"
    using assms(2) by (auto simp: free_vmids_def filter_empty_conv)
  note * = evict_fold [OF assms(1) _ this, of ord, folded evict_vmids_def]
  show "vmid_inv (evict_vmids ord c)" "num_vmid (evict_vmids ord c) = num_vmid c"
    "i < 16 \<Longrightarrow> ptb_assigned_to_vmid (evict_vmids ord c) ! i =
       (if 1 \<le> i \<and> i < unat (num_vmid c) \<and> \<not> bit ord i then 0 else ptb_assigned_to_vmid c ! i)"
    using * by auto
qed

section \<open>Behaviour of a lookup\<close>

lemma get_existing_total:
  assumes "vmid_inv c"
  obtains r where "get_existing_vmid_for_ptb c ptb = Some r"
proof -
  have "\<forall>i \<in> set [0..<unat (num_vmid c)]. i < length (ptb_assigned_to_vmid c)"
    using vmid_invD(1,3) [OF assms] by auto
  from scan_table_in_range [OF this] show thesis
    using that unfolding get_existing_vmid_for_ptb_def by blast
qed

lemma get_next_total:
  assumes "vmid_inv c"
  obtains r where "get_next_available_vmid c = Some r"
proof -
  have "\<forall>i \<in> set [1..<unat (num_vmid c)]. i < length (ptb_assigned_to_vmid c)"
    using vmid_invD(1,3) [OF assms] by auto
  from scan_table_in_range [OF this] show thesis
    using that unfolding get_next_available_vmid_def by blast
qed

text \<open>The three outcomes of a lookup: the address is known, it gets a free slot, or all slots are in use.\<close>

lemma get_for_ptb_cases:
  assumes inv: "vmid_inv c" and ptb: "ptb \<noteq> 0"
  obtains
    (existing) k where "1 \<le> k" "k < unat (num_vmid c)" "ptb_assigned_to_vmid c ! k = ptb"
      "mod_vmid_get_for_ptb ord c ptb = Some (of_nat k, c, None)"
  | (fresh) c0 k where "vmid_inv c0" "num_vmid c0 = num_vmid c" "1 \<le> k" "k < unat (num_vmid c)"
      "ptb_assigned_to_vmid c0 ! k = 0" "\<forall>i < unat (num_vmid c0). ptb_assigned_to_vmid c0 ! i \<noteq> ptb"
      "mod_vmid_get_for_ptb ord c ptb = Some (of_nat k, add_ptb_to_table c0 (of_nat k) ptb,
         Some ((base_config c)\<lparr>page_table_base_addr := ptb\<rparr>, int k))"
  | (full) c0 where "vmid_inv c0" "num_vmid c0 = num_vmid c"
      "\<forall>i. 1 \<le> i \<longrightarrow> i < unat (num_vmid c) \<longrightarrow> ptb_assigned_to_vmid c0 ! i \<noteq> 0"
      "mod_vmid_get_for_ptb ord c ptb = Some (255, c0, None)"
proof -
  let ?n = "unat (num_vmid c)"
  obtain r where r: "get_existing_vmid_for_ptb c ptb = Some r" using get_existing_total [OF inv] .
  show thesis
  proof (cases "r = -1")
    case False
    from scan_table_found [OF r [unfolded get_existing_vmid_for_ptb_def] False]
    have f: "0 \<le> r" "nat r < ?n" "ptb_assigned_to_vmid c ! nat r = ptb" by auto
    have "nat r \<noteq> 0" using f(3) vmid_invD(5) [OF inv] ptb by (cases "nat r = 0") auto
    then show thesis
      using existing [of "nat r"] f r ptb False by (simp add: mod_vmid_get_for_ptb_def)
  next
    case True
    have absent: "ptb_assigned_to_vmid c ! i \<noteq> ptb" if "i < ?n" for i
      using scan_table_not_found [OF r [unfolded True get_existing_vmid_for_ptb_def], of i] that by simp
    define c0 where "c0 = (if num_vmids_available c = 0 then evict_vmids ord c else c)"
    have c0: "vmid_inv c0" "num_vmid c0 = num_vmid c"
      using inv evict_vmids_inv [OF inv] available_eq_0 [OF inv] by (auto simp: c0_def)
    have absent0: "\<forall>i < unat (num_vmid c0). ptb_assigned_to_vmid c0 ! i \<noteq> ptb"
    proof (intro allI impI)
      fix i assume "i < unat (num_vmid c0)"
      with c0(2) vmid_invD(3) [OF inv] have "i < ?n" "i < 16" by auto
      then show "ptb_assigned_to_vmid c0 ! i \<noteq> ptb"
        using absent [of i] ptb evict_vmids_inv(3) [OF inv, of i ord] available_eq_0 [OF inv]
        by (auto simp: c0_def)
    qed
    obtain q where q: "get_next_available_vmid c0 = Some q" using get_next_total [OF c0(1)] .
    show thesis
    proof (cases "q = -1")
      case False
      from scan_table_found [OF q [unfolded get_next_available_vmid_def] False]
      have f: "0 \<le> q" "1 \<le> nat q" "nat q < ?n" "ptb_assigned_to_vmid c0 ! nat q = 0"
        by (auto simp: c0)
      show thesis
        using fresh [OF c0 f(2-4) absent0] f(1) r q ptb True False
        by (simp add: mod_vmid_get_for_ptb_def c0_def [symmetric] Let_def)
    next
      case qm: True
      have "ptb_assigned_to_vmid c0 ! i \<noteq> 0" if "1 \<le> i" "i < ?n" for i
        using scan_table_not_found [OF q [unfolded qm get_next_available_vmid_def], of i] that c0(2)
        by simp
      then show thesis
        using full [OF c0] r q ptb True qm
        by (simp add: mod_vmid_get_for_ptb_def c0_def [symmetric] Let_def)
    qed
  qed
qed

lemma of_nat_vmid:
  assumes "vmid_inv c" "k < unat (num_vmid c)"
  shows "unat (of_nat k :: u8) = k" "unat (of_nat k :: u32) = k" "(of_nat k :: u8) \<noteq> 255"
proof -
  have k: "k < 16" using assms vmid_invD(3) [of c] by simp
  then show u8: "unat (of_nat k :: u8) = k" and "unat (of_nat k :: u32) = k"
    by (simp_all add: unat_of_nat_small)
  show "(of_nat k :: u8) \<noteq> 255"
  proof
    assume "(of_nat k :: u8) = 255"
    then have "unat (of_nat k :: u8) = 255" by simp
    with u8 k show False by simp
  qed
qed

lemma add_ptb_num_vmid [simp]: "num_vmid (add_ptb_to_table c k ptb) = num_vmid c"
  by (simp add: add_ptb_to_table_def)

lemma add_ptb_nth:
  "vmid_inv c \<Longrightarrow> unat k < 16 \<Longrightarrow> ptb_assigned_to_vmid (add_ptb_to_table c k ptb) ! unat k = ptb"
  by (simp add: add_ptb_to_table_def MAX_VMID_def vmid_invD)

lemma get_for_ptb_present:
  assumes inv: "vmid_inv c" and ptb: "ptb \<noteq> 0" and k: "k < unat (num_vmid c)" "ptb_assigned_to_vmid c ! k = ptb"
  shows "mod_vmid_get_for_ptb ord c ptb = Some (of_nat k, c, None)"
  using inv ptb
proof (cases rule: get_for_ptb_cases [where ord = ord])
  case (existing j)
  have "j = k"
    using vmid_inv_unique [OF inv, of j k] existing k ptb vmid_invD(3) [OF inv] by auto
  with existing show ?thesis by simp
next
  case (fresh c0 j)
  obtain r where "get_existing_vmid_for_ptb c ptb = Some r" "r \<noteq> -1"
    using scan_table_hit [of k "[0..<unat (num_vmid c)]" "\<lambda>v. v = ptb" "ptb_assigned_to_vmid c"]
      k vmid_invD(1,3) [OF inv] by (fastforce simp: get_existing_vmid_for_ptb_def)
  with fresh(7) ptb show ?thesis by (simp add: mod_vmid_get_for_ptb_def)
next
  case (full c0)
  obtain r where "get_existing_vmid_for_ptb c ptb = Some (int r)" "r < unat (num_vmid c)"
    using scan_table_hit [of k "[0..<unat (num_vmid c)]" "\<lambda>v. v = ptb" "ptb_assigned_to_vmid c"]
      k vmid_invD(1,3) [OF inv] by (fastforce simp: get_existing_vmid_for_ptb_def)
  with full(4) ptb of_nat_vmid [OF inv, of r] show ?thesis by (simp add: mod_vmid_get_for_ptb_def)
qed

lemma mod_vmid_create_inv:
  assumes "mod_vmid_create dc mem n va = Some c" "unat n \<le> MAX_VMID"
  shows "vmid_inv c"
proof -
  have n: "1 < unat n" and c: "c = \<lparr>num_vmid = n, num_vmids_available = n - 1,
      ptb_assigned_to_vmid = replicate MAX_VMID 0, base_config = va\<rparr>"
    using assms(1) by (auto simp: mod_vmid_create_def word_le_nat_alt split: if_splits)
  have "n - 1 = of_nat (unat n - 1)" using n by (simp add: of_nat_diff)
  moreover have "filter (\<lambda>i. replicate 16 (0 :: u64) ! i = 0) [1..<unat n] = [1..<unat n]"
    using assms(2) by (intro filter_True) (auto simp: MAX_VMID_def)
  ultimately show ?thesis
    using n assms(2) by (auto simp: vmid_inv_def c free_vmids_def MAX_VMID_def)
qed

lemma mod_vmid_reset_inv:
  assumes "vmid_inv c"
  shows "vmid_inv (mod_vmid_reset c)"
proof -
  have "mod_vmid_create True True (num_vmid c) (base_config c) = Some (mod_vmid_reset c)"
    using vmid_invD(2) [OF assms] by (simp add: mod_vmid_create_def mod_vmid_reset_def word_le_nat_alt)
  then show ?thesis
    using mod_vmid_create_inv vmid_invD(3) [OF assms] by (auto simp: MAX_VMID_def)
qed

section \<open>Properties\<close>

text \<open>
  C18: a lookup on a well-formed allocator always returns (no read leaves the table) and leaves the
  allocator well-formed: the free counter still counts the free slots and no address is in two slots.
\<close>

theorem vmid_get_for_ptb_inv:
  assumes "vmid_inv c"
  shows "\<exists>v c' call. mod_vmid_get_for_ptb ord c ptb = Some (v, c', call) \<and> vmid_inv c' \<and> num_vmid c' = num_vmid c"
proof (cases "ptb = 0")
  case True
  with assms show ?thesis by (simp add: mod_vmid_get_for_ptb_def)
next
  case False
  with assms show ?thesis
  proof (cases rule: get_for_ptb_cases [where ord = ord])
    case (fresh c0 k)
    have "vmid_inv (add_ptb_to_table c0 (of_nat k) ptb)"
      using fresh False of_nat_vmid(2) [OF fresh(1), of k] by (intro add_ptb_inv) auto
    with fresh show ?thesis by simp
  qed (use assms in simp_all)
qed

definition sample_vmid :: core_vmid where
  "sample_vmid = \<lparr>num_vmid = 4, num_vmids_available = 2,
     ptb_assigned_to_vmid = [0, 4096, 0, 0, 0, 0, 0, 0, 0, 0, 0, 0, 0, 0, 0, 0],
     base_config = \<lparr>page_table_base_addr = 0, page_table_start_addr = 0, page_table_end_addr = 0,
       page_table_block_size_in_bytes = 0, page_table_depth = 1\<rparr>\<rparr>"

lemma sample_vmid_inv: "vmid_inv sample_vmid"
proof -
  have "vmid_inv (add_ptb_to_table (mod_vmid_reset sample_vmid) 1 4096)"
  proof (rule add_ptb_inv)
    show "vmid_inv (mod_vmid_reset sample_vmid)"
      by (rule mod_vmid_create_inv [of True True 4 "base_config sample_vmid"])
        (simp_all add: mod_vmid_create_def mod_vmid_reset_def sample_vmid_def MAX_VMID_def word_le_nat_alt)
  qed (simp_all add: mod_vmid_reset_def sample_vmid_def MAX_VMID_def)
  then show ?thesis
    by (simp add: add_ptb_to_table_def mod_vmid_reset_def sample_vmid_def MAX_VMID_def eval_nat_numeral)
qed

theorem vmid_get_for_ptb_inv_witness:
  "\<exists>v c' call. mod_vmid_get_for_ptb 0 sample_vmid 8192 = Some (v, c', call) \<and> vmid_inv c' \<and> num_vmid c' = 4"
  using vmid_get_for_ptb_inv [OF sample_vmid_inv, of 0 8192] by (simp add: sample_vmid_def)

text \<open>
  C19: a VMID handed out for a page table base is the slot that holds it, and asking again for the
  same base, whatever the use vector is by then, returns the same VMID, changes nothing and programs
  no context. The value 255 is the failure code of a full table.
\<close>

theorem vmid_get_for_ptb_stable:
  assumes "vmid_inv c" and "mod_vmid_get_for_ptb ord c ptb = Some (v, c', call)" and "v \<noteq> 255"
  shows "ptb_assigned_to_vmid c' ! unat v = ptb \<and> mod_vmid_get_for_ptb ord' c' ptb = Some (v, c', None)"
proof (cases "ptb = 0")
  case True
  with assms show ?thesis by (auto simp: mod_vmid_get_for_ptb_def dest: vmid_invD)
next
  case ptb: False
  with assms(1) show ?thesis
  proof (cases rule: get_for_ptb_cases [where ord = ord])
    case (existing k)
    with assms ptb of_nat_vmid [OF assms(1), of k] show ?thesis
      by (auto simp: get_for_ptb_present)
  next
    case (fresh c0 k)
    note k = of_nat_vmid [OF fresh(1), of k]
    have inv: "vmid_inv (add_ptb_to_table c0 (of_nat k) ptb)"
      using fresh ptb k(2) by (intro add_ptb_inv) auto
    have "ptb_assigned_to_vmid (add_ptb_to_table c0 (of_nat k) ptb) ! k = ptb"
      using add_ptb_nth [OF fresh(1), of "of_nat k" ptb] k(2) fresh(2,4) vmid_invD(3) [OF fresh(1)] by simp
    then show ?thesis
      using get_for_ptb_present [OF inv ptb, of k ord'] fresh k assms(2) by auto
  next
    case full
    with assms show ?thesis by simp
  qed
qed

theorem vmid_get_for_ptb_stable_witness:
  "mod_vmid_get_for_ptb 3 sample_vmid 4096 = Some (1, sample_vmid, None)"
proof -
  have "mod_vmid_get_for_ptb 0 sample_vmid 4096 = Some (1, sample_vmid, None)"
    by (simp add: mod_vmid_get_for_ptb_def get_existing_vmid_for_ptb_def sample_vmid_def upt_conv_Cons)
  from vmid_get_for_ptb_stable [OF sample_vmid_inv this, of 3] show ?thesis by simp
qed

text \<open>
  C20: marking VMIDs as used has no effect. Whatever sequence of marks follows the tracker's
  initialisation, the use vector is still zero, so an eviction on a full table clears every slot of
  the table, also those of VMIDs that were just marked as in use.
\<close>

theorem vmid_marks_are_lost:
  assumes "mark_all (vm_helper_init h n) ms = Some h'" and "vmid_inv c" and "num_vmids_available c = 0"
    and "1 \<le> i" and "i < unat (num_vmid c)"
  shows "dc_get_vmid_use_vector h' = 0 \<and>
    ptb_assigned_to_vmid (evict_vmids (ucast (dc_get_vmid_use_vector h')) c) ! i = 0"
proof -
  have same: "mark_all g ms = Some g' \<Longrightarrow> g' = g" for g g'
    by (induction ms arbitrary: g)
      (auto simp: vm_helper_mark_vmid_used_def Let_def split: option.splits if_splits)
  have zero: "dc_get_vmid_use_vector h' = 0"
    using same [OF assms(1)]
    by (simp add: dc_get_vmid_use_vector_def vm_helper_init_def MAX_HUBP_def upt_conv_Cons)
  have "i < 16" using assms(5) vmid_invD(3) [OF assms(2)] by simp
  then show ?thesis
    using zero evict_vmids_inv(3) [OF assms(2), of i 0] assms(3-5) available_eq_0 [OF assms(2)] by simp
qed

definition full_vmid :: core_vmid where
  "full_vmid = sample_vmid\<lparr>num_vmid := 2, num_vmids_available := 0\<rparr>"

lemma full_vmid_inv: "vmid_inv full_vmid"
proof -
  have uniq: "i = j" if "ptb_assigned_to_vmid full_vmid ! i = ptb_assigned_to_vmid full_vmid ! j"
    "ptb_assigned_to_vmid full_vmid ! i \<noteq> 0" "i < 16" "j < 16" for i j
    using vmid_inv_unique [OF sample_vmid_inv, of i j] that by (simp add: full_vmid_def)
  show ?thesis
  proof (rule vmid_invI)
    fix i :: nat
    assume "i < 16" "unat (num_vmid full_vmid) \<le> i"
    then have "2 \<le> i" by (simp add: full_vmid_def)
    moreover have "ptb_assigned_to_vmid full_vmid = [0, 4096] @ replicate 14 0"
      by (simp add: full_vmid_def sample_vmid_def eval_nat_numeral)
    ultimately show "ptb_assigned_to_vmid full_vmid ! i = 0"
      using \<open>i < 16\<close> by (simp add: nth_append)
  qed (use uniq in \<open>simp_all add: full_vmid_def sample_vmid_def free_vmids_def upt_conv_Cons\<close>)
qed

theorem vmid_marks_are_lost_witness:
  "\<exists>h'. mark_all (vm_helper_init \<lparr>vh_num_vmid = 0, hubp_vmid_usage = []\<rparr> 2) [(1, 0)] = Some h' \<and>
     ptb_assigned_to_vmid full_vmid ! 1 = 4096 \<and>
     ptb_assigned_to_vmid (evict_vmids (ucast (dc_get_vmid_use_vector h')) full_vmid) ! 1 = 0"
proof -
  let ?h = "vm_helper_init \<lparr>vh_num_vmid = 0, hubp_vmid_usage = []\<rparr> 2"
  have m: "mark_all ?h [(1, 0)] = Some ?h"
    by (simp add: vm_helper_mark_vmid_used_def vm_helper_init_def MAX_HUBP_def Let_def)
  have "ptb_assigned_to_vmid (evict_vmids (ucast (dc_get_vmid_use_vector ?h)) full_vmid) ! 1 = 0"
    by (rule vmid_marks_are_lost [OF m full_vmid_inv, THEN conjunct2])
      (simp_all add: full_vmid_def sample_vmid_def)
  with m show ?thesis by (simp add: full_vmid_def sample_vmid_def)
qed

end
