(* ===== verification/Hdcp_Types.thy ===== *)
theory Hdcp_Types
  imports Prelude
begin

text \<open>
  The public data of the HDCP module (\<^verbatim>\<open>amd/display/modules/inc/mod_hdcp.h\<close>): status
  codes, link and display descriptions with their adjustments, the error trace, the events the display
  manager reports and the timer requests the module answers with. One-bit fields and bytes that only
  hold 0 and 1 are \<^typ>\<open>bool\<close>; the other fields keep their width, so that equality of two
  adjustment records is what the code's \<^verbatim>\<open>memcmp\<close> tests.
\<close>

section \<open>mod\_hdcp.h\<close>

definition MAX_NUM_OF_DISPLAYS :: nat where
  "MAX_NUM_OF_DISPLAYS = 6"

definition MAX_NUM_OF_ATTEMPTS :: u8 where
  "MAX_NUM_OF_ATTEMPTS = 4"

definition MAX_NUM_OF_ERROR_TRACE :: nat where
  "MAX_NUM_OF_ERROR_TRACE = 10"

datatype (plugins only: code) mod_hdcp_status =
    MOD_HDCP_STATUS_SUCCESS
  | MOD_HDCP_STATUS_FAILURE
  | MOD_HDCP_STATUS_RESET_NEEDED
  | MOD_HDCP_STATUS_DISPLAY_OUT_OF_BOUND
  | MOD_HDCP_STATUS_DISPLAY_NOT_FOUND
  | MOD_HDCP_STATUS_INVALID_STATE
  | MOD_HDCP_STATUS_NOT_IMPLEMENTED
  | MOD_HDCP_STATUS_INTERNAL_POLICY_FAILURE
  | MOD_HDCP_STATUS_UPDATE_TOPOLOGY_FAILURE
  | MOD_HDCP_STATUS_CREATE_PSP_SERVICE_FAILURE
  | MOD_HDCP_STATUS_DESTROY_PSP_SERVICE_FAILURE
  | MOD_HDCP_STATUS_HDCP1_CREATE_SESSION_FAILURE
  | MOD_HDCP_STATUS_HDCP1_DESTROY_SESSION_FAILURE
  | MOD_HDCP_STATUS_HDCP1_VALIDATE_ENCRYPTION_FAILURE
  | MOD_HDCP_STATUS_HDCP1_NOT_HDCP_REPEATER
  | MOD_HDCP_STATUS_HDCP1_NOT_CAPABLE
  | MOD_HDCP_STATUS_HDCP1_R0_PRIME_PENDING
  | MOD_HDCP_STATUS_HDCP1_VALIDATE_RX_FAILURE
  | MOD_HDCP_STATUS_HDCP1_BKSV_REVOKED
  | MOD_HDCP_STATUS_HDCP1_KSV_LIST_NOT_READY
  | MOD_HDCP_STATUS_HDCP1_VALIDATE_KSV_LIST_FAILURE
  | MOD_HDCP_STATUS_HDCP1_KSV_LIST_REVOKED
  | MOD_HDCP_STATUS_HDCP1_ENABLE_ENCRYPTION_FAILURE
  | MOD_HDCP_STATUS_HDCP1_ENABLE_STREAM_ENCRYPTION_FAILURE
  | MOD_HDCP_STATUS_HDCP1_MAX_CASCADE_EXCEEDED_FAILURE
  | MOD_HDCP_STATUS_HDCP1_MAX_DEVS_EXCEEDED_FAILURE
  | MOD_HDCP_STATUS_HDCP1_DEVICE_COUNT_MISMATCH_FAILURE
  | MOD_HDCP_STATUS_HDCP1_LINK_INTEGRITY_FAILURE
  | MOD_HDCP_STATUS_HDCP1_REAUTH_REQUEST_ISSUED
  | MOD_HDCP_STATUS_HDCP1_LINK_MAINTENANCE_FAILURE
  | MOD_HDCP_STATUS_HDCP1_INVALID_BKSV
  | MOD_HDCP_STATUS_DDC_FAILURE
  | MOD_HDCP_STATUS_INVALID_OPERATION
  | MOD_HDCP_STATUS_HDCP2_NOT_CAPABLE
  | MOD_HDCP_STATUS_HDCP2_CREATE_SESSION_FAILURE
  | MOD_HDCP_STATUS_HDCP2_DESTROY_SESSION_FAILURE
  | MOD_HDCP_STATUS_HDCP2_PREP_AKE_INIT_FAILURE
  | MOD_HDCP_STATUS_HDCP2_AKE_CERT_PENDING
  | MOD_HDCP_STATUS_HDCP2_H_PRIME_PENDING
  | MOD_HDCP_STATUS_HDCP2_PAIRING_INFO_PENDING
  | MOD_HDCP_STATUS_HDCP2_VALIDATE_AKE_CERT_FAILURE
  | MOD_HDCP_STATUS_HDCP2_AKE_CERT_REVOKED
  | MOD_HDCP_STATUS_HDCP2_VALIDATE_H_PRIME_FAILURE
  | MOD_HDCP_STATUS_HDCP2_VALIDATE_PAIRING_INFO_FAILURE
  | MOD_HDCP_STATUS_HDCP2_PREP_LC_INIT_FAILURE
  | MOD_HDCP_STATUS_HDCP2_L_PRIME_PENDING
  | MOD_HDCP_STATUS_HDCP2_VALIDATE_L_PRIME_FAILURE
  | MOD_HDCP_STATUS_HDCP2_PREP_EKS_FAILURE
  | MOD_HDCP_STATUS_HDCP2_ENABLE_ENCRYPTION_FAILURE
  | MOD_HDCP_STATUS_HDCP2_RX_ID_LIST_NOT_READY
  | MOD_HDCP_STATUS_HDCP2_VALIDATE_RX_ID_LIST_FAILURE
  | MOD_HDCP_STATUS_HDCP2_RX_ID_LIST_REVOKED
  | MOD_HDCP_STATUS_HDCP2_ENABLE_STREAM_ENCRYPTION_FAILURE
  | MOD_HDCP_STATUS_HDCP2_STREAM_READY_PENDING
  | MOD_HDCP_STATUS_HDCP2_VALIDATE_STREAM_READY_FAILURE
  | MOD_HDCP_STATUS_HDCP2_PREPARE_STREAM_MANAGEMENT_FAILURE
  | MOD_HDCP_STATUS_HDCP2_REAUTH_REQUEST
  | MOD_HDCP_STATUS_HDCP2_REAUTH_LINK_INTEGRITY_FAILURE
  | MOD_HDCP_STATUS_HDCP2_DEVICE_COUNT_MISMATCH_FAILURE
  | MOD_HDCP_STATUS_UNSUPPORTED_PSP_VER_FAILURE

abbreviation "SUCCESS \<equiv> MOD_HDCP_STATUS_SUCCESS"

record mod_hdcp_displayport =
  dp_rev :: u8
  assr_enabled :: u8
  mst_enabled :: u8
  dp2_enabled :: u8
  usb4_enabled :: u8

datatype mod_hdcp_operation_mode = MOD_HDCP_MODE_OFF | MOD_HDCP_MODE_DEFAULT | MOD_HDCP_MODE_DP

datatype mod_hdcp_display_state =
  MOD_HDCP_DISPLAY_INACTIVE | MOD_HDCP_DISPLAY_ACTIVE | MOD_HDCP_DISPLAY_ENCRYPTION_ENABLED

text \<open>The C enumeration is compared by its value.\<close>

primrec display_state_value :: "mod_hdcp_display_state \<Rightarrow> nat" where
  "display_state_value MOD_HDCP_DISPLAY_INACTIVE = 0"
| "display_state_value MOD_HDCP_DISPLAY_ACTIVE = 1"
| "display_state_value MOD_HDCP_DISPLAY_ENCRYPTION_ENABLED = 2"

instantiation mod_hdcp_display_state :: linorder
begin

definition less_eq_mod_hdcp_display_state :: "mod_hdcp_display_state \<Rightarrow> mod_hdcp_display_state \<Rightarrow> bool" where
  "less_eq_mod_hdcp_display_state a b \<longleftrightarrow> display_state_value a \<le> display_state_value b"

definition less_mod_hdcp_display_state :: "mod_hdcp_display_state \<Rightarrow> mod_hdcp_display_state \<Rightarrow> bool" where
  "less_mod_hdcp_display_state a b \<longleftrightarrow> display_state_value a < display_state_value b"

instance
proof
  fix a b c :: mod_hdcp_display_state
  show "a < b \<longleftrightarrow> a \<le> b \<and> \<not> b \<le> a" "a \<le> a" "a \<le> b \<Longrightarrow> b \<le> c \<Longrightarrow> a \<le> c" "a \<le> b \<or> b \<le> a"
    by (auto simp: less_eq_mod_hdcp_display_state_def less_mod_hdcp_display_state_def)
  show "a \<le> b \<Longrightarrow> b \<le> a \<Longrightarrow> a = b"
    by (cases a; cases b) (auto simp: less_eq_mod_hdcp_display_state_def)
qed

end

record mod_hdcp_display_adjustment =
  da_disable :: "2 word"
  da_reserved :: "6 word"

abbreviation MOD_HDCP_DISPLAY_DISABLE_AUTHENTICATION :: "2 word" where
  "MOD_HDCP_DISPLAY_DISABLE_AUTHENTICATION \<equiv> 1"

record mod_hdcp_link_adjustment_hdcp1 =
  disable1 :: bool
  postpone_encryption :: bool
  min_auth_retries_wa :: bool
  la1_reserved :: "5 word"

abbreviation MOD_HDCP_FORCE_TYPE_MAX :: "2 word" where "MOD_HDCP_FORCE_TYPE_MAX \<equiv> 0"
abbreviation MOD_HDCP_FORCE_TYPE_0 :: "2 word" where "MOD_HDCP_FORCE_TYPE_0 \<equiv> 1"
abbreviation MOD_HDCP_FORCE_TYPE_1 :: "2 word" where "MOD_HDCP_FORCE_TYPE_1 \<equiv> 2"

record mod_hdcp_link_adjustment_hdcp2 =
  disable2 :: bool
  force_type :: "2 word"
  force_no_stored_km :: bool
  increase_h_prime_timeout :: bool
  force_sw_locality_check :: bool
  la2_reserved :: "2 word"

record mod_hdcp_link_adjustment =
  auth_delay :: u8
  adj_hdcp1 :: mod_hdcp_link_adjustment_hdcp1
  adj_hdcp2 :: mod_hdcp_link_adjustment_hdcp2

record mod_hdcp_trace =
  errors :: "(mod_hdcp_status \<times> u8) list"
  error_count :: u8

datatype mod_hdcp_encryption_status =
    MOD_HDCP_ENCRYPTION_STATUS_HDCP_OFF
  | MOD_HDCP_ENCRYPTION_STATUS_HDCP1_ON
  | MOD_HDCP_ENCRYPTION_STATUS_HDCP2_TYPE0_ON
  | MOD_HDCP_ENCRYPTION_STATUS_HDCP2_TYPE1_ON
  | MOD_HDCP_ENCRYPTION_STATUS_HDCP2_ON

datatype mod_hdcp_event =
  MOD_HDCP_EVENT_CALLBACK | MOD_HDCP_EVENT_WATCHDOG_TIMEOUT | MOD_HDCP_EVENT_CPIRQ

record mod_hdcp_output =
  callback_needed :: bool
  callback_stop :: bool
  watchdog_timer_needed :: bool
  watchdog_timer_stop :: bool
  callback_delay :: u16
  watchdog_timer_delay :: u16
  auth_complete :: bool

record mod_hdcp_display =
  disp_state :: mod_hdcp_display_state
  disp_index :: u8
  disp_controller :: u8
  disp_dig_fe :: u8
  disp_stream_enc_idx :: u8
  disp_vc_id :: u8
  disp_adjust :: mod_hdcp_display_adjustment

record mod_hdcp_link =
  link_mode :: mod_hdcp_operation_mode
  link_dig_be :: u8
  link_ddc_line :: u8
  link_link_enc_idx :: u8
  link_phy_idx :: u8
  link_dio_output_id :: u8
  link_hdcp_supported_informational :: u8
  link_dp :: mod_hdcp_displayport
  link_adjust :: mod_hdcp_link_adjustment

text \<open>
  Of the configuration, what the module itself reads: whether the two atomic DDC operations are
  provided, the debug option of the locality check and the capability of the security processor. The
  DDC functions and the handle of the security processor are the environment of the model.
\<close>

record mod_hdcp_config =
  atomic_write_poll_read_i2c :: bool
  atomic_write_poll_read_aux :: bool
  lc_enable_sw_fallback :: bool
  dtm_v3_supported :: bool
  cfg_index :: u8

end
