(* ===== verification/Hdcp.thy ===== *)
theory Hdcp
  imports Hdcp_Types
begin

text \<open>
  The private data and the inline helpers of the HDCP module
  (\<^verbatim>\<open>amd/display/modules/hdcp/hdcp.h\<close>): transition inputs, messages, connection,
  authentication and state, the numbering of the states, the predicates on state numbers, and the
  helpers the transition functions are written with.
\<close>

section \<open>Transition input\<close>

text \<open>
  \<^verbatim>\<open>union mod_hdcp_transition_input\<close> overlays two structures of \<^verbatim>\<open>uint8_t\<close>
  fields. It is a byte array, and a field is its offset; both structures read the same bytes.
\<close>

type_synonym mod_hdcp_transition_input = "nat \<Rightarrow> u8"

abbreviation UNKNOWN :: u8 where "UNKNOWN \<equiv> 0"
abbreviation PASS :: u8 where "PASS \<equiv> 1"
abbreviation FAIL :: u8 where "FAIL \<equiv> 2"

text \<open>\<^verbatim>\<open>struct mod_hdcp_transition_input_hdcp1\<close>\<close>

abbreviation i1_bksv_read :: nat where "i1_bksv_read \<equiv> 0"
abbreviation i1_bksv_validation :: nat where "i1_bksv_validation \<equiv> 1"
abbreviation i1_create_session :: nat where "i1_create_session \<equiv> 2"
abbreviation i1_an_write :: nat where "i1_an_write \<equiv> 3"
abbreviation i1_aksv_write :: nat where "i1_aksv_write \<equiv> 4"
abbreviation i1_ainfo_write :: nat where "i1_ainfo_write \<equiv> 5"
abbreviation i1_bcaps_read :: nat where "i1_bcaps_read \<equiv> 6"
abbreviation i1_r0p_read :: nat where "i1_r0p_read \<equiv> 7"
abbreviation i1_rx_validation :: nat where "i1_rx_validation \<equiv> 8"
abbreviation i1_encryption :: nat where "i1_encryption \<equiv> 9"
abbreviation i1_link_maintenance :: nat where "i1_link_maintenance \<equiv> 10"
abbreviation i1_ready_check :: nat where "i1_ready_check \<equiv> 11"
abbreviation i1_bstatus_read :: nat where "i1_bstatus_read \<equiv> 12"
abbreviation i1_max_cascade_check :: nat where "i1_max_cascade_check \<equiv> 13"
abbreviation i1_max_devs_check :: nat where "i1_max_devs_check \<equiv> 14"
abbreviation i1_device_count_check :: nat where "i1_device_count_check \<equiv> 15"
abbreviation i1_ksvlist_read :: nat where "i1_ksvlist_read \<equiv> 16"
abbreviation i1_vp_read :: nat where "i1_vp_read \<equiv> 17"
abbreviation i1_ksvlist_vp_validation :: nat where "i1_ksvlist_vp_validation \<equiv> 18"
abbreviation i1_hdcp_capable_dp :: nat where "i1_hdcp_capable_dp \<equiv> 19"
abbreviation i1_binfo_read_dp :: nat where "i1_binfo_read_dp \<equiv> 20"
abbreviation i1_r0p_available_dp :: nat where "i1_r0p_available_dp \<equiv> 21"
abbreviation i1_link_integrity_check :: nat where "i1_link_integrity_check \<equiv> 22"
abbreviation i1_reauth_request_check :: nat where "i1_reauth_request_check \<equiv> 23"
abbreviation i1_stream_encryption_dp :: nat where "i1_stream_encryption_dp \<equiv> 24"

text \<open>\<^verbatim>\<open>struct mod_hdcp_transition_input_hdcp2\<close>\<close>

abbreviation i2_hdcp2version_read :: nat where "i2_hdcp2version_read \<equiv> 0"
abbreviation i2_hdcp2_capable_check :: nat where "i2_hdcp2_capable_check \<equiv> 1"
abbreviation i2_create_session :: nat where "i2_create_session \<equiv> 2"
abbreviation i2_ake_init_prepare :: nat where "i2_ake_init_prepare \<equiv> 3"
abbreviation i2_ake_init_write :: nat where "i2_ake_init_write \<equiv> 4"
abbreviation i2_rxstatus_read :: nat where "i2_rxstatus_read \<equiv> 5"
abbreviation i2_ake_cert_available :: nat where "i2_ake_cert_available \<equiv> 6"
abbreviation i2_ake_cert_read :: nat where "i2_ake_cert_read \<equiv> 7"
abbreviation i2_ake_cert_validation :: nat where "i2_ake_cert_validation \<equiv> 8"
abbreviation i2_stored_km_write :: nat where "i2_stored_km_write \<equiv> 9"
abbreviation i2_no_stored_km_write :: nat where "i2_no_stored_km_write \<equiv> 10"
abbreviation i2_h_prime_available :: nat where "i2_h_prime_available \<equiv> 11"
abbreviation i2_h_prime_read :: nat where "i2_h_prime_read \<equiv> 12"
abbreviation i2_pairing_available :: nat where "i2_pairing_available \<equiv> 13"
abbreviation i2_pairing_info_read :: nat where "i2_pairing_info_read \<equiv> 14"
abbreviation i2_h_prime_validation :: nat where "i2_h_prime_validation \<equiv> 15"
abbreviation i2_lc_init_prepare :: nat where "i2_lc_init_prepare \<equiv> 16"
abbreviation i2_lc_init_write :: nat where "i2_lc_init_write \<equiv> 17"
abbreviation i2_l_prime_available_poll :: nat where "i2_l_prime_available_poll \<equiv> 18"
abbreviation i2_l_prime_read :: nat where "i2_l_prime_read \<equiv> 19"
abbreviation i2_l_prime_validation :: nat where "i2_l_prime_validation \<equiv> 20"
abbreviation i2_eks_prepare :: nat where "i2_eks_prepare \<equiv> 21"
abbreviation i2_eks_write :: nat where "i2_eks_write \<equiv> 22"
abbreviation i2_enable_encryption :: nat where "i2_enable_encryption \<equiv> 23"
abbreviation i2_reauth_request_check :: nat where "i2_reauth_request_check \<equiv> 24"
abbreviation i2_rx_id_list_read :: nat where "i2_rx_id_list_read \<equiv> 25"
abbreviation i2_device_count_check :: nat where "i2_device_count_check \<equiv> 26"
abbreviation i2_rx_id_list_validation :: nat where "i2_rx_id_list_validation \<equiv> 27"
abbreviation i2_repeater_auth_ack_write :: nat where "i2_repeater_auth_ack_write \<equiv> 28"
abbreviation i2_prepare_stream_manage :: nat where "i2_prepare_stream_manage \<equiv> 29"
abbreviation i2_stream_manage_write :: nat where "i2_stream_manage_write \<equiv> 30"
abbreviation i2_stream_ready_available :: nat where "i2_stream_ready_available \<equiv> 31"
abbreviation i2_stream_ready_read :: nat where "i2_stream_ready_read \<equiv> 32"
abbreviation i2_stream_ready_validation :: nat where "i2_stream_ready_validation \<equiv> 33"
abbreviation i2_rx_caps_read_dp :: nat where "i2_rx_caps_read_dp \<equiv> 34"
abbreviation i2_content_stream_type_write :: nat where "i2_content_stream_type_write \<equiv> 35"
abbreviation i2_link_integrity_check_dp :: nat where "i2_link_integrity_check_dp \<equiv> 36"
abbreviation i2_stream_encryption_dp :: nat where "i2_stream_encryption_dp \<equiv> 37"

section \<open>Module data\<close>

text \<open>
  The message buffers. The code overlays the two structures; the machines of one HDCP version only
  use the buffers of that version, and no buffer is read before the version that reads it has written
  it, so the model keeps them apart. Arrays are lists of bytes, of the length the structure declares.
\<close>

record mod_hdcp_message_hdcp1 =
  m1_an :: "u8 list"
  m1_aksv :: "u8 list"
  m1_ainfo :: u8
  m1_bksv :: "u8 list"
  m1_r0p :: u16
  m1_bcaps :: u8
  m1_bstatus :: u16
  m1_ksvlist :: "u8 list"
  m1_ksvlist_size :: u16
  m1_vp :: "u8 list"
  m1_binfo_dp :: u16

record mod_hdcp_message_hdcp2 =
  m2_hdcp2version_hdmi :: u8
  m2_rxcaps_dp :: "u8 list"
  m2_rxstatus :: "u8 list"
  m2_ake_init :: "u8 list"
  m2_ake_cert :: "u8 list"
  m2_ake_no_stored_km :: "u8 list"
  m2_ake_stored_km :: "u8 list"
  m2_ake_h_prime :: "u8 list"
  m2_ake_pairing_info :: "u8 list"
  m2_lc_init :: "u8 list"
  m2_lc_l_prime :: "u8 list"
  m2_ske_eks :: "u8 list"
  m2_rx_id_list :: "u8 list"
  m2_rx_id_list_size :: u16
  m2_repeater_auth_ack :: "u8 list"
  m2_repeater_auth_stream_manage :: "u8 list"
  m2_stream_manage_size :: u16
  m2_repeater_auth_stream_ready :: "u8 list"
  m2_rxstatus_dp :: u8
  m2_content_stream_type_dp :: "u8 list"

record mod_hdcp_connection =
  link :: mod_hdcp_link
  is_repeater :: bool
  is_km_stored :: bool
  is_hdcp1_revoked :: bool
  is_hdcp2_revoked :: bool
  conn_trace :: mod_hdcp_trace
  hdcp1_retry_count :: u8
  hdcp2_retry_count :: u8

record mod_hdcp_authentication =
  auth_id :: u32
  msg_hdcp1 :: mod_hdcp_message_hdcp1
  msg_hdcp2 :: mod_hdcp_message_hdcp2
  trans_input :: mod_hdcp_transition_input
  stream_management_retry_count :: u8

record mod_hdcp_state =
  state_id :: u8
  stay_count :: u32

record mod_hdcp_event_context =
  event :: mod_hdcp_event
  rx_id_list_ready :: bool
  unexpected_event :: bool

text \<open>
  \<open>fault\<close> is a ghost field: it is set when the code would access memory outside a buffer
  or through a null pointer, and what the module does from then on is not defined by the source. The
  scratch buffer \<^verbatim>\<open>buf\<close> of the structure is filled afresh for each I2C write, so the
  model passes its content to the write directly.
\<close>

record mod_hdcp =
  config :: mod_hdcp_config
  connection :: mod_hdcp_connection
  displays :: "mod_hdcp_display list"
  auth :: mod_hdcp_authentication
  state :: mod_hdcp_state
  fault :: bool

text \<open>What \<^verbatim>\<open>memset(\<dots>, 0, \<dots>)\<close> leaves in each structure.\<close>

definition zero_display :: mod_hdcp_display where
  "zero_display = \<lparr>disp_state = MOD_HDCP_DISPLAY_INACTIVE, disp_index = 0, disp_controller = 0,
     disp_dig_fe = 0, disp_stream_enc_idx = 0, disp_vc_id = 0,
     disp_adjust = \<lparr>da_disable = 0, da_reserved = 0\<rparr>\<rparr>"

definition zero_link_adjust :: mod_hdcp_link_adjustment where
  "zero_link_adjust = \<lparr>auth_delay = 0,
     adj_hdcp1 = \<lparr>disable1 = False, postpone_encryption = False, min_auth_retries_wa = False,
       la1_reserved = 0\<rparr>,
     adj_hdcp2 = \<lparr>disable2 = False, force_type = 0, force_no_stored_km = False,
       increase_h_prime_timeout = False, force_sw_locality_check = False, la2_reserved = 0\<rparr>\<rparr>"

definition zero_link :: mod_hdcp_link where
  "zero_link = \<lparr>link_mode = MOD_HDCP_MODE_OFF, link_dig_be = 0, link_ddc_line = 0,
     link_link_enc_idx = 0, link_phy_idx = 0, link_dio_output_id = 0,
     link_hdcp_supported_informational = 0,
     link_dp = \<lparr>dp_rev = 0, assr_enabled = 0, mst_enabled = 0, dp2_enabled = 0, usb4_enabled = 0\<rparr>,
     link_adjust = zero_link_adjust\<rparr>"

definition zero_trace :: mod_hdcp_trace where
  "zero_trace = \<lparr>errors = replicate MAX_NUM_OF_ERROR_TRACE (SUCCESS, 0), error_count = 0\<rparr>"

definition zero_connection :: mod_hdcp_connection where
  "zero_connection = \<lparr>link = zero_link, is_repeater = False, is_km_stored = False,
     is_hdcp1_revoked = False, is_hdcp2_revoked = False, conn_trace = zero_trace,
     hdcp1_retry_count = 0, hdcp2_retry_count = 0\<rparr>"

definition zero_msg_hdcp1 :: mod_hdcp_message_hdcp1 where
  "zero_msg_hdcp1 = \<lparr>m1_an = replicate 8 0, m1_aksv = replicate 5 0, m1_ainfo = 0,
     m1_bksv = replicate 5 0, m1_r0p = 0, m1_bcaps = 0, m1_bstatus = 0, m1_ksvlist = replicate 635 0,
     m1_ksvlist_size = 0, m1_vp = replicate 20 0, m1_binfo_dp = 0\<rparr>"

definition zero_msg_hdcp2 :: mod_hdcp_message_hdcp2 where
  "zero_msg_hdcp2 = \<lparr>m2_hdcp2version_hdmi = 0, m2_rxcaps_dp = replicate 3 0,
     m2_rxstatus = replicate 2 0, m2_ake_init = replicate 12 0, m2_ake_cert = replicate 534 0,
     m2_ake_no_stored_km = replicate 129 0, m2_ake_stored_km = replicate 33 0,
     m2_ake_h_prime = replicate 33 0, m2_ake_pairing_info = replicate 17 0,
     m2_lc_init = replicate 9 0, m2_lc_l_prime = replicate 33 0, m2_ske_eks = replicate 25 0,
     m2_rx_id_list = replicate 177 0, m2_rx_id_list_size = 0, m2_repeater_auth_ack = replicate 17 0,
     m2_repeater_auth_stream_manage = replicate 68 0, m2_stream_manage_size = 0,
     m2_repeater_auth_stream_ready = replicate 33 0, m2_rxstatus_dp = 0,
     m2_content_stream_type_dp = replicate 2 0\<rparr>"

definition zero_auth :: mod_hdcp_authentication where
  "zero_auth = \<lparr>auth_id = 0, msg_hdcp1 = zero_msg_hdcp1, msg_hdcp2 = zero_msg_hdcp2,
     trans_input = (\<lambda>_. UNKNOWN), stream_management_retry_count = 0\<rparr>"

definition zero_state :: mod_hdcp_state where
  "zero_state = \<lparr>state_id = 0, stay_count = 0\<rparr>"

definition zero_output :: mod_hdcp_output where
  "zero_output = \<lparr>callback_needed = False, callback_stop = False, watchdog_timer_needed = False,
     watchdog_timer_stop = False, callback_delay = 0, watchdog_timer_delay = 0, auth_complete = False\<rparr>"

definition zero_config :: mod_hdcp_config where
  "zero_config = \<lparr>atomic_write_poll_read_i2c = False, atomic_write_poll_read_aux = False,
     lc_enable_sw_fallback = False, dtm_v3_supported = False, cfg_index = 0\<rparr>"

definition zero_hdcp :: mod_hdcp where
  "zero_hdcp = \<lparr>config = zero_config, connection = zero_connection,
     displays = replicate MAX_NUM_OF_DISPLAYS zero_display, auth = zero_auth, state = zero_state,
     fault = False\<rparr>"

section \<open>State identifiers\<close>

abbreviation HDCP_UNINITIALIZED :: u8 where "HDCP_UNINITIALIZED \<equiv> 0"
abbreviation HDCP_INITIALIZED :: u8 where "HDCP_INITIALIZED \<equiv> 1"
abbreviation HDCP_CP_NOT_DESIRED :: u8 where "HDCP_CP_NOT_DESIRED \<equiv> 2"

abbreviation HDCP1_STATE_START :: u8 where "HDCP1_STATE_START \<equiv> 2"
abbreviation H1_A0_WAIT_FOR_ACTIVE_RX :: u8 where "H1_A0_WAIT_FOR_ACTIVE_RX \<equiv> 3"
abbreviation H1_A1_EXCHANGE_KSVS :: u8 where "H1_A1_EXCHANGE_KSVS \<equiv> 4"
abbreviation H1_A2_COMPUTATIONS_A3_VALIDATE_RX_A6_TEST_FOR_REPEATER :: u8 where
  "H1_A2_COMPUTATIONS_A3_VALIDATE_RX_A6_TEST_FOR_REPEATER \<equiv> 5"
abbreviation H1_A45_AUTHENTICATED :: u8 where "H1_A45_AUTHENTICATED \<equiv> 6"
abbreviation H1_A8_WAIT_FOR_READY :: u8 where "H1_A8_WAIT_FOR_READY \<equiv> 7"
abbreviation H1_A9_READ_KSV_LIST :: u8 where "H1_A9_READ_KSV_LIST \<equiv> 8"
abbreviation HDCP1_STATE_END :: u8 where "HDCP1_STATE_END \<equiv> 8"

abbreviation HDCP1_DP_STATE_START :: u8 where "HDCP1_DP_STATE_START \<equiv> 8"
abbreviation D1_A0_DETERMINE_RX_HDCP_CAPABLE :: u8 where "D1_A0_DETERMINE_RX_HDCP_CAPABLE \<equiv> 9"
abbreviation D1_A1_EXCHANGE_KSVS :: u8 where "D1_A1_EXCHANGE_KSVS \<equiv> 10"
abbreviation D1_A23_WAIT_FOR_R0_PRIME :: u8 where "D1_A23_WAIT_FOR_R0_PRIME \<equiv> 11"
abbreviation D1_A2_COMPUTATIONS_A3_VALIDATE_RX_A5_TEST_FOR_REPEATER :: u8 where
  "D1_A2_COMPUTATIONS_A3_VALIDATE_RX_A5_TEST_FOR_REPEATER \<equiv> 12"
abbreviation D1_A4_AUTHENTICATED :: u8 where "D1_A4_AUTHENTICATED \<equiv> 13"
abbreviation D1_A6_WAIT_FOR_READY :: u8 where "D1_A6_WAIT_FOR_READY \<equiv> 14"
abbreviation D1_A7_READ_KSV_LIST :: u8 where "D1_A7_READ_KSV_LIST \<equiv> 15"
abbreviation HDCP1_DP_STATE_END :: u8 where "HDCP1_DP_STATE_END \<equiv> 15"

abbreviation HDCP2_STATE_START :: u8 where "HDCP2_STATE_START \<equiv> 15"
abbreviation H2_A0_KNOWN_HDCP2_CAPABLE_RX :: u8 where "H2_A0_KNOWN_HDCP2_CAPABLE_RX \<equiv> 16"
abbreviation H2_A1_SEND_AKE_INIT :: u8 where "H2_A1_SEND_AKE_INIT \<equiv> 17"
abbreviation H2_A1_VALIDATE_AKE_CERT :: u8 where "H2_A1_VALIDATE_AKE_CERT \<equiv> 18"
abbreviation H2_A1_SEND_NO_STORED_KM :: u8 where "H2_A1_SEND_NO_STORED_KM \<equiv> 19"
abbreviation H2_A1_READ_H_PRIME :: u8 where "H2_A1_READ_H_PRIME \<equiv> 20"
abbreviation H2_A1_READ_PAIRING_INFO_AND_VALIDATE_H_PRIME :: u8 where
  "H2_A1_READ_PAIRING_INFO_AND_VALIDATE_H_PRIME \<equiv> 21"
abbreviation H2_A1_SEND_STORED_KM :: u8 where "H2_A1_SEND_STORED_KM \<equiv> 22"
abbreviation H2_A1_VALIDATE_H_PRIME :: u8 where "H2_A1_VALIDATE_H_PRIME \<equiv> 23"
abbreviation H2_A2_LOCALITY_CHECK :: u8 where "H2_A2_LOCALITY_CHECK \<equiv> 24"
abbreviation H2_A3_EXCHANGE_KS_AND_TEST_FOR_REPEATER :: u8 where
  "H2_A3_EXCHANGE_KS_AND_TEST_FOR_REPEATER \<equiv> 25"
abbreviation H2_ENABLE_ENCRYPTION :: u8 where "H2_ENABLE_ENCRYPTION \<equiv> 26"
abbreviation H2_A5_AUTHENTICATED :: u8 where "H2_A5_AUTHENTICATED \<equiv> 27"
abbreviation H2_A6_WAIT_FOR_RX_ID_LIST :: u8 where "H2_A6_WAIT_FOR_RX_ID_LIST \<equiv> 28"
abbreviation H2_A78_VERIFY_RX_ID_LIST_AND_SEND_ACK :: u8 where
  "H2_A78_VERIFY_RX_ID_LIST_AND_SEND_ACK \<equiv> 29"
abbreviation H2_A9_SEND_STREAM_MANAGEMENT :: u8 where "H2_A9_SEND_STREAM_MANAGEMENT \<equiv> 30"
abbreviation H2_A9_VALIDATE_STREAM_READY :: u8 where "H2_A9_VALIDATE_STREAM_READY \<equiv> 31"
abbreviation HDCP2_STATE_END :: u8 where "HDCP2_STATE_END \<equiv> 31"

abbreviation HDCP2_DP_STATE_START :: u8 where "HDCP2_DP_STATE_START \<equiv> 31"
abbreviation D2_A0_DETERMINE_RX_HDCP_CAPABLE :: u8 where "D2_A0_DETERMINE_RX_HDCP_CAPABLE \<equiv> 32"
abbreviation D2_A1_SEND_AKE_INIT :: u8 where "D2_A1_SEND_AKE_INIT \<equiv> 33"
abbreviation D2_A1_VALIDATE_AKE_CERT :: u8 where "D2_A1_VALIDATE_AKE_CERT \<equiv> 34"
abbreviation D2_A1_SEND_NO_STORED_KM :: u8 where "D2_A1_SEND_NO_STORED_KM \<equiv> 35"
abbreviation D2_A1_READ_H_PRIME :: u8 where "D2_A1_READ_H_PRIME \<equiv> 36"
abbreviation D2_A1_READ_PAIRING_INFO_AND_VALIDATE_H_PRIME :: u8 where
  "D2_A1_READ_PAIRING_INFO_AND_VALIDATE_H_PRIME \<equiv> 37"
abbreviation D2_A1_SEND_STORED_KM :: u8 where "D2_A1_SEND_STORED_KM \<equiv> 38"
abbreviation D2_A1_VALIDATE_H_PRIME :: u8 where "D2_A1_VALIDATE_H_PRIME \<equiv> 39"
abbreviation D2_A2_LOCALITY_CHECK :: u8 where "D2_A2_LOCALITY_CHECK \<equiv> 40"
abbreviation D2_A34_EXCHANGE_KS_AND_TEST_FOR_REPEATER :: u8 where
  "D2_A34_EXCHANGE_KS_AND_TEST_FOR_REPEATER \<equiv> 41"
abbreviation D2_SEND_CONTENT_STREAM_TYPE :: u8 where "D2_SEND_CONTENT_STREAM_TYPE \<equiv> 42"
abbreviation D2_ENABLE_ENCRYPTION :: u8 where "D2_ENABLE_ENCRYPTION \<equiv> 43"
abbreviation D2_A5_AUTHENTICATED :: u8 where "D2_A5_AUTHENTICATED \<equiv> 44"
abbreviation D2_A6_WAIT_FOR_RX_ID_LIST :: u8 where "D2_A6_WAIT_FOR_RX_ID_LIST \<equiv> 45"
abbreviation D2_A78_VERIFY_RX_ID_LIST_AND_SEND_ACK :: u8 where
  "D2_A78_VERIFY_RX_ID_LIST_AND_SEND_ACK \<equiv> 46"
abbreviation D2_A9_SEND_STREAM_MANAGEMENT :: u8 where "D2_A9_SEND_STREAM_MANAGEMENT \<equiv> 47"
abbreviation D2_A9_VALIDATE_STREAM_READY :: u8 where "D2_A9_VALIDATE_STREAM_READY \<equiv> 48"
abbreviation HDCP2_DP_STATE_END :: u8 where "HDCP2_DP_STATE_END \<equiv> 48"

section \<open>Version and state helpers\<close>

definition is_dp_hdcp :: "mod_hdcp \<Rightarrow> bool" where
  "is_dp_hdcp hdcp \<longleftrightarrow> link_mode (link (connection hdcp)) = MOD_HDCP_MODE_DP"

definition is_dp_mst_hdcp :: "mod_hdcp \<Rightarrow> bool" where
  "is_dp_mst_hdcp hdcp \<longleftrightarrow>
     link_mode (link (connection hdcp)) = MOD_HDCP_MODE_DP \<and>
     mst_enabled (link_dp (link (connection hdcp))) \<noteq> 0"

definition is_hdmi_dvi_sl_hdcp :: "mod_hdcp \<Rightarrow> bool" where
  "is_hdmi_dvi_sl_hdcp hdcp \<longleftrightarrow> link_mode (link (connection hdcp)) = MOD_HDCP_MODE_DEFAULT"

definition current_state :: "mod_hdcp \<Rightarrow> u8" where
  [hdcp_simps]: "current_state hdcp = state_id (state hdcp)"

text \<open>
  The transition helpers work on the module, its output and the status that the transition returns.
\<close>

type_synonym tstate = "mod_hdcp \<times> mod_hdcp_output \<times> mod_hdcp_status"

fun set_state_id :: "u8 \<Rightarrow> tstate \<Rightarrow> tstate" where
  "set_state_id i (hdcp, output, status) =
     (hdcp\<lparr>state := zero_state\<lparr>state_id := i\<rparr>\<rparr>,
      output\<lparr>callback_stop := True, watchdog_timer_stop := True\<rparr>, status)"

definition in_hdcp1_ids :: "u8 \<Rightarrow> bool" where
  "in_hdcp1_ids i \<longleftrightarrow> HDCP1_STATE_START < i \<and> i \<le> HDCP1_STATE_END"

definition in_hdcp1_dp_ids :: "u8 \<Rightarrow> bool" where
  "in_hdcp1_dp_ids i \<longleftrightarrow> HDCP1_DP_STATE_START < i \<and> i \<le> HDCP1_DP_STATE_END"

definition in_hdcp2_ids :: "u8 \<Rightarrow> bool" where
  "in_hdcp2_ids i \<longleftrightarrow> HDCP2_STATE_START < i \<and> i \<le> HDCP2_STATE_END"

definition in_hdcp2_dp_ids :: "u8 \<Rightarrow> bool" where
  "in_hdcp2_dp_ids i \<longleftrightarrow> HDCP2_DP_STATE_START < i \<and> i \<le> HDCP2_DP_STATE_END"

definition is_in_hdcp1_states :: "mod_hdcp \<Rightarrow> bool" where
  [hdcp_simps]: "is_in_hdcp1_states hdcp \<longleftrightarrow> in_hdcp1_ids (current_state hdcp)"

definition is_in_hdcp1_dp_states :: "mod_hdcp \<Rightarrow> bool" where
  [hdcp_simps]: "is_in_hdcp1_dp_states hdcp \<longleftrightarrow> in_hdcp1_dp_ids (current_state hdcp)"

definition is_in_hdcp2_states :: "mod_hdcp \<Rightarrow> bool" where
  [hdcp_simps]: "is_in_hdcp2_states hdcp \<longleftrightarrow> in_hdcp2_ids (current_state hdcp)"

definition is_in_hdcp2_dp_states :: "mod_hdcp \<Rightarrow> bool" where
  [hdcp_simps]: "is_in_hdcp2_dp_states hdcp \<longleftrightarrow> in_hdcp2_dp_ids (current_state hdcp)"

definition is_in_authenticated_states :: "mod_hdcp \<Rightarrow> bool" where
  "is_in_authenticated_states hdcp \<longleftrightarrow>
     current_state hdcp = D1_A4_AUTHENTICATED \<or> current_state hdcp = H1_A45_AUTHENTICATED \<or>
     current_state hdcp = D2_A5_AUTHENTICATED \<or> current_state hdcp = H2_A5_AUTHENTICATED"

definition is_hdcp1 :: "mod_hdcp \<Rightarrow> bool" where
  [hdcp_simps]: "is_hdcp1 hdcp \<longleftrightarrow> is_in_hdcp1_states hdcp \<or> is_in_hdcp1_dp_states hdcp"

definition is_hdcp2 :: "mod_hdcp \<Rightarrow> bool" where
  [hdcp_simps]: "is_hdcp2 hdcp \<longleftrightarrow> is_in_hdcp2_states hdcp \<or> is_in_hdcp2_dp_states hdcp"

definition is_in_cp_not_desired_state :: "mod_hdcp \<Rightarrow> bool" where
  [hdcp_simps]: "is_in_cp_not_desired_state hdcp \<longleftrightarrow> current_state hdcp = HDCP_CP_NOT_DESIRED"

definition is_in_initialized_state :: "mod_hdcp \<Rightarrow> bool" where
  [hdcp_simps]: "is_in_initialized_state hdcp \<longleftrightarrow> current_state hdcp = HDCP_INITIALIZED"

section \<open>Transition operation helpers\<close>

fun increment_stay_counter :: "tstate \<Rightarrow> tstate" where
  "increment_stay_counter (hdcp, output, status) =
     (hdcp\<lparr>state := (state hdcp)\<lparr>stay_count := stay_count (state hdcp) + 1\<rparr>\<rparr>, output, status)"

fun fail_and_restart_in_ms :: "u16 \<Rightarrow> tstate \<Rightarrow> tstate" where
  "fail_and_restart_in_ms time (hdcp, output, status) =
     (hdcp, output\<lparr>callback_needed := True, callback_delay := time,
                   watchdog_timer_needed := False, watchdog_timer_delay := 0\<rparr>,
      MOD_HDCP_STATUS_RESET_NEEDED)"

fun callback_in_ms :: "u16 \<Rightarrow> tstate \<Rightarrow> tstate" where
  "callback_in_ms time (hdcp, output, status) =
     (hdcp, output\<lparr>callback_needed := True, callback_delay := time\<rparr>, status)"

fun set_watchdog_in_ms :: "u16 \<Rightarrow> tstate \<Rightarrow> tstate" where
  "set_watchdog_in_ms time (hdcp, output, status) =
     (hdcp, output\<lparr>watchdog_timer_needed := True, watchdog_timer_delay := time\<rparr>, status)"

fun set_auth_complete :: "tstate \<Rightarrow> tstate" where
  "set_auth_complete (hdcp, output, status) = (hdcp, output\<lparr>auth_complete := True\<rparr>, status)"

text \<open>Updates of the link adjustments, as the transition functions write them through \<open>adjust\<close>.\<close>

definition update_adjust ::
    "(mod_hdcp_link_adjustment \<Rightarrow> mod_hdcp_link_adjustment) \<Rightarrow> mod_hdcp \<Rightarrow> mod_hdcp" where
  [hdcp_simps]: "update_adjust f hdcp =
     hdcp\<lparr>connection := (connection hdcp)\<lparr>link := (link (connection hdcp))
       \<lparr>link_adjust := f (link_adjust (link (connection hdcp)))\<rparr>\<rparr>\<rparr>"

definition adjust_hdcp1 ::
    "(mod_hdcp_link_adjustment_hdcp1 \<Rightarrow> mod_hdcp_link_adjustment_hdcp1) \<Rightarrow> tstate \<Rightarrow> tstate" where
  [hdcp_simps]: "adjust_hdcp1 f s = (update_adjust (\<lambda>a. a\<lparr>adj_hdcp1 := f (adj_hdcp1 a)\<rparr>) (fst s), snd s)"

definition adjust_hdcp2 ::
    "(mod_hdcp_link_adjustment_hdcp2 \<Rightarrow> mod_hdcp_link_adjustment_hdcp2) \<Rightarrow> tstate \<Rightarrow> tstate" where
  [hdcp_simps]: "adjust_hdcp2 f s = (update_adjust (\<lambda>a. a\<lparr>adj_hdcp2 := f (adj_hdcp2 a)\<rparr>) (fst s), snd s)"

abbreviation adjust1 :: "mod_hdcp \<Rightarrow> mod_hdcp_link_adjustment_hdcp1" where
  "adjust1 hdcp \<equiv> adj_hdcp1 (link_adjust (link (connection hdcp)))"

abbreviation adjust2 :: "mod_hdcp \<Rightarrow> mod_hdcp_link_adjustment_hdcp2" where
  "adjust2 hdcp \<equiv> adj_hdcp2 (link_adjust (link (connection hdcp)))"

abbreviation input :: "mod_hdcp \<Rightarrow> nat \<Rightarrow> u8" where
  "input hdcp \<equiv> trans_input (auth hdcp)"

section \<open>Connection topology helpers\<close>

definition is_display_active :: "mod_hdcp_display \<Rightarrow> bool" where
  "is_display_active display \<longleftrightarrow> MOD_HDCP_DISPLAY_ACTIVE \<le> disp_state display"

definition is_display_encryption_enabled :: "mod_hdcp_display \<Rightarrow> bool" where
  "is_display_encryption_enabled display \<longleftrightarrow> MOD_HDCP_DISPLAY_ENCRYPTION_ENABLED \<le> disp_state display"

definition get_active_display_count :: "mod_hdcp \<Rightarrow> u8" where
  "get_active_display_count hdcp =
     fold (\<lambda>i active_count. if is_display_active (displays hdcp ! i) then active_count + 1 else active_count)
       [0..<MAX_NUM_OF_DISPLAYS] 0"

text \<open>The three searches return a pointer into the display array, here an index.\<close>

definition get_first_active_display :: "mod_hdcp \<Rightarrow> nat option" where
  "get_first_active_display hdcp =
     find (\<lambda>i. is_display_active (displays hdcp ! i)) [0..<MAX_NUM_OF_DISPLAYS]"

definition get_active_display_at_index :: "mod_hdcp \<Rightarrow> u8 \<Rightarrow> nat option" where
  "get_active_display_at_index hdcp index =
     find (\<lambda>i. disp_index (displays hdcp ! i) = index \<and> is_display_active (displays hdcp ! i))
       [0..<MAX_NUM_OF_DISPLAYS]"

definition get_empty_display_container :: "mod_hdcp \<Rightarrow> nat option" where
  "get_empty_display_container hdcp =
     find (\<lambda>i. \<not> is_display_active (displays hdcp ! i)) [0..<MAX_NUM_OF_DISPLAYS]"

definition reset_retry_counts :: "mod_hdcp \<Rightarrow> mod_hdcp" where
  [hdcp_simps]: "reset_retry_counts hdcp =
     hdcp\<lparr>connection := (connection hdcp)\<lparr>hdcp1_retry_count := 0, hdcp2_retry_count := 0\<rparr>\<rparr>"

section \<open>Facts on state numbers\<close>

lemmas hdcp_id_simps = in_hdcp1_ids_def in_hdcp1_dp_ids_def in_hdcp2_ids_def in_hdcp2_dp_ids_def

lemma in_hdcp1_ids_iff: "in_hdcp1_ids i \<longleftrightarrow> i \<in> {3, 4, 5, 6, 7, 8}"
  by (simp add: in_hdcp1_ids_def word_less_nat_alt word_le_nat_alt word_unat_eq_iff) arith

lemma in_hdcp1_dp_ids_iff: "in_hdcp1_dp_ids i \<longleftrightarrow> i \<in> {9, 10, 11, 12, 13, 14, 15}"
  by (simp add: in_hdcp1_dp_ids_def word_less_nat_alt word_le_nat_alt word_unat_eq_iff) arith

lemma in_hdcp2_ids_iff:
  "in_hdcp2_ids i \<longleftrightarrow> i \<in> {16, 17, 18, 19, 20, 21, 22, 23, 24, 25, 26, 27, 28, 29, 30, 31}"
  by (simp add: in_hdcp2_ids_def word_less_nat_alt word_le_nat_alt word_unat_eq_iff) arith

lemma in_hdcp2_dp_ids_iff:
  "in_hdcp2_dp_ids i \<longleftrightarrow> i \<in> {32, 33, 34, 35, 36, 37, 38, 39, 40, 41, 42, 43, 44, 45, 46, 47, 48}"
  by (simp add: in_hdcp2_dp_ids_def word_less_nat_alt word_le_nat_alt word_unat_eq_iff) arith

lemmas hdcp_id_iffs = in_hdcp1_ids_iff in_hdcp1_dp_ids_iff in_hdcp2_ids_iff in_hdcp2_dp_ids_iff

text \<open>The states of the four machines and the three initial states partition the valid identifiers.\<close>

lemma hdcp_ids_disjoint:
  "in_hdcp1_ids i \<Longrightarrow> \<not> in_hdcp1_dp_ids i \<and> \<not> in_hdcp2_ids i \<and> \<not> in_hdcp2_dp_ids i \<and> i \<noteq> 0 \<and> i \<noteq> 1 \<and> i \<noteq> 2"
  "in_hdcp1_dp_ids i \<Longrightarrow> \<not> in_hdcp1_ids i \<and> \<not> in_hdcp2_ids i \<and> \<not> in_hdcp2_dp_ids i \<and> i \<noteq> 0 \<and> i \<noteq> 1 \<and> i \<noteq> 2"
  "in_hdcp2_ids i \<Longrightarrow> \<not> in_hdcp1_ids i \<and> \<not> in_hdcp1_dp_ids i \<and> \<not> in_hdcp2_dp_ids i \<and> i \<noteq> 0 \<and> i \<noteq> 1 \<and> i \<noteq> 2"
  "in_hdcp2_dp_ids i \<Longrightarrow> \<not> in_hdcp1_ids i \<and> \<not> in_hdcp1_dp_ids i \<and> \<not> in_hdcp2_ids i \<and> i \<noteq> 0 \<and> i \<noteq> 1 \<and> i \<noteq> 2"
  by (auto simp: in_hdcp1_ids_def in_hdcp1_dp_ids_def in_hdcp2_ids_def in_hdcp2_dp_ids_def
      word_less_nat_alt word_le_nat_alt)

lemma hdcp_ids_total:
  "i \<le> HDCP2_DP_STATE_END \<longleftrightarrow>
     i = HDCP_UNINITIALIZED \<or> i = HDCP_INITIALIZED \<or> i = HDCP_CP_NOT_DESIRED \<or>
     in_hdcp1_ids i \<or> in_hdcp1_dp_ids i \<or> in_hdcp2_ids i \<or> in_hdcp2_dp_ids i"
  by (simp add: hdcp_id_simps word_less_nat_alt word_le_nat_alt word_unat_eq_iff) arith

end
