(* ===== verification/Hdcp_Env.thy ===== *)
theory Hdcp_Env
  imports Hdcp
begin

text \<open>
  What the HDCP module talks to, as a parameter of the model. The sink behind the DDC functions of
  \<^verbatim>\<open>struct mod_hdcp_ddc_funcs\<close> and the trusted applications of the security processor
  are one state \<open>'w\<close> that every operation threads through, and \<open>hdcp_env\<close>
  holds the operations on it: the DDC callbacks, the invocation of a trusted application, the two
  facts of the PSP context the code tests, and the register masks of the kernel's headers. The
  structures of the shared memory are those of \<^verbatim>\<open>hdcp_psp.h\<close>.
\<close>

section \<open>Shared memory of the display topology application\<close>

record ta_dtm_topology_update_input_v2 =
  v2_display_handle :: u32
  v2_is_active :: u32
  v2_is_miracast :: u32
  v2_controller :: u32
  v2_ddc_line :: u32
  v2_dig_be :: u32
  v2_dig_fe :: u32
  v2_dp_mst_vcid :: u32
  v2_is_assr :: u32
  v2_max_hdcp_supported_version :: u32

record ta_dtm_topology_update_input_v3 =
  v3_display_handle :: u32
  v3_is_active :: u32
  v3_is_miracast :: u32
  v3_controller :: u32
  v3_ddc_line :: u32
  v3_link_enc :: u32
  v3_stream_enc :: u32
  v3_dp_mst_vcid :: u32
  v3_is_assr :: u32
  v3_max_hdcp_supported_version :: u32
  v3_encoder_type :: u32
  v3_phy_id :: u32
  v3_link_hdcp_cap :: u32
  v3_dio_output_type :: u32
  v3_dio_output_id :: u32

datatype ta_dtm_cmd_input =
    TA_DTM_COMMAND__TOPOLOGY_UPDATE_V2 ta_dtm_topology_update_input_v2
  | TA_DTM_COMMAND__TOPOLOGY_UPDATE_V3 ta_dtm_topology_update_input_v3

definition zero_topology_update_v2 :: ta_dtm_topology_update_input_v2 where
  "zero_topology_update_v2 = \<lparr>v2_display_handle = 0, v2_is_active = 0, v2_is_miracast = 0,
     v2_controller = 0, v2_ddc_line = 0, v2_dig_be = 0, v2_dig_fe = 0, v2_dp_mst_vcid = 0,
     v2_is_assr = 0, v2_max_hdcp_supported_version = 0\<rparr>"

definition zero_topology_update_v3 :: ta_dtm_topology_update_input_v3 where
  "zero_topology_update_v3 = \<lparr>v3_display_handle = 0, v3_is_active = 0, v3_is_miracast = 0,
     v3_controller = 0, v3_ddc_line = 0, v3_link_enc = 0, v3_stream_enc = 0, v3_dp_mst_vcid = 0,
     v3_is_assr = 0, v3_max_hdcp_supported_version = 0, v3_encoder_type = 0, v3_phy_id = 0,
     v3_link_hdcp_cap = 0, v3_dio_output_type = 0, v3_dio_output_id = 0\<rparr>"

abbreviation TA_DTM_STATUS__SUCCESS :: u32 where "TA_DTM_STATUS__SUCCESS \<equiv> 0"
abbreviation TA_DTM_STATUS__GENERIC_FAILURE :: u32 where "TA_DTM_STATUS__GENERIC_FAILURE \<equiv> 1"
abbreviation TA_DTM_HDCP_VERSION_MAX_SUPPORTED__2_2 :: u32 where
  "TA_DTM_HDCP_VERSION_MAX_SUPPORTED__2_2 \<equiv> 22"
abbreviation TA_DTM_HDCP_VERSION_MAX_SUPPORTED__2_3 :: u32 where
  "TA_DTM_HDCP_VERSION_MAX_SUPPORTED__2_3 \<equiv> 23"
abbreviation TA_DTM_ENCODER_TYPE__DIG :: u32 where "TA_DTM_ENCODER_TYPE__DIG \<equiv> 0x10"
abbreviation TA_DTM_DIO_OUTPUT_TYPE__DIRECT :: u32 where "TA_DTM_DIO_OUTPUT_TYPE__DIRECT \<equiv> 1"
abbreviation TA_DTM_DIO_OUTPUT_TYPE__DPIA :: u32 where "TA_DTM_DIO_OUTPUT_TYPE__DPIA \<equiv> 2"

section \<open>Shared memory of the HDCP application\<close>

datatype ta_hdcp2_msg_id =
    TA_HDCP_HDCP2_MSG_ID__NULL_MESSAGE
  | TA_HDCP_HDCP2_MSG_ID__AKE_INIT
  | TA_HDCP_HDCP2_MSG_ID__AKE_SEND_CERT
  | TA_HDCP_HDCP2_MSG_ID__AKE_NO_STORED_KM
  | TA_HDCP_HDCP2_MSG_ID__AKE_STORED_KM
  | TA_HDCP_HDCP2_MSG_ID__AKE_SEND_H_PRIME
  | TA_HDCP_HDCP2_MSG_ID__AKE_SEND_PAIRING_INFO
  | TA_HDCP_HDCP2_MSG_ID__LC_INIT
  | TA_HDCP_HDCP2_MSG_ID__LC_SEND_L_PRIME
  | TA_HDCP_HDCP2_MSG_ID__SKE_SEND_EKS
  | TA_HDCP_HDCP2_MSG_ID__REPEATERAUTH_SEND_RECEIVERID_LIST
  | TA_HDCP_HDCP2_MSG_ID__REPEATERAUTH_SEND_ACK
  | TA_HDCP_HDCP2_MSG_ID__REPEATERAUTH_STREAM_MANAGE
  | TA_HDCP_HDCP2_MSG_ID__REPEATERAUTH_STREAM_READY
  | TA_HDCP_HDCP2_MSG_ID__SIGNAL_CONTENT_STREAM_TYPE_DP

text \<open>
  \<^verbatim>\<open>struct ta_hdcp_cmd_hdcp2_process_prepare_authentication_message_input_v2\<close>; the third
  message descriptor is never set, and \<open>receiver_message\<close> is the initialised prefix of the
  buffer.
\<close>

record hdcp2_message_input =
  in_session_handle :: u32
  process_msg1_desc :: "ta_hdcp2_msg_id \<times> u32"
  process_msg2_desc :: "ta_hdcp2_msg_id \<times> u32"
  process_msg3_desc :: "ta_hdcp2_msg_id \<times> u32"
  receiver_message :: "u8 list"
  prepare_msg1_id :: ta_hdcp2_msg_id
  prepare_msg2_id :: ta_hdcp2_msg_id

text \<open>The commands the module issues, with the fields of \<^verbatim>\<open>in_msg\<close> each one sets.\<close>

datatype ta_hdcp_cmd_input =
    TA_HDCP_COMMAND__HDCP1_CREATE_SESSION u8
  | TA_HDCP_COMMAND__HDCP1_DESTROY_SESSION u32
  | TA_HDCP_COMMAND__HDCP1_FIRST_PART_AUTHENTICATION u32 "u8 list" u16 u8
  | TA_HDCP_COMMAND__HDCP1_SECOND_PART_AUTHENTICATION u32 u16 "u8 list" "u8 list" u16
  | TA_HDCP_COMMAND__HDCP1_ENABLE_ENCRYPTION u32
  | TA_HDCP_COMMAND__HDCP1_ENABLE_DP_STREAM_ENCRYPTION u32 u8
  | TA_HDCP_COMMAND__HDCP1_GET_ENCRYPTION_STATUS u32
  | TA_HDCP_COMMAND__HDCP2_CREATE_SESSION_V2 u8 u32
  | TA_HDCP_COMMAND__HDCP2_DESTROY_SESSION u32
  | TA_HDCP_COMMAND__HDCP2_SET_ENCRYPTION u32
  | TA_HDCP_COMMAND__HDCP2_PREPARE_PROCESS_AUTHENTICATION_MSG_V2 hdcp2_message_input
  | TA_HDCP_COMMAND__HDCP2_ENABLE_DP_STREAM_ENCRYPTION u32 u8

text \<open>
  \<^verbatim>\<open>hdcp_status\<close> and the fields of \<^verbatim>\<open>out_msg\<close> the module reads.
\<close>

record ta_hdcp_cmd_output =
  hdcp_status :: u32
  out_session_handle :: u32
  out_ainfo_primary :: u8
  out_aksv_primary :: "u8 list"
  out_an_primary :: "u8 list"
  out_authentication_status :: u32
  out_protection_level :: u32
  out_is_km_stored :: u32
  out_is_repeater :: u32
  out_msg1_status :: u32
  out_msg2_status :: u32
  out_prepare_msg1_size :: u32
  out_transmitter_message :: "u8 list"

abbreviation TA_HDCP__HDCP2_TX_BUF_MAX_SIZE :: nat where
  "TA_HDCP__HDCP2_TX_BUF_MAX_SIZE \<equiv> 129 + 33 + 6"

definition zero_ta_hdcp_output :: ta_hdcp_cmd_output where
  "zero_ta_hdcp_output = \<lparr>hdcp_status = 0, out_session_handle = 0, out_ainfo_primary = 0,
     out_aksv_primary = replicate 5 0, out_an_primary = replicate 8 0, out_authentication_status = 0,
     out_protection_level = 0, out_is_km_stored = 0, out_is_repeater = 0, out_msg1_status = 0,
     out_msg2_status = 0, out_prepare_msg1_size = 0,
     out_transmitter_message = replicate TA_HDCP__HDCP2_TX_BUF_MAX_SIZE 0\<rparr>"

abbreviation TA_HDCP_STATUS__SUCCESS :: u32 where "TA_HDCP_STATUS__SUCCESS \<equiv> 0"
abbreviation TA_HDCP_AUTHENTICATION_STATUS__HDCP1_FIRST_PART_COMPLETE :: u32 where
  "TA_HDCP_AUTHENTICATION_STATUS__HDCP1_FIRST_PART_COMPLETE \<equiv> 2"
abbreviation TA_HDCP_AUTHENTICATION_STATUS__HDCP1_AUTHENTICATED :: u32 where
  "TA_HDCP_AUTHENTICATION_STATUS__HDCP1_AUTHENTICATED \<equiv> 4"
abbreviation TA_HDCP_AUTHENTICATION_STATUS__HDCP1_KSV_REVOKED :: u32 where
  "TA_HDCP_AUTHENTICATION_STATUS__HDCP1_KSV_REVOKED \<equiv> 10"
abbreviation TA_HDCP2_MSG_AUTHENTICATION_STATUS__SUCCESS :: u32 where
  "TA_HDCP2_MSG_AUTHENTICATION_STATUS__SUCCESS \<equiv> 0"
abbreviation TA_HDCP2_MSG_AUTHENTICATION_STATUS__RECEIVERID_REVOKED :: u32 where
  "TA_HDCP2_MSG_AUTHENTICATION_STATUS__RECEIVERID_REVOKED \<equiv> 112"
abbreviation TA_HDCP2_CONTENT_TYPE_NEGOTIATION_TYPE__FORCE_TYPE0 :: u32 where
  "TA_HDCP2_CONTENT_TYPE_NEGOTIATION_TYPE__FORCE_TYPE0 \<equiv> 1"
abbreviation TA_HDCP2_CONTENT_TYPE_NEGOTIATION_TYPE__FORCE_TYPE1 :: u32 where
  "TA_HDCP2_CONTENT_TYPE_NEGOTIATION_TYPE__FORCE_TYPE1 \<equiv> 2"
abbreviation TA_HDCP2_CONTENT_TYPE_NEGOTIATION_TYPE__MAX_SUPPORTED :: u32 where
  "TA_HDCP2_CONTENT_TYPE_NEGOTIATION_TYPE__MAX_SUPPORTED \<equiv> 3"

section \<open>The environment\<close>

text \<open>
  A read returns whether it succeeded and the bytes it stored; the code hands it a buffer and a
  length, and the model keeps at most that many bytes. The atomic operations get the write and the
  poll or stall descriptor and return the bytes read. \<open>ta_hdcp_invoke\<close> and
  \<open>ta_dtm_invoke\<close> submit a command to the security processor; their result is
  \<^term>\<open>None\<close> when the application has not written its answer to the shared memory.
\<close>

record 'w hdcp_env =
  read_dpcd :: "u32 \<Rightarrow> nat \<Rightarrow> 'w \<Rightarrow> bool \<times> u8 list \<times> 'w"
  write_dpcd :: "u32 \<Rightarrow> u8 list \<Rightarrow> 'w \<Rightarrow> bool \<times> 'w"
  read_i2c :: "u8 \<Rightarrow> u8 \<Rightarrow> nat \<Rightarrow> 'w \<Rightarrow> bool \<times> u8 list \<times> 'w"
  write_i2c :: "u8 \<Rightarrow> u8 list \<Rightarrow> 'w \<Rightarrow> bool \<times> 'w"
  atomic_i2c :: "u8 list \<Rightarrow> u8 \<times> u8 list \<Rightarrow> u8 \<times> nat \<Rightarrow> 'w \<Rightarrow> bool \<times> u8 list \<times> 'w"
  atomic_aux :: "u32 \<times> u8 list \<Rightarrow> u32 \<times> nat \<Rightarrow> 'w \<Rightarrow> bool \<times> u8 list \<times> 'w"
  ta_hdcp_invoke :: "ta_hdcp_cmd_input \<Rightarrow> 'w \<Rightarrow> ta_hdcp_cmd_output option \<times> 'w"
  ta_dtm_invoke :: "ta_dtm_cmd_input \<Rightarrow> 'w \<Rightarrow> u32 option \<times> 'w"
  amdgpu_sriov_vf :: bool
  hdcp_context_initialized :: "'w \<Rightarrow> bool"
  dtm_context_initialized :: "'w \<Rightarrow> bool"
  DP_BSTATUS_READY :: u16
  DP_BSTATUS_R0_PRIME_READY :: u16
  DP_BSTATUS_LINK_FAILURE :: u16
  DP_BSTATUS_REAUTH_REQ :: u16
  DP_BCAPS_HDCP_CAPABLE :: u8
  DRM_HDCP_DDC_BCAPS_KSV_FIFO_READY :: u8
  DRM_HDCP_MAX_CASCADE_EXCEEDED :: "u16 \<Rightarrow> bool"
  DRM_HDCP_MAX_DEVICE_EXCEEDED :: "u16 \<Rightarrow> bool"
  DP_DEVICE_SERVICE_IRQ_VECTOR :: u32
  DP_DEVICE_SERVICE_IRQ_VECTOR_ESI0 :: u32

text \<open>An action of the module: \<^verbatim>\<open>mod_hdcp_action\<close>, with the environment threaded through.\<close>

type_synonym 'w mod_hdcp_action = "mod_hdcp \<Rightarrow> 'w \<Rightarrow> mod_hdcp_status \<times> mod_hdcp \<times> 'w"

text \<open>Updates of the parts of the module the actions write.\<close>

definition set_msg1 ::
    "(mod_hdcp_message_hdcp1 \<Rightarrow> mod_hdcp_message_hdcp1) \<Rightarrow> mod_hdcp \<Rightarrow> mod_hdcp" where
  "set_msg1 f hdcp = hdcp\<lparr>auth := (auth hdcp)\<lparr>msg_hdcp1 := f (msg_hdcp1 (auth hdcp))\<rparr>\<rparr>"

definition set_msg2 ::
    "(mod_hdcp_message_hdcp2 \<Rightarrow> mod_hdcp_message_hdcp2) \<Rightarrow> mod_hdcp \<Rightarrow> mod_hdcp" where
  "set_msg2 f hdcp = hdcp\<lparr>auth := (auth hdcp)\<lparr>msg_hdcp2 := f (msg_hdcp2 (auth hdcp))\<rparr>\<rparr>"

definition set_auth_id :: "u32 \<Rightarrow> mod_hdcp \<Rightarrow> mod_hdcp" where
  "set_auth_id i hdcp = hdcp\<lparr>auth := (auth hdcp)\<lparr>auth_id := i\<rparr>\<rparr>"

definition set_conn :: "(mod_hdcp_connection \<Rightarrow> mod_hdcp_connection) \<Rightarrow> mod_hdcp \<Rightarrow> mod_hdcp" where
  "set_conn f hdcp = hdcp\<lparr>connection := f (connection hdcp)\<rparr>"

definition set_display_state :: "nat \<Rightarrow> mod_hdcp_display_state \<Rightarrow> mod_hdcp \<Rightarrow> mod_hdcp" where
  "set_display_state i st hdcp =
     hdcp\<lparr>displays := (displays hdcp)[i := (displays hdcp ! i)\<lparr>disp_state := st\<rparr>]\<rparr>"

definition note_fault :: "bool \<Rightarrow> mod_hdcp \<Rightarrow> mod_hdcp" where
  "note_fault b hdcp = hdcp\<lparr>fault := fault hdcp \<or> b\<rparr>"

abbreviation msg1 :: "mod_hdcp \<Rightarrow> mod_hdcp_message_hdcp1" where
  "msg1 hdcp \<equiv> msg_hdcp1 (auth hdcp)"

abbreviation msg2 :: "mod_hdcp \<Rightarrow> mod_hdcp_message_hdcp2" where
  "msg2 hdcp \<equiv> msg_hdcp2 (auth hdcp)"

lemmas set_defs = set_msg1_def set_msg2_def set_auth_id_def set_conn_def set_display_state_def
  note_fault_def

end
