(* ===== verification/Hdcp_Ddc.thy ===== *)
theory Hdcp_Ddc
  imports Hdcp_Env
begin

text \<open>
  The DDC messages of the HDCP module (\<^verbatim>\<open>amd/display/modules/hdcp/hdcp_ddc.c\<close>): the
  address tables, \<open>ddc_read\<close>, \<open>read_repeatedly\<close> and \<open>ddc_write\<close> (the
  functions \<^verbatim>\<open>read\<close> and \<^verbatim>\<open>write\<close> of the file) with the
  splitting into AUX transactions, and one action per message. A read stores into an array of the
  message structures at an offset; the ghost field \<open>fault\<close> records a length that does not fit
  the array. The lemmas bound the accesses and show what the actions leave alone.
\<close>

section \<open>Message identifiers and addresses\<close>

abbreviation HDCP_I2C_ADDR :: u8 where "HDCP_I2C_ADDR \<equiv> 0x3a"
abbreviation KSV_READ_SIZE :: nat where "KSV_READ_SIZE \<equiv> 0xf"
abbreviation HDCP_MAX_AUX_TRANSACTION_SIZE :: nat where "HDCP_MAX_AUX_TRANSACTION_SIZE \<equiv> 16"
abbreviation DP_CP_IRQ :: u8 where "DP_CP_IRQ \<equiv> 4"

abbreviation MOD_HDCP_MESSAGE_ID_INVALID :: int where "MOD_HDCP_MESSAGE_ID_INVALID \<equiv> -1"
abbreviation MOD_HDCP_MESSAGE_ID_READ_BKSV :: int where "MOD_HDCP_MESSAGE_ID_READ_BKSV \<equiv> 0"
abbreviation MOD_HDCP_MESSAGE_ID_READ_RI_R0 :: int where "MOD_HDCP_MESSAGE_ID_READ_RI_R0 \<equiv> 1"
abbreviation MOD_HDCP_MESSAGE_ID_WRITE_AKSV :: int where "MOD_HDCP_MESSAGE_ID_WRITE_AKSV \<equiv> 2"
abbreviation MOD_HDCP_MESSAGE_ID_WRITE_AINFO :: int where "MOD_HDCP_MESSAGE_ID_WRITE_AINFO \<equiv> 3"
abbreviation MOD_HDCP_MESSAGE_ID_WRITE_AN :: int where "MOD_HDCP_MESSAGE_ID_WRITE_AN \<equiv> 4"
abbreviation MOD_HDCP_MESSAGE_ID_READ_VH_0 :: int where "MOD_HDCP_MESSAGE_ID_READ_VH_0 \<equiv> 6"
abbreviation MOD_HDCP_MESSAGE_ID_READ_VH_1 :: int where "MOD_HDCP_MESSAGE_ID_READ_VH_1 \<equiv> 7"
abbreviation MOD_HDCP_MESSAGE_ID_READ_VH_2 :: int where "MOD_HDCP_MESSAGE_ID_READ_VH_2 \<equiv> 8"
abbreviation MOD_HDCP_MESSAGE_ID_READ_VH_3 :: int where "MOD_HDCP_MESSAGE_ID_READ_VH_3 \<equiv> 9"
abbreviation MOD_HDCP_MESSAGE_ID_READ_VH_4 :: int where "MOD_HDCP_MESSAGE_ID_READ_VH_4 \<equiv> 10"
abbreviation MOD_HDCP_MESSAGE_ID_READ_BCAPS :: int where "MOD_HDCP_MESSAGE_ID_READ_BCAPS \<equiv> 11"
abbreviation MOD_HDCP_MESSAGE_ID_READ_BSTATUS :: int where "MOD_HDCP_MESSAGE_ID_READ_BSTATUS \<equiv> 12"
abbreviation MOD_HDCP_MESSAGE_ID_READ_KSV_FIFO :: int where "MOD_HDCP_MESSAGE_ID_READ_KSV_FIFO \<equiv> 13"
abbreviation MOD_HDCP_MESSAGE_ID_READ_BINFO :: int where "MOD_HDCP_MESSAGE_ID_READ_BINFO \<equiv> 14"
abbreviation MOD_HDCP_MESSAGE_ID_HDCP2VERSION :: int where "MOD_HDCP_MESSAGE_ID_HDCP2VERSION \<equiv> 15"
abbreviation MOD_HDCP_MESSAGE_ID_RX_CAPS :: int where "MOD_HDCP_MESSAGE_ID_RX_CAPS \<equiv> 16"
abbreviation MOD_HDCP_MESSAGE_ID_WRITE_AKE_INIT :: int where "MOD_HDCP_MESSAGE_ID_WRITE_AKE_INIT \<equiv> 17"
abbreviation MOD_HDCP_MESSAGE_ID_READ_AKE_SEND_CERT :: int where
  "MOD_HDCP_MESSAGE_ID_READ_AKE_SEND_CERT \<equiv> 18"
abbreviation MOD_HDCP_MESSAGE_ID_WRITE_AKE_NO_STORED_KM :: int where
  "MOD_HDCP_MESSAGE_ID_WRITE_AKE_NO_STORED_KM \<equiv> 19"
abbreviation MOD_HDCP_MESSAGE_ID_WRITE_AKE_STORED_KM :: int where
  "MOD_HDCP_MESSAGE_ID_WRITE_AKE_STORED_KM \<equiv> 20"
abbreviation MOD_HDCP_MESSAGE_ID_READ_AKE_SEND_H_PRIME :: int where
  "MOD_HDCP_MESSAGE_ID_READ_AKE_SEND_H_PRIME \<equiv> 21"
abbreviation MOD_HDCP_MESSAGE_ID_READ_AKE_SEND_PAIRING_INFO :: int where
  "MOD_HDCP_MESSAGE_ID_READ_AKE_SEND_PAIRING_INFO \<equiv> 22"
abbreviation MOD_HDCP_MESSAGE_ID_WRITE_LC_INIT :: int where "MOD_HDCP_MESSAGE_ID_WRITE_LC_INIT \<equiv> 23"
abbreviation MOD_HDCP_MESSAGE_ID_READ_LC_SEND_L_PRIME :: int where
  "MOD_HDCP_MESSAGE_ID_READ_LC_SEND_L_PRIME \<equiv> 24"
abbreviation MOD_HDCP_MESSAGE_ID_WRITE_SKE_SEND_EKS :: int where
  "MOD_HDCP_MESSAGE_ID_WRITE_SKE_SEND_EKS \<equiv> 25"
abbreviation MOD_HDCP_MESSAGE_ID_READ_REPEATER_AUTH_SEND_RECEIVERID_LIST :: int where
  "MOD_HDCP_MESSAGE_ID_READ_REPEATER_AUTH_SEND_RECEIVERID_LIST \<equiv> 26"
abbreviation MOD_HDCP_MESSAGE_ID_READ_REPEATER_AUTH_SEND_RECEIVERID_LIST_PART2 :: int where
  "MOD_HDCP_MESSAGE_ID_READ_REPEATER_AUTH_SEND_RECEIVERID_LIST_PART2 \<equiv> 27"
abbreviation MOD_HDCP_MESSAGE_ID_WRITE_REPEATER_AUTH_SEND_ACK :: int where
  "MOD_HDCP_MESSAGE_ID_WRITE_REPEATER_AUTH_SEND_ACK \<equiv> 28"
abbreviation MOD_HDCP_MESSAGE_ID_WRITE_REPEATER_AUTH_STREAM_MANAGE :: int where
  "MOD_HDCP_MESSAGE_ID_WRITE_REPEATER_AUTH_STREAM_MANAGE \<equiv> 29"
abbreviation MOD_HDCP_MESSAGE_ID_READ_REPEATER_AUTH_STREAM_READY :: int where
  "MOD_HDCP_MESSAGE_ID_READ_REPEATER_AUTH_STREAM_READY \<equiv> 30"
abbreviation MOD_HDCP_MESSAGE_ID_READ_RXSTATUS :: int where "MOD_HDCP_MESSAGE_ID_READ_RXSTATUS \<equiv> 31"
abbreviation MOD_HDCP_MESSAGE_ID_WRITE_CONTENT_STREAM_TYPE :: int where
  "MOD_HDCP_MESSAGE_ID_WRITE_CONTENT_STREAM_TYPE \<equiv> 32"
abbreviation MOD_HDCP_MESSAGE_ID_MAX :: int where "MOD_HDCP_MESSAGE_ID_MAX \<equiv> 33"

text \<open>An index the designated initialiser leaves out is zero.\<close>

definition hdcp_i2c_offsets :: "u8 list" where
  "hdcp_i2c_offsets =
     [0x0, 0x8, 0x10, 0x15, 0x18, 0x20, 0x20, 0x24, 0x28, 0x2C, 0x30, 0x40, 0x41, 0x43, 0xFF,
      0x50, 0, 0x60, 0x80, 0x60, 0x60, 0x80, 0x80, 0x60, 0x80, 0x60, 0x80, 0x80, 0x60, 0x60, 0x80,
      0x70, 0x0]"

definition hdcp_dpcd_addrs :: "u32 list" where
  "hdcp_dpcd_addrs =
     [0x68000, 0x68005, 0x68007, 0x6803B, 0x6800c, 0x68014, 0x68014, 0x68018, 0x6801c, 0x68020,
      0x68024, 0x68028, 0x68029, 0x6802c, 0x6802a, 0, 0x6921d, 0x69000, 0x6900b, 0x69220, 0x692a0,
      0x692c0, 0x692e0, 0x692f0, 0x692f8, 0x69318, 0x69330, 0x69340, 0x693e0, 0x693f0, 0x69473,
      0x69493, 0x69494]"

section \<open>Transfers\<close>

text \<open>The AUX loop of \<^verbatim>\<open>read\<close>, from \<open>data_offset\<close> on.\<close>

function read_dpcd_loop ::
    "'w hdcp_env \<Rightarrow> u32 \<Rightarrow> nat \<Rightarrow> nat \<Rightarrow> nat \<Rightarrow> u8 list \<Rightarrow> 'w \<Rightarrow> bool \<times> u8 list \<times> 'w" where
  "read_dpcd_loop env addr base data_offset buf_len buf w =
     (if buf_len = 0 then (True, buf, w)
      else let cur_size = min buf_len HDCP_MAX_AUX_TRANSACTION_SIZE;
               (success, dat, w') = read_dpcd env (addr + of_nat data_offset) cur_size w;
               buf' = put_bytes (base + data_offset) (take cur_size dat) buf
           in if \<not> success then (False, buf', w')
              else read_dpcd_loop env addr base (data_offset + cur_size) (buf_len - cur_size) buf' w')"
  by pat_completeness auto
termination
  by (relation "measure (\<lambda>(env, addr, base, off, len, buf, w). len)") auto

declare read_dpcd_loop.simps [simp del]

definition ddc_read ::
    "'w hdcp_env \<Rightarrow> mod_hdcp \<Rightarrow> int \<Rightarrow> u8 list \<Rightarrow> nat \<Rightarrow> nat \<Rightarrow> 'w \<Rightarrow> mod_hdcp_status \<times> u8 list \<times> 'w" where
  "ddc_read env hdcp msg_id buf base buf_len w =
     (if msg_id = MOD_HDCP_MESSAGE_ID_INVALID \<or> MOD_HDCP_MESSAGE_ID_MAX \<le> msg_id
      then (MOD_HDCP_STATUS_DDC_FAILURE, buf, w)
      else if is_dp_hdcp hdcp
      then if int (length hdcp_dpcd_addrs) \<le> msg_id then (MOD_HDCP_STATUS_DDC_FAILURE, buf, w)
           else let (success, buf', w') =
                  read_dpcd_loop env (hdcp_dpcd_addrs ! nat msg_id) base 0 buf_len buf w
                in (if success then SUCCESS else MOD_HDCP_STATUS_DDC_FAILURE, buf', w')
      else if int (length hdcp_i2c_offsets) \<le> msg_id then (MOD_HDCP_STATUS_DDC_FAILURE, buf, w)
           else let (success, dat, w') =
                  read_i2c env HDCP_I2C_ADDR (hdcp_i2c_offsets ! nat msg_id) buf_len w
                in (if success then SUCCESS else MOD_HDCP_STATUS_DDC_FAILURE,
                    put_bytes base (take buf_len dat) buf, w'))"

function read_repeatedly_loop ::
    "'w hdcp_env \<Rightarrow> mod_hdcp \<Rightarrow> int \<Rightarrow> nat \<Rightarrow> mod_hdcp_status \<Rightarrow> nat \<Rightarrow> nat \<Rightarrow> u8 list \<Rightarrow> 'w
      \<Rightarrow> mod_hdcp_status \<times> u8 list \<times> 'w" where
  "read_repeatedly_loop env hdcp msg_id read_size status data_offset buf_len buf w =
     (if buf_len = 0 \<or> read_size = 0 then (status, buf, w)
      else let cur_size = min buf_len read_size;
               (status', buf', w') = ddc_read env hdcp msg_id buf data_offset cur_size w
           in if status' \<noteq> SUCCESS then (status', buf', w')
              else read_repeatedly_loop env hdcp msg_id read_size status'
                     (data_offset + cur_size) (buf_len - cur_size) buf' w')"
  by pat_completeness auto
termination
  by (relation "measure (\<lambda>(env, hdcp, msg_id, read_size, status, off, len, buf, w). len)") auto

declare read_repeatedly_loop.simps [simp del]

text \<open>
  \<^verbatim>\<open>read_repeatedly\<close>; its only caller passes the read size 15, so the case of the read
  size 0, where the C loop would not end, does not arise.
\<close>

definition read_repeatedly ::
    "'w hdcp_env \<Rightarrow> mod_hdcp \<Rightarrow> int \<Rightarrow> u8 list \<Rightarrow> nat \<Rightarrow> nat \<Rightarrow> 'w \<Rightarrow> mod_hdcp_status \<times> u8 list \<times> 'w" where
  "read_repeatedly env hdcp msg_id buf buf_len read_size w =
     read_repeatedly_loop env hdcp msg_id read_size MOD_HDCP_STATUS_DDC_FAILURE 0 buf_len buf w"

function write_dpcd_loop ::
    "'w hdcp_env \<Rightarrow> u32 \<Rightarrow> nat \<Rightarrow> u8 list \<Rightarrow> 'w \<Rightarrow> bool \<times> 'w" where
  "write_dpcd_loop env addr data_offset dat w =
     (if dat = [] then (True, w)
      else let cur_size = min (length dat) HDCP_MAX_AUX_TRANSACTION_SIZE;
               (success, w') = write_dpcd env (addr + of_nat data_offset) (take cur_size dat) w
           in if \<not> success then (False, w')
              else write_dpcd_loop env addr (data_offset + cur_size) (drop cur_size dat) w')"
  by pat_completeness auto
termination
  by (relation "measure (\<lambda>(env, addr, off, dat, w). length dat)") auto

declare write_dpcd_loop.simps [simp del]

definition ddc_write :: "'w hdcp_env \<Rightarrow> mod_hdcp \<Rightarrow> int \<Rightarrow> u8 list \<Rightarrow> 'w \<Rightarrow> mod_hdcp_status \<times> 'w" where
  "ddc_write env hdcp msg_id dat w =
     (if msg_id = MOD_HDCP_MESSAGE_ID_INVALID \<or> MOD_HDCP_MESSAGE_ID_MAX \<le> msg_id
      then (MOD_HDCP_STATUS_DDC_FAILURE, w)
      else if is_dp_hdcp hdcp
      then if int (length hdcp_dpcd_addrs) \<le> msg_id then (MOD_HDCP_STATUS_DDC_FAILURE, w)
           else let (success, w') = write_dpcd_loop env (hdcp_dpcd_addrs ! nat msg_id) 0 dat w
                in (if success then SUCCESS else MOD_HDCP_STATUS_DDC_FAILURE, w')
      else if int (length hdcp_i2c_offsets) \<le> msg_id then (MOD_HDCP_STATUS_DDC_FAILURE, w)
           else let (success, w') =
                  write_i2c env HDCP_I2C_ADDR ((hdcp_i2c_offsets ! nat msg_id) # dat) w
                in (if success then SUCCESS else MOD_HDCP_STATUS_DDC_FAILURE, w'))"

text \<open>
  A read into, and a write from, an array of the message structures. The array is given by its
  selector and update function; the access reaches from \<open>base\<close> over \<open>len\<close> bytes.
\<close>

definition read1 ::
    "'w hdcp_env \<Rightarrow> int \<Rightarrow> (mod_hdcp_message_hdcp1 \<Rightarrow> u8 list) \<Rightarrow>
     (u8 list \<Rightarrow> mod_hdcp_message_hdcp1 \<Rightarrow> mod_hdcp_message_hdcp1) \<Rightarrow> nat \<Rightarrow> nat \<Rightarrow> 'w mod_hdcp_action" where
  "read1 env msg_id sel upd base len hdcp w =
     (let buf = sel (msg1 hdcp); (status, buf', w') = ddc_read env hdcp msg_id buf base len w
      in (status, note_fault (length buf < base + len) (set_msg1 (upd buf') hdcp), w'))"

definition read2 ::
    "'w hdcp_env \<Rightarrow> int \<Rightarrow> (mod_hdcp_message_hdcp2 \<Rightarrow> u8 list) \<Rightarrow>
     (u8 list \<Rightarrow> mod_hdcp_message_hdcp2 \<Rightarrow> mod_hdcp_message_hdcp2) \<Rightarrow> nat \<Rightarrow> nat \<Rightarrow> 'w mod_hdcp_action" where
  "read2 env msg_id sel upd base len hdcp w =
     (let buf = sel (msg2 hdcp); (status, buf', w') = ddc_read env hdcp msg_id buf base len w
      in (status, note_fault (length buf < base + len) (set_msg2 (upd buf') hdcp), w'))"

definition write_from :: "'w hdcp_env \<Rightarrow> int \<Rightarrow> u8 list \<Rightarrow> nat \<Rightarrow> nat \<Rightarrow> 'w mod_hdcp_action" where
  "write_from env msg_id buf base len hdcp w =
     (let (status, w') = ddc_write env hdcp msg_id (take len (drop base buf)) w
      in (status, note_fault (length buf < base + len) hdcp, w'))"

section \<open>HDCP 1.4 messages\<close>

definition mod_hdcp_read_bksv :: "'w hdcp_env \<Rightarrow> 'w mod_hdcp_action" where
  "mod_hdcp_read_bksv env =
     read1 env MOD_HDCP_MESSAGE_ID_READ_BKSV m1_bksv (\<lambda>b. m1_bksv_update (\<lambda>_. b)) 0 5"

definition mod_hdcp_read_bcaps :: "'w hdcp_env \<Rightarrow> 'w mod_hdcp_action" where
  "mod_hdcp_read_bcaps env =
     read1 env MOD_HDCP_MESSAGE_ID_READ_BCAPS (\<lambda>m. [m1_bcaps m]) (\<lambda>b. m1_bcaps_update (\<lambda>_. b ! 0)) 0 1"

definition mod_hdcp_read_bstatus :: "'w hdcp_env \<Rightarrow> 'w mod_hdcp_action" where
  "mod_hdcp_read_bstatus env hdcp w =
     (if is_dp_hdcp hdcp
      then read1 env MOD_HDCP_MESSAGE_ID_READ_BSTATUS (\<lambda>m. u16_bytes (m1_bstatus m))
             (\<lambda>b. m1_bstatus_update (\<lambda>_. bytes_u16 b)) 0 1 hdcp w
      else read1 env MOD_HDCP_MESSAGE_ID_READ_BSTATUS (\<lambda>m. u16_bytes (m1_bstatus m))
             (\<lambda>b. m1_bstatus_update (\<lambda>_. bytes_u16 b)) 0 2 hdcp w)"

definition mod_hdcp_read_r0p :: "'w hdcp_env \<Rightarrow> 'w mod_hdcp_action" where
  "mod_hdcp_read_r0p env =
     read1 env MOD_HDCP_MESSAGE_ID_READ_RI_R0 (\<lambda>m. u16_bytes (m1_r0p m))
       (\<lambda>b. m1_r0p_update (\<lambda>_. bytes_u16 b)) 0 2"

definition mod_hdcp_read_ksvlist :: "'w hdcp_env \<Rightarrow> 'w mod_hdcp_action" where
  "mod_hdcp_read_ksvlist env hdcp w =
     (let len = unat (m1_ksvlist_size (msg1 hdcp)) in
      if is_dp_hdcp hdcp
      then let buf = m1_ksvlist (msg1 hdcp);
               (status, buf', w') =
                 read_repeatedly env hdcp MOD_HDCP_MESSAGE_ID_READ_KSV_FIFO buf len KSV_READ_SIZE w
           in (status, note_fault (length buf < len) (set_msg1 (m1_ksvlist_update (\<lambda>_. buf')) hdcp), w')
      else read1 env MOD_HDCP_MESSAGE_ID_READ_KSV_FIFO m1_ksvlist
             (\<lambda>b. m1_ksvlist_update (\<lambda>_. b)) 0 len hdcp w)"

definition read_vp_part :: "'w hdcp_env \<Rightarrow> int \<Rightarrow> nat \<Rightarrow> 'w mod_hdcp_action" where
  "read_vp_part env msg_id base = read1 env msg_id m1_vp (\<lambda>b. m1_vp_update (\<lambda>_. b)) base 4"

text \<open>\<^verbatim>\<open>if (status != SUCCESS) goto out\<close> between two actions.\<close>

definition and_then :: "'w mod_hdcp_action \<Rightarrow> 'w mod_hdcp_action \<Rightarrow> 'w mod_hdcp_action" where
  "and_then f g hdcp w =
     (let (status, hdcp', w') = f hdcp w in if status \<noteq> SUCCESS then (status, hdcp', w') else g hdcp' w')"

definition mod_hdcp_read_vp :: "'w hdcp_env \<Rightarrow> 'w mod_hdcp_action" where
  "mod_hdcp_read_vp env =
     and_then (read_vp_part env MOD_HDCP_MESSAGE_ID_READ_VH_0 0)
    (and_then (read_vp_part env MOD_HDCP_MESSAGE_ID_READ_VH_1 4)
    (and_then (read_vp_part env MOD_HDCP_MESSAGE_ID_READ_VH_2 8)
    (and_then (read_vp_part env MOD_HDCP_MESSAGE_ID_READ_VH_3 12)
              (read_vp_part env MOD_HDCP_MESSAGE_ID_READ_VH_4 16))))"

definition mod_hdcp_read_binfo :: "'w hdcp_env \<Rightarrow> 'w mod_hdcp_action" where
  "mod_hdcp_read_binfo env hdcp w =
     (if is_dp_hdcp hdcp
      then read1 env MOD_HDCP_MESSAGE_ID_READ_BINFO (\<lambda>m. u16_bytes (m1_binfo_dp m))
             (\<lambda>b. m1_binfo_dp_update (\<lambda>_. bytes_u16 b)) 0 2 hdcp w
      else (MOD_HDCP_STATUS_INVALID_OPERATION, hdcp, w))"

definition mod_hdcp_write_aksv :: "'w hdcp_env \<Rightarrow> 'w mod_hdcp_action" where
  "mod_hdcp_write_aksv env hdcp =
     write_from env MOD_HDCP_MESSAGE_ID_WRITE_AKSV (m1_aksv (msg1 hdcp)) 0 5 hdcp"

definition mod_hdcp_write_ainfo :: "'w hdcp_env \<Rightarrow> 'w mod_hdcp_action" where
  "mod_hdcp_write_ainfo env hdcp =
     write_from env MOD_HDCP_MESSAGE_ID_WRITE_AINFO [m1_ainfo (msg1 hdcp)] 0 1 hdcp"

definition mod_hdcp_write_an :: "'w hdcp_env \<Rightarrow> 'w mod_hdcp_action" where
  "mod_hdcp_write_an env hdcp =
     write_from env MOD_HDCP_MESSAGE_ID_WRITE_AN (m1_an (msg1 hdcp)) 0 8 hdcp"

section \<open>HDCP 2.2 messages\<close>

abbreviation HDCP_2_2_AKE_SEND_CERT :: u8 where "HDCP_2_2_AKE_SEND_CERT \<equiv> 3"
abbreviation HDCP_2_2_AKE_SEND_HPRIME :: u8 where "HDCP_2_2_AKE_SEND_HPRIME \<equiv> 7"
abbreviation HDCP_2_2_AKE_SEND_PAIRING_INFO :: u8 where "HDCP_2_2_AKE_SEND_PAIRING_INFO \<equiv> 8"
abbreviation HDCP_2_2_LC_SEND_LPRIME :: u8 where "HDCP_2_2_LC_SEND_LPRIME \<equiv> 10"
abbreviation HDCP_2_2_REP_SEND_RECVID_LIST :: u8 where "HDCP_2_2_REP_SEND_RECVID_LIST \<equiv> 12"
abbreviation HDCP_2_2_REP_STREAM_READY :: u8 where "HDCP_2_2_REP_STREAM_READY \<equiv> 17"

definition HDCP_2_2_DEV_COUNT_LO :: "u8 \<Rightarrow> u8" where
  "HDCP_2_2_DEV_COUNT_LO x = drop_bit 4 (x AND 0xF0)"

definition HDCP_2_2_DEV_COUNT_HI :: "u8 \<Rightarrow> u8" where
  "HDCP_2_2_DEV_COUNT_HI x = x AND 1"

definition mod_hdcp_read_hdcp2version :: "'w hdcp_env \<Rightarrow> 'w mod_hdcp_action" where
  "mod_hdcp_read_hdcp2version env hdcp w =
     (if is_dp_hdcp hdcp then (MOD_HDCP_STATUS_INVALID_OPERATION, hdcp, w)
      else read2 env MOD_HDCP_MESSAGE_ID_HDCP2VERSION (\<lambda>m. [m2_hdcp2version_hdmi m])
             (\<lambda>b. m2_hdcp2version_hdmi_update (\<lambda>_. b ! 0)) 0 1 hdcp w)"

definition mod_hdcp_read_rxcaps :: "'w hdcp_env \<Rightarrow> 'w mod_hdcp_action" where
  "mod_hdcp_read_rxcaps env hdcp w =
     (if \<not> is_dp_hdcp hdcp then (MOD_HDCP_STATUS_INVALID_OPERATION, hdcp, w)
      else read2 env MOD_HDCP_MESSAGE_ID_RX_CAPS m2_rxcaps_dp
             (\<lambda>b. m2_rxcaps_dp_update (\<lambda>_. b)) 0 3 hdcp w)"

definition mod_hdcp_read_rxstatus :: "'w hdcp_env \<Rightarrow> 'w mod_hdcp_action" where
  "mod_hdcp_read_rxstatus env hdcp w =
     (if is_dp_hdcp hdcp
      then read2 env MOD_HDCP_MESSAGE_ID_READ_RXSTATUS (\<lambda>m. [m2_rxstatus_dp m])
             (\<lambda>b. m2_rxstatus_dp_update (\<lambda>_. b ! 0)) 0 1 hdcp w
      else read2 env MOD_HDCP_MESSAGE_ID_READ_RXSTATUS m2_rxstatus
             (\<lambda>b. m2_rxstatus_update (\<lambda>_. b)) 0 2 hdcp w)"

text \<open>
  The messages of a fixed length share one shape: on DisplayPort the message identifier is stored in
  the first byte and the rest is read, otherwise the whole array is read.
\<close>

definition read_message ::
    "'w hdcp_env \<Rightarrow> int \<Rightarrow> u8 \<Rightarrow> (mod_hdcp_message_hdcp2 \<Rightarrow> u8 list) \<Rightarrow>
     (u8 list \<Rightarrow> mod_hdcp_message_hdcp2 \<Rightarrow> mod_hdcp_message_hdcp2) \<Rightarrow> nat \<Rightarrow> 'w mod_hdcp_action" where
  "read_message env msg_id first sel upd msg_size hdcp w =
     (if is_dp_hdcp hdcp
      then read2 env msg_id sel upd 1 (msg_size - 1)
             (set_msg2 (\<lambda>m. upd ((sel m)[0 := first]) m) hdcp) w
      else read2 env msg_id sel upd 0 msg_size hdcp w)"

definition mod_hdcp_read_ake_cert :: "'w hdcp_env \<Rightarrow> 'w mod_hdcp_action" where
  "mod_hdcp_read_ake_cert env =
     read_message env MOD_HDCP_MESSAGE_ID_READ_AKE_SEND_CERT HDCP_2_2_AKE_SEND_CERT
       m2_ake_cert (\<lambda>b. m2_ake_cert_update (\<lambda>_. b)) 534"

definition mod_hdcp_read_h_prime :: "'w hdcp_env \<Rightarrow> 'w mod_hdcp_action" where
  "mod_hdcp_read_h_prime env =
     read_message env MOD_HDCP_MESSAGE_ID_READ_AKE_SEND_H_PRIME HDCP_2_2_AKE_SEND_HPRIME
       m2_ake_h_prime (\<lambda>b. m2_ake_h_prime_update (\<lambda>_. b)) 33"

definition mod_hdcp_read_pairing_info :: "'w hdcp_env \<Rightarrow> 'w mod_hdcp_action" where
  "mod_hdcp_read_pairing_info env =
     read_message env MOD_HDCP_MESSAGE_ID_READ_AKE_SEND_PAIRING_INFO HDCP_2_2_AKE_SEND_PAIRING_INFO
       m2_ake_pairing_info (\<lambda>b. m2_ake_pairing_info_update (\<lambda>_. b)) 17"

definition mod_hdcp_read_l_prime :: "'w hdcp_env \<Rightarrow> 'w mod_hdcp_action" where
  "mod_hdcp_read_l_prime env =
     read_message env MOD_HDCP_MESSAGE_ID_READ_LC_SEND_L_PRIME HDCP_2_2_LC_SEND_LPRIME
       m2_lc_l_prime (\<lambda>b. m2_lc_l_prime_update (\<lambda>_. b)) 33"

definition mod_hdcp_read_stream_ready :: "'w hdcp_env \<Rightarrow> 'w mod_hdcp_action" where
  "mod_hdcp_read_stream_ready env =
     read_message env MOD_HDCP_MESSAGE_ID_READ_REPEATER_AUTH_STREAM_READY HDCP_2_2_REP_STREAM_READY
       m2_repeater_auth_stream_ready (\<lambda>b. m2_repeater_auth_stream_ready_update (\<lambda>_. b)) 33"

text \<open>The length of the second part of the receiver id list on DisplayPort, in 32-bit arithmetic.\<close>

definition rx_id_list_part2_size :: "u8 list \<Rightarrow> nat" where
  "rx_id_list_part2_size rx_id_list =
     (let device_count = unat (HDCP_2_2_DEV_COUNT_LO (rx_id_list ! 2)) +
            unat (HDCP_2_2_DEV_COUNT_HI (rx_id_list ! 1)) * 16;
          rx_id_list_size = min (21 + 5 * device_count) (177 - 1)
      in (rx_id_list_size - 1) div HDCP_MAX_AUX_TRANSACTION_SIZE * HDCP_MAX_AUX_TRANSACTION_SIZE)"

definition mod_hdcp_read_rx_id_list :: "'w hdcp_env \<Rightarrow> 'w mod_hdcp_action" where
  "mod_hdcp_read_rx_id_list env hdcp w =
     (if is_dp_hdcp hdcp
      then let hdcp1 = set_msg2 (\<lambda>m. m\<lparr>m2_rx_id_list := (m2_rx_id_list m)
                         [0 := HDCP_2_2_REP_SEND_RECVID_LIST]\<rparr>) hdcp;
               (status, hdcp2, w') =
                 read2 env MOD_HDCP_MESSAGE_ID_READ_REPEATER_AUTH_SEND_RECEIVERID_LIST m2_rx_id_list
                   (\<lambda>b. m2_rx_id_list_update (\<lambda>_. b)) 1 HDCP_MAX_AUX_TRANSACTION_SIZE hdcp1 w
           in if status = SUCCESS
              then read2 env MOD_HDCP_MESSAGE_ID_READ_REPEATER_AUTH_SEND_RECEIVERID_LIST_PART2
                     m2_rx_id_list (\<lambda>b. m2_rx_id_list_update (\<lambda>_. b))
                     (1 + HDCP_MAX_AUX_TRANSACTION_SIZE)
                     (rx_id_list_part2_size (m2_rx_id_list (msg2 hdcp2))) hdcp2 w'
              else (status, hdcp2, w')
      else read2 env MOD_HDCP_MESSAGE_ID_READ_REPEATER_AUTH_SEND_RECEIVERID_LIST m2_rx_id_list
             (\<lambda>b. m2_rx_id_list_update (\<lambda>_. b)) 0 (unat (m2_rx_id_list_size (msg2 hdcp))) hdcp w)"

definition write_message :: "'w hdcp_env \<Rightarrow> int \<Rightarrow> (mod_hdcp_message_hdcp2 \<Rightarrow> u8 list) \<Rightarrow> nat \<Rightarrow> 'w mod_hdcp_action" where
  "write_message env msg_id sel msg_size hdcp w =
     (if is_dp_hdcp hdcp then write_from env msg_id (sel (msg2 hdcp)) 1 (msg_size - 1) hdcp w
      else write_from env msg_id (sel (msg2 hdcp)) 0 msg_size hdcp w)"

definition mod_hdcp_write_ake_init :: "'w hdcp_env \<Rightarrow> 'w mod_hdcp_action" where
  "mod_hdcp_write_ake_init env =
     write_message env MOD_HDCP_MESSAGE_ID_WRITE_AKE_INIT m2_ake_init 12"

definition mod_hdcp_write_no_stored_km :: "'w hdcp_env \<Rightarrow> 'w mod_hdcp_action" where
  "mod_hdcp_write_no_stored_km env =
     write_message env MOD_HDCP_MESSAGE_ID_WRITE_AKE_NO_STORED_KM m2_ake_no_stored_km 129"

definition mod_hdcp_write_stored_km :: "'w hdcp_env \<Rightarrow> 'w mod_hdcp_action" where
  "mod_hdcp_write_stored_km env =
     write_message env MOD_HDCP_MESSAGE_ID_WRITE_AKE_STORED_KM m2_ake_stored_km 33"

definition mod_hdcp_write_lc_init :: "'w hdcp_env \<Rightarrow> 'w mod_hdcp_action" where
  "mod_hdcp_write_lc_init env =
     write_message env MOD_HDCP_MESSAGE_ID_WRITE_LC_INIT m2_lc_init 9"

definition mod_hdcp_write_eks :: "'w hdcp_env \<Rightarrow> 'w mod_hdcp_action" where
  "mod_hdcp_write_eks env =
     write_message env MOD_HDCP_MESSAGE_ID_WRITE_SKE_SEND_EKS m2_ske_eks 25"

definition mod_hdcp_write_repeater_auth_ack :: "'w hdcp_env \<Rightarrow> 'w mod_hdcp_action" where
  "mod_hdcp_write_repeater_auth_ack env =
     write_message env MOD_HDCP_MESSAGE_ID_WRITE_REPEATER_AUTH_SEND_ACK m2_repeater_auth_ack 17"

text \<open>
  The length is the one the security processor reported; on DisplayPort one less, converted to the
  32-bit length of \<^verbatim>\<open>write\<close>.
\<close>

definition mod_hdcp_write_stream_manage :: "'w hdcp_env \<Rightarrow> 'w mod_hdcp_action" where
  "mod_hdcp_write_stream_manage env hdcp w =
     (let m = msg2 hdcp; msg_size = (ucast (m2_stream_manage_size m) :: u32) in
      if is_dp_hdcp hdcp
      then write_from env MOD_HDCP_MESSAGE_ID_WRITE_REPEATER_AUTH_STREAM_MANAGE
             (m2_repeater_auth_stream_manage m) 1 (unat (msg_size - 1)) hdcp w
      else write_from env MOD_HDCP_MESSAGE_ID_WRITE_REPEATER_AUTH_STREAM_MANAGE
             (m2_repeater_auth_stream_manage m) 0 (unat msg_size) hdcp w)"

definition mod_hdcp_write_content_type :: "'w hdcp_env \<Rightarrow> 'w mod_hdcp_action" where
  "mod_hdcp_write_content_type env hdcp w =
     (if is_dp_hdcp hdcp
      then write_from env MOD_HDCP_MESSAGE_ID_WRITE_CONTENT_STREAM_TYPE
             (m2_content_stream_type_dp (msg2 hdcp)) 1 1 hdcp w
      else (MOD_HDCP_STATUS_INVALID_OPERATION, hdcp, w))"

definition mod_hdcp_clear_cp_irq_status :: "'w hdcp_env \<Rightarrow> 'w mod_hdcp_action" where
  "mod_hdcp_clear_cp_irq_status env hdcp w =
     (if is_dp_hdcp hdcp
      then let cp_irq_addrs = (if 0x14 \<le> dp_rev (link_dp (link (connection hdcp)))
                 then DP_DEVICE_SERVICE_IRQ_VECTOR_ESI0 env else DP_DEVICE_SERVICE_IRQ_VECTOR env);
               (success, w') = write_dpcd env cp_irq_addrs [DP_CP_IRQ] w
           in (if success then SUCCESS else MOD_HDCP_STATUS_DDC_FAILURE, hdcp, w')
      else (MOD_HDCP_STATUS_INVALID_OPERATION, hdcp, w))"

definition write_stall_read_lc_fw_aux :: "'w hdcp_env \<Rightarrow> mod_hdcp \<Rightarrow> 'w \<Rightarrow> bool \<times> mod_hdcp \<times> 'w" where
  "write_stall_read_lc_fw_aux env hdcp w =
     (let m = msg2 hdcp;
          (success, dat, w') = atomic_aux env
            (hdcp_dpcd_addrs ! nat MOD_HDCP_MESSAGE_ID_WRITE_LC_INIT, take (9 - 1) (drop 1 (m2_lc_init m)))
            (hdcp_dpcd_addrs ! nat MOD_HDCP_MESSAGE_ID_READ_LC_SEND_L_PRIME, 33 - 1) w
      in (success,
          set_msg2 (m2_lc_l_prime_update (\<lambda>b. put_bytes 1 (take (33 - 1) dat)
            (b[0 := HDCP_2_2_LC_SEND_LPRIME]))) hdcp, w'))"

definition write_poll_read_lc_fw_i2c :: "'w hdcp_env \<Rightarrow> mod_hdcp \<Rightarrow> 'w \<Rightarrow> bool \<times> mod_hdcp \<times> 'w" where
  "write_poll_read_lc_fw_i2c env hdcp w =
     (let m = msg2 hdcp;
          (success, dat, w') = atomic_i2c env
            ((hdcp_i2c_offsets ! nat MOD_HDCP_MESSAGE_ID_WRITE_LC_INIT) # m2_lc_init m)
            (hdcp_i2c_offsets ! nat MOD_HDCP_MESSAGE_ID_READ_RXSTATUS, [33, 0])
            (hdcp_i2c_offsets ! nat MOD_HDCP_MESSAGE_ID_READ_LC_SEND_L_PRIME, 33) w
      in (success, set_msg2 (m2_lc_l_prime_update (put_bytes 0 (take 33 dat))) hdcp, w'))"

definition mod_hdcp_write_poll_read_lc_fw :: "'w hdcp_env \<Rightarrow> 'w mod_hdcp_action" where
  "mod_hdcp_write_poll_read_lc_fw env hdcp w =
     (let (success, hdcp', w') =
        (if is_dp_hdcp hdcp then write_stall_read_lc_fw_aux else write_poll_read_lc_fw_i2c) env hdcp w
      in (if success then SUCCESS else MOD_HDCP_STATUS_DDC_FAILURE, hdcp', w'))"

end
