(* ===== verification/Hdcp_Psp.thy ===== *)
theory Hdcp_Psp
  imports Hdcp_Env
begin

text \<open>
  The commands to the security processor (\<^verbatim>\<open>amd/display/modules/hdcp/hdcp_psp.c\<close>), with
  the two wrappers of \<^verbatim>\<open>amd/amdgpu/amdgpu_psp.c\<close> they go through. Each function clears
  the shared memory, fills in a command, invokes the trusted application and reads the answer; since
  the wrappers' return value is dropped, an application that has not answered leaves the cleared
  memory to be read. The locks are not modelled: a function is one step of the model.
\<close>

section \<open>Invoking a trusted application\<close>

text \<open>
  The HDCP application answers in memory that was cleared before the call, so without an answer every
  field reads as zero.
\<close>

definition psp_hdcp_invoke ::
    "'w hdcp_env \<Rightarrow> ta_hdcp_cmd_input \<Rightarrow> 'w \<Rightarrow> ta_hdcp_cmd_output \<times> 'w" where
  "psp_hdcp_invoke env cmd w =
     (if amdgpu_sriov_vf env then (zero_ta_hdcp_output, w)
      else if \<not> hdcp_context_initialized env w then (zero_ta_hdcp_output, w)
      else case ta_hdcp_invoke env cmd w of
             (None, w') \<Rightarrow> (zero_ta_hdcp_output, w')
           | (Some out, w') \<Rightarrow> (out, w'))"

text \<open>The status word of the topology application is preset to a failure before the call.\<close>

definition psp_dtm_invoke :: "'w hdcp_env \<Rightarrow> ta_dtm_cmd_input \<Rightarrow> 'w \<Rightarrow> u32 \<times> 'w" where
  "psp_dtm_invoke env cmd w =
     (if amdgpu_sriov_vf env then (TA_DTM_STATUS__GENERIC_FAILURE, w)
      else if \<not> dtm_context_initialized env w then (TA_DTM_STATUS__GENERIC_FAILURE, w)
      else case ta_dtm_invoke env cmd w of
             (None, w') \<Rightarrow> (TA_DTM_STATUS__GENERIC_FAILURE, w')
           | (Some dtm_status, w') \<Rightarrow> (dtm_status, w'))"

section \<open>Display topology\<close>

definition remove_display_from_topology_v2 :: "'w hdcp_env \<Rightarrow> u8 \<Rightarrow> 'w mod_hdcp_action" where
  "remove_display_from_topology_v2 env index hdcp w =
     (case get_active_display_at_index hdcp index of
        None \<Rightarrow> (MOD_HDCP_STATUS_DISPLAY_NOT_FOUND, hdcp, w)
      | Some i \<Rightarrow>
          if \<not> is_display_active (displays hdcp ! i) then (MOD_HDCP_STATUS_DISPLAY_NOT_FOUND, hdcp, w)
          else let (dtm_status, w') = psp_dtm_invoke env (TA_DTM_COMMAND__TOPOLOGY_UPDATE_V2
                     (zero_topology_update_v2
                        \<lparr>v2_display_handle := ucast (disp_index (displays hdcp ! i)), v2_is_active := 0\<rparr>)) w
               in if dtm_status \<noteq> TA_DTM_STATUS__SUCCESS
                  then (MOD_HDCP_STATUS_UPDATE_TOPOLOGY_FAILURE, hdcp, w')
                  else (SUCCESS, set_display_state i MOD_HDCP_DISPLAY_ACTIVE hdcp, w'))"

definition remove_display_from_topology_v3 :: "'w hdcp_env \<Rightarrow> u8 \<Rightarrow> 'w mod_hdcp_action" where
  "remove_display_from_topology_v3 env index hdcp w =
     (case get_active_display_at_index hdcp index of
        None \<Rightarrow> (MOD_HDCP_STATUS_DISPLAY_NOT_FOUND, hdcp, w)
      | Some i \<Rightarrow>
          if \<not> is_display_active (displays hdcp ! i) then (MOD_HDCP_STATUS_DISPLAY_NOT_FOUND, hdcp, w)
          else let (dtm_status, w') = psp_dtm_invoke env (TA_DTM_COMMAND__TOPOLOGY_UPDATE_V3
                     (zero_topology_update_v3
                        \<lparr>v3_display_handle := ucast (disp_index (displays hdcp ! i)), v3_is_active := 0\<rparr>)) w
               in if dtm_status \<noteq> TA_DTM_STATUS__SUCCESS
                  then let (status, hdcp', w'') = remove_display_from_topology_v2 env index hdcp w'
                       in (status,
                           if status \<noteq> SUCCESS then set_display_state i MOD_HDCP_DISPLAY_INACTIVE hdcp'
                           else hdcp', w'')
                  else (SUCCESS, set_display_state i MOD_HDCP_DISPLAY_ACTIVE hdcp, w'))"

text \<open>The display is a pointer into the display array, here its index \<open>i\<close>.\<close>

definition add_display_to_topology_v2 :: "'w hdcp_env \<Rightarrow> nat \<Rightarrow> 'w mod_hdcp_action" where
  "add_display_to_topology_v2 env i hdcp w =
     (let display = displays hdcp ! i; lnk = link (connection hdcp) in
      if \<not> dtm_context_initialized env w
      then (MOD_HDCP_STATUS_FAILURE, set_display_state i MOD_HDCP_DISPLAY_INACTIVE hdcp, w)
      else let (dtm_status, w') = psp_dtm_invoke env (TA_DTM_COMMAND__TOPOLOGY_UPDATE_V2
                 (zero_topology_update_v2
                    \<lparr>v2_display_handle := ucast (disp_index display), v2_is_active := 1,
                     v2_controller := ucast (disp_controller display),
                     v2_ddc_line := ucast (link_ddc_line lnk), v2_dig_be := ucast (link_dig_be lnk),
                     v2_dig_fe := ucast (disp_dig_fe display),
                     v2_is_assr := (if is_dp_hdcp hdcp then ucast (assr_enabled (link_dp lnk)) else 0),
                     v2_dp_mst_vcid := ucast (disp_vc_id display),
                     v2_max_hdcp_supported_version := TA_DTM_HDCP_VERSION_MAX_SUPPORTED__2_2\<rparr>)) w
           in if dtm_status \<noteq> TA_DTM_STATUS__SUCCESS
              then (MOD_HDCP_STATUS_UPDATE_TOPOLOGY_FAILURE,
                    set_display_state i MOD_HDCP_DISPLAY_INACTIVE hdcp, w')
              else (SUCCESS, hdcp, w'))"

definition add_display_to_topology_v3 :: "'w hdcp_env \<Rightarrow> nat \<Rightarrow> 'w mod_hdcp_action" where
  "add_display_to_topology_v3 env i hdcp w =
     (let display = displays hdcp ! i; lnk = link (connection hdcp) in
      if \<not> dtm_context_initialized env w
      then (MOD_HDCP_STATUS_FAILURE, set_display_state i MOD_HDCP_DISPLAY_INACTIVE hdcp, w)
      else let (dtm_status, w') = psp_dtm_invoke env (TA_DTM_COMMAND__TOPOLOGY_UPDATE_V3
                 (zero_topology_update_v3
                    \<lparr>v3_display_handle := ucast (disp_index display), v3_is_active := 1,
                     v3_controller := ucast (disp_controller display),
                     v3_ddc_line := ucast (link_ddc_line lnk),
                     v3_link_enc := ucast (link_link_enc_idx lnk),
                     v3_stream_enc := ucast (disp_stream_enc_idx display),
                     v3_is_assr := (if is_dp_hdcp hdcp then ucast (assr_enabled (link_dp lnk)) else 0),
                     v3_dp_mst_vcid := ucast (disp_vc_id display),
                     v3_max_hdcp_supported_version := TA_DTM_HDCP_VERSION_MAX_SUPPORTED__2_3,
                     v3_encoder_type := TA_DTM_ENCODER_TYPE__DIG,
                     v3_phy_id := ucast (link_phy_idx lnk),
                     v3_link_hdcp_cap := ucast (link_hdcp_supported_informational lnk),
                     v3_dio_output_type := (if usb4_enabled (link_dp lnk) \<noteq> 0
                       then TA_DTM_DIO_OUTPUT_TYPE__DPIA else TA_DTM_DIO_OUTPUT_TYPE__DIRECT),
                     v3_dio_output_id := ucast (link_dio_output_id lnk)\<rparr>)) w
           in if dtm_status \<noteq> TA_DTM_STATUS__SUCCESS
              then let (status, hdcp', w'') = add_display_to_topology_v2 env i hdcp w'
                   in (status,
                       if status \<noteq> SUCCESS then set_display_state i MOD_HDCP_DISPLAY_INACTIVE hdcp'
                       else hdcp', w'')
              else (SUCCESS, hdcp, w'))"

definition mod_hdcp_remove_display_from_topology :: "'w hdcp_env \<Rightarrow> u8 \<Rightarrow> 'w mod_hdcp_action" where
  "mod_hdcp_remove_display_from_topology env index hdcp w =
     (if dtm_v3_supported (config hdcp) then remove_display_from_topology_v3 env index hdcp w
      else remove_display_from_topology_v2 env index hdcp w)"

definition mod_hdcp_add_display_to_topology :: "'w hdcp_env \<Rightarrow> nat \<Rightarrow> 'w mod_hdcp_action" where
  "mod_hdcp_add_display_to_topology env i hdcp w =
     (if dtm_v3_supported (config hdcp) then add_display_to_topology_v3 env i hdcp w
      else add_display_to_topology_v2 env i hdcp w)"

section \<open>HDCP 1.4 sessions\<close>

text \<open>The function reads \<^verbatim>\<open>display->index\<close> without a test for a null pointer.\<close>

definition mod_hdcp_hdcp1_create_session :: "'w hdcp_env \<Rightarrow> 'w mod_hdcp_action" where
  "mod_hdcp_hdcp1_create_session env hdcp w =
     (if \<not> hdcp_context_initialized env w then (MOD_HDCP_STATUS_FAILURE, hdcp, w)
      else case get_first_active_display hdcp of
        None \<Rightarrow> (MOD_HDCP_STATUS_FAILURE, note_fault True hdcp, w)
      | Some i \<Rightarrow>
          let (out, w') = psp_hdcp_invoke env
                (TA_HDCP_COMMAND__HDCP1_CREATE_SESSION (disp_index (displays hdcp ! i))) w;
              hdcp' = set_auth_id (out_session_handle out) hdcp
          in if hdcp_status out \<noteq> TA_HDCP_STATUS__SUCCESS
             then (MOD_HDCP_STATUS_HDCP1_CREATE_SESSION_FAILURE, hdcp', w')
             else (SUCCESS,
                   set_msg1 (\<lambda>m. m\<lparr>m1_ainfo := out_ainfo_primary out,
                                     m1_aksv := put_bytes 0 (out_aksv_primary out) (m1_aksv m),
                                     m1_an := put_bytes 0 (out_an_primary out) (m1_an m)\<rparr>) hdcp', w'))"

text \<open>The loop over the displays that both functions that destroy a session end with.\<close>

definition disable_displays :: "mod_hdcp \<Rightarrow> mod_hdcp" where
  "disable_displays hdcp =
     fold (\<lambda>i h. if is_display_encryption_enabled (displays h ! i)
                 then set_display_state i MOD_HDCP_DISPLAY_ACTIVE h else h) [0..<MAX_NUM_OF_DISPLAYS] hdcp"

definition mod_hdcp_hdcp1_destroy_session :: "'w hdcp_env \<Rightarrow> 'w mod_hdcp_action" where
  "mod_hdcp_hdcp1_destroy_session env hdcp w =
     (let (out, w') = psp_hdcp_invoke env
            (TA_HDCP_COMMAND__HDCP1_DESTROY_SESSION (auth_id (auth hdcp))) w
      in if hdcp_status out \<noteq> TA_HDCP_STATUS__SUCCESS
         then (MOD_HDCP_STATUS_HDCP1_DESTROY_SESSION_FAILURE, hdcp, w')
         else (SUCCESS, disable_displays hdcp, w'))"

definition mod_hdcp_hdcp1_validate_rx :: "'w hdcp_env \<Rightarrow> 'w mod_hdcp_action" where
  "mod_hdcp_hdcp1_validate_rx env hdcp w =
     (let m = msg1 hdcp;
          (out, w') = psp_hdcp_invoke env (TA_HDCP_COMMAND__HDCP1_FIRST_PART_AUTHENTICATION
            (auth_id (auth hdcp)) (take 5 (m1_bksv m)) (m1_r0p m) (m1_bcaps m)) w
      in if hdcp_status out \<noteq> TA_HDCP_STATUS__SUCCESS
         then (MOD_HDCP_STATUS_HDCP1_VALIDATE_RX_FAILURE, hdcp, w')
         else if out_authentication_status out = TA_HDCP_AUTHENTICATION_STATUS__HDCP1_FIRST_PART_COMPLETE
         then (SUCCESS, set_conn (is_repeater_update (\<lambda>_. True)) hdcp, w')
         else if out_authentication_status out = TA_HDCP_AUTHENTICATION_STATUS__HDCP1_AUTHENTICATED
         then (SUCCESS, set_conn (is_repeater_update (\<lambda>_. False)) hdcp, w')
         else if out_authentication_status out = TA_HDCP_AUTHENTICATION_STATUS__HDCP1_KSV_REVOKED
         then (MOD_HDCP_STATUS_HDCP1_BKSV_REVOKED, set_conn (is_hdcp1_revoked_update (\<lambda>_. True)) hdcp, w')
         else (MOD_HDCP_STATUS_HDCP1_VALIDATE_RX_FAILURE, hdcp, w'))"

definition mod_hdcp_hdcp1_enable_encryption :: "'w hdcp_env \<Rightarrow> 'w mod_hdcp_action" where
  "mod_hdcp_hdcp1_enable_encryption env hdcp w =
     (case get_first_active_display hdcp of
        None \<Rightarrow> (MOD_HDCP_STATUS_DISPLAY_NOT_FOUND, hdcp, w)
      | Some i \<Rightarrow>
          let (out, w') = psp_hdcp_invoke env
                (TA_HDCP_COMMAND__HDCP1_ENABLE_ENCRYPTION (auth_id (auth hdcp))) w
          in if hdcp_status out \<noteq> TA_HDCP_STATUS__SUCCESS
             then (MOD_HDCP_STATUS_HDCP1_ENABLE_ENCRYPTION_FAILURE, hdcp, w')
             else if \<not> is_dp_mst_hdcp hdcp
             then (SUCCESS, set_display_state i MOD_HDCP_DISPLAY_ENCRYPTION_ENABLED hdcp, w')
             else (SUCCESS, hdcp, w'))"

text \<open>
  \<^verbatim>\<open>memcpy\<close> of \<^verbatim>\<open>ksvlist_size\<close> bytes from the 635 bytes of
  \<^verbatim>\<open>ksvlist\<close> to an array of the same size.
\<close>

definition mod_hdcp_hdcp1_validate_ksvlist_vp :: "'w hdcp_env \<Rightarrow> 'w mod_hdcp_action" where
  "mod_hdcp_hdcp1_validate_ksvlist_vp env hdcp0 w =
     (let len = m1_ksvlist_size (msg1 hdcp0);
          hdcp = note_fault (length (m1_ksvlist (msg1 hdcp0)) < unat len) hdcp0;
          m = msg1 hdcp;
          (out, w') = psp_hdcp_invoke env (TA_HDCP_COMMAND__HDCP1_SECOND_PART_AUTHENTICATION
            (auth_id (auth hdcp)) len (take (unat len) (m1_ksvlist m)) (take 20 (m1_vp m))
            (if is_dp_hdcp hdcp then m1_binfo_dp m else m1_bstatus m)) w
      in if hdcp_status out = TA_HDCP_STATUS__SUCCESS \<and>
            out_authentication_status out = TA_HDCP_AUTHENTICATION_STATUS__HDCP1_AUTHENTICATED
         then (SUCCESS, hdcp, w')
         else if out_authentication_status out = TA_HDCP_AUTHENTICATION_STATUS__HDCP1_KSV_REVOKED
         then (MOD_HDCP_STATUS_HDCP1_KSV_LIST_REVOKED, set_conn (is_hdcp1_revoked_update (\<lambda>_. True)) hdcp, w')
         else (MOD_HDCP_STATUS_HDCP1_VALIDATE_KSV_LIST_FAILURE, hdcp, w'))"

text \<open>The loops of the two stream encryption functions, over the display indices that are left.\<close>

fun hdcp1_stream_loop :: "'w hdcp_env \<Rightarrow> nat list \<Rightarrow> 'w mod_hdcp_action" where
  "hdcp1_stream_loop env [] hdcp w = (SUCCESS, hdcp, w)"
| "hdcp1_stream_loop env (i # is) hdcp w =
     (let display = displays hdcp ! i in
      if da_disable (disp_adjust display) \<noteq> 0 \<or> disp_state display \<noteq> MOD_HDCP_DISPLAY_ACTIVE
      then hdcp1_stream_loop env is hdcp w
      else let (out, w') = psp_hdcp_invoke env (TA_HDCP_COMMAND__HDCP1_ENABLE_DP_STREAM_ENCRYPTION
                 (auth_id (auth hdcp)) (disp_index display)) w
           in if hdcp_status out \<noteq> TA_HDCP_STATUS__SUCCESS
              then (MOD_HDCP_STATUS_HDCP1_ENABLE_STREAM_ENCRYPTION_FAILURE, hdcp, w')
              else hdcp1_stream_loop env is
                     (set_display_state i MOD_HDCP_DISPLAY_ENCRYPTION_ENABLED hdcp) w')"

definition mod_hdcp_hdcp1_enable_dp_stream_encryption :: "'w hdcp_env \<Rightarrow> 'w mod_hdcp_action" where
  "mod_hdcp_hdcp1_enable_dp_stream_encryption env = hdcp1_stream_loop env [0..<MAX_NUM_OF_DISPLAYS]"

definition mod_hdcp_hdcp1_link_maintenance :: "'w hdcp_env \<Rightarrow> 'w mod_hdcp_action" where
  "mod_hdcp_hdcp1_link_maintenance env hdcp w =
     (let (out, w') = psp_hdcp_invoke env
            (TA_HDCP_COMMAND__HDCP1_GET_ENCRYPTION_STATUS (auth_id (auth hdcp))) w
      in (if hdcp_status out \<noteq> TA_HDCP_STATUS__SUCCESS \<or> out_protection_level out \<noteq> 1
          then MOD_HDCP_STATUS_HDCP1_LINK_MAINTENANCE_FAILURE else SUCCESS, hdcp, w'))"

section \<open>HDCP 2.2 sessions\<close>

definition hdcp2_message_init :: "mod_hdcp \<Rightarrow> hdcp2_message_input" where
  "hdcp2_message_init hdcp =
     \<lparr>in_session_handle = auth_id (auth hdcp),
      process_msg1_desc = (TA_HDCP_HDCP2_MSG_ID__NULL_MESSAGE, 0),
      process_msg2_desc = (TA_HDCP_HDCP2_MSG_ID__NULL_MESSAGE, 0),
      process_msg3_desc = (TA_HDCP_HDCP2_MSG_ID__NULL_MESSAGE, 0),
      receiver_message = [],
      prepare_msg1_id = TA_HDCP_HDCP2_MSG_ID__NULL_MESSAGE,
      prepare_msg2_id = TA_HDCP_HDCP2_MSG_ID__NULL_MESSAGE\<rparr>"

text \<open>
  The request of content type negotiation; the structure was cleared, so an unknown force type leaves
  zero.
\<close>

definition negotiate_content_type :: "2 word \<Rightarrow> u32" where
  "negotiate_content_type t =
     (if t = MOD_HDCP_FORCE_TYPE_0 then TA_HDCP2_CONTENT_TYPE_NEGOTIATION_TYPE__FORCE_TYPE0
      else if t = MOD_HDCP_FORCE_TYPE_1 then TA_HDCP2_CONTENT_TYPE_NEGOTIATION_TYPE__FORCE_TYPE1
      else if t = MOD_HDCP_FORCE_TYPE_MAX then TA_HDCP2_CONTENT_TYPE_NEGOTIATION_TYPE__MAX_SUPPORTED
      else 0)"

definition mod_hdcp_hdcp2_create_session :: "'w hdcp_env \<Rightarrow> 'w mod_hdcp_action" where
  "mod_hdcp_hdcp2_create_session env hdcp w =
     (if \<not> hdcp_context_initialized env w then (MOD_HDCP_STATUS_FAILURE, hdcp, w)
      else case get_first_active_display hdcp of
        None \<Rightarrow> (MOD_HDCP_STATUS_DISPLAY_NOT_FOUND, hdcp, w)
      | Some i \<Rightarrow>
          let (out, w') = psp_hdcp_invoke env (TA_HDCP_COMMAND__HDCP2_CREATE_SESSION_V2
                (disp_index (displays hdcp ! i)) (negotiate_content_type (force_type (adjust2 hdcp)))) w
          in if hdcp_status out \<noteq> TA_HDCP_STATUS__SUCCESS
             then (MOD_HDCP_STATUS_HDCP2_CREATE_SESSION_FAILURE, hdcp, w')
             else (SUCCESS, set_auth_id (out_session_handle out) hdcp, w'))"

definition mod_hdcp_hdcp2_destroy_session :: "'w hdcp_env \<Rightarrow> 'w mod_hdcp_action" where
  "mod_hdcp_hdcp2_destroy_session env hdcp w =
     (let (out, w') = psp_hdcp_invoke env
            (TA_HDCP_COMMAND__HDCP2_DESTROY_SESSION (auth_id (auth hdcp))) w
      in if hdcp_status out \<noteq> TA_HDCP_STATUS__SUCCESS
         then (MOD_HDCP_STATUS_HDCP2_DESTROY_SESSION_FAILURE, hdcp, w')
         else (SUCCESS, disable_displays hdcp, w'))"

abbreviation prepare_process ::
    "'w hdcp_env \<Rightarrow> hdcp2_message_input \<Rightarrow> 'w \<Rightarrow> ta_hdcp_cmd_output \<times> 'w" where
  "prepare_process env msg_in \<equiv>
     psp_hdcp_invoke env (TA_HDCP_COMMAND__HDCP2_PREPARE_PROCESS_AUTHENTICATION_MSG_V2 msg_in)"

text \<open>\<open>transmitter out off buf\<close>: \<^verbatim>\<open>memcpy(buf, &transmitter_message[off], sizeof(buf))\<close>.\<close>

definition transmitter :: "ta_hdcp_cmd_output \<Rightarrow> nat \<Rightarrow> u8 list \<Rightarrow> u8 list" where
  "transmitter out off buf =
     put_bytes 0 (take (length buf) (drop off (out_transmitter_message out))) buf"

definition mod_hdcp_hdcp2_prepare_ake_init :: "'w hdcp_env \<Rightarrow> 'w mod_hdcp_action" where
  "mod_hdcp_hdcp2_prepare_ake_init env hdcp w =
     (let (out, w') = prepare_process env
            ((hdcp2_message_init hdcp)\<lparr>prepare_msg1_id := TA_HDCP_HDCP2_MSG_ID__AKE_INIT\<rparr>) w
      in if hdcp_status out \<noteq> TA_HDCP_STATUS__SUCCESS
         then (MOD_HDCP_STATUS_HDCP2_PREP_AKE_INIT_FAILURE, hdcp, w')
         else (SUCCESS, set_msg2 (m2_ake_init_update (transmitter out 0)) hdcp, w'))"

definition mod_hdcp_hdcp2_validate_ake_cert :: "'w hdcp_env \<Rightarrow> 'w mod_hdcp_action" where
  "mod_hdcp_hdcp2_validate_ake_cert env hdcp w =
     (let (out, w') = prepare_process env ((hdcp2_message_init hdcp)
            \<lparr>process_msg1_desc := (TA_HDCP_HDCP2_MSG_ID__AKE_SEND_CERT, 534),
             receiver_message := m2_ake_cert (msg2 hdcp),
             prepare_msg1_id := TA_HDCP_HDCP2_MSG_ID__AKE_NO_STORED_KM,
             prepare_msg2_id := TA_HDCP_HDCP2_MSG_ID__AKE_STORED_KM\<rparr>) w
      in if hdcp_status out \<noteq> TA_HDCP_STATUS__SUCCESS
         then (MOD_HDCP_STATUS_HDCP2_VALIDATE_AKE_CERT_FAILURE, hdcp, w')
         else let hdcp' = set_msg2 (\<lambda>m. m\<lparr>m2_ake_no_stored_km := transmitter out 0 (m2_ake_no_stored_km m),
                                          m2_ake_stored_km := transmitter out 129 (m2_ake_stored_km m)\<rparr>) hdcp
              in if out_msg1_status out = TA_HDCP2_MSG_AUTHENTICATION_STATUS__SUCCESS
                 then (SUCCESS, set_conn (\<lambda>c. c\<lparr>is_km_stored := out_is_km_stored out \<noteq> 0,
                                                is_repeater := out_is_repeater out \<noteq> 0\<rparr>) hdcp', w')
                 else if out_msg1_status out = TA_HDCP2_MSG_AUTHENTICATION_STATUS__RECEIVERID_REVOKED
                 then (MOD_HDCP_STATUS_HDCP2_AKE_CERT_REVOKED,
                       set_conn (is_hdcp2_revoked_update (\<lambda>_. True)) hdcp', w')
                 else (MOD_HDCP_STATUS_HDCP2_VALIDATE_AKE_CERT_FAILURE, hdcp', w'))"

definition mod_hdcp_hdcp2_validate_h_prime :: "'w hdcp_env \<Rightarrow> 'w mod_hdcp_action" where
  "mod_hdcp_hdcp2_validate_h_prime env hdcp w =
     (let m = msg2 hdcp; stored = is_km_stored (connection hdcp);
          msg_in = (hdcp2_message_init hdcp)
            \<lparr>process_msg1_desc := (TA_HDCP_HDCP2_MSG_ID__AKE_SEND_H_PRIME, 33),
             receiver_message := m2_ake_h_prime m\<rparr>;
          (out, w') = prepare_process env
            (if stored then msg_in
             else msg_in\<lparr>process_msg2_desc := (TA_HDCP_HDCP2_MSG_ID__AKE_SEND_PAIRING_INFO, 17),
                         receiver_message := m2_ake_h_prime m @ m2_ake_pairing_info m\<rparr>) w
      in (if hdcp_status out \<noteq> TA_HDCP_STATUS__SUCCESS
          then MOD_HDCP_STATUS_HDCP2_VALIDATE_H_PRIME_FAILURE
          else if out_msg1_status out \<noteq> TA_HDCP2_MSG_AUTHENTICATION_STATUS__SUCCESS
          then MOD_HDCP_STATUS_HDCP2_VALIDATE_H_PRIME_FAILURE
          else if \<not> stored \<and> out_msg2_status out \<noteq> TA_HDCP2_MSG_AUTHENTICATION_STATUS__SUCCESS
          then MOD_HDCP_STATUS_HDCP2_VALIDATE_PAIRING_INFO_FAILURE
          else SUCCESS, hdcp, w'))"

definition mod_hdcp_hdcp2_prepare_lc_init :: "'w hdcp_env \<Rightarrow> 'w mod_hdcp_action" where
  "mod_hdcp_hdcp2_prepare_lc_init env hdcp w =
     (let (out, w') = prepare_process env
            ((hdcp2_message_init hdcp)\<lparr>prepare_msg1_id := TA_HDCP_HDCP2_MSG_ID__LC_INIT\<rparr>) w
      in if hdcp_status out \<noteq> TA_HDCP_STATUS__SUCCESS
         then (MOD_HDCP_STATUS_HDCP2_PREP_LC_INIT_FAILURE, hdcp, w')
         else (SUCCESS, set_msg2 (m2_lc_init_update (transmitter out 0)) hdcp, w'))"

definition mod_hdcp_hdcp2_validate_l_prime :: "'w hdcp_env \<Rightarrow> 'w mod_hdcp_action" where
  "mod_hdcp_hdcp2_validate_l_prime env hdcp w =
     (let (out, w') = prepare_process env ((hdcp2_message_init hdcp)
            \<lparr>process_msg1_desc := (TA_HDCP_HDCP2_MSG_ID__LC_SEND_L_PRIME, 33),
             receiver_message := m2_lc_l_prime (msg2 hdcp)\<rparr>) w
      in (if hdcp_status out \<noteq> TA_HDCP_STATUS__SUCCESS \<or>
             out_msg1_status out \<noteq> TA_HDCP2_MSG_AUTHENTICATION_STATUS__SUCCESS
          then MOD_HDCP_STATUS_HDCP2_VALIDATE_L_PRIME_FAILURE else SUCCESS, hdcp, w'))"

definition mod_hdcp_hdcp2_prepare_eks :: "'w hdcp_env \<Rightarrow> 'w mod_hdcp_action" where
  "mod_hdcp_hdcp2_prepare_eks env hdcp w =
     (let msg_in = (hdcp2_message_init hdcp)\<lparr>prepare_msg1_id := TA_HDCP_HDCP2_MSG_ID__SKE_SEND_EKS\<rparr>;
          (out, w') = prepare_process env
            (if is_dp_hdcp hdcp
             then msg_in\<lparr>prepare_msg2_id := TA_HDCP_HDCP2_MSG_ID__SIGNAL_CONTENT_STREAM_TYPE_DP\<rparr>
             else msg_in) w
      in if hdcp_status out \<noteq> TA_HDCP_STATUS__SUCCESS
         then (MOD_HDCP_STATUS_HDCP2_PREP_EKS_FAILURE, hdcp, w')
         else let hdcp' = set_msg2 (m2_ske_eks_update (transmitter out 0)) hdcp
              in (SUCCESS,
                  if is_dp_hdcp hdcp
                  then set_msg2 (m2_content_stream_type_dp_update (transmitter out 25)) hdcp'
                  else hdcp', w'))"

definition mod_hdcp_hdcp2_enable_encryption :: "'w hdcp_env \<Rightarrow> 'w mod_hdcp_action" where
  "mod_hdcp_hdcp2_enable_encryption env hdcp w =
     (case get_first_active_display hdcp of
        None \<Rightarrow> (MOD_HDCP_STATUS_DISPLAY_NOT_FOUND, hdcp, w)
      | Some i \<Rightarrow>
          let (out, w') = psp_hdcp_invoke env
                (TA_HDCP_COMMAND__HDCP2_SET_ENCRYPTION (auth_id (auth hdcp))) w
          in if hdcp_status out \<noteq> TA_HDCP_STATUS__SUCCESS
             then (MOD_HDCP_STATUS_HDCP2_ENABLE_ENCRYPTION_FAILURE, hdcp, w')
             else if \<not> is_dp_mst_hdcp hdcp
             then (SUCCESS, set_display_state i MOD_HDCP_DISPLAY_ENCRYPTION_ENABLED hdcp, w')
             else (SUCCESS, hdcp, w'))"

definition mod_hdcp_hdcp2_validate_rx_id_list :: "'w hdcp_env \<Rightarrow> 'w mod_hdcp_action" where
  "mod_hdcp_hdcp2_validate_rx_id_list env hdcp w =
     (let (out, w') = prepare_process env ((hdcp2_message_init hdcp)
            \<lparr>process_msg1_desc := (TA_HDCP_HDCP2_MSG_ID__REPEATERAUTH_SEND_RECEIVERID_LIST, 177),
             receiver_message := m2_rx_id_list (msg2 hdcp),
             prepare_msg1_id := TA_HDCP_HDCP2_MSG_ID__REPEATERAUTH_SEND_ACK\<rparr>) w
      in if hdcp_status out \<noteq> TA_HDCP_STATUS__SUCCESS
         then (MOD_HDCP_STATUS_HDCP2_VALIDATE_RX_ID_LIST_FAILURE, hdcp, w')
         else let hdcp' = set_msg2 (m2_repeater_auth_ack_update (transmitter out 0)) hdcp
              in if out_msg1_status out = TA_HDCP2_MSG_AUTHENTICATION_STATUS__SUCCESS
                 then (SUCCESS, set_conn (\<lambda>c. c\<lparr>is_km_stored := out_is_km_stored out \<noteq> 0,
                                                is_repeater := out_is_repeater out \<noteq> 0\<rparr>) hdcp', w')
                 else if out_msg1_status out = TA_HDCP2_MSG_AUTHENTICATION_STATUS__RECEIVERID_REVOKED
                 then (MOD_HDCP_STATUS_HDCP2_RX_ID_LIST_REVOKED,
                       set_conn (is_hdcp2_revoked_update (\<lambda>_. True)) hdcp', w')
                 else (MOD_HDCP_STATUS_HDCP2_VALIDATE_RX_ID_LIST_FAILURE, hdcp', w'))"

fun hdcp2_stream_loop :: "'w hdcp_env \<Rightarrow> nat list \<Rightarrow> 'w mod_hdcp_action" where
  "hdcp2_stream_loop env [] hdcp w = (SUCCESS, hdcp, w)"
| "hdcp2_stream_loop env (i # is) hdcp w =
     (let display = displays hdcp ! i in
      if da_disable (disp_adjust display) \<noteq> 0 \<or> disp_state display \<noteq> MOD_HDCP_DISPLAY_ACTIVE
      then hdcp2_stream_loop env is hdcp w
      else let (out, w') = psp_hdcp_invoke env (TA_HDCP_COMMAND__HDCP2_ENABLE_DP_STREAM_ENCRYPTION
                 (auth_id (auth hdcp)) (disp_index display)) w
           in if hdcp_status out \<noteq> TA_HDCP_STATUS__SUCCESS
              then (MOD_HDCP_STATUS_HDCP2_ENABLE_STREAM_ENCRYPTION_FAILURE, hdcp, w')
              else hdcp2_stream_loop env is
                     (set_display_state i MOD_HDCP_DISPLAY_ENCRYPTION_ENABLED hdcp) w')"

definition mod_hdcp_hdcp2_enable_dp_stream_encryption :: "'w hdcp_env \<Rightarrow> 'w mod_hdcp_action" where
  "mod_hdcp_hdcp2_enable_dp_stream_encryption env = hdcp2_stream_loop env [0..<MAX_NUM_OF_DISPLAYS]"

definition mod_hdcp_hdcp2_prepare_stream_management :: "'w hdcp_env \<Rightarrow> 'w mod_hdcp_action" where
  "mod_hdcp_hdcp2_prepare_stream_management env hdcp w =
     (let (out, w') = prepare_process env ((hdcp2_message_init hdcp)
            \<lparr>prepare_msg1_id := TA_HDCP_HDCP2_MSG_ID__REPEATERAUTH_STREAM_MANAGE\<rparr>) w
      in if hdcp_status out \<noteq> TA_HDCP_STATUS__SUCCESS
         then (MOD_HDCP_STATUS_HDCP2_PREPARE_STREAM_MANAGEMENT_FAILURE, hdcp, w')
         else (SUCCESS,
               set_msg2 (\<lambda>m. m\<lparr>m2_stream_manage_size := ucast (out_prepare_msg1_size out),
                                m2_repeater_auth_stream_manage :=
                                  transmitter out 0 (m2_repeater_auth_stream_manage m)\<rparr>) hdcp, w'))"

definition mod_hdcp_hdcp2_validate_stream_ready :: "'w hdcp_env \<Rightarrow> 'w mod_hdcp_action" where
  "mod_hdcp_hdcp2_validate_stream_ready env hdcp w =
     (let (out, w') = prepare_process env ((hdcp2_message_init hdcp)
            \<lparr>process_msg1_desc := (TA_HDCP_HDCP2_MSG_ID__REPEATERAUTH_STREAM_READY, 33),
             receiver_message := m2_repeater_auth_stream_ready (msg2 hdcp)\<rparr>) w
      in (if hdcp_status out = TA_HDCP_STATUS__SUCCESS \<and>
             out_msg1_status out = TA_HDCP2_MSG_AUTHENTICATION_STATUS__SUCCESS
          then SUCCESS else MOD_HDCP_STATUS_HDCP2_VALIDATE_STREAM_READY_FAILURE, hdcp, w'))"

end
