(* ===== verification/Hdcp_Exec.thy ===== *)
theory Hdcp_Exec
  imports Hdcp_Ddc Hdcp_Psp
begin

text \<open>
  The execution functions are sequences of \<^verbatim>\<open>mod_hdcp_execute_and_set\<close> calls that stop
  at the first failure. This theory has that function (from \<^verbatim>\<open>hdcp1_execution.c\<close>) and the
  combinators the sequences are written with; the machines' own functions are in
  \<open>Hdcp1_Exec\<close> and \<open>Hdcp2_Exec\<close>.
\<close>

type_synonym 'w xstate = "mod_hdcp \<times> mod_hdcp_event_context \<times> 'w"
type_synonym 'w step = "'w xstate \<Rightarrow> mod_hdcp_status \<times> 'w xstate"

definition set_input :: "nat \<Rightarrow> u8 \<Rightarrow> mod_hdcp \<Rightarrow> mod_hdcp" where
  "set_input flag v hdcp = hdcp\<lparr>auth := (auth hdcp)\<lparr>trans_input := (input hdcp)(flag := v)\<rparr>\<rparr>"

fun mod_hdcp_execute_and_set :: "'w mod_hdcp_action \<Rightarrow> nat \<Rightarrow> 'w step" where
  "mod_hdcp_execute_and_set func flag (hdcp, event_ctx, w) =
     (let (status, hdcp', w') = func hdcp w in
      (status,
       if status = SUCCESS \<and> input hdcp' flag \<noteq> PASS then set_input flag PASS hdcp'
       else if status \<noteq> SUCCESS \<and> input hdcp' flag \<noteq> FAIL then set_input flag FAIL hdcp'
       else hdcp', event_ctx, w'))"

text \<open>An action that only looks at the module.\<close>

definition check :: "(mod_hdcp \<Rightarrow> mod_hdcp_status) \<Rightarrow> 'w mod_hdcp_action" where
  "check f hdcp w = (f hdcp, hdcp, w)"

text \<open>\<^verbatim>\<open>if (!\<dots>) goto out;\<close> after each step.\<close>

fun run_steps :: "'w step list \<Rightarrow> 'w step" where
  "run_steps [] s = (SUCCESS, s)"
| "run_steps (a # as) s = (let (status, s') = a s in if status \<noteq> SUCCESS then (status, s') else run_steps as s')"

text \<open>A step under a condition, and two steps of which the first one's status is dropped.\<close>

definition when_hdcp :: "(mod_hdcp \<Rightarrow> bool) \<Rightarrow> 'w step \<Rightarrow> 'w step" where
  "when_hdcp P a s = (if P (fst s) then a s else (SUCCESS, s))"

definition and_always :: "'w step \<Rightarrow> 'w step \<Rightarrow> 'w step" where
  "and_always a b s = b (snd (a s))"

fun modify_hdcp :: "(mod_hdcp \<Rightarrow> mod_hdcp) \<Rightarrow> 'w step" where
  "modify_hdcp f (hdcp, event_ctx, w) = (SUCCESS, f hdcp, event_ctx, w)"

text \<open>The test of the event that every execution function starts with.\<close>

fun mark_unexpected :: "'w step" where
  "mark_unexpected (hdcp, event_ctx, w) = (SUCCESS, hdcp, event_ctx\<lparr>unexpected_event := True\<rparr>, w)"

definition expect :: "mod_hdcp_event list \<Rightarrow> 'w step \<Rightarrow> 'w step" where
  "expect evs a s = (if event (fst (snd s)) \<notin> set evs then mark_unexpected s else a s)"

end
