(* ===== verification/Hdcp1_Exec.thy ===== *)
theory Hdcp1_Exec
  imports Hdcp_Exec
begin

text \<open>
  The execution functions of the two HDCP 1.4 machines
  (\<^verbatim>\<open>amd/display/modules/hdcp/hdcp1_execution.c\<close>): the checks on the messages read from
  the sink, one function per state, and the two dispatchers.
\<close>

section \<open>Checks\<close>

text \<open>The eight bytes of the zero-padded KSV as a 64-bit number, little endian.\<close>

definition bytes_u64 :: "u8 list \<Rightarrow> u64" where
  "bytes_u64 bs = foldr (\<lambda>b n. ucast b OR push_bit 8 n) bs 0"

text \<open>The loop of \<^verbatim>\<open>validate_bksv\<close>.\<close>

function bksv_count :: "u64 \<Rightarrow> u8 \<Rightarrow> u8" where
  "bksv_count n count = (if n = 0 then count else bksv_count (n AND (n - 1)) (count + 1))"
  by pat_completeness auto

lemma clear_lowest_less:
  fixes n :: u64
  assumes "n \<noteq> 0"
  shows "unat (n AND (n - 1)) < unat n"
proof -
  have "n AND (n - 1) \<le> n - 1"
    by (rule word_and_le1)
  moreover have "n - 1 < n"
    using assms by (simp add: word_less_nat_alt unat_minus_one unat_gt_0)
  ultimately show ?thesis
    by (simp add: word_less_nat_alt word_le_nat_alt)
qed

termination bksv_count
  by (relation "measure (\<lambda>(n, count). unat n)") (auto simp: clear_lowest_less)

declare bksv_count.simps [simp del]

definition validate_bksv :: "mod_hdcp \<Rightarrow> mod_hdcp_status" where
  "validate_bksv hdcp =
     (let bksv = put_bytes 0 (take 5 (m1_bksv (msg1 hdcp))) (replicate 8 0); n = bytes_u64 bksv in
      if bksv_count n 0 = 20 then SUCCESS else MOD_HDCP_STATUS_HDCP1_INVALID_BKSV)"

definition check_ksv_ready :: "'w hdcp_env \<Rightarrow> mod_hdcp \<Rightarrow> mod_hdcp_status" where
  "check_ksv_ready env hdcp =
     (if is_dp_hdcp hdcp
      then if m1_bstatus (msg1 hdcp) AND DP_BSTATUS_READY env \<noteq> 0 then SUCCESS
           else MOD_HDCP_STATUS_HDCP1_KSV_LIST_NOT_READY
      else if m1_bcaps (msg1 hdcp) AND DRM_HDCP_DDC_BCAPS_KSV_FIFO_READY env \<noteq> 0 then SUCCESS
           else MOD_HDCP_STATUS_HDCP1_KSV_LIST_NOT_READY)"

definition check_hdcp_capable_dp :: "'w hdcp_env \<Rightarrow> mod_hdcp \<Rightarrow> mod_hdcp_status" where
  "check_hdcp_capable_dp env hdcp =
     (if m1_bcaps (msg1 hdcp) AND DP_BCAPS_HDCP_CAPABLE env \<noteq> 0 then SUCCESS
      else MOD_HDCP_STATUS_HDCP1_NOT_CAPABLE)"

definition check_r0p_available_dp :: "'w hdcp_env \<Rightarrow> mod_hdcp \<Rightarrow> mod_hdcp_status" where
  "check_r0p_available_dp env hdcp =
     (if is_dp_hdcp hdcp
      then if m1_bstatus (msg1 hdcp) AND DP_BSTATUS_R0_PRIME_READY env \<noteq> 0 then SUCCESS
           else MOD_HDCP_STATUS_HDCP1_R0_PRIME_PENDING
      else MOD_HDCP_STATUS_INVALID_OPERATION)"

definition check_link_integrity_dp :: "'w hdcp_env \<Rightarrow> mod_hdcp \<Rightarrow> mod_hdcp_status" where
  "check_link_integrity_dp env hdcp =
     (if m1_bstatus (msg1 hdcp) AND DP_BSTATUS_LINK_FAILURE env \<noteq> 0
      then MOD_HDCP_STATUS_HDCP1_LINK_INTEGRITY_FAILURE else SUCCESS)"

definition check_no_reauthentication_request_dp :: "'w hdcp_env \<Rightarrow> mod_hdcp \<Rightarrow> mod_hdcp_status" where
  "check_no_reauthentication_request_dp env hdcp =
     (if m1_bstatus (msg1 hdcp) AND DP_BSTATUS_REAUTH_REQ env \<noteq> 0
      then MOD_HDCP_STATUS_HDCP1_REAUTH_REQUEST_ISSUED else SUCCESS)"

definition check_no_max_cascade :: "'w hdcp_env \<Rightarrow> mod_hdcp \<Rightarrow> mod_hdcp_status" where
  "check_no_max_cascade env hdcp =
     (if is_dp_hdcp hdcp
      then if DRM_HDCP_MAX_CASCADE_EXCEEDED env (drop_bit 8 (m1_binfo_dp (msg1 hdcp)))
           then MOD_HDCP_STATUS_HDCP1_MAX_CASCADE_EXCEEDED_FAILURE else SUCCESS
      else if DRM_HDCP_MAX_CASCADE_EXCEEDED env (drop_bit 8 (m1_bstatus (msg1 hdcp)))
           then MOD_HDCP_STATUS_HDCP1_MAX_CASCADE_EXCEEDED_FAILURE else SUCCESS)"

definition check_no_max_devs :: "'w hdcp_env \<Rightarrow> mod_hdcp \<Rightarrow> mod_hdcp_status" where
  "check_no_max_devs env hdcp =
     (if is_dp_hdcp hdcp
      then if DRM_HDCP_MAX_DEVICE_EXCEEDED env (m1_binfo_dp (msg1 hdcp))
           then MOD_HDCP_STATUS_HDCP1_MAX_DEVS_EXCEEDED_FAILURE else SUCCESS
      else if DRM_HDCP_MAX_DEVICE_EXCEEDED env (m1_bstatus (msg1 hdcp))
           then MOD_HDCP_STATUS_HDCP1_MAX_DEVS_EXCEEDED_FAILURE else SUCCESS)"

definition DRM_HDCP_NUM_DOWNSTREAM :: "u16 \<Rightarrow> u16" where
  "DRM_HDCP_NUM_DOWNSTREAM x = x AND 0x7f"

definition get_device_count_hdcp1 :: "mod_hdcp \<Rightarrow> u8" where
  "get_device_count_hdcp1 hdcp =
     ucast (if is_dp_hdcp hdcp then DRM_HDCP_NUM_DOWNSTREAM (m1_binfo_dp (msg1 hdcp))
            else DRM_HDCP_NUM_DOWNSTREAM (m1_bstatus (msg1 hdcp)))"

text \<open>The comparison is made on C's promoted integers, so it does not wrap.\<close>

definition check_device_count_hdcp1 :: "mod_hdcp \<Rightarrow> mod_hdcp_status" where
  "check_device_count_hdcp1 hdcp =
     (if get_device_count_hdcp1 hdcp = 0 then MOD_HDCP_STATUS_HDCP1_DEVICE_COUNT_MISMATCH_FAILURE
      else if 1 + unat (get_device_count_hdcp1 hdcp) < unat (get_active_display_count hdcp)
      then MOD_HDCP_STATUS_HDCP1_DEVICE_COUNT_MISMATCH_FAILURE else SUCCESS)"

section \<open>States\<close>

definition wait_for_active_rx :: "'w hdcp_env \<Rightarrow> 'w step" where
  "wait_for_active_rx env = expect [MOD_HDCP_EVENT_CALLBACK] (run_steps
     [mod_hdcp_execute_and_set (mod_hdcp_read_bksv env) i1_bksv_read,
      mod_hdcp_execute_and_set (mod_hdcp_read_bcaps env) i1_bcaps_read])"

definition exchange_ksvs :: "'w hdcp_env \<Rightarrow> 'w step" where
  "exchange_ksvs env = expect [MOD_HDCP_EVENT_CALLBACK] (run_steps
     [mod_hdcp_execute_and_set (mod_hdcp_hdcp1_create_session env) i1_create_session,
      mod_hdcp_execute_and_set (mod_hdcp_write_an env) i1_an_write,
      mod_hdcp_execute_and_set (mod_hdcp_write_aksv env) i1_aksv_write,
      mod_hdcp_execute_and_set (mod_hdcp_read_bksv env) i1_bksv_read,
      mod_hdcp_execute_and_set (check validate_bksv) i1_bksv_validation,
      when_hdcp (\<lambda>h. m1_ainfo (msg1 h) \<noteq> 0)
        (mod_hdcp_execute_and_set (mod_hdcp_write_ainfo env) i1_ainfo_write)])"

definition computations_validate_rx_test_for_repeater :: "'w hdcp_env \<Rightarrow> 'w step" where
  "computations_validate_rx_test_for_repeater env = expect [MOD_HDCP_EVENT_CALLBACK] (run_steps
     [mod_hdcp_execute_and_set (mod_hdcp_read_r0p env) i1_r0p_read,
      mod_hdcp_execute_and_set (mod_hdcp_hdcp1_validate_rx env) i1_rx_validation,
      (\<lambda>s. if is_repeater (connection (fst s))
           then when_hdcp (\<lambda>h. \<not> postpone_encryption (adjust1 h))
             (mod_hdcp_execute_and_set (mod_hdcp_hdcp1_enable_encryption env) i1_encryption) s
           else run_steps
             [mod_hdcp_execute_and_set (mod_hdcp_hdcp1_enable_encryption env) i1_encryption,
              when_hdcp is_dp_mst_hdcp (mod_hdcp_execute_and_set
                (mod_hdcp_hdcp1_enable_dp_stream_encryption env) i1_stream_encryption_dp)] s)])"

definition authenticated_hdcp1 :: "'w hdcp_env \<Rightarrow> 'w step" where
  "authenticated_hdcp1 env = expect [MOD_HDCP_EVENT_CALLBACK]
     (mod_hdcp_execute_and_set (mod_hdcp_hdcp1_link_maintenance env) i1_link_maintenance)"

definition wait_for_ready :: "'w hdcp_env \<Rightarrow> 'w step" where
  "wait_for_ready env =
     expect [MOD_HDCP_EVENT_CALLBACK, MOD_HDCP_EVENT_CPIRQ, MOD_HDCP_EVENT_WATCHDOG_TIMEOUT] (run_steps
     [(\<lambda>s. if is_dp_hdcp (fst s)
           then run_steps
             [mod_hdcp_execute_and_set (mod_hdcp_read_bstatus env) i1_bstatus_read,
              mod_hdcp_execute_and_set (check (check_link_integrity_dp env)) i1_link_integrity_check,
              mod_hdcp_execute_and_set (check (check_no_reauthentication_request_dp env))
                i1_reauth_request_check] s
           else mod_hdcp_execute_and_set (mod_hdcp_read_bcaps env) i1_bcaps_read s),
      mod_hdcp_execute_and_set (check (check_ksv_ready env)) i1_ready_check])"

text \<open>\<^verbatim>\<open>hdcp->auth.msg.hdcp1.ksvlist_size = device_count*5\<close>\<close>

definition set_ksvlist_size :: "mod_hdcp \<Rightarrow> mod_hdcp" where
  "set_ksvlist_size hdcp =
     set_msg1 (m1_ksvlist_size_update (\<lambda>_. ucast (get_device_count_hdcp1 hdcp) * 5)) hdcp"

definition read_ksv_list :: "'w hdcp_env \<Rightarrow> 'w step" where
  "read_ksv_list env = expect [MOD_HDCP_EVENT_CALLBACK] (run_steps
     [(\<lambda>s. if is_dp_hdcp (fst s)
           then mod_hdcp_execute_and_set (mod_hdcp_read_binfo env) i1_binfo_read_dp s
           else mod_hdcp_execute_and_set (mod_hdcp_read_bstatus env) i1_bstatus_read s),
      mod_hdcp_execute_and_set (check (check_no_max_cascade env)) i1_max_cascade_check,
      mod_hdcp_execute_and_set (check (check_no_max_devs env)) i1_max_devs_check,
      mod_hdcp_execute_and_set (check check_device_count_hdcp1) i1_device_count_check,
      modify_hdcp set_ksvlist_size,
      mod_hdcp_execute_and_set (mod_hdcp_read_ksvlist env) i1_ksvlist_read,
      mod_hdcp_execute_and_set (mod_hdcp_read_vp env) i1_vp_read,
      mod_hdcp_execute_and_set (mod_hdcp_hdcp1_validate_ksvlist_vp env) i1_ksvlist_vp_validation,
      when_hdcp (\<lambda>h. input h i1_encryption \<noteq> PASS)
        (mod_hdcp_execute_and_set (mod_hdcp_hdcp1_enable_encryption env) i1_encryption),
      when_hdcp is_dp_mst_hdcp (mod_hdcp_execute_and_set
        (mod_hdcp_hdcp1_enable_dp_stream_encryption env) i1_stream_encryption_dp)])"

definition determine_rx_hdcp_capable_dp_hdcp1 :: "'w hdcp_env \<Rightarrow> 'w step" where
  "determine_rx_hdcp_capable_dp_hdcp1 env = expect [MOD_HDCP_EVENT_CALLBACK] (run_steps
     [mod_hdcp_execute_and_set (mod_hdcp_read_bcaps env) i1_bcaps_read,
      mod_hdcp_execute_and_set (check (check_hdcp_capable_dp env)) i1_hdcp_capable_dp])"

definition wait_for_r0_prime_dp :: "'w hdcp_env \<Rightarrow> 'w step" where
  "wait_for_r0_prime_dp env = expect [MOD_HDCP_EVENT_CPIRQ, MOD_HDCP_EVENT_WATCHDOG_TIMEOUT] (run_steps
     [mod_hdcp_execute_and_set (mod_hdcp_read_bstatus env) i1_bstatus_read,
      mod_hdcp_execute_and_set (check (check_r0p_available_dp env)) i1_r0p_available_dp])"

definition authenticated_dp :: "'w hdcp_env \<Rightarrow> 'w step" where
  "authenticated_dp env = expect [MOD_HDCP_EVENT_CPIRQ]
     (and_always (mod_hdcp_execute_and_set (mod_hdcp_read_bstatus env) i1_bstatus_read)
     (and_always (mod_hdcp_execute_and_set (check (check_link_integrity_dp env)) i1_link_integrity_check)
                 (mod_hdcp_execute_and_set (check (check_no_reauthentication_request_dp env))
                    i1_reauth_request_check)))"

section \<open>Dispatch\<close>

definition mod_hdcp_hdcp1_execution :: "'w hdcp_env \<Rightarrow> 'w step" where
  "mod_hdcp_hdcp1_execution env s =
     (let i = current_state (fst s) in
      if i = H1_A0_WAIT_FOR_ACTIVE_RX then wait_for_active_rx env s
      else if i = H1_A1_EXCHANGE_KSVS then exchange_ksvs env s
      else if i = H1_A2_COMPUTATIONS_A3_VALIDATE_RX_A6_TEST_FOR_REPEATER
      then computations_validate_rx_test_for_repeater env s
      else if i = H1_A45_AUTHENTICATED then authenticated_hdcp1 env s
      else if i = H1_A8_WAIT_FOR_READY then wait_for_ready env s
      else if i = H1_A9_READ_KSV_LIST then read_ksv_list env s
      else (MOD_HDCP_STATUS_INVALID_STATE, s))"

definition mod_hdcp_hdcp1_dp_execution :: "'w hdcp_env \<Rightarrow> 'w step" where
  "mod_hdcp_hdcp1_dp_execution env s =
     (let i = current_state (fst s) in
      if i = D1_A0_DETERMINE_RX_HDCP_CAPABLE then determine_rx_hdcp_capable_dp_hdcp1 env s
      else if i = D1_A1_EXCHANGE_KSVS then exchange_ksvs env s
      else if i = D1_A23_WAIT_FOR_R0_PRIME then wait_for_r0_prime_dp env s
      else if i = D1_A2_COMPUTATIONS_A3_VALIDATE_RX_A5_TEST_FOR_REPEATER
      then computations_validate_rx_test_for_repeater env s
      else if i = D1_A4_AUTHENTICATED then authenticated_dp env s
      else if i = D1_A6_WAIT_FOR_READY then wait_for_ready env s
      else if i = D1_A7_READ_KSV_LIST then read_ksv_list env s
      else (MOD_HDCP_STATUS_INVALID_STATE, s))"

end
