(* ===== verification/Hdcp2_Exec.thy ===== *)
theory Hdcp2_Exec
  imports Hdcp_Exec
begin

text \<open>
  The execution functions of the two HDCP 2.2 machines
  (\<^verbatim>\<open>amd/display/modules/hdcp/hdcp2_execution.c\<close>): the checks on the receiver status and
  messages, one function per state, and the two dispatchers. Sleeping is not modelled.
\<close>

section \<open>Checks\<close>

text \<open>
  The masks of \<^verbatim>\<open>include/kcl/kcl_drm_hdcp.h\<close>, as the condition the code tests.
\<close>

abbreviation HDCP_2_2_HDMI_SUPPORT_MASK :: u8 where "HDCP_2_2_HDMI_SUPPORT_MASK \<equiv> 4"
abbreviation HDCP_2_2_RX_CAPS_VERSION_VAL :: u8 where "HDCP_2_2_RX_CAPS_VERSION_VAL \<equiv> 2"
abbreviation HDCP_2_2_DP_HDCP_CAPABLE :: "u8 \<Rightarrow> bool" where "HDCP_2_2_DP_HDCP_CAPABLE x \<equiv> x AND 2 \<noteq> 0"
abbreviation HDCP_2_2_HDMI_RXSTATUS_MSG_SZ_HI :: "u8 \<Rightarrow> u8" where
  "HDCP_2_2_HDMI_RXSTATUS_MSG_SZ_HI x \<equiv> x AND 3"
abbreviation HDCP_2_2_HDMI_RXSTATUS_READY :: "u8 \<Rightarrow> bool" where
  "HDCP_2_2_HDMI_RXSTATUS_READY x \<equiv> x AND 4 \<noteq> 0"
abbreviation HDCP_2_2_HDMI_RXSTATUS_REAUTH_REQ :: "u8 \<Rightarrow> bool" where
  "HDCP_2_2_HDMI_RXSTATUS_REAUTH_REQ x \<equiv> x AND 8 \<noteq> 0"
abbreviation HDCP_2_2_DP_RXSTATUS_READY :: "u8 \<Rightarrow> bool" where
  "HDCP_2_2_DP_RXSTATUS_READY x \<equiv> x AND 1 \<noteq> 0"
abbreviation HDCP_2_2_DP_RXSTATUS_H_PRIME :: "u8 \<Rightarrow> bool" where
  "HDCP_2_2_DP_RXSTATUS_H_PRIME x \<equiv> x AND 2 \<noteq> 0"
abbreviation HDCP_2_2_DP_RXSTATUS_PAIRING :: "u8 \<Rightarrow> bool" where
  "HDCP_2_2_DP_RXSTATUS_PAIRING x \<equiv> x AND 4 \<noteq> 0"
abbreviation HDCP_2_2_DP_RXSTATUS_REAUTH_REQ :: "u8 \<Rightarrow> bool" where
  "HDCP_2_2_DP_RXSTATUS_REAUTH_REQ x \<equiv> x AND 8 \<noteq> 0"
abbreviation HDCP_2_2_DP_RXSTATUS_LINK_FAILED :: "u8 \<Rightarrow> bool" where
  "HDCP_2_2_DP_RXSTATUS_LINK_FAILED x \<equiv> x AND 16 \<noteq> 0"

definition get_hdmi_rxstatus_msg_size :: "u8 list \<Rightarrow> u16" where
  "get_hdmi_rxstatus_msg_size rxstatus =
     push_bit 8 (ucast (HDCP_2_2_HDMI_RXSTATUS_MSG_SZ_HI (rxstatus ! 1))) OR ucast (rxstatus ! 0)"

definition check_receiver_id_list_ready :: "mod_hdcp \<Rightarrow> mod_hdcp_status" where
  "check_receiver_id_list_ready hdcp =
     (let is_ready =
        (if is_dp_hdcp hdcp then HDCP_2_2_DP_RXSTATUS_READY (m2_rxstatus_dp (msg2 hdcp))
         else HDCP_2_2_HDMI_RXSTATUS_READY (m2_rxstatus (msg2 hdcp) ! 1) \<and>
              get_hdmi_rxstatus_msg_size (m2_rxstatus (msg2 hdcp)) \<noteq> 0)
      in if is_ready then SUCCESS else MOD_HDCP_STATUS_HDCP2_RX_ID_LIST_NOT_READY)"

definition check_hdcp2_capable :: "mod_hdcp \<Rightarrow> mod_hdcp_status" where
  "check_hdcp2_capable hdcp =
     (if is_dp_hdcp hdcp
      then if m2_rxcaps_dp (msg2 hdcp) ! 0 = HDCP_2_2_RX_CAPS_VERSION_VAL \<and>
              HDCP_2_2_DP_HDCP_CAPABLE (m2_rxcaps_dp (msg2 hdcp) ! 2)
           then SUCCESS else MOD_HDCP_STATUS_HDCP2_NOT_CAPABLE
      else if m2_hdcp2version_hdmi (msg2 hdcp) AND HDCP_2_2_HDMI_SUPPORT_MASK \<noteq> 0
           then SUCCESS else MOD_HDCP_STATUS_HDCP2_NOT_CAPABLE)"

definition check_reauthentication_request :: "mod_hdcp \<Rightarrow> mod_hdcp_status" where
  "check_reauthentication_request hdcp =
     (if is_dp_hdcp hdcp
      then if HDCP_2_2_DP_RXSTATUS_REAUTH_REQ (m2_rxstatus_dp (msg2 hdcp))
           then MOD_HDCP_STATUS_HDCP2_REAUTH_REQUEST else SUCCESS
      else if HDCP_2_2_HDMI_RXSTATUS_REAUTH_REQ (m2_rxstatus (msg2 hdcp) ! 1)
           then MOD_HDCP_STATUS_HDCP2_REAUTH_REQUEST else SUCCESS)"

definition check_link_integrity_failure_dp :: "mod_hdcp \<Rightarrow> mod_hdcp_status" where
  "check_link_integrity_failure_dp hdcp =
     (if HDCP_2_2_DP_RXSTATUS_LINK_FAILED (m2_rxstatus_dp (msg2 hdcp))
      then MOD_HDCP_STATUS_HDCP2_REAUTH_LINK_INTEGRITY_FAILURE else SUCCESS)"

text \<open>The comparison of the announced message size with the size of a buffer.\<close>

definition check_msg_size :: "u16 \<Rightarrow> mod_hdcp_status \<Rightarrow> mod_hdcp \<Rightarrow> mod_hdcp_status" where
  "check_msg_size msg_size pending hdcp =
     (if get_hdmi_rxstatus_msg_size (m2_rxstatus (msg2 hdcp)) = msg_size then SUCCESS else pending)"

definition check_ake_cert_available :: "'w hdcp_env \<Rightarrow> 'w mod_hdcp_action" where
  "check_ake_cert_available env hdcp w =
     (if is_dp_hdcp hdcp then (SUCCESS, hdcp, w)
      else let (status, hdcp', w') = mod_hdcp_read_rxstatus env hdcp w
           in if status = SUCCESS
              then (check_msg_size 534 MOD_HDCP_STATUS_HDCP2_AKE_CERT_PENDING hdcp', hdcp', w')
              else (status, hdcp', w'))"

definition check_h_prime_available :: "'w hdcp_env \<Rightarrow> 'w mod_hdcp_action" where
  "check_h_prime_available env hdcp w =
     (let (status, hdcp', w') = mod_hdcp_read_rxstatus env hdcp w
      in if status \<noteq> SUCCESS then (status, hdcp', w')
         else (if is_dp_hdcp hdcp'
               then if HDCP_2_2_DP_RXSTATUS_H_PRIME (m2_rxstatus_dp (msg2 hdcp')) then SUCCESS
                    else MOD_HDCP_STATUS_HDCP2_H_PRIME_PENDING
               else check_msg_size 33 MOD_HDCP_STATUS_HDCP2_H_PRIME_PENDING hdcp', hdcp', w'))"

definition check_pairing_info_available :: "'w hdcp_env \<Rightarrow> 'w mod_hdcp_action" where
  "check_pairing_info_available env hdcp w =
     (let (status, hdcp', w') = mod_hdcp_read_rxstatus env hdcp w
      in if status \<noteq> SUCCESS then (status, hdcp', w')
         else (if is_dp_hdcp hdcp'
               then if HDCP_2_2_DP_RXSTATUS_PAIRING (m2_rxstatus_dp (msg2 hdcp')) then SUCCESS
                    else MOD_HDCP_STATUS_HDCP2_PAIRING_INFO_PENDING
               else check_msg_size 17 MOD_HDCP_STATUS_HDCP2_PAIRING_INFO_PENDING hdcp', hdcp', w'))"

text \<open>The polling loop, with the number of polls that are left.\<close>

fun poll_l_prime_loop :: "'w hdcp_env \<Rightarrow> nat \<Rightarrow> mod_hdcp_status \<Rightarrow> 'w mod_hdcp_action" where
  "poll_l_prime_loop env 0 status hdcp w = (status, hdcp, w)"
| "poll_l_prime_loop env (Suc num_polls) status hdcp w =
     (let (status, hdcp', w') = mod_hdcp_read_rxstatus env hdcp w
      in if status \<noteq> SUCCESS then (status, hdcp', w')
         else let status = check_msg_size 33 MOD_HDCP_STATUS_HDCP2_L_PRIME_PENDING hdcp'
              in if status = SUCCESS then (status, hdcp', w')
                 else poll_l_prime_loop env num_polls status hdcp' w')"

definition poll_l_prime_available :: "'w hdcp_env \<Rightarrow> 'w mod_hdcp_action" where
  "poll_l_prime_available env hdcp w =
     (if is_dp_hdcp hdcp then (MOD_HDCP_STATUS_INVALID_OPERATION, hdcp, w)
      else poll_l_prime_loop env 5 MOD_HDCP_STATUS_FAILURE hdcp w)"

definition check_stream_ready_available :: "'w hdcp_env \<Rightarrow> 'w mod_hdcp_action" where
  "check_stream_ready_available env hdcp w =
     (if is_dp_hdcp hdcp then (MOD_HDCP_STATUS_INVALID_OPERATION, hdcp, w)
      else let (status, hdcp', w') = mod_hdcp_read_rxstatus env hdcp w
           in if status \<noteq> SUCCESS then (status, hdcp', w')
              else (check_msg_size 33 MOD_HDCP_STATUS_HDCP2_STREAM_READY_PENDING hdcp', hdcp', w'))"

definition get_device_count_hdcp2 :: "mod_hdcp \<Rightarrow> u8" where
  "get_device_count_hdcp2 hdcp =
     HDCP_2_2_DEV_COUNT_LO (m2_rx_id_list (msg2 hdcp) ! 2) +
     push_bit 4 (HDCP_2_2_DEV_COUNT_HI (m2_rx_id_list (msg2 hdcp) ! 1))"

definition check_device_count_hdcp2 :: "mod_hdcp \<Rightarrow> mod_hdcp_status" where
  "check_device_count_hdcp2 hdcp =
     (if get_device_count_hdcp2 hdcp = 0 then MOD_HDCP_STATUS_HDCP1_DEVICE_COUNT_MISMATCH_FAILURE
      else if 1 + unat (get_device_count_hdcp2 hdcp) < unat (get_active_display_count hdcp)
      then MOD_HDCP_STATUS_HDCP2_DEVICE_COUNT_MISMATCH_FAILURE else SUCCESS)"

section \<open>Receiver status\<close>

text \<open>The announcement of a receiver id list by a repeater.\<close>

fun note_rx_id_list_ready :: "'w step" where
  "note_rx_id_list_ready (hdcp, event_ctx, w) =
     (if is_repeater (connection hdcp) \<and> check_receiver_id_list_ready hdcp = SUCCESS
      then (SUCCESS,
            set_msg2 (m2_rx_id_list_size_update (\<lambda>_.
              if is_dp_hdcp hdcp then 177 else get_hdmi_rxstatus_msg_size (m2_rxstatus (msg2 hdcp)))) hdcp,
            event_ctx\<lparr>rx_id_list_ready := True\<rparr>, w)
      else (SUCCESS, hdcp, event_ctx, w))"

definition process_rxstatus :: "'w hdcp_env \<Rightarrow> 'w step" where
  "process_rxstatus env = run_steps
     [mod_hdcp_execute_and_set (mod_hdcp_read_rxstatus env) i2_rxstatus_read,
      mod_hdcp_execute_and_set (check check_reauthentication_request) i2_reauth_request_check,
      when_hdcp is_dp_hdcp
        (mod_hdcp_execute_and_set (check check_link_integrity_failure_dp) i2_link_integrity_check_dp),
      note_rx_id_list_ready]"

text \<open>
  The start that three states share: on HDMI the receiver status is processed first, and a failure or
  an announced receiver id list ends the execution.
\<close>

definition hdmi_rxstatus_then :: "'w hdcp_env \<Rightarrow> 'w step \<Rightarrow> 'w step" where
  "hdmi_rxstatus_then env rest s =
     (if is_hdmi_dvi_sl_hdcp (fst s)
      then let (status, s') = process_rxstatus env s
           in if status \<noteq> SUCCESS then (status, s')
              else if rx_id_list_ready (fst (snd s')) then (status, s') else rest s'
      else rest s)"

text \<open>A CP\_IRQ in these states only processes the receiver status.\<close>

definition cpirq_or :: "'w hdcp_env \<Rightarrow> 'w step \<Rightarrow> 'w step" where
  "cpirq_or env rest s =
     (if event (fst (snd s)) = MOD_HDCP_EVENT_CPIRQ then process_rxstatus env s else rest s)"

section \<open>States\<close>

definition known_hdcp2_capable_rx :: "'w hdcp_env \<Rightarrow> 'w step" where
  "known_hdcp2_capable_rx env = expect [MOD_HDCP_EVENT_CALLBACK] (run_steps
     [mod_hdcp_execute_and_set (mod_hdcp_read_hdcp2version env) i2_hdcp2version_read,
      mod_hdcp_execute_and_set (check check_hdcp2_capable) i2_hdcp2_capable_check])"

definition send_ake_init :: "'w hdcp_env \<Rightarrow> 'w step" where
  "send_ake_init env = expect [MOD_HDCP_EVENT_CALLBACK] (run_steps
     [mod_hdcp_execute_and_set (mod_hdcp_hdcp2_create_session env) i2_create_session,
      mod_hdcp_execute_and_set (mod_hdcp_hdcp2_prepare_ake_init env) i2_ake_init_prepare,
      mod_hdcp_execute_and_set (mod_hdcp_write_ake_init env) i2_ake_init_write])"

definition validate_ake_cert :: "'w hdcp_env \<Rightarrow> 'w step" where
  "validate_ake_cert env = expect [MOD_HDCP_EVENT_CALLBACK, MOD_HDCP_EVENT_WATCHDOG_TIMEOUT] (run_steps
     [when_hdcp is_hdmi_dvi_sl_hdcp
        (mod_hdcp_execute_and_set (check_ake_cert_available env) i2_ake_cert_available),
      mod_hdcp_execute_and_set (mod_hdcp_read_ake_cert env) i2_ake_cert_read,
      mod_hdcp_execute_and_set (mod_hdcp_hdcp2_validate_ake_cert env) i2_ake_cert_validation])"

definition send_no_stored_km :: "'w hdcp_env \<Rightarrow> 'w step" where
  "send_no_stored_km env = expect [MOD_HDCP_EVENT_CALLBACK] (run_steps
     [mod_hdcp_execute_and_set (mod_hdcp_write_no_stored_km env) i2_no_stored_km_write])"

abbreviation any_event :: "mod_hdcp_event list" where
  "any_event \<equiv> [MOD_HDCP_EVENT_CALLBACK, MOD_HDCP_EVENT_CPIRQ, MOD_HDCP_EVENT_WATCHDOG_TIMEOUT]"

definition read_h_prime :: "'w hdcp_env \<Rightarrow> 'w step" where
  "read_h_prime env = expect any_event (run_steps
     [mod_hdcp_execute_and_set (check_h_prime_available env) i2_h_prime_available,
      mod_hdcp_execute_and_set (mod_hdcp_read_h_prime env) i2_h_prime_read])"

definition read_pairing_info_and_validate_h_prime :: "'w hdcp_env \<Rightarrow> 'w step" where
  "read_pairing_info_and_validate_h_prime env = expect any_event (run_steps
     [mod_hdcp_execute_and_set (check_pairing_info_available env) i2_pairing_available,
      mod_hdcp_execute_and_set (mod_hdcp_read_pairing_info env) i2_pairing_info_read,
      mod_hdcp_execute_and_set (mod_hdcp_hdcp2_validate_h_prime env) i2_h_prime_validation])"

definition send_stored_km :: "'w hdcp_env \<Rightarrow> 'w step" where
  "send_stored_km env = expect [MOD_HDCP_EVENT_CALLBACK] (run_steps
     [mod_hdcp_execute_and_set (mod_hdcp_write_stored_km env) i2_stored_km_write])"

definition validate_h_prime :: "'w hdcp_env \<Rightarrow> 'w step" where
  "validate_h_prime env = expect any_event (run_steps
     [mod_hdcp_execute_and_set (check_h_prime_available env) i2_h_prime_available,
      mod_hdcp_execute_and_set (mod_hdcp_read_h_prime env) i2_h_prime_read,
      mod_hdcp_execute_and_set (mod_hdcp_hdcp2_validate_h_prime env) i2_h_prime_validation])"

definition locality_check_sw :: "'w hdcp_env \<Rightarrow> 'w step" where
  "locality_check_sw env = run_steps
     [mod_hdcp_execute_and_set (mod_hdcp_write_lc_init env) i2_lc_init_write,
      when_hdcp (\<lambda>h. \<not> is_dp_hdcp h)
        (mod_hdcp_execute_and_set (poll_l_prime_available env) i2_l_prime_available_poll),
      mod_hdcp_execute_and_set (mod_hdcp_read_l_prime env) i2_l_prime_read]"

definition locality_check_fw :: "'w hdcp_env \<Rightarrow> 'w step" where
  "locality_check_fw env = run_steps
     [mod_hdcp_execute_and_set (mod_hdcp_write_poll_read_lc_fw env) i2_l_prime_read]"

definition locality_check :: "'w hdcp_env \<Rightarrow> 'w step" where
  "locality_check env s =
     (let hdcp = fst s;
          use_fw = (atomic_write_poll_read_i2c (config hdcp) \<and> atomic_write_poll_read_aux (config hdcp) \<and>
                    \<not> force_sw_locality_check (adjust2 hdcp))
      in expect [MOD_HDCP_EVENT_CALLBACK] (run_steps
           [mod_hdcp_execute_and_set (mod_hdcp_hdcp2_prepare_lc_init env) i2_lc_init_prepare,
            (if use_fw then locality_check_fw else locality_check_sw) env,
            mod_hdcp_execute_and_set (mod_hdcp_hdcp2_validate_l_prime env) i2_l_prime_validation]) s)"

definition exchange_ks_and_test_for_repeater :: "'w hdcp_env \<Rightarrow> 'w step" where
  "exchange_ks_and_test_for_repeater env = expect [MOD_HDCP_EVENT_CALLBACK] (run_steps
     [mod_hdcp_execute_and_set (mod_hdcp_hdcp2_prepare_eks env) i2_eks_prepare,
      mod_hdcp_execute_and_set (mod_hdcp_write_eks env) i2_eks_write])"

definition enable_encryption :: "'w hdcp_env \<Rightarrow> 'w step" where
  "enable_encryption env = expect [MOD_HDCP_EVENT_CALLBACK, MOD_HDCP_EVENT_CPIRQ]
     (cpirq_or env (hdmi_rxstatus_then env (run_steps
        [mod_hdcp_execute_and_set (mod_hdcp_hdcp2_enable_encryption env) i2_enable_encryption,
         when_hdcp is_dp_mst_hdcp (mod_hdcp_execute_and_set
           (mod_hdcp_hdcp2_enable_dp_stream_encryption env) i2_stream_encryption_dp)])))"

definition authenticated_hdcp2 :: "'w hdcp_env \<Rightarrow> 'w step" where
  "authenticated_hdcp2 env =
     expect [MOD_HDCP_EVENT_CALLBACK, MOD_HDCP_EVENT_CPIRQ] (process_rxstatus env)"

definition wait_for_rx_id_list :: "'w hdcp_env \<Rightarrow> 'w step" where
  "wait_for_rx_id_list env = expect any_event (\<lambda>s.
     let (status, s') = process_rxstatus env s
     in if status \<noteq> SUCCESS then (status, s')
        else if \<not> rx_id_list_ready (fst (snd s')) then (MOD_HDCP_STATUS_HDCP2_RX_ID_LIST_NOT_READY, s')
        else (status, s'))"

definition verify_rx_id_list_and_send_ack :: "'w hdcp_env \<Rightarrow> 'w step" where
  "verify_rx_id_list_and_send_ack env = expect [MOD_HDCP_EVENT_CALLBACK, MOD_HDCP_EVENT_CPIRQ]
     (cpirq_or env (run_steps
        [mod_hdcp_execute_and_set (mod_hdcp_read_rx_id_list env) i2_rx_id_list_read,
         mod_hdcp_execute_and_set (check check_device_count_hdcp2) i2_device_count_check,
         mod_hdcp_execute_and_set (mod_hdcp_hdcp2_validate_rx_id_list env) i2_rx_id_list_validation,
         mod_hdcp_execute_and_set (mod_hdcp_write_repeater_auth_ack env) i2_repeater_auth_ack_write]))"

definition send_stream_management :: "'w hdcp_env \<Rightarrow> 'w step" where
  "send_stream_management env = expect [MOD_HDCP_EVENT_CALLBACK, MOD_HDCP_EVENT_CPIRQ]
     (cpirq_or env (hdmi_rxstatus_then env (run_steps
        [mod_hdcp_execute_and_set (mod_hdcp_hdcp2_prepare_stream_management env) i2_prepare_stream_manage,
         mod_hdcp_execute_and_set (mod_hdcp_write_stream_manage env) i2_stream_manage_write])))"

definition validate_stream_ready :: "'w hdcp_env \<Rightarrow> 'w step" where
  "validate_stream_ready env = expect any_event
     (cpirq_or env (hdmi_rxstatus_then env (run_steps
        [when_hdcp is_hdmi_dvi_sl_hdcp
           (mod_hdcp_execute_and_set (check_stream_ready_available env) i2_stream_ready_available),
         mod_hdcp_execute_and_set (mod_hdcp_read_stream_ready env) i2_stream_ready_read,
         mod_hdcp_execute_and_set (mod_hdcp_hdcp2_validate_stream_ready env) i2_stream_ready_validation])))"

definition determine_rx_hdcp_capable_dp_hdcp2 :: "'w hdcp_env \<Rightarrow> 'w step" where
  "determine_rx_hdcp_capable_dp_hdcp2 env = expect [MOD_HDCP_EVENT_CALLBACK] (run_steps
     [mod_hdcp_execute_and_set (mod_hdcp_read_rxcaps env) i2_rx_caps_read_dp,
      mod_hdcp_execute_and_set (check check_hdcp2_capable) i2_hdcp2_capable_check])"

definition send_content_stream_type_dp :: "'w hdcp_env \<Rightarrow> 'w step" where
  "send_content_stream_type_dp env = expect [MOD_HDCP_EVENT_CALLBACK, MOD_HDCP_EVENT_CPIRQ] (run_steps
     [process_rxstatus env,
      mod_hdcp_execute_and_set (mod_hdcp_write_content_type env) i2_content_stream_type_write])"

section \<open>Dispatch\<close>

definition mod_hdcp_hdcp2_execution :: "'w hdcp_env \<Rightarrow> 'w step" where
  "mod_hdcp_hdcp2_execution env s =
     (let i = current_state (fst s) in
      if i = H2_A0_KNOWN_HDCP2_CAPABLE_RX then known_hdcp2_capable_rx env s
      else if i = H2_A1_SEND_AKE_INIT then send_ake_init env s
      else if i = H2_A1_VALIDATE_AKE_CERT then validate_ake_cert env s
      else if i = H2_A1_SEND_NO_STORED_KM then send_no_stored_km env s
      else if i = H2_A1_READ_H_PRIME then read_h_prime env s
      else if i = H2_A1_READ_PAIRING_INFO_AND_VALIDATE_H_PRIME
      then read_pairing_info_and_validate_h_prime env s
      else if i = H2_A1_SEND_STORED_KM then send_stored_km env s
      else if i = H2_A1_VALIDATE_H_PRIME then validate_h_prime env s
      else if i = H2_A2_LOCALITY_CHECK then locality_check env s
      else if i = H2_A3_EXCHANGE_KS_AND_TEST_FOR_REPEATER then exchange_ks_and_test_for_repeater env s
      else if i = H2_ENABLE_ENCRYPTION then enable_encryption env s
      else if i = H2_A5_AUTHENTICATED then authenticated_hdcp2 env s
      else if i = H2_A6_WAIT_FOR_RX_ID_LIST then wait_for_rx_id_list env s
      else if i = H2_A78_VERIFY_RX_ID_LIST_AND_SEND_ACK then verify_rx_id_list_and_send_ack env s
      else if i = H2_A9_SEND_STREAM_MANAGEMENT then send_stream_management env s
      else if i = H2_A9_VALIDATE_STREAM_READY then validate_stream_ready env s
      else (MOD_HDCP_STATUS_INVALID_STATE, s))"

definition mod_hdcp_hdcp2_dp_execution :: "'w hdcp_env \<Rightarrow> 'w step" where
  "mod_hdcp_hdcp2_dp_execution env s =
     (let i = current_state (fst s) in
      if i = D2_A0_DETERMINE_RX_HDCP_CAPABLE then determine_rx_hdcp_capable_dp_hdcp2 env s
      else if i = D2_A1_SEND_AKE_INIT then send_ake_init env s
      else if i = D2_A1_VALIDATE_AKE_CERT then validate_ake_cert env s
      else if i = D2_A1_SEND_NO_STORED_KM then send_no_stored_km env s
      else if i = D2_A1_READ_H_PRIME then read_h_prime env s
      else if i = D2_A1_READ_PAIRING_INFO_AND_VALIDATE_H_PRIME
      then read_pairing_info_and_validate_h_prime env s
      else if i = D2_A1_SEND_STORED_KM then send_stored_km env s
      else if i = D2_A1_VALIDATE_H_PRIME then validate_h_prime env s
      else if i = D2_A2_LOCALITY_CHECK then locality_check env s
      else if i = D2_A34_EXCHANGE_KS_AND_TEST_FOR_REPEATER then exchange_ks_and_test_for_repeater env s
      else if i = D2_SEND_CONTENT_STREAM_TYPE then send_content_stream_type_dp env s
      else if i = D2_ENABLE_ENCRYPTION then enable_encryption env s
      else if i = D2_A5_AUTHENTICATED then authenticated_hdcp2 env s
      else if i = D2_A6_WAIT_FOR_RX_ID_LIST then wait_for_rx_id_list env s
      else if i = D2_A78_VERIFY_RX_ID_LIST_AND_SEND_ACK then verify_rx_id_list_and_send_ack env s
      else if i = D2_A9_SEND_STREAM_MANAGEMENT then send_stream_management env s
      else if i = D2_A9_VALIDATE_STREAM_READY then validate_stream_ready env s
      else (MOD_HDCP_STATUS_INVALID_STATE, s))"

end
