(* ===== verification/Hdcp_Frame.thy ===== *)
theory Hdcp_Frame
  imports Hdcp1_Exec Hdcp2_Exec
begin

text \<open>
  What the DDC and PSP actions and the execution functions leave alone. \<open>same_module\<close>
  relates two states of the module that agree on everything except the messages, the session handle,
  the flags of the transition input and what the security processor reports; \<open>quiet\<close> is an
  action that respects it, and \<open>touches\<close> a step that moreover writes only the given flags.
\<close>

section \<open>Relating module states\<close>

definition same_display :: "mod_hdcp_display \<Rightarrow> mod_hdcp_display \<Rightarrow> bool" where
  "same_display d d' \<longleftrightarrow> disp_index d' = disp_index d \<and> disp_adjust d' = disp_adjust d \<and>
     is_display_active d' = is_display_active d"

definition same_module :: "mod_hdcp \<Rightarrow> mod_hdcp \<Rightarrow> bool" where
  "same_module h h' \<longleftrightarrow>
     config h' = config h \<and> state h' = state h \<and>
     stream_management_retry_count (auth h') = stream_management_retry_count (auth h) \<and>
     link (connection h') = link (connection h) \<and> conn_trace (connection h') = conn_trace (connection h) \<and>
     hdcp1_retry_count (connection h') = hdcp1_retry_count (connection h) \<and>
     hdcp2_retry_count (connection h') = hdcp2_retry_count (connection h) \<and>
     list_all2 same_display (displays h) (displays h')"

lemma same_display_refl [simp]: "same_display d d"
  by (simp add: same_display_def)

lemma same_module_refl [simp]: "same_module h h"
  by (simp add: same_module_def list_all2_refl)

lemma same_displays_trans:
  "list_all2 same_display xs ys \<Longrightarrow> list_all2 same_display ys zs \<Longrightarrow> list_all2 same_display xs zs"
  by (auto simp: list_all2_conv_all_nth same_display_def)

lemma same_module_trans: "same_module h h' \<Longrightarrow> same_module h' h'' \<Longrightarrow> same_module h h''"
  unfolding same_module_def by (simp, blast intro: same_displays_trans)

text \<open>Every update the actions make is harmless in this sense.\<close>

lemma list_all2_update_same:
  assumes "same_display (xs ! i) d"
  shows "list_all2 same_display xs (xs[i := d])"
  using assms by (cases "i < length xs") (auto simp: list_all2_conv_all_nth nth_list_update)

lemma same_module_set [simp]:
  "same_module h (set_msg1 f h') = same_module h h'" "same_module h (set_msg2 g h') = same_module h h'"
  "same_module h (set_auth_id a h') = same_module h h'" "same_module h (note_fault b h') = same_module h h'"
  "same_module h (set_input n v h') = same_module h h'"
  "same_module h (set_conn (is_repeater_update r) h') = same_module h h'"
  "same_module h (set_conn (is_hdcp1_revoked_update r) h') = same_module h h'"
  "same_module h (set_conn (is_hdcp2_revoked_update r) h') = same_module h h'"
  "same_module h (set_conn (\<lambda>c. c\<lparr>is_km_stored := p, is_repeater := q\<rparr>) h') = same_module h h'"
  by (simp_all add: same_module_def set_defs set_input_def)

lemma active_simps [simp]:
  "is_display_active (d\<lparr>disp_state := MOD_HDCP_DISPLAY_ACTIVE\<rparr>)"
  "is_display_active (d\<lparr>disp_state := MOD_HDCP_DISPLAY_ENCRYPTION_ENABLED\<rparr>)"
  "\<not> is_display_active (d\<lparr>disp_state := MOD_HDCP_DISPLAY_INACTIVE\<rparr>)"
  by (simp_all add: is_display_active_def less_eq_mod_hdcp_display_state_def)

lemma active_iff: "is_display_active d \<longleftrightarrow> disp_state d \<noteq> MOD_HDCP_DISPLAY_INACTIVE"
  by (cases "disp_state d") (simp_all add: is_display_active_def less_eq_mod_hdcp_display_state_def)

lemma encryption_enabled_iff:
  "is_display_encryption_enabled d \<longleftrightarrow> disp_state d = MOD_HDCP_DISPLAY_ENCRYPTION_ENABLED"
  by (cases "disp_state d")
    (simp_all add: is_display_encryption_enabled_def less_eq_mod_hdcp_display_state_def)

lemma same_module_display_state:
  assumes "is_display_active (displays h ! i)" "st \<noteq> MOD_HDCP_DISPLAY_INACTIVE"
  shows "same_module h (set_display_state i st h)"
  using assms by (auto simp: same_module_def set_display_state_def same_display_def active_iff
      intro!: list_all2_update_same)

lemma displays_fields [simp]:
  "displays (set_msg1 f h) = displays h" "displays (set_msg2 g h) = displays h"
  "displays (set_auth_id a h) = displays h" "displays (note_fault b h) = displays h"
  "displays (set_conn c h) = displays h" "displays (set_input n v h) = displays h"
  by (simp_all add: set_defs set_input_def)

section \<open>Quiet actions\<close>

definition quiet :: "'w mod_hdcp_action \<Rightarrow> bool" where
  "quiet f \<longleftrightarrow> (\<forall>h w. same_module h (fst (snd (f h w))) \<and> input (fst (snd (f h w))) = input h)"

definition keeps_repeater :: "'w mod_hdcp_action \<Rightarrow> bool" where
  "keeps_repeater f \<longleftrightarrow>
     (\<forall>h w. is_repeater (connection (fst (snd (f h w)))) = is_repeater (connection h))"

lemma input_set [simp]:
  "input (set_msg1 f h) = input h" "input (set_msg2 g h) = input h" "input (set_auth_id a h) = input h"
  "input (note_fault b h) = input h" "input (set_conn c h) = input h"
  "input (set_display_state i st h) = input h"
  "input (set_input n v h) = (input h)(n := v)"
  by (simp_all add: set_defs set_input_def)

lemma repeater_set [simp]:
  "connection (set_msg1 f h) = connection h" "connection (set_msg2 g h) = connection h"
  "connection (set_auth_id a h) = connection h" "connection (note_fault b h) = connection h"
  "connection (set_display_state i st h) = connection h" "connection (set_input n v h) = connection h"
  "connection (set_conn c h) = c (connection h)"
  by (simp_all add: set_defs set_input_def)

lemma quietI:
  "(\<And>h w. same_module h (fst (snd (f h w)))) \<Longrightarrow> (\<And>h w. input (fst (snd (f h w))) = input h) \<Longrightarrow> quiet f"
  by (simp add: quiet_def)

lemma quiet_read1 [simp, intro]: "quiet (read1 env i sel upd b n)"
  by (rule quietI) (simp_all add: read1_def Let_def split: prod.split)

lemma quiet_read2 [simp, intro]: "quiet (read2 env i sel upd b n)"
  by (rule quietI) (simp_all add: read2_def Let_def split: prod.split)

lemma quiet_write_from: "quiet (\<lambda>h. write_from env i (buf h) (b h) (n h) h)"
  by (rule quietI) (simp_all add: write_from_def Let_def split: prod.split)

lemma keeps_read1 [simp, intro]: "keeps_repeater (read1 env i sel upd b n)"
  by (simp add: keeps_repeater_def read1_def Let_def split: prod.split)

lemma keeps_read2 [simp, intro]: "keeps_repeater (read2 env i sel upd b n)"
  by (simp add: keeps_repeater_def read2_def Let_def split: prod.split)

lemma keeps_write_from: "keeps_repeater (\<lambda>h. write_from env i (buf h) (b h) (n h) h)"
  by (simp add: keeps_repeater_def write_from_def Let_def split: prod.split)

lemma quiet_D: "quiet f \<Longrightarrow> f h w = (st, h', w') \<Longrightarrow> same_module h h' \<and> input h' = input h"
  by (metis quiet_def fst_conv snd_conv)

lemma keeps_D: "keeps_repeater f \<Longrightarrow> f h w = (st, h', w') \<Longrightarrow>
    is_repeater (connection h') = is_repeater (connection h)"
  by (metis keeps_repeater_def fst_conv snd_conv)

text \<open>Choosing between two actions by the mode, and sequencing.\<close>

lemma quiet_if:
  "quiet f \<Longrightarrow> quiet g \<Longrightarrow> quiet (\<lambda>h w. if P h then f h w else g h w)"
  by (simp add: quiet_def)

lemma keeps_if:
  "keeps_repeater f \<Longrightarrow> keeps_repeater g \<Longrightarrow> keeps_repeater (\<lambda>h w. if P h then f h w else g h w)"
  by (simp add: keeps_repeater_def)

lemma quiet_fail: "quiet (\<lambda>h w. (st h, h, w))"
  by (simp add: quiet_def)

lemma keeps_fail: "keeps_repeater (\<lambda>h w. (st h, h, w))"
  by (simp add: keeps_repeater_def)

lemma quiet_check [simp, intro]: "quiet (check f)"
  by (simp add: quiet_def check_def)

lemma keeps_check [simp, intro]: "keeps_repeater (check f)"
  by (simp add: keeps_repeater_def check_def)

lemma quiet_and_then:
  assumes "quiet f" "quiet g"
  shows "quiet (and_then f g)"
proof (rule quietI)
  fix h w
  obtain st h1 w1 where f: "f h w = (st, h1, w1)" by (metis prod.exhaust)
  obtain st2 h2 w2 where g: "g h1 w1 = (st2, h2, w2)" by (metis prod.exhaust)
  show "same_module h (fst (snd (and_then f g h w)))"
    using quiet_D [OF assms(1) f] quiet_D [OF assms(2) g]
    by (auto simp: and_then_def f g intro: same_module_trans)
  show "input (fst (snd (and_then f g h w))) = input h"
    using quiet_D [OF assms(1) f] quiet_D [OF assms(2) g] by (simp add: and_then_def f g)
qed

lemma keeps_and_then:
  assumes "keeps_repeater f" "keeps_repeater g"
  shows "keeps_repeater (and_then f g)"
  unfolding keeps_repeater_def
proof (intro allI)
  fix h w
  obtain st h1 w1 where f: "f h w = (st, h1, w1)" by (metis prod.exhaust)
  obtain st2 h2 w2 where g: "g h1 w1 = (st2, h2, w2)" by (metis prod.exhaust)
  show "is_repeater (connection (fst (snd (and_then f g h w)))) = is_repeater (connection h)"
    using keeps_D [OF assms(1) f] keeps_D [OF assms(2) g] by (simp add: and_then_def f g)
qed

section \<open>DDC actions\<close>

lemmas calm_rules = quiet_if keeps_if quiet_fail keeps_fail quiet_write_from keeps_write_from
  quiet_and_then keeps_and_then quiet_read1 quiet_read2 keeps_read1 keeps_read2

lemma quiet_read_message [simp, intro]: "quiet (read_message env i c sel upd n)"
proof (rule quietI)
  fix h w
  show "same_module h (fst (snd (read_message env i c sel upd n h w)))"
    by (simp add: read_message_def read2_def Let_def split: prod.split)
  show "input (fst (snd (read_message env i c sel upd n h w))) = input h"
    by (simp add: read_message_def read2_def Let_def split: prod.split)
qed

lemma keeps_read_message [simp, intro]: "keeps_repeater (read_message env i c sel upd n)"
  by (simp add: keeps_repeater_def read_message_def read2_def Let_def split: prod.split)

lemma quiet_write_message [simp, intro]: "quiet (write_message env i sel n)"
  unfolding write_message_def [abs_def] by (intro calm_rules)

lemma keeps_write_message [simp, intro]: "keeps_repeater (write_message env i sel n)"
  unfolding write_message_def [abs_def] by (intro calm_rules)

lemma quiet_ddc [simp]:
  "quiet (mod_hdcp_read_bksv env)"
  "quiet (mod_hdcp_read_bcaps env)"
  "quiet (mod_hdcp_read_bstatus env)"
  "quiet (mod_hdcp_read_r0p env)"
  "quiet (mod_hdcp_read_binfo env)"
  "quiet (mod_hdcp_write_aksv env)"
  "quiet (mod_hdcp_write_ainfo env)"
  "quiet (mod_hdcp_write_an env)"
  "quiet (mod_hdcp_read_hdcp2version env)"
  "quiet (mod_hdcp_read_rxcaps env)"
  "quiet (mod_hdcp_read_rxstatus env)"
  "quiet (mod_hdcp_read_ake_cert env)"
  "quiet (mod_hdcp_read_h_prime env)"
  "quiet (mod_hdcp_read_pairing_info env)"
  "quiet (mod_hdcp_read_l_prime env)"
  "quiet (mod_hdcp_read_stream_ready env)"
  "quiet (mod_hdcp_write_ake_init env)"
  "quiet (mod_hdcp_write_no_stored_km env)"
  "quiet (mod_hdcp_write_stored_km env)"
  "quiet (mod_hdcp_write_lc_init env)"
  "quiet (mod_hdcp_write_eks env)"
  "quiet (mod_hdcp_write_repeater_auth_ack env)"
  "quiet (mod_hdcp_write_content_type env)"
  unfolding mod_hdcp_read_bksv_def [abs_def]
    mod_hdcp_read_bcaps_def [abs_def]
    mod_hdcp_read_bstatus_def [abs_def]
    mod_hdcp_read_r0p_def [abs_def]
    mod_hdcp_read_binfo_def [abs_def]
    mod_hdcp_write_aksv_def [abs_def]
    mod_hdcp_write_ainfo_def [abs_def]
    mod_hdcp_write_an_def [abs_def]
    mod_hdcp_read_hdcp2version_def [abs_def]
    mod_hdcp_read_rxcaps_def [abs_def]
    mod_hdcp_read_rxstatus_def [abs_def]
    mod_hdcp_read_ake_cert_def [abs_def]
    mod_hdcp_read_h_prime_def [abs_def]
    mod_hdcp_read_pairing_info_def [abs_def]
    mod_hdcp_read_l_prime_def [abs_def]
    mod_hdcp_read_stream_ready_def [abs_def]
    mod_hdcp_write_ake_init_def [abs_def]
    mod_hdcp_write_no_stored_km_def [abs_def]
    mod_hdcp_write_stored_km_def [abs_def]
    mod_hdcp_write_lc_init_def [abs_def]
    mod_hdcp_write_eks_def [abs_def]
    mod_hdcp_write_repeater_auth_ack_def [abs_def]
    mod_hdcp_write_content_type_def [abs_def]
  by (intro calm_rules | simp)+

lemma keeps_ddc [simp]:
  "keeps_repeater (mod_hdcp_read_bksv env)"
  "keeps_repeater (mod_hdcp_read_bcaps env)"
  "keeps_repeater (mod_hdcp_read_bstatus env)"
  "keeps_repeater (mod_hdcp_read_r0p env)"
  "keeps_repeater (mod_hdcp_read_binfo env)"
  "keeps_repeater (mod_hdcp_write_aksv env)"
  "keeps_repeater (mod_hdcp_write_ainfo env)"
  "keeps_repeater (mod_hdcp_write_an env)"
  "keeps_repeater (mod_hdcp_read_hdcp2version env)"
  "keeps_repeater (mod_hdcp_read_rxcaps env)"
  "keeps_repeater (mod_hdcp_read_rxstatus env)"
  "keeps_repeater (mod_hdcp_read_ake_cert env)"
  "keeps_repeater (mod_hdcp_read_h_prime env)"
  "keeps_repeater (mod_hdcp_read_pairing_info env)"
  "keeps_repeater (mod_hdcp_read_l_prime env)"
  "keeps_repeater (mod_hdcp_read_stream_ready env)"
  "keeps_repeater (mod_hdcp_write_ake_init env)"
  "keeps_repeater (mod_hdcp_write_no_stored_km env)"
  "keeps_repeater (mod_hdcp_write_stored_km env)"
  "keeps_repeater (mod_hdcp_write_lc_init env)"
  "keeps_repeater (mod_hdcp_write_eks env)"
  "keeps_repeater (mod_hdcp_write_repeater_auth_ack env)"
  "keeps_repeater (mod_hdcp_write_content_type env)"
  unfolding mod_hdcp_read_bksv_def [abs_def]
    mod_hdcp_read_bcaps_def [abs_def]
    mod_hdcp_read_bstatus_def [abs_def]
    mod_hdcp_read_r0p_def [abs_def]
    mod_hdcp_read_binfo_def [abs_def]
    mod_hdcp_write_aksv_def [abs_def]
    mod_hdcp_write_ainfo_def [abs_def]
    mod_hdcp_write_an_def [abs_def]
    mod_hdcp_read_hdcp2version_def [abs_def]
    mod_hdcp_read_rxcaps_def [abs_def]
    mod_hdcp_read_rxstatus_def [abs_def]
    mod_hdcp_read_ake_cert_def [abs_def]
    mod_hdcp_read_h_prime_def [abs_def]
    mod_hdcp_read_pairing_info_def [abs_def]
    mod_hdcp_read_l_prime_def [abs_def]
    mod_hdcp_read_stream_ready_def [abs_def]
    mod_hdcp_write_ake_init_def [abs_def]
    mod_hdcp_write_no_stored_km_def [abs_def]
    mod_hdcp_write_stored_km_def [abs_def]
    mod_hdcp_write_lc_init_def [abs_def]
    mod_hdcp_write_eks_def [abs_def]
    mod_hdcp_write_repeater_auth_ack_def [abs_def]
    mod_hdcp_write_content_type_def [abs_def]
  by (intro calm_rules | simp)+

lemma calm_read_vp [simp]: "quiet (mod_hdcp_read_vp env)" "keeps_repeater (mod_hdcp_read_vp env)"
  unfolding mod_hdcp_read_vp_def read_vp_part_def by (intro calm_rules)+

lemma calm_read_ksvlist [simp]:
  "quiet (mod_hdcp_read_ksvlist env)" "keeps_repeater (mod_hdcp_read_ksvlist env)"
  by (simp_all add: quiet_def keeps_repeater_def mod_hdcp_read_ksvlist_def read1_def Let_def split: prod.split)

lemma calm_read_rx_id_list [simp]:
  "quiet (mod_hdcp_read_rx_id_list env)" "keeps_repeater (mod_hdcp_read_rx_id_list env)"
  by (auto simp: quiet_def keeps_repeater_def mod_hdcp_read_rx_id_list_def read2_def Let_def
      split: prod.split)

lemma calm_write_stream_manage [simp]:
  "quiet (mod_hdcp_write_stream_manage env)" "keeps_repeater (mod_hdcp_write_stream_manage env)"
  by (simp_all add: quiet_def keeps_repeater_def mod_hdcp_write_stream_manage_def write_from_def Let_def
      split: prod.split)

lemma calm_clear_cp_irq [simp]:
  "quiet (mod_hdcp_clear_cp_irq_status env)" "keeps_repeater (mod_hdcp_clear_cp_irq_status env)"
  by (simp_all add: quiet_def keeps_repeater_def mod_hdcp_clear_cp_irq_status_def Let_def split: prod.split)

lemma calm_lc_fw [simp]:
  "quiet (mod_hdcp_write_poll_read_lc_fw env)" "keeps_repeater (mod_hdcp_write_poll_read_lc_fw env)"
  by (simp_all add: quiet_def keeps_repeater_def mod_hdcp_write_poll_read_lc_fw_def
      write_stall_read_lc_fw_aux_def write_poll_read_lc_fw_i2c_def Let_def split: prod.split)

section \<open>PSP actions\<close>

lemma first_active_display:
  "get_first_active_display h = Some i \<Longrightarrow> i < MAX_NUM_OF_DISPLAYS \<and> is_display_active (displays h ! i)"
  unfolding get_first_active_display_def by (auto simp: find_Some_iff)

lemma active_display_at_index:
  "get_active_display_at_index h n = Some i \<Longrightarrow>
     i < MAX_NUM_OF_DISPLAYS \<and> is_display_active (displays h ! i) \<and> disp_index (displays h ! i) = n"
  unfolding get_active_display_at_index_def by (auto simp: find_Some_iff)

lemma calm_create_session [simp]:
  "quiet (mod_hdcp_hdcp1_create_session env)" "keeps_repeater (mod_hdcp_hdcp1_create_session env)"
  "quiet (mod_hdcp_hdcp2_create_session env)" "keeps_repeater (mod_hdcp_hdcp2_create_session env)"
  by (simp_all add: quiet_def keeps_repeater_def mod_hdcp_hdcp1_create_session_def
      mod_hdcp_hdcp2_create_session_def Let_def split: prod.split option.split)

lemma same_module_set_display [simp]:
  "is_display_active (displays h' ! i) \<Longrightarrow> st \<noteq> MOD_HDCP_DISPLAY_INACTIVE \<Longrightarrow> same_module h h' \<Longrightarrow>
     same_module h (set_display_state i st h')"
  by (rule same_module_trans [OF _ same_module_display_state])

lemma disable_fold:
  "same_module h (fold (\<lambda>i h. if is_display_encryption_enabled (displays h ! i)
       then set_display_state i MOD_HDCP_DISPLAY_ACTIVE h else h) is h) \<and>
   input (fold (\<lambda>i h. if is_display_encryption_enabled (displays h ! i)
       then set_display_state i MOD_HDCP_DISPLAY_ACTIVE h else h) is h) = input h \<and>
   connection (fold (\<lambda>i h. if is_display_encryption_enabled (displays h ! i)
       then set_display_state i MOD_HDCP_DISPLAY_ACTIVE h else h) is h) = connection h"
proof (induction "is" arbitrary: h)
  case (Cons i is')
  let ?h = "if is_display_encryption_enabled (displays h ! i)
       then set_display_state i MOD_HDCP_DISPLAY_ACTIVE h else h"
  have "same_module h ?h"
    by (simp add: encryption_enabled_iff active_iff)
  with Cons [of ?h] show ?case
    by (auto intro: same_module_trans)
qed simp

lemma disable_displays_frame [simp]:
  "same_module h (disable_displays h)" "input (disable_displays h) = input h"
  "connection (disable_displays h) = connection h"
  using disable_fold [of h "[0..<MAX_NUM_OF_DISPLAYS]"] by (simp_all add: disable_displays_def)

lemma calm_destroy_session [simp]:
  "quiet (mod_hdcp_hdcp1_destroy_session env)" "keeps_repeater (mod_hdcp_hdcp1_destroy_session env)"
  "quiet (mod_hdcp_hdcp2_destroy_session env)" "keeps_repeater (mod_hdcp_hdcp2_destroy_session env)"
  by (simp_all add: quiet_def keeps_repeater_def mod_hdcp_hdcp1_destroy_session_def
      mod_hdcp_hdcp2_destroy_session_def Let_def split: prod.split)

lemma calm_enable_encryption [simp]:
  "quiet (mod_hdcp_hdcp1_enable_encryption env)" "keeps_repeater (mod_hdcp_hdcp1_enable_encryption env)"
  "quiet (mod_hdcp_hdcp2_enable_encryption env)" "keeps_repeater (mod_hdcp_hdcp2_enable_encryption env)"
  by (auto simp: quiet_def keeps_repeater_def mod_hdcp_hdcp1_enable_encryption_def
      mod_hdcp_hdcp2_enable_encryption_def Let_def split: prod.split option.split dest: first_active_display)

lemma stream_loop_frame:
  "same_module h (fst (snd (hdcp1_stream_loop env is h w)))"
  "input (fst (snd (hdcp1_stream_loop env is h w))) = input h"
  "connection (fst (snd (hdcp1_stream_loop env is h w))) = connection h"
  "same_module h (fst (snd (hdcp2_stream_loop env is h w)))"
  "input (fst (snd (hdcp2_stream_loop env is h w))) = input h"
  "connection (fst (snd (hdcp2_stream_loop env is h w))) = connection h"
proof (induction "is" arbitrary: h w)
  case (Cons i is')
  have m: "same_module h (set_display_state i MOD_HDCP_DISPLAY_ENCRYPTION_ENABLED h)"
    if "disp_state (displays h ! i) = MOD_HDCP_DISPLAY_ACTIVE" for h
    using that by (simp add: active_iff)
  note m1 = same_module_trans [OF m Cons(1)] and m2 = same_module_trans [OF m Cons(4)]
  { case 1 show ?case by (simp add: Let_def Cons m1 split: prod.split) }
  { case 2 show ?case by (simp add: Let_def Cons split: prod.split) }
  { case 3 show ?case by (simp add: Let_def Cons split: prod.split) }
  { case 4 show ?case by (simp add: Let_def Cons m2 split: prod.split) }
  { case 5 show ?case by (simp add: Let_def Cons split: prod.split) }
  { case 6 show ?case by (simp add: Let_def Cons split: prod.split) }
qed simp_all

lemma calm_stream_encryption [simp]:
  "quiet (mod_hdcp_hdcp1_enable_dp_stream_encryption env)"
  "keeps_repeater (mod_hdcp_hdcp1_enable_dp_stream_encryption env)"
  "quiet (mod_hdcp_hdcp2_enable_dp_stream_encryption env)"
  "keeps_repeater (mod_hdcp_hdcp2_enable_dp_stream_encryption env)"
  by (simp_all add: quiet_def keeps_repeater_def mod_hdcp_hdcp1_enable_dp_stream_encryption_def
      mod_hdcp_hdcp2_enable_dp_stream_encryption_def stream_loop_frame)

text \<open>These three ask the security processor whether the sink is a repeater.\<close>

lemma quiet_validate [simp]:
  "quiet (mod_hdcp_hdcp1_validate_rx env)" "quiet (mod_hdcp_hdcp2_validate_ake_cert env)"
  "quiet (mod_hdcp_hdcp2_validate_rx_id_list env)"
  by (simp_all add: quiet_def mod_hdcp_hdcp1_validate_rx_def mod_hdcp_hdcp2_validate_ake_cert_def
      mod_hdcp_hdcp2_validate_rx_id_list_def Let_def split: prod.split)

lemma calm_hdcp1_psp [simp]:
  "quiet (mod_hdcp_hdcp1_validate_ksvlist_vp env)" "keeps_repeater (mod_hdcp_hdcp1_validate_ksvlist_vp env)"
  "quiet (mod_hdcp_hdcp1_link_maintenance env)" "keeps_repeater (mod_hdcp_hdcp1_link_maintenance env)"
  by (simp_all add: quiet_def keeps_repeater_def mod_hdcp_hdcp1_validate_ksvlist_vp_def
      mod_hdcp_hdcp1_link_maintenance_def Let_def split: prod.split)

lemma calm_hdcp2_psp [simp]:
  "quiet (mod_hdcp_hdcp2_prepare_ake_init env)" "keeps_repeater (mod_hdcp_hdcp2_prepare_ake_init env)"
  "quiet (mod_hdcp_hdcp2_validate_h_prime env)" "keeps_repeater (mod_hdcp_hdcp2_validate_h_prime env)"
  "quiet (mod_hdcp_hdcp2_prepare_lc_init env)" "keeps_repeater (mod_hdcp_hdcp2_prepare_lc_init env)"
  "quiet (mod_hdcp_hdcp2_validate_l_prime env)" "keeps_repeater (mod_hdcp_hdcp2_validate_l_prime env)"
  "quiet (mod_hdcp_hdcp2_prepare_eks env)" "keeps_repeater (mod_hdcp_hdcp2_prepare_eks env)"
  "quiet (mod_hdcp_hdcp2_prepare_stream_management env)"
  "keeps_repeater (mod_hdcp_hdcp2_prepare_stream_management env)"
  "quiet (mod_hdcp_hdcp2_validate_stream_ready env)"
  "keeps_repeater (mod_hdcp_hdcp2_validate_stream_ready env)"
  by (simp_all add: quiet_def keeps_repeater_def mod_hdcp_hdcp2_prepare_ake_init_def
      mod_hdcp_hdcp2_validate_h_prime_def mod_hdcp_hdcp2_prepare_lc_init_def
      mod_hdcp_hdcp2_validate_l_prime_def mod_hdcp_hdcp2_prepare_eks_def
      mod_hdcp_hdcp2_prepare_stream_management_def mod_hdcp_hdcp2_validate_stream_ready_def
      Let_def split: prod.split)

section \<open>Checks that read the receiver status\<close>

lemma calm_ake_cert_available [simp]:
  "quiet (check_ake_cert_available env)" "keeps_repeater (check_ake_cert_available env)"
  using quiet_ddc(11) [of env] keeps_ddc(11) [of env]
  by (auto simp: check_ake_cert_available_def quiet_def keeps_repeater_def split: prod.split)
    (metis fst_conv snd_conv)+

lemma calm_stream_ready_available [simp]:
  "quiet (check_stream_ready_available env)" "keeps_repeater (check_stream_ready_available env)"
  using quiet_ddc(11) [of env] keeps_ddc(11) [of env]
  by (auto simp: check_stream_ready_available_def quiet_def keeps_repeater_def split: prod.split)
    (metis fst_conv snd_conv)+

lemma calm_h_prime_available [simp]:
  "quiet (check_h_prime_available env)" "keeps_repeater (check_h_prime_available env)"
  using quiet_ddc(11) [of env] keeps_ddc(11) [of env]
  by (auto simp: check_h_prime_available_def quiet_def keeps_repeater_def Let_def split: prod.split)
    (metis fst_conv snd_conv)+

lemma calm_pairing_info_available [simp]:
  "quiet (check_pairing_info_available env)" "keeps_repeater (check_pairing_info_available env)"
  using quiet_ddc(11) [of env] keeps_ddc(11) [of env]
  by (auto simp: check_pairing_info_available_def quiet_def keeps_repeater_def Let_def split: prod.split)
    (metis fst_conv snd_conv)+

lemma poll_l_prime_frame:
  "same_module h (fst (snd (poll_l_prime_loop env n st h w))) \<and>
   input (fst (snd (poll_l_prime_loop env n st h w))) = input h \<and>
   is_repeater (connection (fst (snd (poll_l_prime_loop env n st h w)))) = is_repeater (connection h)"
proof (induction n arbitrary: st h w)
  case (Suc n)
  obtain st1 h1 w1 where r: "mod_hdcp_read_rxstatus env h w = (st1, h1, w1)" by (metis prod.exhaust)
  have "same_module h h1 \<and> input h1 = input h" "is_repeater (connection h1) = is_repeater (connection h)"
    using quiet_D [OF quiet_ddc(11) r] keeps_D [OF keeps_ddc(11) r] by auto
  with Suc [of h1 _ w1] show ?case
    by (auto simp: r Let_def intro: same_module_trans)
qed simp

lemma calm_poll_l_prime [simp]:
  "quiet (poll_l_prime_available env)" "keeps_repeater (poll_l_prime_available env)"
  using poll_l_prime_frame [of _ env 5] by (auto simp: quiet_def keeps_repeater_def poll_l_prime_available_def)

section \<open>Steps\<close>

definition touches :: "nat set \<Rightarrow> bool \<Rightarrow> 'w step \<Rightarrow> bool" where
  "touches F rep a \<longleftrightarrow> (\<forall>s.
     same_module (fst s) (fst (snd (a s))) \<and>
     (\<forall>f. f \<notin> F \<longrightarrow> input (fst (snd (a s))) f = input (fst s) f) \<and>
     (rep \<longrightarrow> is_repeater (connection (fst (snd (a s)))) = is_repeater (connection (fst s))) \<and>
     event (fst (snd (snd (a s)))) = event (fst (snd s)))"

lemma touchesI:
  assumes "\<And>h c w. same_module h (fst (snd (a (h, c, w))))"
    and "\<And>h c w f. f \<notin> F \<Longrightarrow> input (fst (snd (a (h, c, w)))) f = input h f"
    and "\<And>h c w. rep \<Longrightarrow> is_repeater (connection (fst (snd (a (h, c, w))))) = is_repeater (connection h)"
    and "\<And>h c w. event (fst (snd (snd (a (h, c, w))))) = event c"
  shows "touches F rep a"
  using assms by (simp add: touches_def)

lemma touches_D:
  assumes "touches F rep a" "a s = (st, s')"
  shows "same_module (fst s) (fst s')" "f \<notin> F \<Longrightarrow> input (fst s') f = input (fst s) f"
    "rep \<Longrightarrow> is_repeater (connection (fst s')) = is_repeater (connection (fst s))"
    "event (fst (snd s')) = event (fst (snd s))"
  using assms(1) [unfolded touches_def, THEN spec, of s] by (simp_all add: assms(2))

lemma touches_execute:
  assumes "quiet f" "rep \<longrightarrow> keeps_repeater f" "n \<in> F"
  shows "touches F rep (mod_hdcp_execute_and_set f n)"
proof (rule touchesI)
  fix h c w
  obtain st h1 w1 where f: "f h w = (st, h1, w1)" by (metis prod.exhaust)
  note q = quiet_D [OF assms(1) f]
  show "same_module h (fst (snd (mod_hdcp_execute_and_set f n (h, c, w))))"
    using q by (simp add: f)
  show "input (fst (snd (mod_hdcp_execute_and_set f n (h, c, w)))) k = input h k" if "k \<notin> F" for k
    using q that assms(3) by (auto simp: f)
  show "is_repeater (connection (fst (snd (mod_hdcp_execute_and_set f n (h, c, w))))) = is_repeater (connection h)"
    if rep
    using that assms(2) keeps_D [of f, OF _ f] by (simp add: f)
  show "event (fst (snd (snd (mod_hdcp_execute_and_set f n (h, c, w))))) = event c"
    by (simp add: f)
qed

lemma touches_seq:
  assumes a: "touches F rep a" and b: "touches F rep b"
  shows "touches F rep (\<lambda>s. let (st, s') = a s in if P st s' then (Q st, s') else b s')"
  unfolding touches_def
proof (intro allI)
  fix s :: "'a xstate"
  obtain st s1 where sa: "a s = (st, s1)" by (metis prod.exhaust)
  obtain st2 s2 where sb: "b s1 = (st2, s2)" by (metis prod.exhaust)
  note A = touches_D [OF a sa] and B = touches_D [OF b sb]
  from A B same_module_trans [OF A(1) B(1)]
  show "same_module (fst s) (fst (snd (let (st, s') = a s in if P st s' then (Q st, s') else b s'))) \<and>
     (\<forall>f. f \<notin> F \<longrightarrow> input (fst (snd (let (st, s') = a s in if P st s' then (Q st, s') else b s'))) f = input (fst s) f) \<and>
     (rep \<longrightarrow> is_repeater (connection (fst (snd (let (st, s') = a s in if P st s' then (Q st, s') else b s')))) = is_repeater (connection (fst s))) \<and>
     event (fst (snd (snd (let (st, s') = a s in if P st s' then (Q st, s') else b s')))) = event (fst (snd s))"
    by (simp add: sa sb)
qed

lemma touches_done: "touches F rep (\<lambda>s. (st s, s))"
  by (simp add: touches_def)

lemma touches_run: "(\<And>a. a \<in> set as \<Longrightarrow> touches F rep a) \<Longrightarrow> touches F rep (run_steps as)"
proof (induction as)
  case Nil
  show ?case using touches_done [of F rep "\<lambda>_. SUCCESS"] by (simp add: touches_def)
next
  case (Cons a as)
  have "run_steps (a # as) = (\<lambda>s. let (st, s') = a s in if st \<noteq> SUCCESS then (st, s') else run_steps as s')"
    by (rule ext) simp
  then show ?case
    using touches_seq [of F rep a "run_steps as" "\<lambda>st s. st \<noteq> SUCCESS" "\<lambda>st. st"] Cons by simp
qed

lemma touches_if: "touches F rep a \<Longrightarrow> touches F rep b \<Longrightarrow> touches F rep (\<lambda>s. if P s then a s else b s)"
  by (simp add: touches_def)

lemma touches_when: "touches F rep a \<Longrightarrow> touches F rep (when_hdcp P a)"
  by (simp add: touches_def when_hdcp_def)

lemma touches_expect: "touches F rep a \<Longrightarrow> touches F rep (expect evs a)"
proof -
  have "touches F rep mark_unexpected"
    by (rule touchesI) simp_all
  then show "touches F rep a \<Longrightarrow> touches F rep (expect evs a)"
    by (simp add: touches_def expect_def)
qed

lemma touches_always:
  assumes a: "touches F rep a" and b: "touches F rep b"
  shows "touches F rep (and_always a b)"
proof -
  have "and_always a b = (\<lambda>s. let (st, s') = a s in if False then (st, s') else b s')"
    by (rule ext) (simp add: and_always_def split: prod.split)
  then show ?thesis
    using touches_seq [OF a b, of "\<lambda>_ _. False" "\<lambda>st. st"] by simp
qed

lemma touches_modify:
  "(\<And>h. same_module h (f h)) \<Longrightarrow> (\<And>h. input (f h) = input h) \<Longrightarrow>
   (\<And>h. is_repeater (connection (f h)) = is_repeater (connection h)) \<Longrightarrow> touches F rep (modify_hdcp f)"
  by (rule touchesI) simp_all

lemmas touches_rules = touches_execute touches_run touches_if touches_when touches_expect touches_always

lemma touches_note [simp]: "touches F rep note_rx_id_list_ready"
  by (rule touchesI) simp_all

lemma touches_set_ksvlist_size [simp]: "touches F rep (modify_hdcp set_ksvlist_size)"
  by (rule touches_modify) (simp_all add: set_ksvlist_size_def)

lemma touches_mono: "touches F rep a \<Longrightarrow> F \<subseteq> G \<Longrightarrow> touches G rep a"
  unfolding touches_def by blast

end
