(* ===== verification/Hdcp_Trans1.thy ===== *)
theory Hdcp_Trans1
  imports Hdcp
begin

text \<open>
  The transition functions of the two HDCP 1.4 machines
  (\<^verbatim>\<open>amd/display/modules/hdcp/hdcp1_transition.c\<close>), the HDMI one and the DisplayPort one.
  Each \<^verbatim>\<open>case\<close> of the \<^verbatim>\<open>switch\<close> is a definition of its own, the transition
  function dispatches on the current state. The lemmas give, for every case, which states it can
  reach, when it declares the authentication complete and what it leaves alone.
\<close>

section \<open>HDMI\<close>

definition H1_A0_WAIT_FOR_ACTIVE_RX_case :: "tstate \<Rightarrow> tstate" where
  "H1_A0_WAIT_FOR_ACTIVE_RX_case s = (let hdcp = fst s in
     if input hdcp i1_bksv_read \<noteq> PASS \<or> input hdcp i1_bcaps_read \<noteq> PASS
     then increment_stay_counter (callback_in_ms 500 s)
     else set_state_id H1_A1_EXCHANGE_KSVS (callback_in_ms 0 s))"

definition H1_A1_EXCHANGE_KSVS_case :: "tstate \<Rightarrow> tstate" where
  "H1_A1_EXCHANGE_KSVS_case s = (let hdcp = fst s in
     if input hdcp i1_create_session \<noteq> PASS
     then fail_and_restart_in_ms 0 (adjust_hdcp1 (\<lambda>a. a\<lparr>disable1 := True\<rparr>) s)
     else if input hdcp i1_an_write \<noteq> PASS \<or> input hdcp i1_aksv_write \<noteq> PASS \<or>
             input hdcp i1_bksv_read \<noteq> PASS \<or> input hdcp i1_bksv_validation \<noteq> PASS \<or>
             input hdcp i1_ainfo_write = FAIL
     then fail_and_restart_in_ms 0 s
     else set_state_id H1_A2_COMPUTATIONS_A3_VALIDATE_RX_A6_TEST_FOR_REPEATER (callback_in_ms 300 s))"

definition H1_A2_COMPUTATIONS_A3_VALIDATE_RX_A6_TEST_FOR_REPEATER_case :: "tstate \<Rightarrow> tstate" where
  "H1_A2_COMPUTATIONS_A3_VALIDATE_RX_A6_TEST_FOR_REPEATER_case s =
     (let hdcp = fst s; conn = connection hdcp in
     if input hdcp i1_bcaps_read \<noteq> PASS \<or> input hdcp i1_r0p_read \<noteq> PASS
     then fail_and_restart_in_ms 0 s
     else if input hdcp i1_rx_validation \<noteq> PASS
     then fail_and_restart_in_ms 1000 s
     else if \<not> is_repeater conn \<and> input hdcp i1_encryption \<noteq> PASS
     then fail_and_restart_in_ms 0 s
     else if is_repeater conn
     then set_state_id H1_A8_WAIT_FOR_READY (set_watchdog_in_ms 5000 (callback_in_ms 0 s))
     else set_auth_complete (set_state_id H1_A45_AUTHENTICATED (callback_in_ms 0 s)))"

definition H1_A45_AUTHENTICATED_case :: "tstate \<Rightarrow> tstate" where
  "H1_A45_AUTHENTICATED_case s = (let hdcp = fst s in
     if input hdcp i1_link_maintenance = FAIL
     then fail_and_restart_in_ms 0 s
     else increment_stay_counter (callback_in_ms 500 s))"

definition H1_A8_WAIT_FOR_READY_case :: "mod_hdcp_event_context \<Rightarrow> tstate \<Rightarrow> tstate" where
  "H1_A8_WAIT_FOR_READY_case event_ctx s = (let hdcp = fst s in
     if input hdcp i1_ready_check \<noteq> PASS
     then if event event_ctx = MOD_HDCP_EVENT_WATCHDOG_TIMEOUT
          then fail_and_restart_in_ms 0 (adjust_hdcp1 (\<lambda>a. a\<lparr>postpone_encryption := True\<rparr>) s)
          else increment_stay_counter (callback_in_ms 500 s)
     else set_state_id H1_A9_READ_KSV_LIST (callback_in_ms 0 s))"

definition H1_A9_READ_KSV_LIST_case :: "tstate \<Rightarrow> tstate" where
  "H1_A9_READ_KSV_LIST_case s = (let hdcp = fst s in
     if input hdcp i1_bstatus_read \<noteq> PASS \<or> input hdcp i1_max_cascade_check \<noteq> PASS \<or>
        input hdcp i1_max_devs_check \<noteq> PASS \<or> input hdcp i1_device_count_check \<noteq> PASS \<or>
        input hdcp i1_ksvlist_read \<noteq> PASS \<or> input hdcp i1_vp_read \<noteq> PASS \<or>
        input hdcp i1_ksvlist_vp_validation \<noteq> PASS \<or> input hdcp i1_encryption \<noteq> PASS
     then fail_and_restart_in_ms 0 s
     else set_auth_complete (set_state_id H1_A45_AUTHENTICATED (callback_in_ms 0 s)))"

definition mod_hdcp_hdcp1_transition ::
    "mod_hdcp_event_context \<Rightarrow> mod_hdcp \<Rightarrow> mod_hdcp_output \<Rightarrow> tstate" where
  "mod_hdcp_hdcp1_transition event_ctx hdcp output =
     (let s = (hdcp, output, SUCCESS); i = current_state hdcp in
      if i = H1_A0_WAIT_FOR_ACTIVE_RX then H1_A0_WAIT_FOR_ACTIVE_RX_case s
      else if i = H1_A1_EXCHANGE_KSVS then H1_A1_EXCHANGE_KSVS_case s
      else if i = H1_A2_COMPUTATIONS_A3_VALIDATE_RX_A6_TEST_FOR_REPEATER
      then H1_A2_COMPUTATIONS_A3_VALIDATE_RX_A6_TEST_FOR_REPEATER_case s
      else if i = H1_A45_AUTHENTICATED then H1_A45_AUTHENTICATED_case s
      else if i = H1_A8_WAIT_FOR_READY then H1_A8_WAIT_FOR_READY_case event_ctx s
      else if i = H1_A9_READ_KSV_LIST then H1_A9_READ_KSV_LIST_case s
      else fail_and_restart_in_ms 0 (hdcp, output, MOD_HDCP_STATUS_INVALID_STATE))"

section \<open>DisplayPort\<close>

definition D1_A0_DETERMINE_RX_HDCP_CAPABLE_case :: "tstate \<Rightarrow> tstate" where
  "D1_A0_DETERMINE_RX_HDCP_CAPABLE_case s = (let hdcp = fst s in
     if input hdcp i1_bcaps_read \<noteq> PASS
     then fail_and_restart_in_ms 0 s
     else if input hdcp i1_hdcp_capable_dp \<noteq> PASS
     then fail_and_restart_in_ms 0 (adjust_hdcp1 (\<lambda>a. a\<lparr>disable1 := True\<rparr>) s)
     else set_state_id D1_A1_EXCHANGE_KSVS (callback_in_ms 0 s))"

definition D1_A1_EXCHANGE_KSVS_case :: "tstate \<Rightarrow> tstate" where
  "D1_A1_EXCHANGE_KSVS_case s = (let hdcp = fst s in
     if input hdcp i1_create_session \<noteq> PASS
     then fail_and_restart_in_ms 0 (adjust_hdcp1 (\<lambda>a. a\<lparr>disable1 := True\<rparr>) s)
     else if input hdcp i1_an_write \<noteq> PASS \<or> input hdcp i1_aksv_write \<noteq> PASS \<or>
             input hdcp i1_bksv_read \<noteq> PASS \<or> input hdcp i1_bksv_validation \<noteq> PASS \<or>
             input hdcp i1_ainfo_write = FAIL
     then fail_and_restart_in_ms 0 s
     else set_state_id D1_A23_WAIT_FOR_R0_PRIME (set_watchdog_in_ms 100 s))"

definition D1_A23_WAIT_FOR_R0_PRIME_case :: "mod_hdcp_event_context \<Rightarrow> tstate \<Rightarrow> tstate" where
  "D1_A23_WAIT_FOR_R0_PRIME_case event_ctx s = (let hdcp = fst s in
     if input hdcp i1_bstatus_read \<noteq> PASS
     then fail_and_restart_in_ms 0 s
     else if input hdcp i1_r0p_available_dp \<noteq> PASS
     then if event event_ctx = MOD_HDCP_EVENT_WATCHDOG_TIMEOUT
          then fail_and_restart_in_ms 0 s
          else increment_stay_counter s
     else set_state_id D1_A2_COMPUTATIONS_A3_VALIDATE_RX_A5_TEST_FOR_REPEATER (callback_in_ms 0 s))"

definition D1_A2_COMPUTATIONS_A3_VALIDATE_RX_A5_TEST_FOR_REPEATER_case :: "tstate \<Rightarrow> tstate" where
  "D1_A2_COMPUTATIONS_A3_VALIDATE_RX_A5_TEST_FOR_REPEATER_case s =
     (let hdcp = fst s; conn = connection hdcp in
     if input hdcp i1_r0p_read \<noteq> PASS
     then fail_and_restart_in_ms 0 s
     else if input hdcp i1_rx_validation \<noteq> PASS
     then if stay_count (state hdcp) < 2 \<and> \<not> is_hdcp1_revoked conn
          then increment_stay_counter (callback_in_ms 0 s)
          else fail_and_restart_in_ms 1000 s
     else if (\<not> is_repeater conn \<and> input hdcp i1_encryption \<noteq> PASS) \<or>
             (\<not> is_repeater conn \<and> is_dp_mst_hdcp hdcp \<and> input hdcp i1_stream_encryption_dp \<noteq> PASS)
     then fail_and_restart_in_ms 0 s
     else if hdcp1_retry_count conn < of_bool (min_auth_retries_wa (adjust1 hdcp))
     then fail_and_restart_in_ms 200 s
     else if is_repeater conn
     then set_state_id D1_A6_WAIT_FOR_READY (set_watchdog_in_ms 5000 s)
     else set_auth_complete (set_state_id D1_A4_AUTHENTICATED s))"

definition D1_A4_AUTHENTICATED_case :: "tstate \<Rightarrow> tstate" where
  "D1_A4_AUTHENTICATED_case s = (let hdcp = fst s in
     if input hdcp i1_link_integrity_check = FAIL \<or> input hdcp i1_reauth_request_check = FAIL
     then fail_and_restart_in_ms 0 s
     else s)"

definition D1_A6_WAIT_FOR_READY_case :: "mod_hdcp_event_context \<Rightarrow> tstate \<Rightarrow> tstate" where
  "D1_A6_WAIT_FOR_READY_case event_ctx s = (let hdcp = fst s in
     if input hdcp i1_link_integrity_check = FAIL \<or> input hdcp i1_reauth_request_check = FAIL
     then fail_and_restart_in_ms 0 s
     else if input hdcp i1_ready_check \<noteq> PASS
     then if event event_ctx = MOD_HDCP_EVENT_WATCHDOG_TIMEOUT
          then fail_and_restart_in_ms 0 (adjust_hdcp1 (\<lambda>a. a\<lparr>postpone_encryption := True\<rparr>) s)
          else increment_stay_counter s
     else set_state_id D1_A7_READ_KSV_LIST (callback_in_ms 0 s))"

definition D1_A7_READ_KSV_LIST_case :: "tstate \<Rightarrow> tstate" where
  "D1_A7_READ_KSV_LIST_case s = (let hdcp = fst s in
     if input hdcp i1_binfo_read_dp \<noteq> PASS \<or> input hdcp i1_max_cascade_check \<noteq> PASS \<or>
        input hdcp i1_max_devs_check \<noteq> PASS
     then fail_and_restart_in_ms 0 s
     else if input hdcp i1_device_count_check \<noteq> PASS
     then fail_and_restart_in_ms 1000 (adjust_hdcp1 (\<lambda>a. a\<lparr>postpone_encryption := True\<rparr>) s)
     else if input hdcp i1_ksvlist_read \<noteq> PASS \<or> input hdcp i1_vp_read \<noteq> PASS
     then fail_and_restart_in_ms 0 s
     else if input hdcp i1_ksvlist_vp_validation \<noteq> PASS
     then if stay_count (state hdcp) < 2 \<and> \<not> is_hdcp1_revoked (connection hdcp)
          then increment_stay_counter (callback_in_ms 0 s)
          else fail_and_restart_in_ms 0 s
     else if input hdcp i1_encryption \<noteq> PASS \<or>
             (is_dp_mst_hdcp hdcp \<and> input hdcp i1_stream_encryption_dp \<noteq> PASS)
     then fail_and_restart_in_ms 0 s
     else set_auth_complete (set_state_id D1_A4_AUTHENTICATED s))"

definition mod_hdcp_hdcp1_dp_transition ::
    "mod_hdcp_event_context \<Rightarrow> mod_hdcp \<Rightarrow> mod_hdcp_output \<Rightarrow> tstate" where
  "mod_hdcp_hdcp1_dp_transition event_ctx hdcp output =
     (let s = (hdcp, output, SUCCESS); i = current_state hdcp in
      if i = D1_A0_DETERMINE_RX_HDCP_CAPABLE then D1_A0_DETERMINE_RX_HDCP_CAPABLE_case s
      else if i = D1_A1_EXCHANGE_KSVS then D1_A1_EXCHANGE_KSVS_case s
      else if i = D1_A23_WAIT_FOR_R0_PRIME then D1_A23_WAIT_FOR_R0_PRIME_case event_ctx s
      else if i = D1_A2_COMPUTATIONS_A3_VALIDATE_RX_A5_TEST_FOR_REPEATER
      then D1_A2_COMPUTATIONS_A3_VALIDATE_RX_A5_TEST_FOR_REPEATER_case s
      else if i = D1_A4_AUTHENTICATED then D1_A4_AUTHENTICATED_case s
      else if i = D1_A6_WAIT_FOR_READY then D1_A6_WAIT_FOR_READY_case event_ctx s
      else if i = D1_A7_READ_KSV_LIST then D1_A7_READ_KSV_LIST_case s
      else fail_and_restart_in_ms 0 s)"

lemmas hdcp1_case_defs =
  H1_A0_WAIT_FOR_ACTIVE_RX_case_def H1_A1_EXCHANGE_KSVS_case_def
  H1_A2_COMPUTATIONS_A3_VALIDATE_RX_A6_TEST_FOR_REPEATER_case_def H1_A45_AUTHENTICATED_case_def
  H1_A8_WAIT_FOR_READY_case_def H1_A9_READ_KSV_LIST_case_def

lemmas hdcp1_dp_case_defs =
  D1_A0_DETERMINE_RX_HDCP_CAPABLE_case_def D1_A1_EXCHANGE_KSVS_case_def
  D1_A23_WAIT_FOR_R0_PRIME_case_def
  D1_A2_COMPUTATIONS_A3_VALIDATE_RX_A5_TEST_FOR_REPEATER_case_def D1_A4_AUTHENTICATED_case_def
  D1_A6_WAIT_FOR_READY_case_def D1_A7_READ_KSV_LIST_case_def

end
