(* ===== verification/Hdcp_Trans2.thy ===== *)
theory Hdcp_Trans2
  imports Hdcp
begin

text \<open>
  The transition functions of the two HDCP 2.2 machines
  (\<^verbatim>\<open>amd/display/modules/hdcp/hdcp2_transition.c\<close>), one definition per
  \<^verbatim>\<open>case\<close> of the \<^verbatim>\<open>switch\<close> and the dispatching transition functions.
\<close>

section \<open>HDMI\<close>

definition H2_A0_KNOWN_HDCP2_CAPABLE_RX_case :: "tstate \<Rightarrow> tstate" where
  "H2_A0_KNOWN_HDCP2_CAPABLE_RX_case s = (let hdcp = fst s in
     if input hdcp i2_hdcp2version_read \<noteq> PASS \<or> input hdcp i2_hdcp2_capable_check \<noteq> PASS
     then set_state_id HDCP_INITIALIZED (callback_in_ms 0 (adjust_hdcp2 (\<lambda>a. a\<lparr>disable2 := True\<rparr>) s))
     else set_state_id H2_A1_SEND_AKE_INIT (callback_in_ms 0 s))"

definition H2_A1_SEND_AKE_INIT_case :: "tstate \<Rightarrow> tstate" where
  "H2_A1_SEND_AKE_INIT_case s = (let hdcp = fst s in
     if input hdcp i2_create_session \<noteq> PASS \<or> input hdcp i2_ake_init_prepare \<noteq> PASS
     then fail_and_restart_in_ms 0 (adjust_hdcp2 (\<lambda>a. a\<lparr>disable2 := True\<rparr>) s)
     else if input hdcp i2_ake_init_write \<noteq> PASS
     then fail_and_restart_in_ms 0 s
     else set_state_id H2_A1_VALIDATE_AKE_CERT (callback_in_ms 0 (set_watchdog_in_ms 100 s)))"

definition H2_A1_VALIDATE_AKE_CERT_case :: "mod_hdcp_event_context \<Rightarrow> tstate \<Rightarrow> tstate" where
  "H2_A1_VALIDATE_AKE_CERT_case event_ctx s = (let hdcp = fst s in
     if input hdcp i2_ake_cert_available \<noteq> PASS
     then if event event_ctx = MOD_HDCP_EVENT_WATCHDOG_TIMEOUT
          then fail_and_restart_in_ms 1000 s
          else increment_stay_counter (callback_in_ms 10 s)
     else if input hdcp i2_ake_cert_read \<noteq> PASS \<or> input hdcp i2_ake_cert_validation \<noteq> PASS
     then fail_and_restart_in_ms 0 s
     else if is_km_stored (connection hdcp) \<and> \<not> force_no_stored_km (adjust2 hdcp)
     then set_state_id H2_A1_SEND_STORED_KM (callback_in_ms 0 s)
     else set_state_id H2_A1_SEND_NO_STORED_KM (callback_in_ms 0 s))"

definition H2_A1_SEND_NO_STORED_KM_case :: "tstate \<Rightarrow> tstate" where
  "H2_A1_SEND_NO_STORED_KM_case s = (let hdcp = fst s in
     if input hdcp i2_no_stored_km_write \<noteq> PASS
     then fail_and_restart_in_ms 0 s
     else set_state_id H2_A1_READ_H_PRIME (callback_in_ms 0
       (if increase_h_prime_timeout (adjust2 hdcp) then set_watchdog_in_ms 2000 s
        else set_watchdog_in_ms 1000 s)))"

definition H2_A1_READ_H_PRIME_case :: "mod_hdcp_event_context \<Rightarrow> tstate \<Rightarrow> tstate" where
  "H2_A1_READ_H_PRIME_case event_ctx s = (let hdcp = fst s in
     if input hdcp i2_h_prime_available \<noteq> PASS
     then if event event_ctx = MOD_HDCP_EVENT_WATCHDOG_TIMEOUT
          then fail_and_restart_in_ms 1000 s
          else increment_stay_counter (callback_in_ms 100 s)
     else if input hdcp i2_h_prime_read \<noteq> PASS
     then fail_and_restart_in_ms 0 s
     else set_state_id H2_A1_READ_PAIRING_INFO_AND_VALIDATE_H_PRIME
       (callback_in_ms 0 (set_watchdog_in_ms 200 s)))"

definition H2_A1_READ_PAIRING_INFO_AND_VALIDATE_H_PRIME_case ::
    "mod_hdcp_event_context \<Rightarrow> tstate \<Rightarrow> tstate" where
  "H2_A1_READ_PAIRING_INFO_AND_VALIDATE_H_PRIME_case event_ctx s = (let hdcp = fst s in
     if input hdcp i2_pairing_available \<noteq> PASS
     then if event event_ctx = MOD_HDCP_EVENT_WATCHDOG_TIMEOUT
          then fail_and_restart_in_ms 0 s
          else increment_stay_counter (callback_in_ms 20 s)
     else if input hdcp i2_pairing_info_read \<noteq> PASS \<or> input hdcp i2_h_prime_validation \<noteq> PASS
     then fail_and_restart_in_ms 0 s
     else set_state_id H2_A2_LOCALITY_CHECK (callback_in_ms 0 s))"

definition H2_A1_SEND_STORED_KM_case :: "tstate \<Rightarrow> tstate" where
  "H2_A1_SEND_STORED_KM_case s = (let hdcp = fst s in
     if input hdcp i2_stored_km_write \<noteq> PASS
     then fail_and_restart_in_ms 0 s
     else set_state_id H2_A1_VALIDATE_H_PRIME (callback_in_ms 0 (set_watchdog_in_ms 200 s)))"

definition H2_A1_VALIDATE_H_PRIME_case :: "mod_hdcp_event_context \<Rightarrow> tstate \<Rightarrow> tstate" where
  "H2_A1_VALIDATE_H_PRIME_case event_ctx s = (let hdcp = fst s in
     if input hdcp i2_h_prime_available \<noteq> PASS
     then if event event_ctx = MOD_HDCP_EVENT_WATCHDOG_TIMEOUT
          then fail_and_restart_in_ms 1000 s
          else increment_stay_counter (callback_in_ms 20 s)
     else if input hdcp i2_h_prime_read \<noteq> PASS
     then fail_and_restart_in_ms 0 s
     else if input hdcp i2_h_prime_validation \<noteq> PASS
     then fail_and_restart_in_ms 0 (adjust_hdcp2 (\<lambda>a. a\<lparr>force_no_stored_km := True\<rparr>) s)
     else set_state_id H2_A2_LOCALITY_CHECK (callback_in_ms 0 s))"

definition H2_A2_LOCALITY_CHECK_case :: "tstate \<Rightarrow> tstate" where
  "H2_A2_LOCALITY_CHECK_case s = (let hdcp = fst s;
       use_fw = (atomic_write_poll_read_i2c (config hdcp) \<and> \<not> force_sw_locality_check (adjust2 hdcp)) in
     if 10 < stay_count (state hdcp) \<or> input hdcp i2_lc_init_prepare \<noteq> PASS \<or>
        (\<not> use_fw \<and> input hdcp i2_lc_init_write \<noteq> PASS) \<or>
        (\<not> use_fw \<and> input hdcp i2_l_prime_available_poll \<noteq> PASS)
     then fail_and_restart_in_ms 0 s
     else if input hdcp i2_l_prime_read \<noteq> PASS
     then if use_fw \<and> lc_enable_sw_fallback (config hdcp)
          then callback_in_ms 0 (adjust_hdcp2 (\<lambda>a. a\<lparr>force_sw_locality_check := True\<rparr>) s)
          else fail_and_restart_in_ms 0 s
     else if input hdcp i2_l_prime_validation \<noteq> PASS
     then increment_stay_counter (callback_in_ms 0 s)
     else set_state_id H2_A3_EXCHANGE_KS_AND_TEST_FOR_REPEATER (callback_in_ms 0 s))"

definition H2_A3_EXCHANGE_KS_AND_TEST_FOR_REPEATER_case :: "tstate \<Rightarrow> tstate" where
  "H2_A3_EXCHANGE_KS_AND_TEST_FOR_REPEATER_case s = (let hdcp = fst s in
     if input hdcp i2_eks_prepare \<noteq> PASS \<or> input hdcp i2_eks_write \<noteq> PASS
     then fail_and_restart_in_ms 0 s
     else if is_repeater (connection hdcp)
     then set_state_id H2_A6_WAIT_FOR_RX_ID_LIST (callback_in_ms 0 (set_watchdog_in_ms 3000 s))
     else set_state_id H2_ENABLE_ENCRYPTION (callback_in_ms 210 s))"

definition H2_ENABLE_ENCRYPTION_case :: "mod_hdcp_event_context \<Rightarrow> tstate \<Rightarrow> tstate" where
  "H2_ENABLE_ENCRYPTION_case event_ctx s = (let hdcp = fst s in
     if input hdcp i2_rxstatus_read \<noteq> PASS \<or> input hdcp i2_reauth_request_check \<noteq> PASS
     then fail_and_restart_in_ms 0 s
     else if rx_id_list_ready event_ctx \<and> is_repeater (connection hdcp)
     then set_state_id H2_A78_VERIFY_RX_ID_LIST_AND_SEND_ACK (callback_in_ms 0 s)
     else if input hdcp i2_enable_encryption \<noteq> PASS
     then fail_and_restart_in_ms 0 s
     else set_auth_complete (set_state_id H2_A5_AUTHENTICATED (callback_in_ms 0 s)))"

definition H2_A5_AUTHENTICATED_case :: "mod_hdcp_event_context \<Rightarrow> tstate \<Rightarrow> tstate" where
  "H2_A5_AUTHENTICATED_case event_ctx s = (let hdcp = fst s in
     if input hdcp i2_rxstatus_read = FAIL \<or> input hdcp i2_reauth_request_check = FAIL
     then fail_and_restart_in_ms 0 s
     else if rx_id_list_ready event_ctx \<and> is_repeater (connection hdcp)
     then set_state_id H2_A78_VERIFY_RX_ID_LIST_AND_SEND_ACK (callback_in_ms 0 s)
     else increment_stay_counter (callback_in_ms 500 s))"

definition H2_A6_WAIT_FOR_RX_ID_LIST_case :: "mod_hdcp_event_context \<Rightarrow> tstate \<Rightarrow> tstate" where
  "H2_A6_WAIT_FOR_RX_ID_LIST_case event_ctx s = (let hdcp = fst s in
     if input hdcp i2_rxstatus_read \<noteq> PASS \<or> input hdcp i2_reauth_request_check \<noteq> PASS
     then fail_and_restart_in_ms 0 s
     else if \<not> rx_id_list_ready event_ctx
     then if event event_ctx = MOD_HDCP_EVENT_WATCHDOG_TIMEOUT
          then fail_and_restart_in_ms 100 s
          else increment_stay_counter (callback_in_ms 300 s)
     else set_state_id H2_A78_VERIFY_RX_ID_LIST_AND_SEND_ACK (callback_in_ms 0 s))"

definition H2_A78_VERIFY_RX_ID_LIST_AND_SEND_ACK_case :: "tstate \<Rightarrow> tstate" where
  "H2_A78_VERIFY_RX_ID_LIST_AND_SEND_ACK_case s = (let hdcp = fst s in
     if input hdcp i2_rxstatus_read \<noteq> PASS \<or> input hdcp i2_reauth_request_check \<noteq> PASS \<or>
        input hdcp i2_rx_id_list_read \<noteq> PASS \<or> input hdcp i2_device_count_check \<noteq> PASS \<or>
        input hdcp i2_rx_id_list_validation \<noteq> PASS \<or> input hdcp i2_repeater_auth_ack_write \<noteq> PASS
     then fail_and_restart_in_ms 0 s
     else set_state_id H2_A9_SEND_STREAM_MANAGEMENT (callback_in_ms 0 s))"

definition H2_A9_SEND_STREAM_MANAGEMENT_case :: "mod_hdcp_event_context \<Rightarrow> tstate \<Rightarrow> tstate" where
  "H2_A9_SEND_STREAM_MANAGEMENT_case event_ctx s = (let hdcp = fst s in
     if input hdcp i2_rxstatus_read \<noteq> PASS \<or> input hdcp i2_reauth_request_check \<noteq> PASS
     then fail_and_restart_in_ms 0 s
     else if rx_id_list_ready event_ctx \<and> is_repeater (connection hdcp)
     then set_state_id H2_A78_VERIFY_RX_ID_LIST_AND_SEND_ACK (callback_in_ms 0 s)
     else if input hdcp i2_prepare_stream_manage \<noteq> PASS \<or> input hdcp i2_stream_manage_write \<noteq> PASS
     then fail_and_restart_in_ms 0 s
     else set_state_id H2_A9_VALIDATE_STREAM_READY (callback_in_ms 0 (set_watchdog_in_ms 100 s)))"

text \<open>\<^verbatim>\<open>hdcp->auth.count.stream_management_retry_count++\<close>\<close>

definition count_stream_management_retry :: "tstate \<Rightarrow> tstate" where
  [hdcp_simps]: "count_stream_management_retry s = (let hdcp = fst s in
     (hdcp\<lparr>auth := (auth hdcp)\<lparr>stream_management_retry_count :=
        stream_management_retry_count (auth hdcp) + 1\<rparr>\<rparr>, snd s))"

definition H2_A9_VALIDATE_STREAM_READY_case :: "mod_hdcp_event_context \<Rightarrow> tstate \<Rightarrow> tstate" where
  "H2_A9_VALIDATE_STREAM_READY_case event_ctx s = (let hdcp = fst s in
     if input hdcp i2_rxstatus_read \<noteq> PASS \<or> input hdcp i2_reauth_request_check \<noteq> PASS
     then fail_and_restart_in_ms 0 s
     else if rx_id_list_ready event_ctx \<and> is_repeater (connection hdcp)
     then set_state_id H2_A78_VERIFY_RX_ID_LIST_AND_SEND_ACK (callback_in_ms 0 s)
     else if input hdcp i2_stream_ready_available \<noteq> PASS
     then if event event_ctx = MOD_HDCP_EVENT_WATCHDOG_TIMEOUT
          then set_state_id H2_A9_SEND_STREAM_MANAGEMENT (callback_in_ms 0 (count_stream_management_retry s))
          else increment_stay_counter (callback_in_ms 10 s)
     else if input hdcp i2_stream_ready_read \<noteq> PASS \<or> input hdcp i2_stream_ready_validation \<noteq> PASS
     then if 10 < stream_management_retry_count (auth hdcp)
          then fail_and_restart_in_ms 0 s
          else set_state_id H2_A9_SEND_STREAM_MANAGEMENT (callback_in_ms 0 (count_stream_management_retry s))
     else set_state_id H2_ENABLE_ENCRYPTION (callback_in_ms 200 s))"

definition mod_hdcp_hdcp2_transition ::
    "mod_hdcp_event_context \<Rightarrow> mod_hdcp \<Rightarrow> mod_hdcp_output \<Rightarrow> tstate" where
  "mod_hdcp_hdcp2_transition event_ctx hdcp output =
     (let s = (hdcp, output, SUCCESS); i = current_state hdcp in
      if i = H2_A0_KNOWN_HDCP2_CAPABLE_RX then H2_A0_KNOWN_HDCP2_CAPABLE_RX_case s
      else if i = H2_A1_SEND_AKE_INIT then H2_A1_SEND_AKE_INIT_case s
      else if i = H2_A1_VALIDATE_AKE_CERT then H2_A1_VALIDATE_AKE_CERT_case event_ctx s
      else if i = H2_A1_SEND_NO_STORED_KM then H2_A1_SEND_NO_STORED_KM_case s
      else if i = H2_A1_READ_H_PRIME then H2_A1_READ_H_PRIME_case event_ctx s
      else if i = H2_A1_READ_PAIRING_INFO_AND_VALIDATE_H_PRIME
      then H2_A1_READ_PAIRING_INFO_AND_VALIDATE_H_PRIME_case event_ctx s
      else if i = H2_A1_SEND_STORED_KM then H2_A1_SEND_STORED_KM_case s
      else if i = H2_A1_VALIDATE_H_PRIME then H2_A1_VALIDATE_H_PRIME_case event_ctx s
      else if i = H2_A2_LOCALITY_CHECK then H2_A2_LOCALITY_CHECK_case s
      else if i = H2_A3_EXCHANGE_KS_AND_TEST_FOR_REPEATER
      then H2_A3_EXCHANGE_KS_AND_TEST_FOR_REPEATER_case s
      else if i = H2_ENABLE_ENCRYPTION then H2_ENABLE_ENCRYPTION_case event_ctx s
      else if i = H2_A5_AUTHENTICATED then H2_A5_AUTHENTICATED_case event_ctx s
      else if i = H2_A6_WAIT_FOR_RX_ID_LIST then H2_A6_WAIT_FOR_RX_ID_LIST_case event_ctx s
      else if i = H2_A78_VERIFY_RX_ID_LIST_AND_SEND_ACK
      then H2_A78_VERIFY_RX_ID_LIST_AND_SEND_ACK_case s
      else if i = H2_A9_SEND_STREAM_MANAGEMENT then H2_A9_SEND_STREAM_MANAGEMENT_case event_ctx s
      else if i = H2_A9_VALIDATE_STREAM_READY then H2_A9_VALIDATE_STREAM_READY_case event_ctx s
      else fail_and_restart_in_ms 0 (hdcp, output, MOD_HDCP_STATUS_INVALID_STATE))"

section \<open>DisplayPort\<close>

definition D2_A0_DETERMINE_RX_HDCP_CAPABLE_case :: "tstate \<Rightarrow> tstate" where
  "D2_A0_DETERMINE_RX_HDCP_CAPABLE_case s = (let hdcp = fst s in
     if input hdcp i2_rx_caps_read_dp \<noteq> PASS \<or> input hdcp i2_hdcp2_capable_check \<noteq> PASS
     then set_state_id HDCP_INITIALIZED (callback_in_ms 0 (adjust_hdcp2 (\<lambda>a. a\<lparr>disable2 := True\<rparr>) s))
     else set_state_id D2_A1_SEND_AKE_INIT (callback_in_ms 0 s))"

definition D2_A1_SEND_AKE_INIT_case :: "tstate \<Rightarrow> tstate" where
  "D2_A1_SEND_AKE_INIT_case s = (let hdcp = fst s in
     if input hdcp i2_create_session \<noteq> PASS \<or> input hdcp i2_ake_init_prepare \<noteq> PASS
     then fail_and_restart_in_ms 0 (adjust_hdcp2 (\<lambda>a. a\<lparr>disable2 := True\<rparr>) s)
     else if input hdcp i2_ake_init_write \<noteq> PASS
     then fail_and_restart_in_ms 0 s
     else set_state_id D2_A1_VALIDATE_AKE_CERT (callback_in_ms 100 s))"

definition D2_A1_VALIDATE_AKE_CERT_case :: "tstate \<Rightarrow> tstate" where
  "D2_A1_VALIDATE_AKE_CERT_case s = (let hdcp = fst s in
     if input hdcp i2_ake_cert_read \<noteq> PASS \<or> input hdcp i2_ake_cert_validation \<noteq> PASS
     then fail_and_restart_in_ms 0 s
     else if is_km_stored (connection hdcp) \<and> \<not> force_no_stored_km (adjust2 hdcp)
     then set_state_id D2_A1_SEND_STORED_KM (callback_in_ms 0 s)
     else set_state_id D2_A1_SEND_NO_STORED_KM (callback_in_ms 0 s))"

definition D2_A1_SEND_NO_STORED_KM_case :: "tstate \<Rightarrow> tstate" where
  "D2_A1_SEND_NO_STORED_KM_case s = (let hdcp = fst s in
     if input hdcp i2_no_stored_km_write \<noteq> PASS
     then fail_and_restart_in_ms 0 s
     else set_state_id D2_A1_READ_H_PRIME
       (if increase_h_prime_timeout (adjust2 hdcp) then set_watchdog_in_ms 2000 s
        else set_watchdog_in_ms 1000 s))"

definition D2_A1_READ_H_PRIME_case :: "mod_hdcp_event_context \<Rightarrow> tstate \<Rightarrow> tstate" where
  "D2_A1_READ_H_PRIME_case event_ctx s = (let hdcp = fst s in
     if input hdcp i2_h_prime_available \<noteq> PASS
     then if event event_ctx = MOD_HDCP_EVENT_WATCHDOG_TIMEOUT
          then fail_and_restart_in_ms 1000 s
          else increment_stay_counter s
     else if input hdcp i2_h_prime_read \<noteq> PASS
     then fail_and_restart_in_ms 0 s
     else set_state_id D2_A1_READ_PAIRING_INFO_AND_VALIDATE_H_PRIME (set_watchdog_in_ms 200 s))"

definition D2_A1_READ_PAIRING_INFO_AND_VALIDATE_H_PRIME_case ::
    "mod_hdcp_event_context \<Rightarrow> tstate \<Rightarrow> tstate" where
  "D2_A1_READ_PAIRING_INFO_AND_VALIDATE_H_PRIME_case event_ctx s = (let hdcp = fst s in
     if input hdcp i2_pairing_available \<noteq> PASS
     then if event event_ctx = MOD_HDCP_EVENT_WATCHDOG_TIMEOUT
          then fail_and_restart_in_ms 0 s
          else increment_stay_counter s
     else if input hdcp i2_pairing_info_read \<noteq> PASS \<or> input hdcp i2_h_prime_validation \<noteq> PASS
     then fail_and_restart_in_ms 0 s
     else set_state_id D2_A2_LOCALITY_CHECK (callback_in_ms 0 s))"

definition D2_A1_SEND_STORED_KM_case :: "tstate \<Rightarrow> tstate" where
  "D2_A1_SEND_STORED_KM_case s = (let hdcp = fst s in
     if input hdcp i2_stored_km_write \<noteq> PASS
     then fail_and_restart_in_ms 0 s
     else set_state_id D2_A1_VALIDATE_H_PRIME (set_watchdog_in_ms 200 s))"

definition D2_A1_VALIDATE_H_PRIME_case :: "mod_hdcp_event_context \<Rightarrow> tstate \<Rightarrow> tstate" where
  "D2_A1_VALIDATE_H_PRIME_case event_ctx s = (let hdcp = fst s in
     if input hdcp i2_h_prime_available \<noteq> PASS
     then if event event_ctx = MOD_HDCP_EVENT_WATCHDOG_TIMEOUT
          then fail_and_restart_in_ms 1000 s
          else increment_stay_counter s
     else if input hdcp i2_h_prime_read \<noteq> PASS
     then fail_and_restart_in_ms 0 s
     else if input hdcp i2_h_prime_validation \<noteq> PASS
     then fail_and_restart_in_ms 0 (adjust_hdcp2 (\<lambda>a. a\<lparr>force_no_stored_km := True\<rparr>) s)
     else set_state_id D2_A2_LOCALITY_CHECK (callback_in_ms 0 s))"

definition D2_A2_LOCALITY_CHECK_case :: "tstate \<Rightarrow> tstate" where
  "D2_A2_LOCALITY_CHECK_case s = (let hdcp = fst s;
       use_fw = (atomic_write_poll_read_aux (config hdcp) \<and> \<not> force_sw_locality_check (adjust2 hdcp)) in
     if 10 < stay_count (state hdcp) \<or> input hdcp i2_lc_init_prepare \<noteq> PASS \<or>
        (\<not> use_fw \<and> input hdcp i2_lc_init_write \<noteq> PASS)
     then fail_and_restart_in_ms 0 s
     else if input hdcp i2_l_prime_read \<noteq> PASS
     then if use_fw \<and> lc_enable_sw_fallback (config hdcp)
          then callback_in_ms 0 (adjust_hdcp2 (\<lambda>a. a\<lparr>force_sw_locality_check := True\<rparr>) s)
          else fail_and_restart_in_ms 0 s
     else if input hdcp i2_l_prime_validation \<noteq> PASS
     then increment_stay_counter (callback_in_ms 0 s)
     else set_state_id D2_A34_EXCHANGE_KS_AND_TEST_FOR_REPEATER (callback_in_ms 0 s))"

definition D2_A34_EXCHANGE_KS_AND_TEST_FOR_REPEATER_case :: "tstate \<Rightarrow> tstate" where
  "D2_A34_EXCHANGE_KS_AND_TEST_FOR_REPEATER_case s = (let hdcp = fst s in
     if input hdcp i2_eks_prepare \<noteq> PASS \<or> input hdcp i2_eks_write \<noteq> PASS
     then fail_and_restart_in_ms 0 s
     else if is_repeater (connection hdcp)
     then set_state_id D2_A6_WAIT_FOR_RX_ID_LIST (set_watchdog_in_ms 3000 s)
     else set_state_id D2_SEND_CONTENT_STREAM_TYPE (callback_in_ms 1 s))"

definition D2_SEND_CONTENT_STREAM_TYPE_case :: "tstate \<Rightarrow> tstate" where
  "D2_SEND_CONTENT_STREAM_TYPE_case s = (let hdcp = fst s in
     if input hdcp i2_rxstatus_read \<noteq> PASS \<or> input hdcp i2_reauth_request_check \<noteq> PASS \<or>
        input hdcp i2_link_integrity_check_dp \<noteq> PASS \<or> input hdcp i2_content_stream_type_write \<noteq> PASS
     then fail_and_restart_in_ms 0 s
     else set_state_id D2_ENABLE_ENCRYPTION (callback_in_ms 210 s))"

definition D2_ENABLE_ENCRYPTION_case :: "mod_hdcp_event_context \<Rightarrow> tstate \<Rightarrow> tstate" where
  "D2_ENABLE_ENCRYPTION_case event_ctx s = (let hdcp = fst s in
     if input hdcp i2_rxstatus_read \<noteq> PASS \<or> input hdcp i2_reauth_request_check \<noteq> PASS \<or>
        input hdcp i2_link_integrity_check_dp \<noteq> PASS
     then fail_and_restart_in_ms 0 s
     else if rx_id_list_ready event_ctx \<and> is_repeater (connection hdcp)
     then set_state_id D2_A78_VERIFY_RX_ID_LIST_AND_SEND_ACK (callback_in_ms 0 s)
     else if input hdcp i2_enable_encryption \<noteq> PASS \<or>
             (is_dp_mst_hdcp hdcp \<and> input hdcp i2_stream_encryption_dp \<noteq> PASS)
     then fail_and_restart_in_ms 0 s
     else set_auth_complete (set_state_id D2_A5_AUTHENTICATED s))"

definition D2_A5_AUTHENTICATED_case :: "mod_hdcp_event_context \<Rightarrow> tstate \<Rightarrow> tstate" where
  "D2_A5_AUTHENTICATED_case event_ctx s = (let hdcp = fst s in
     if input hdcp i2_rxstatus_read = FAIL \<or> input hdcp i2_reauth_request_check = FAIL
     then fail_and_restart_in_ms 100 s
     else if input hdcp i2_link_integrity_check_dp = FAIL
     then fail_and_restart_in_ms 0
       (if 1 \<le> hdcp2_retry_count (connection hdcp)
        then adjust_hdcp2 (\<lambda>a. a\<lparr>force_type := MOD_HDCP_FORCE_TYPE_0\<rparr>) s else s)
     else if rx_id_list_ready event_ctx \<and> is_repeater (connection hdcp)
     then set_state_id D2_A78_VERIFY_RX_ID_LIST_AND_SEND_ACK (callback_in_ms 0 s)
     else increment_stay_counter s)"

definition D2_A6_WAIT_FOR_RX_ID_LIST_case :: "mod_hdcp_event_context \<Rightarrow> tstate \<Rightarrow> tstate" where
  "D2_A6_WAIT_FOR_RX_ID_LIST_case event_ctx s = (let hdcp = fst s in
     if input hdcp i2_rxstatus_read \<noteq> PASS \<or> input hdcp i2_reauth_request_check \<noteq> PASS \<or>
        input hdcp i2_link_integrity_check_dp \<noteq> PASS
     then fail_and_restart_in_ms 0 s
     else if \<not> rx_id_list_ready event_ctx
     then if event event_ctx = MOD_HDCP_EVENT_WATCHDOG_TIMEOUT
          then fail_and_restart_in_ms 0 s
          else increment_stay_counter s
     else set_state_id D2_A78_VERIFY_RX_ID_LIST_AND_SEND_ACK (callback_in_ms 0 s))"

definition D2_A78_VERIFY_RX_ID_LIST_AND_SEND_ACK_case :: "tstate \<Rightarrow> tstate" where
  "D2_A78_VERIFY_RX_ID_LIST_AND_SEND_ACK_case s = (let hdcp = fst s in
     if input hdcp i2_rxstatus_read \<noteq> PASS \<or> input hdcp i2_reauth_request_check \<noteq> PASS \<or>
        input hdcp i2_link_integrity_check_dp \<noteq> PASS \<or> input hdcp i2_rx_id_list_read \<noteq> PASS \<or>
        input hdcp i2_device_count_check \<noteq> PASS \<or> input hdcp i2_rx_id_list_validation \<noteq> PASS \<or>
        input hdcp i2_repeater_auth_ack_write \<noteq> PASS
     then fail_and_restart_in_ms 0 s
     else set_state_id D2_A9_SEND_STREAM_MANAGEMENT (callback_in_ms 0 s))"

definition D2_A9_SEND_STREAM_MANAGEMENT_case :: "mod_hdcp_event_context \<Rightarrow> tstate \<Rightarrow> tstate" where
  "D2_A9_SEND_STREAM_MANAGEMENT_case event_ctx s = (let hdcp = fst s in
     if input hdcp i2_rxstatus_read \<noteq> PASS \<or> input hdcp i2_reauth_request_check \<noteq> PASS \<or>
        input hdcp i2_link_integrity_check_dp \<noteq> PASS
     then fail_and_restart_in_ms 0 s
     else if rx_id_list_ready event_ctx
     then set_state_id D2_A78_VERIFY_RX_ID_LIST_AND_SEND_ACK (callback_in_ms 0 s)
     else if input hdcp i2_prepare_stream_manage \<noteq> PASS \<or> input hdcp i2_stream_manage_write \<noteq> PASS
     then if event event_ctx = MOD_HDCP_EVENT_CALLBACK
          then fail_and_restart_in_ms 0 s
          else increment_stay_counter s
     else set_state_id D2_A9_VALIDATE_STREAM_READY (callback_in_ms 100 s))"

definition D2_A9_VALIDATE_STREAM_READY_case :: "mod_hdcp_event_context \<Rightarrow> tstate \<Rightarrow> tstate" where
  "D2_A9_VALIDATE_STREAM_READY_case event_ctx s = (let hdcp = fst s in
     if input hdcp i2_rxstatus_read \<noteq> PASS \<or> input hdcp i2_reauth_request_check \<noteq> PASS \<or>
        input hdcp i2_link_integrity_check_dp \<noteq> PASS
     then fail_and_restart_in_ms 0 s
     else if rx_id_list_ready event_ctx
     then set_state_id D2_A78_VERIFY_RX_ID_LIST_AND_SEND_ACK (callback_in_ms 0 s)
     else if input hdcp i2_stream_ready_read \<noteq> PASS \<or> input hdcp i2_stream_ready_validation \<noteq> PASS
     then if 10 < stream_management_retry_count (auth hdcp)
          then fail_and_restart_in_ms 0 s
          else if event event_ctx = MOD_HDCP_EVENT_CALLBACK
          then set_state_id D2_A9_SEND_STREAM_MANAGEMENT (callback_in_ms 0 (count_stream_management_retry s))
          else increment_stay_counter s
     else set_state_id D2_ENABLE_ENCRYPTION (callback_in_ms 200 s))"

definition mod_hdcp_hdcp2_dp_transition ::
    "mod_hdcp_event_context \<Rightarrow> mod_hdcp \<Rightarrow> mod_hdcp_output \<Rightarrow> tstate" where
  "mod_hdcp_hdcp2_dp_transition event_ctx hdcp output =
     (let s = (hdcp, output, SUCCESS); i = current_state hdcp in
      if i = D2_A0_DETERMINE_RX_HDCP_CAPABLE then D2_A0_DETERMINE_RX_HDCP_CAPABLE_case s
      else if i = D2_A1_SEND_AKE_INIT then D2_A1_SEND_AKE_INIT_case s
      else if i = D2_A1_VALIDATE_AKE_CERT then D2_A1_VALIDATE_AKE_CERT_case s
      else if i = D2_A1_SEND_NO_STORED_KM then D2_A1_SEND_NO_STORED_KM_case s
      else if i = D2_A1_READ_H_PRIME then D2_A1_READ_H_PRIME_case event_ctx s
      else if i = D2_A1_READ_PAIRING_INFO_AND_VALIDATE_H_PRIME
      then D2_A1_READ_PAIRING_INFO_AND_VALIDATE_H_PRIME_case event_ctx s
      else if i = D2_A1_SEND_STORED_KM then D2_A1_SEND_STORED_KM_case s
      else if i = D2_A1_VALIDATE_H_PRIME then D2_A1_VALIDATE_H_PRIME_case event_ctx s
      else if i = D2_A2_LOCALITY_CHECK then D2_A2_LOCALITY_CHECK_case s
      else if i = D2_A34_EXCHANGE_KS_AND_TEST_FOR_REPEATER
      then D2_A34_EXCHANGE_KS_AND_TEST_FOR_REPEATER_case s
      else if i = D2_SEND_CONTENT_STREAM_TYPE then D2_SEND_CONTENT_STREAM_TYPE_case s
      else if i = D2_ENABLE_ENCRYPTION then D2_ENABLE_ENCRYPTION_case event_ctx s
      else if i = D2_A5_AUTHENTICATED then D2_A5_AUTHENTICATED_case event_ctx s
      else if i = D2_A6_WAIT_FOR_RX_ID_LIST then D2_A6_WAIT_FOR_RX_ID_LIST_case event_ctx s
      else if i = D2_A78_VERIFY_RX_ID_LIST_AND_SEND_ACK
      then D2_A78_VERIFY_RX_ID_LIST_AND_SEND_ACK_case s
      else if i = D2_A9_SEND_STREAM_MANAGEMENT then D2_A9_SEND_STREAM_MANAGEMENT_case event_ctx s
      else if i = D2_A9_VALIDATE_STREAM_READY then D2_A9_VALIDATE_STREAM_READY_case event_ctx s
      else fail_and_restart_in_ms 0 (hdcp, output, MOD_HDCP_STATUS_INVALID_STATE))"

end
