(* ===== verification/Hdcp_Top.thy ===== *)
theory Hdcp_Top
  imports Hdcp_Trans1 Hdcp_Trans2 Hdcp1_Exec Hdcp2_Exec
begin

text \<open>
  The interface of the HDCP module (\<^verbatim>\<open>amd/display/modules/hdcp/hdcp.c\<close>): error
  accounting, the choice of the protocol version, execution and transition of the current state,
  resetting, and the functions of \<^verbatim>\<open>mod_hdcp.h\<close> that the display manager calls. Every
  function that writes \<^verbatim>\<open>*output\<close> clears it first, so the output is a result.
\<close>

type_synonym 'w tresult = "mod_hdcp_status \<times> mod_hdcp \<times> mod_hdcp_output \<times> 'w"

section \<open>Errors and policy\<close>

definition push_error_trace :: "mod_hdcp_status \<Rightarrow> mod_hdcp \<Rightarrow> mod_hdcp" where
  "push_error_trace status hdcp =
     (let trace = conn_trace (connection hdcp); n = error_count trace in
      if unat n < MAX_NUM_OF_ERROR_TRACE
      then set_conn (conn_trace_update (\<lambda>_. trace
             \<lparr>errors := (errors trace)[unat n := (status, state_id (state hdcp))],
              error_count := n + 1\<rparr>)) hdcp
      else hdcp)"

definition count_failed_attempt :: "mod_hdcp \<Rightarrow> mod_hdcp" where
  "count_failed_attempt hdcp =
     (if is_hdcp1 hdcp
      then let hdcp' = set_conn (\<lambda>c. c\<lparr>hdcp1_retry_count := hdcp1_retry_count c + 1\<rparr>) hdcp
           in if hdcp1_retry_count (connection hdcp') = MAX_NUM_OF_ATTEMPTS
              then update_adjust (\<lambda>a. a\<lparr>adj_hdcp1 := (adj_hdcp1 a)\<lparr>disable1 := True\<rparr>\<rparr>) hdcp'
              else hdcp'
      else if is_hdcp2 hdcp
      then let hdcp' = set_conn (\<lambda>c. c\<lparr>hdcp2_retry_count := hdcp2_retry_count c + 1\<rparr>) hdcp
           in if hdcp2_retry_count (connection hdcp') = MAX_NUM_OF_ATTEMPTS
              then update_adjust (\<lambda>a. a\<lparr>adj_hdcp2 := (adj_hdcp2 a)\<lparr>disable2 := True\<rparr>\<rparr>) hdcp'
              else hdcp'
      else hdcp)"

definition push_error_status :: "mod_hdcp_status \<Rightarrow> mod_hdcp \<Rightarrow> mod_hdcp" where
  "push_error_status status hdcp = count_failed_attempt (push_error_trace status hdcp)"

definition is_auth_needed :: "mod_hdcp \<Rightarrow> bool" where
  "is_auth_needed hdcp \<longleftrightarrow> list_ex (\<lambda>i. disp_state (displays hdcp ! i) \<noteq> MOD_HDCP_DISPLAY_INACTIVE \<and>
     da_disable (disp_adjust (displays hdcp ! i)) \<noteq> MOD_HDCP_DISPLAY_DISABLE_AUTHENTICATION)
     [0..<MAX_NUM_OF_DISPLAYS]"

definition is_cp_desired_hdcp1 :: "mod_hdcp \<Rightarrow> bool" where
  "is_cp_desired_hdcp1 hdcp \<longleftrightarrow>
     is_auth_needed hdcp \<and> \<not> disable1 (adjust1 hdcp) \<and> \<not> is_hdcp1_revoked (connection hdcp)"

definition is_cp_desired_hdcp2 :: "mod_hdcp \<Rightarrow> bool" where
  "is_cp_desired_hdcp2 hdcp \<longleftrightarrow>
     is_auth_needed hdcp \<and> \<not> disable2 (adjust2 hdcp) \<and> \<not> is_hdcp2_revoked (connection hdcp)"

section \<open>Execution and transition\<close>

definition clear_trans_input :: "mod_hdcp \<Rightarrow> mod_hdcp" where
  "clear_trans_input hdcp = hdcp\<lparr>auth := (auth hdcp)\<lparr>trans_input := (\<lambda>_. UNKNOWN)\<rparr>\<rparr>"

definition execution :: "'w hdcp_env \<Rightarrow> 'w step" where
  "execution env s =
     (let hdcp = fst s in
      if is_in_initialized_state hdcp
      then expect [MOD_HDCP_EVENT_CALLBACK] (modify_hdcp clear_trans_input) s
      else if is_in_cp_not_desired_state hdcp
      then expect [MOD_HDCP_EVENT_CALLBACK] (run_steps []) s
      else if is_in_hdcp1_states hdcp then mod_hdcp_hdcp1_execution env s
      else if is_in_hdcp1_dp_states hdcp then mod_hdcp_hdcp1_dp_execution env s
      else if is_in_hdcp2_states hdcp then mod_hdcp_hdcp2_execution env s
      else if is_in_hdcp2_dp_states hdcp then mod_hdcp_hdcp2_dp_execution env s
      else mark_unexpected s)"

text \<open>The choice made in the initialized state.\<close>

definition start_transition :: "tstate \<Rightarrow> tstate" where
  "start_transition s = (let hdcp = fst s in
     if is_dp_hdcp hdcp
     then if is_cp_desired_hdcp2 hdcp
          then set_state_id D2_A0_DETERMINE_RX_HDCP_CAPABLE (callback_in_ms 0 s)
          else if is_cp_desired_hdcp1 hdcp
          then set_state_id D1_A0_DETERMINE_RX_HDCP_CAPABLE (callback_in_ms 0 s)
          else set_auth_complete (set_state_id HDCP_CP_NOT_DESIRED (callback_in_ms 0 s))
     else if is_hdmi_dvi_sl_hdcp hdcp
     then if is_cp_desired_hdcp2 hdcp
          then set_state_id H2_A0_KNOWN_HDCP2_CAPABLE_RX (callback_in_ms 0 s)
          else if is_cp_desired_hdcp1 hdcp
          then set_state_id H1_A0_WAIT_FOR_ACTIVE_RX (callback_in_ms 0 s)
          else set_auth_complete (set_state_id HDCP_CP_NOT_DESIRED (callback_in_ms 0 s))
     else set_auth_complete (set_state_id HDCP_CP_NOT_DESIRED (callback_in_ms 0 s)))"

definition transition :: "mod_hdcp_event_context \<Rightarrow> mod_hdcp \<Rightarrow> mod_hdcp_output \<Rightarrow> tstate" where
  "transition event_ctx hdcp output =
     (if unexpected_event event_ctx then (hdcp, output, SUCCESS)
      else if is_in_initialized_state hdcp then start_transition (hdcp, output, SUCCESS)
      else if is_in_cp_not_desired_state hdcp then increment_stay_counter (hdcp, output, SUCCESS)
      else if is_in_hdcp1_states hdcp then mod_hdcp_hdcp1_transition event_ctx hdcp output
      else if is_in_hdcp1_dp_states hdcp then mod_hdcp_hdcp1_dp_transition event_ctx hdcp output
      else if is_in_hdcp2_states hdcp then mod_hdcp_hdcp2_transition event_ctx hdcp output
      else if is_in_hdcp2_dp_states hdcp then mod_hdcp_hdcp2_dp_transition event_ctx hdcp output
      else (hdcp, output, MOD_HDCP_STATUS_INVALID_STATE))"

section \<open>Resetting\<close>

text \<open>The three lines that clear the authentication and return to the initialized state.\<close>

definition clear_authentication :: "mod_hdcp \<Rightarrow> mod_hdcp" where
  "clear_authentication hdcp =
     hdcp\<lparr>auth := zero_auth, state := zero_state\<lparr>state_id := HDCP_INITIALIZED\<rparr>\<rparr>"

abbreviation stop_timers :: "mod_hdcp_output \<Rightarrow> mod_hdcp_output" where
  "stop_timers output \<equiv> output\<lparr>watchdog_timer_stop := True, callback_stop := True\<rparr>"

definition reset_authentication :: "'w hdcp_env \<Rightarrow> mod_hdcp \<Rightarrow> mod_hdcp_output \<Rightarrow> 'w \<Rightarrow> 'w tresult" where
  "reset_authentication env hdcp output w =
     (if is_hdcp1 hdcp
      then let (_, hdcp', w') =
             (if input hdcp i1_create_session \<noteq> UNKNOWN then mod_hdcp_hdcp1_destroy_session env hdcp w
              else (SUCCESS, hdcp, w))
           in (SUCCESS, clear_authentication hdcp', stop_timers output, w')
      else if is_hdcp2 hdcp
      then let (status, hdcp', w') =
             (if input hdcp i2_create_session = PASS then mod_hdcp_hdcp2_destroy_session env hdcp w
              else (SUCCESS, hdcp, w))
           in if status \<noteq> SUCCESS
              then (status, hdcp',
                    stop_timers (output\<lparr>callback_needed := False, watchdog_timer_needed := False\<rparr>), w')
              else (SUCCESS, clear_authentication hdcp', stop_timers output, w')
      else if is_in_cp_not_desired_state hdcp
      then (SUCCESS, clear_authentication hdcp, stop_timers output, w)
      else (SUCCESS, hdcp, stop_timers output, w))"

definition reset_connection :: "'w hdcp_env \<Rightarrow> mod_hdcp \<Rightarrow> 'w \<Rightarrow> 'w tresult" where
  "reset_connection env hdcp w =
     (let (status, hdcp', output, w') = reset_authentication env hdcp zero_output w
      in if status \<noteq> SUCCESS then (status, hdcp', output, w')
         else let (hdcp'', output', _) =
                (if current_state hdcp' \<noteq> HDCP_UNINITIALIZED
                 then set_state_id HDCP_UNINITIALIZED (hdcp', output, SUCCESS)
                 else (hdcp', output, SUCCESS))
              in (SUCCESS, hdcp''\<lparr>connection := zero_connection\<rparr>, output', w'))"

definition set_display_disable :: "nat \<Rightarrow> 2 word \<Rightarrow> mod_hdcp \<Rightarrow> mod_hdcp" where
  "set_display_disable i v hdcp =
     hdcp\<lparr>displays := (displays hdcp)[i := (displays hdcp ! i)
       \<lparr>disp_adjust := (disp_adjust (displays hdcp ! i))\<lparr>da_disable := v\<rparr>\<rparr>]\<rparr>"

definition update_display_adjustments ::
    "'w hdcp_env \<Rightarrow> nat \<Rightarrow> mod_hdcp_display_adjustment \<Rightarrow> 'w mod_hdcp_action" where
  "update_display_adjustments env i adj hdcp w =
     (let (status, hdcp', w') =
        (if is_in_authenticated_states hdcp \<and> is_dp_mst_hdcp hdcp \<and>
            da_disable (disp_adjust (displays hdcp ! i)) = 1 \<and> da_disable adj = 0
         then let hdcp1 = set_display_disable i 0 hdcp;
                  (status, hdcp2, w2) =
                    (if is_hdcp1 hdcp1 then mod_hdcp_hdcp1_enable_dp_stream_encryption env hdcp1 w
                     else if is_hdcp2 hdcp1 then mod_hdcp_hdcp2_enable_dp_stream_encryption env hdcp1 w
                     else (MOD_HDCP_STATUS_NOT_IMPLEMENTED, hdcp1, w))
              in (status, if status \<noteq> SUCCESS then set_display_disable i 1 hdcp2 else hdcp2, w2)
         else (MOD_HDCP_STATUS_NOT_IMPLEMENTED, hdcp, w))
      in (if status = SUCCESS \<and> adj \<noteq> disp_adjust (displays hdcp' ! i)
          then MOD_HDCP_STATUS_NOT_IMPLEMENTED else status, hdcp', w'))"

section \<open>Interface\<close>

text \<open>\<^verbatim>\<open>if (status != MOD_HDCP_STATUS_SUCCESS) push_error_status(hdcp, status)\<close>\<close>

definition push_if_failed :: "mod_hdcp_status \<Rightarrow> mod_hdcp \<Rightarrow> mod_hdcp" where
  "push_if_failed status hdcp = (if status \<noteq> SUCCESS then push_error_status status hdcp else hdcp)"

definition mod_hdcp_setup :: "'w hdcp_env \<Rightarrow> mod_hdcp_config \<Rightarrow> 'w mod_hdcp_action" where
  "mod_hdcp_setup env cfg hdcp w =
     (let (status, hdcp', _, w') = reset_connection env (hdcp\<lparr>config := cfg\<rparr>) w
      in (status, push_if_failed status hdcp', w'))"

definition mod_hdcp_teardown :: "'w hdcp_env \<Rightarrow> 'w mod_hdcp_action" where
  "mod_hdcp_teardown env hdcp w =
     (let (status, hdcp', _, w') = reset_connection env hdcp w
      in if status = SUCCESS then (status, zero_hdcp\<lparr>fault := fault hdcp'\<rparr>, w')
         else (status, push_error_status status hdcp', w'))"

abbreviation reset_trace :: "mod_hdcp \<Rightarrow> mod_hdcp" where
  "reset_trace hdcp \<equiv> set_conn (conn_trace_update (\<lambda>_. zero_trace)) hdcp"

text \<open>\<^verbatim>\<open>auth_delay * 1000\<close> is passed as a 16-bit number of milliseconds.\<close>

definition auth_delay_ms :: "mod_hdcp \<Rightarrow> u16" where
  "auth_delay_ms hdcp = ucast (auth_delay (link_adjust (link (connection hdcp)))) * 1000"

definition mod_hdcp_add_display ::
    "'w hdcp_env \<Rightarrow> mod_hdcp_link \<Rightarrow> mod_hdcp_display \<Rightarrow> mod_hdcp \<Rightarrow> 'w \<Rightarrow> 'w tresult" where
  "mod_hdcp_add_display env lnk display hdcp w =
     (let (status, hdcp', output, w') =
        (if disp_state display \<noteq> MOD_HDCP_DISPLAY_ACTIVE then (SUCCESS, hdcp, zero_output, w)
         else if get_active_display_at_index hdcp (disp_index display) \<noteq> None
         then (SUCCESS, hdcp, zero_output, w)
         else case get_empty_display_container hdcp of
           None \<Rightarrow> (MOD_HDCP_STATUS_DISPLAY_OUT_OF_BOUND, hdcp, zero_output, w)
         | Some i \<Rightarrow>
             let (status, hdcp1, output, w1) = reset_authentication env hdcp zero_output w
             in if status \<noteq> SUCCESS then (status, hdcp1, output, w1)
                else let hdcp2 = set_conn (link_update (\<lambda>_. lnk)) (reset_trace (reset_retry_counts hdcp1));
                         hdcp3 = hdcp2\<lparr>displays := (displays hdcp2)[i := display]\<rparr>;
                         (status, hdcp4, w4) = mod_hdcp_add_display_to_topology env i hdcp3 w1
                     in if status \<noteq> SUCCESS then (status, hdcp4, output, w4)
                        else let (hdcp5, output5, _) = callback_in_ms (auth_delay_ms hdcp4)
                               (if current_state hdcp4 \<noteq> HDCP_INITIALIZED
                                then set_state_id HDCP_INITIALIZED (hdcp4, output, SUCCESS)
                                else (hdcp4, output, SUCCESS))
                             in (SUCCESS, hdcp5, output5, w4))
      in (status, push_if_failed status hdcp', output, w'))"

definition mod_hdcp_remove_display ::
    "'w hdcp_env \<Rightarrow> u8 \<Rightarrow> mod_hdcp \<Rightarrow> 'w \<Rightarrow> 'w tresult" where
  "mod_hdcp_remove_display env index hdcp w =
     (let (status, hdcp', output, w') =
        (case get_active_display_at_index hdcp index of
           None \<Rightarrow> (SUCCESS, hdcp, zero_output, w)
         | Some i \<Rightarrow>
             let (status, hdcp1, output, w1) = reset_authentication env hdcp zero_output w
             in if status \<noteq> SUCCESS then (status, hdcp1, output, w1)
                else let (status, hdcp2, w2) = mod_hdcp_remove_display_from_topology env index
                           (reset_trace (reset_retry_counts hdcp1)) w1
                     in if status \<noteq> SUCCESS then (status, hdcp2, output, w2)
                        else let hdcp3 = hdcp2\<lparr>displays := (displays hdcp2)[i := zero_display]\<rparr>;
                                 (hdcp4, output4, _) =
                                   (if current_state hdcp3 \<noteq> HDCP_UNINITIALIZED
                                    then callback_in_ms (auth_delay_ms hdcp3) (hdcp3, output, SUCCESS)
                                    else (hdcp3, output, SUCCESS))
                             in (SUCCESS, hdcp4, output4, w2))
      in (status, push_if_failed status hdcp', output, w'))"

definition mod_hdcp_update_display ::
    "'w hdcp_env \<Rightarrow> u8 \<Rightarrow> mod_hdcp_link_adjustment \<Rightarrow> mod_hdcp_display_adjustment \<Rightarrow>
     mod_hdcp \<Rightarrow> 'w \<Rightarrow> 'w tresult" where
  "mod_hdcp_update_display env index ladj dadj hdcp w =
     (let (status, hdcp', output, w') =
        (case get_active_display_at_index hdcp index of
           None \<Rightarrow> (MOD_HDCP_STATUS_DISPLAY_NOT_FOUND, hdcp, zero_output, w)
         | Some i \<Rightarrow>
             let same_link = (ladj = link_adjust (link (connection hdcp)));
                 same_display = (dadj = disp_adjust (displays hdcp ! i));
                 restart = (\<lambda>h w.
                   let (status, hdcp1, output, w1) = reset_authentication env h zero_output w
                   in if status \<noteq> SUCCESS then (status, hdcp1, output, w1)
                      else let hdcp2 = update_adjust (\<lambda>_. ladj) (reset_trace (reset_retry_counts hdcp1));
                               hdcp3 = hdcp2\<lparr>displays := (displays hdcp2)
                                         [i := (displays hdcp2 ! i)\<lparr>disp_adjust := dadj\<rparr>]\<rparr>;
                               (hdcp4, output4, _) =
                                 (if current_state hdcp3 \<noteq> HDCP_UNINITIALIZED
                                  then callback_in_ms 100 (hdcp3, output, SUCCESS)
                                  else (hdcp3, output, SUCCESS))
                           in (SUCCESS, hdcp4, output4, w1))
             in if same_link \<and> same_display then (SUCCESS, hdcp, zero_output, w)
                else if same_link \<and> \<not> same_display
                then let (status, hdcp1, w1) = update_display_adjustments env i dadj hdcp w
                     in if status \<noteq> MOD_HDCP_STATUS_NOT_IMPLEMENTED
                        then (status, hdcp1, zero_output, w1)
                        else restart hdcp1 w1
                else restart hdcp w)
      in (status, push_if_failed status hdcp', output, w'))"

text \<open>
  The query holds pointers to the link, the display and the trace; only the encryption status is
  computed. A display that is not found leaves the query alone.
\<close>

definition query_encryption_status :: "mod_hdcp \<Rightarrow> mod_hdcp_display \<Rightarrow> mod_hdcp_encryption_status" where
  "query_encryption_status hdcp display =
     (if is_display_encryption_enabled display
      then if is_hdcp1 hdcp then MOD_HDCP_ENCRYPTION_STATUS_HDCP1_ON
           else if is_hdcp2 hdcp
           then if force_type (adjust2 hdcp) = MOD_HDCP_FORCE_TYPE_0
                then MOD_HDCP_ENCRYPTION_STATUS_HDCP2_TYPE0_ON
                else if force_type (adjust2 hdcp) = MOD_HDCP_FORCE_TYPE_1
                then MOD_HDCP_ENCRYPTION_STATUS_HDCP2_TYPE1_ON
                else MOD_HDCP_ENCRYPTION_STATUS_HDCP2_ON
           else MOD_HDCP_ENCRYPTION_STATUS_HDCP_OFF
      else MOD_HDCP_ENCRYPTION_STATUS_HDCP_OFF)"

definition mod_hdcp_query_display ::
    "mod_hdcp \<Rightarrow> u8 \<Rightarrow> mod_hdcp_status \<times>
       (mod_hdcp_link \<times> mod_hdcp_display \<times> mod_hdcp_trace \<times> mod_hdcp_encryption_status) option" where
  "mod_hdcp_query_display hdcp index =
     (case get_active_display_at_index hdcp index of
        None \<Rightarrow> (MOD_HDCP_STATUS_DISPLAY_NOT_FOUND, None)
      | Some i \<Rightarrow> (SUCCESS, Some (link (connection hdcp), displays hdcp ! i, conn_trace (connection hdcp),
                                  query_encryption_status hdcp (displays hdcp ! i))))"

definition mod_hdcp_reset_connection :: "'w hdcp_env \<Rightarrow> mod_hdcp \<Rightarrow> 'w \<Rightarrow> 'w tresult" where
  "mod_hdcp_reset_connection env hdcp w =
     (let (status, hdcp', output, w') = reset_connection env hdcp w
      in (status, push_if_failed status hdcp', output, w'))"

definition event_context :: "mod_hdcp_event \<Rightarrow> mod_hdcp_event_context" where
  "event_context ev = \<lparr>event = ev, rx_id_list_ready = False, unexpected_event = False\<rparr>"

text \<open>
  The first half of \<^verbatim>\<open>mod_hdcp_process_event\<close>: execution, transition and the error they
  may leave; it returns the status of the transition beside the one reported.
\<close>

definition execute_and_transition ::
    "'w hdcp_env \<Rightarrow> mod_hdcp_event \<Rightarrow> mod_hdcp \<Rightarrow> 'w \<Rightarrow>
     mod_hdcp_status \<times> mod_hdcp_status \<times> mod_hdcp \<times> mod_hdcp_output \<times> 'w" where
  "execute_and_transition env ev hdcp w =
     (let (exec_status, hdcp1, event_ctx, w1) = execution env (hdcp, event_context ev, w);
          (hdcp2, output, trans_status) = transition event_ctx hdcp1 zero_output
      in if trans_status = SUCCESS then (trans_status, SUCCESS, hdcp2, output, w1)
         else if exec_status = SUCCESS
         then (trans_status, MOD_HDCP_STATUS_INTERNAL_POLICY_FAILURE,
               push_error_status MOD_HDCP_STATUS_INTERNAL_POLICY_FAILURE hdcp2, output, w1)
         else (trans_status, exec_status, push_error_status exec_status hdcp2, output, w1))"

definition mod_hdcp_process_event :: "'w hdcp_env \<Rightarrow> mod_hdcp_event \<Rightarrow> mod_hdcp \<Rightarrow> 'w \<Rightarrow> 'w tresult" where
  "mod_hdcp_process_event env ev hdcp w =
     (let (trans_status, status, hdcp2, output, w1) = execute_and_transition env ev hdcp w;
          (hdcp3, output3, w3) =
            (if trans_status = MOD_HDCP_STATUS_RESET_NEEDED
             then let (reset_status, h, out, w') = reset_authentication env hdcp2 output w1
                  in (push_if_failed reset_status h, out, w')
             else (hdcp2, output, w1))
      in if ev = MOD_HDCP_EVENT_CPIRQ
         then let (status, hdcp4, w4) = mod_hdcp_clear_cp_irq_status env hdcp3 w3
              in (status, push_if_failed status hdcp4, output3, w4)
         else (status, hdcp3, output3, w3))"

datatype signal_type =
    SIGNAL_TYPE_NONE
  | SIGNAL_TYPE_DVI_SINGLE_LINK
  | SIGNAL_TYPE_DVI_DUAL_LINK
  | SIGNAL_TYPE_HDMI_TYPE_A
  | SIGNAL_TYPE_LVDS
  | SIGNAL_TYPE_RGB
  | SIGNAL_TYPE_DISPLAY_PORT
  | SIGNAL_TYPE_DISPLAY_PORT_MST
  | SIGNAL_TYPE_EDP
  | SIGNAL_TYPE_VIRTUAL

fun mod_hdcp_signal_type_to_operation_mode :: "signal_type \<Rightarrow> mod_hdcp_operation_mode" where
  "mod_hdcp_signal_type_to_operation_mode SIGNAL_TYPE_DVI_SINGLE_LINK = MOD_HDCP_MODE_DEFAULT"
| "mod_hdcp_signal_type_to_operation_mode SIGNAL_TYPE_HDMI_TYPE_A = MOD_HDCP_MODE_DEFAULT"
| "mod_hdcp_signal_type_to_operation_mode SIGNAL_TYPE_EDP = MOD_HDCP_MODE_DP"
| "mod_hdcp_signal_type_to_operation_mode SIGNAL_TYPE_DISPLAY_PORT = MOD_HDCP_MODE_DP"
| "mod_hdcp_signal_type_to_operation_mode SIGNAL_TYPE_DISPLAY_PORT_MST = MOD_HDCP_MODE_DP"
| "mod_hdcp_signal_type_to_operation_mode _ = MOD_HDCP_MODE_OFF"

end
