(* ===== verification/Hdcp_Machine.thy ===== *)
theory Hdcp_Machine
  imports Hdcp_Frame Hdcp_Top
begin

text \<open>
  The contract the four state machines share. The handshake a machine has behind it in a state is a
  list of flags of the transition input that must all be \<^verbatim>\<open>PASS\<close>; the locale
  \<open>hdcp_machine\<close> says that execution and transition of a state keep that handshake, that a
  transition stays in the machine, gives up to the initialized state or asks for a reset, that it
  completes the authentication exactly on entering the authenticated state, and that a state change
  always asks for a timer or enters the authenticated state. It is interpreted on the HDMI and
  DisplayPort machines of both versions.
\<close>

section \<open>Handshakes\<close>

definition passed :: "mod_hdcp \<Rightarrow> nat list \<Rightarrow> bool" where
  "passed h fs \<longleftrightarrow> list_all (\<lambda>f. input h f = PASS) fs"

type_synonym handshake_table = "u8 \<Rightarrow> bool \<Rightarrow> bool \<Rightarrow> nat list"

text \<open>The table is indexed by the state, whether the sink is a repeater and whether the link is MST.\<close>

definition handshake :: "handshake_table \<Rightarrow> mod_hdcp \<Rightarrow> bool" where
  "handshake needs h \<longleftrightarrow>
     passed h (needs (current_state h) (is_repeater (connection h)) (is_dp_mst_hdcp h))"

text \<open>HDCP 1.4: key exchange, validation of the receiver, list of a repeater's devices, encryption.\<close>

abbreviation ksv_flags :: "nat list" where
  "ksv_flags \<equiv> [i1_create_session, i1_an_write, i1_aksv_write, i1_bksv_read, i1_bksv_validation]"

abbreviation rx_flags :: "nat list" where
  "rx_flags \<equiv> ksv_flags @ [i1_r0p_read, i1_rx_validation]"

abbreviation ksvlist_flags :: "nat list" where
  "ksvlist_flags \<equiv> [i1_ready_check, i1_max_cascade_check, i1_max_devs_check, i1_device_count_check,
     i1_ksvlist_read, i1_vp_read, i1_ksvlist_vp_validation]"

definition hdcp1_needs :: handshake_table where
  "hdcp1_needs i rep mst =
     (if i = H1_A2_COMPUTATIONS_A3_VALIDATE_RX_A6_TEST_FOR_REPEATER \<or> i = D1_A23_WAIT_FOR_R0_PRIME \<or>
         i = D1_A2_COMPUTATIONS_A3_VALIDATE_RX_A5_TEST_FOR_REPEATER then ksv_flags
      else if i = H1_A8_WAIT_FOR_READY \<or> i = D1_A6_WAIT_FOR_READY then rx_flags
      else if i = H1_A9_READ_KSV_LIST \<or> i = D1_A7_READ_KSV_LIST then rx_flags @ [i1_ready_check]
      else if i = H1_A45_AUTHENTICATED
      then rx_flags @ [i1_encryption] @ (if rep then ksvlist_flags else [])
      else if i = D1_A4_AUTHENTICATED
      then rx_flags @ [i1_encryption] @ (if rep then ksvlist_flags else []) @
           (if mst then [i1_stream_encryption_dp] else [])
      else [])"

text \<open>
  HDCP 2.2: certificate, key agreement (\<open>h'\<close>), locality check (\<open>l'\<close>), session
  key, a repeater's list and stream management, encryption.
\<close>

abbreviation cert_flags :: "nat list" where
  "cert_flags \<equiv> [i2_hdcp2_capable_check, i2_create_session, i2_ake_init_prepare, i2_ake_init_write,
     i2_ake_cert_read, i2_ake_cert_validation]"

abbreviation ake_flags :: "nat list" where
  "ake_flags \<equiv> cert_flags @ [i2_h_prime_read, i2_h_prime_validation]"

abbreviation lc_flags :: "nat list" where
  "lc_flags \<equiv> ake_flags @ [i2_lc_init_prepare, i2_l_prime_read, i2_l_prime_validation]"

abbreviation ske_flags :: "nat list" where
  "ske_flags \<equiv> lc_flags @ [i2_eks_prepare, i2_eks_write]"

abbreviation list_flags :: "nat list" where
  "list_flags \<equiv> [i2_rx_id_list_read, i2_device_count_check, i2_rx_id_list_validation,
     i2_repeater_auth_ack_write]"

abbreviation stream_flags :: "nat list" where
  "stream_flags \<equiv> [i2_prepare_stream_manage, i2_stream_manage_write]"

abbreviation repeater_flags :: "nat list" where
  "repeater_flags \<equiv> list_flags @ stream_flags @ [i2_stream_ready_read, i2_stream_ready_validation]"

definition hdcp2_needs :: handshake_table where
  "hdcp2_needs i rep mst =
     (if i = H2_A1_SEND_AKE_INIT \<or> i = D2_A1_SEND_AKE_INIT then [i2_hdcp2_capable_check]
      else if i = H2_A1_VALIDATE_AKE_CERT \<or> i = D2_A1_VALIDATE_AKE_CERT
      then [i2_hdcp2_capable_check, i2_create_session, i2_ake_init_prepare, i2_ake_init_write]
      else if i = H2_A1_SEND_NO_STORED_KM \<or> i = D2_A1_SEND_NO_STORED_KM \<or>
              i = H2_A1_SEND_STORED_KM \<or> i = D2_A1_SEND_STORED_KM then cert_flags
      else if i = H2_A1_READ_H_PRIME \<or> i = D2_A1_READ_H_PRIME then cert_flags @ [i2_no_stored_km_write]
      else if i = H2_A1_READ_PAIRING_INFO_AND_VALIDATE_H_PRIME \<or>
              i = D2_A1_READ_PAIRING_INFO_AND_VALIDATE_H_PRIME
      then cert_flags @ [i2_no_stored_km_write, i2_h_prime_read]
      else if i = H2_A1_VALIDATE_H_PRIME \<or> i = D2_A1_VALIDATE_H_PRIME
      then cert_flags @ [i2_stored_km_write]
      else if i = H2_A2_LOCALITY_CHECK \<or> i = D2_A2_LOCALITY_CHECK then ake_flags
      else if i = H2_A3_EXCHANGE_KS_AND_TEST_FOR_REPEATER \<or>
              i = D2_A34_EXCHANGE_KS_AND_TEST_FOR_REPEATER then lc_flags
      else if i = H2_A6_WAIT_FOR_RX_ID_LIST \<or> i = D2_A6_WAIT_FOR_RX_ID_LIST \<or>
              i = H2_A78_VERIFY_RX_ID_LIST_AND_SEND_ACK \<or> i = D2_A78_VERIFY_RX_ID_LIST_AND_SEND_ACK
      then ske_flags
      else if i = H2_A9_SEND_STREAM_MANAGEMENT \<or> i = D2_A9_SEND_STREAM_MANAGEMENT
      then ske_flags @ list_flags
      else if i = H2_A9_VALIDATE_STREAM_READY \<or> i = D2_A9_VALIDATE_STREAM_READY
      then ske_flags @ list_flags @ stream_flags
      else if i = D2_SEND_CONTENT_STREAM_TYPE then ske_flags @ (if rep then repeater_flags else [])
      else if i = H2_ENABLE_ENCRYPTION then ske_flags @ (if rep then repeater_flags else [])
      else if i = H2_A5_AUTHENTICATED
      then ske_flags @ (if rep then repeater_flags else []) @ [i2_enable_encryption]
      else if i = D2_ENABLE_ENCRYPTION
      then ske_flags @ (if rep then repeater_flags else [])
      else if i = D2_A5_AUTHENTICATED
      then ske_flags @ (if rep then repeater_flags else []) @ [i2_enable_encryption] @
           (if mst then [i2_stream_encryption_dp] else [])
      else [])"

section \<open>Execution keeps a handshake\<close>

text \<open>What a step writes, as a pair of the flags and whether it may change the repeater bit.\<close>

lemma touches_handshake:
  assumes t: "touches F rep a" and s: "a (h, c, w) = (st, h', c', w')"
    and F: "\<And>r m. set (needs (current_state h) r m) \<inter> F = {}"
    and r: "rep \<or> (\<forall>r r' m. needs (current_state h) r m = needs (current_state h) r' m)"
  shows "same_module h h'" "event c' = event c" "handshake needs h \<Longrightarrow> handshake needs h'"
proof -
  show m: "same_module h h'" and "event c' = event c"
    using touches_D [OF t s] by auto
  show "handshake needs h'" if hs: "handshake needs h"
  proof -
    let ?rep = "is_repeater (connection h)" and ?rep' = "is_repeater (connection h')"
    have st: "current_state h' = current_state h" and mst: "is_dp_mst_hdcp h' = is_dp_mst_hdcp h"
      using m by (simp_all add: same_module_def current_state_def is_dp_mst_hdcp_def)
    have eq: "needs (current_state h) ?rep' (is_dp_mst_hdcp h) =
              needs (current_state h) ?rep (is_dp_mst_hdcp h)"
      using r touches_D(3) [OF t s] by auto
    have "input h' f = input h f"
      if "f \<in> set (needs (current_state h) ?rep (is_dp_mst_hdcp h))" for f
      using touches_D(2) [OF t s, of f] F that by auto
    with hs show ?thesis
      by (simp add: handshake_def passed_def list_all_iff st mst eq)
  qed
qed

lemma touches_hdcp1 [simp]:
  "touches {0, 6} True (wait_for_active_rx env)"
  "touches {0, 1, 2, 3, 4, 5} True (exchange_ksvs env)"
  "touches {7, 8, 9, 24} False (computations_validate_rx_test_for_repeater env)"
  "touches {10} True (authenticated_hdcp1 env)"
  "touches {6, 11, 12, 22, 23} True (wait_for_ready env)"
  "touches {9, 12, 13, 14, 15, 16, 17, 18, 20, 24} True (read_ksv_list env)"
  "touches {6, 19} True (determine_rx_hdcp_capable_dp_hdcp1 env)"
  "touches {12, 21} True (wait_for_r0_prime_dp env)"
  "touches {12, 22, 23} True (authenticated_dp env)"
  unfolding wait_for_active_rx_def exchange_ksvs_def computations_validate_rx_test_for_repeater_def
    authenticated_hdcp1_def wait_for_ready_def read_ksv_list_def determine_rx_hdcp_capable_dp_hdcp1_def
    wait_for_r0_prime_dp_def authenticated_dp_def
  by (auto intro!: touches_rules)

lemma touches_process_rxstatus [simp]: "{5, 24, 36} \<subseteq> F \<Longrightarrow> touches F rep (process_rxstatus env)"
  unfolding process_rxstatus_def by (auto intro!: touches_rules)

lemma touches_hdmi_rxstatus_then:
  assumes "touches F rep a" "{5, 24, 36} \<subseteq> F"
  shows "touches F rep (hdmi_rxstatus_then env a)"
proof -
  have "touches F rep (\<lambda>s. let (st, s') = process_rxstatus env s
      in if st \<noteq> SUCCESS \<or> rx_id_list_ready (fst (snd s')) then (st, s') else a s')"
    using assms by (intro touches_seq) simp_all
  moreover have "hdmi_rxstatus_then env a = (\<lambda>s. if is_hdmi_dvi_sl_hdcp (fst s) then
      (let (st, s') = process_rxstatus env s
       in if st \<noteq> SUCCESS \<or> rx_id_list_ready (fst (snd s')) then (st, s') else a s') else a s)"
    by (rule ext) (simp add: hdmi_rxstatus_then_def split: prod.split)
  ultimately show ?thesis
    using assms touches_if by fastforce
qed

lemma touches_cpirq_or: "touches F rep a \<Longrightarrow> {5, 24, 36} \<subseteq> F \<Longrightarrow> touches F rep (cpirq_or env a)"
  unfolding cpirq_or_def [abs_def] by (rule touches_if) simp_all

lemma touches_wait_for_rx_id_list [simp]: "touches {5, 24, 36} True (wait_for_rx_id_list env)"
proof -
  have "(\<lambda>s. let (status, s') = process_rxstatus env s
     in if status \<noteq> SUCCESS then (status, s')
        else if \<not> rx_id_list_ready (fst (snd s')) then (MOD_HDCP_STATUS_HDCP2_RX_ID_LIST_NOT_READY, s')
        else (status, s')) =
    (\<lambda>s. let (st, s') = process_rxstatus env s in if st \<noteq> SUCCESS then (st, s')
        else (\<lambda>s'. (if \<not> rx_id_list_ready (fst (snd s')) then MOD_HDCP_STATUS_HDCP2_RX_ID_LIST_NOT_READY
                    else SUCCESS, s')) s')"
    by (rule ext) (simp split: prod.split)
  then show ?thesis
    unfolding wait_for_rx_id_list_def
    using touches_seq [of "{5, 24, 36}" True "process_rxstatus env"
        "\<lambda>s'. (if \<not> rx_id_list_ready (fst (snd s')) then MOD_HDCP_STATUS_HDCP2_RX_ID_LIST_NOT_READY
               else SUCCESS, s')" "\<lambda>st s'. st \<noteq> SUCCESS" "\<lambda>st. st"]
    by (intro touches_expect) (simp add: touches_done)
qed

lemma touches_locality_check [simp]: "touches {16, 17, 18, 19, 20} True (locality_check env)"
proof -
  have sw: "touches {16, 17, 18, 19, 20} True (locality_check_sw env)"
    and fw: "touches {16, 17, 18, 19, 20} True (locality_check_fw env)"
    unfolding locality_check_sw_def locality_check_fw_def by (auto intro!: touches_rules)
  have "touches {16, 17, 18, 19, 20} True (expect [MOD_HDCP_EVENT_CALLBACK] (run_steps
           [mod_hdcp_execute_and_set (mod_hdcp_hdcp2_prepare_lc_init env) i2_lc_init_prepare,
            (if b then locality_check_fw else locality_check_sw) env,
            mod_hdcp_execute_and_set (mod_hdcp_hdcp2_validate_l_prime env) i2_l_prime_validation]))" for b
    using sw fw by (auto intro!: touches_rules)
  then show ?thesis
    by (simp add: touches_def locality_check_def Let_def)
qed

lemma touches_hdcp2 [simp]:
  "touches {0, 1} True (known_hdcp2_capable_rx env)"
  "touches {2, 3, 4} True (send_ake_init env)"
  "touches {6, 7, 8} False (validate_ake_cert env)"
  "touches {10} True (send_no_stored_km env)"
  "touches {11, 12} True (read_h_prime env)"
  "touches {13, 14, 15} True (read_pairing_info_and_validate_h_prime env)"
  "touches {9} True (send_stored_km env)"
  "touches {11, 12, 15} True (validate_h_prime env)"
  "touches {21, 22} True (exchange_ks_and_test_for_repeater env)"
  "touches {5, 24, 36} True (authenticated_hdcp2 env)"
  "touches {1, 34} True (determine_rx_hdcp_capable_dp_hdcp2 env)"
  "touches {5, 24, 35, 36} True (send_content_stream_type_dp env)"
  unfolding known_hdcp2_capable_rx_def send_ake_init_def validate_ake_cert_def send_no_stored_km_def
    read_h_prime_def read_pairing_info_and_validate_h_prime_def send_stored_km_def validate_h_prime_def
    exchange_ks_and_test_for_repeater_def authenticated_hdcp2_def
    determine_rx_hdcp_capable_dp_hdcp2_def send_content_stream_type_dp_def
  by (auto intro!: touches_rules)

lemma touches_hdcp2_cpirq [simp]:
  "touches {5, 23, 24, 36, 37} True (enable_encryption env)"
  "touches {5, 24, 25, 26, 27, 28, 36} False (verify_rx_id_list_and_send_ack env)"
  "touches {5, 24, 29, 30, 36} True (send_stream_management env)"
  "touches {5, 24, 31, 32, 33, 36} True (validate_stream_ready env)"
  unfolding enable_encryption_def verify_rx_id_list_and_send_ack_def send_stream_management_def
    validate_stream_ready_def
  by (auto intro!: touches_rules touches_cpirq_or touches_hdmi_rxstatus_then)

section \<open>Execution of the machines\<close>

text \<open>A step that writes none of the flags the handshake of a state needs.\<close>

definition harmless :: "handshake_table \<Rightarrow> u8 \<Rightarrow> 'w step \<Rightarrow> bool" where
  "harmless needs i a \<longleftrightarrow> (\<exists>F rep. touches F rep a \<and> (\<forall>r m. set (needs i r m) \<inter> F = {}) \<and>
     (rep \<or> (\<forall>r r' m. needs i r m = needs i r' m)))"

lemma harmlessI:
  "touches F rep a \<Longrightarrow> (\<And>r m. set (needs i r m) \<inter> F = {}) \<Longrightarrow>
   rep \<or> (\<forall>r r' m. needs i r m = needs i r' m) \<Longrightarrow> harmless needs i a"
  unfolding harmless_def by blast

lemma harmless_D:
  assumes "harmless needs (current_state h) a" "a (h, c, w) = (st, h', c', w')"
  shows "same_module h h' \<and> event c' = event c \<and> (handshake needs h \<longrightarrow> handshake needs h')"
proof -
  obtain F rep where t: "touches F rep a"
    and F: "\<And>r m. set (needs (current_state h) r m) \<inter> F = {}"
    and r: "rep \<or> (\<forall>r r' m. needs (current_state h) r m = needs (current_state h) r' m)"
    using assms(1) unfolding harmless_def by blast
  show ?thesis
    using touches_handshake [where needs = needs, OF t assms(2) F r] by blast
qed

lemma harmless_hdcp1 [simp]:
  "harmless hdcp1_needs 3 (wait_for_active_rx env)"
  "harmless hdcp1_needs 4 (exchange_ksvs env)"
  "harmless hdcp1_needs 5 (computations_validate_rx_test_for_repeater env)"
  "harmless hdcp1_needs 6 (authenticated_hdcp1 env)"
  "harmless hdcp1_needs 7 (wait_for_ready env)"
  "harmless hdcp1_needs 8 (read_ksv_list env)"
  "harmless hdcp1_needs 9 (determine_rx_hdcp_capable_dp_hdcp1 env)"
  "harmless hdcp1_needs 10 (exchange_ksvs env)"
  "harmless hdcp1_needs 11 (wait_for_r0_prime_dp env)"
  "harmless hdcp1_needs 12 (computations_validate_rx_test_for_repeater env)"
  "harmless hdcp1_needs 13 (authenticated_dp env)"
  "harmless hdcp1_needs 14 (wait_for_ready env)"
  "harmless hdcp1_needs 15 (read_ksv_list env)"
  by (rule touches_hdcp1 [THEN harmlessI]; simp add: hdcp1_needs_def)+

lemma harmless_hdcp2 [simp]:
  "harmless hdcp2_needs 16 (known_hdcp2_capable_rx env)"
  "harmless hdcp2_needs 17 (send_ake_init env)" "harmless hdcp2_needs 33 (send_ake_init env)"
  "harmless hdcp2_needs 18 (validate_ake_cert env)" "harmless hdcp2_needs 34 (validate_ake_cert env)"
  "harmless hdcp2_needs 19 (send_no_stored_km env)" "harmless hdcp2_needs 35 (send_no_stored_km env)"
  "harmless hdcp2_needs 20 (read_h_prime env)" "harmless hdcp2_needs 36 (read_h_prime env)"
  "harmless hdcp2_needs 21 (read_pairing_info_and_validate_h_prime env)"
  "harmless hdcp2_needs 37 (read_pairing_info_and_validate_h_prime env)"
  "harmless hdcp2_needs 22 (send_stored_km env)" "harmless hdcp2_needs 38 (send_stored_km env)"
  "harmless hdcp2_needs 23 (validate_h_prime env)" "harmless hdcp2_needs 39 (validate_h_prime env)"
  "harmless hdcp2_needs 25 (exchange_ks_and_test_for_repeater env)"
  "harmless hdcp2_needs 41 (exchange_ks_and_test_for_repeater env)"
  "harmless hdcp2_needs 27 (authenticated_hdcp2 env)" "harmless hdcp2_needs 44 (authenticated_hdcp2 env)"
  "harmless hdcp2_needs 32 (determine_rx_hdcp_capable_dp_hdcp2 env)"
  "harmless hdcp2_needs 42 (send_content_stream_type_dp env)"
  by (rule touches_hdcp2 [THEN harmlessI]; simp add: hdcp2_needs_def)+

lemma harmless_hdcp2_cpirq [simp]:
  "harmless hdcp2_needs 26 (enable_encryption env)" "harmless hdcp2_needs 43 (enable_encryption env)"
  "harmless hdcp2_needs 29 (verify_rx_id_list_and_send_ack env)"
  "harmless hdcp2_needs 46 (verify_rx_id_list_and_send_ack env)"
  "harmless hdcp2_needs 30 (send_stream_management env)"
  "harmless hdcp2_needs 47 (send_stream_management env)"
  "harmless hdcp2_needs 31 (validate_stream_ready env)" "harmless hdcp2_needs 48 (validate_stream_ready env)"
  by (rule touches_hdcp2_cpirq [THEN harmlessI]; simp add: hdcp2_needs_def)+

lemma harmless_hdcp2_other [simp]:
  "harmless hdcp2_needs 24 (locality_check env)" "harmless hdcp2_needs 40 (locality_check env)"
  "harmless hdcp2_needs 28 (wait_for_rx_id_list env)" "harmless hdcp2_needs 45 (wait_for_rx_id_list env)"
  by (rule touches_locality_check [THEN harmlessI] touches_wait_for_rx_id_list [THEN harmlessI];
      simp add: hdcp2_needs_def)+

lemma hdcp1_execution_harmless:
  assumes "in_hdcp1_ids (current_state h)"
  shows "\<exists>a. harmless hdcp1_needs (current_state h) a \<and> mod_hdcp_hdcp1_execution env (h, c, w) = a (h, c, w)"
  using assms unfolding in_hdcp1_ids_iff
  by (elim insertE emptyE; simp add: mod_hdcp_hdcp1_execution_def)
     (intro exI conjI, rule harmless_hdcp1, rule refl)+

lemma hdcp1_dp_execution_harmless:
  assumes "in_hdcp1_dp_ids (current_state h)"
  shows "\<exists>a. harmless hdcp1_needs (current_state h) a \<and> mod_hdcp_hdcp1_dp_execution env (h, c, w) = a (h, c, w)"
  using assms unfolding in_hdcp1_dp_ids_iff
  by (elim insertE emptyE; simp add: mod_hdcp_hdcp1_dp_execution_def)
     (intro exI conjI, rule harmless_hdcp1, rule refl)+

lemma hdcp2_execution_harmless:
  assumes "in_hdcp2_ids (current_state h)"
  shows "\<exists>a. harmless hdcp2_needs (current_state h) a \<and> mod_hdcp_hdcp2_execution env (h, c, w) = a (h, c, w)"
  using assms unfolding in_hdcp2_ids_iff
  by (elim insertE emptyE; simp add: mod_hdcp_hdcp2_execution_def)
     (intro exI conjI, rule harmless_hdcp2 harmless_hdcp2_cpirq harmless_hdcp2_other, rule refl)+

lemma hdcp2_dp_execution_harmless:
  assumes "in_hdcp2_dp_ids (current_state h)"
  shows "\<exists>a. harmless hdcp2_needs (current_state h) a \<and> mod_hdcp_hdcp2_dp_execution env (h, c, w) = a (h, c, w)"
  using assms unfolding in_hdcp2_dp_ids_iff
  by (elim insertE emptyE; simp add: mod_hdcp_hdcp2_dp_execution_def)
     (intro exI conjI, rule harmless_hdcp2 harmless_hdcp2_cpirq harmless_hdcp2_other, rule refl)+

section \<open>Outcomes of a transition\<close>

text \<open>
  A transition reads the flags and writes only the state, the link adjustments and the retry count of
  stream management; it never clears a \<^verbatim>\<open>disable\<close> bit.
\<close>

definition tr_frame :: "mod_hdcp \<Rightarrow> mod_hdcp \<Rightarrow> bool" where
  "tr_frame h h' \<longleftrightarrow>
     config h' = config h \<and> displays h' = displays h \<and> fault h' = fault h \<and> input h' = input h \<and>
     auth_id (auth h') = auth_id (auth h) \<and> msg1 h' = msg1 h \<and> msg2 h' = msg2 h \<and>
     connection h' = (connection h)\<lparr>link := (link (connection h))
       \<lparr>link_adjust := link_adjust (link (connection h'))\<rparr>\<rparr> \<and>
     (disable1 (adjust1 h) \<longrightarrow> disable1 (adjust1 h')) \<and> (disable2 (adjust2 h) \<longrightarrow> disable2 (adjust2 h'))"

lemma tr_frame_refl [simp]: "tr_frame h h"
  by (simp add: tr_frame_def)

lemma tr_frame_mode:
  assumes "tr_frame h h'"
  shows "is_dp_hdcp h' = is_dp_hdcp h" "is_hdmi_dvi_sl_hdcp h' = is_hdmi_dvi_sl_hdcp h"
    "is_dp_mst_hdcp h' = is_dp_mst_hdcp h" "is_repeater (connection h') = is_repeater (connection h)"
proof -
  have c: "connection h' = (connection h)\<lparr>link := (link (connection h))
      \<lparr>link_adjust := link_adjust (link (connection h'))\<rparr>\<rparr>"
    using assms by (simp add: tr_frame_def)
  show "is_repeater (connection h') = is_repeater (connection h)"
    by (subst c) simp
  have l: "link (connection h') = (link (connection h))\<lparr>link_adjust := link_adjust (link (connection h'))\<rparr>"
    by (subst c) simp
  have "link_mode (link (connection h')) = link_mode (link (connection h))"
    "link_dp (link (connection h')) = link_dp (link (connection h))"
    by (subst l, simp)+
  then show "is_dp_hdcp h' = is_dp_hdcp h" "is_hdmi_dvi_sl_hdcp h' = is_hdmi_dvi_sl_hdcp h"
    "is_dp_mst_hdcp h' = is_dp_mst_hdcp h"
    by (simp_all add: is_dp_hdcp_def is_hdmi_dvi_sl_hdcp_def is_dp_mst_hdcp_def)
qed

lemma tr_frame_handshake:
  assumes "tr_frame h h'" "current_state h' = current_state h"
  shows "handshake needs h' = handshake needs h"
proof -
  have "input h' = input h"
    using assms(1) by (simp add: tr_frame_def)
  then show ?thesis
    using assms(2) tr_frame_mode [OF assms(1)] by (simp add: handshake_def passed_def)
qed

text \<open>
  The five things a transition can do: ask for a reset, stay, move to another state of the machine,
  complete the authentication, or give up and let the initialized state choose again.
\<close>

fun resets :: "mod_hdcp \<Rightarrow> tstate \<Rightarrow> bool" where
  "resets h (h', out', st) \<longleftrightarrow> st = MOD_HDCP_STATUS_RESET_NEEDED \<and> state h' = state h \<and>
     callback_needed out' \<and> \<not> watchdog_timer_needed out' \<and> \<not> auth_complete out'"

fun stays :: "mod_hdcp \<Rightarrow> tstate \<Rightarrow> bool" where
  "stays h (h', out', st) \<longleftrightarrow> st = SUCCESS \<and> current_state h' = current_state h \<and> \<not> auth_complete out'"

fun moves :: "(u8 \<Rightarrow> bool) \<Rightarrow> u8 \<Rightarrow> handshake_table \<Rightarrow> tstate \<Rightarrow> bool" where
  "moves ids final needs (h', out', st) \<longleftrightarrow> st = SUCCESS \<and> ids (current_state h') \<and>
     current_state h' \<noteq> final \<and> stay_count (state h') = 0 \<and> handshake needs h' \<and>
     (callback_needed out' \<or> watchdog_timer_needed out') \<and> \<not> auth_complete out'"

fun completes :: "u8 \<Rightarrow> handshake_table \<Rightarrow> mod_hdcp \<Rightarrow> tstate \<Rightarrow> bool" where
  "completes final needs h (h', out', st) \<longleftrightarrow> st = SUCCESS \<and> current_state h' = final \<and>
     current_state h \<noteq> final \<and> stay_count (state h') = 0 \<and> handshake needs h' \<and> auth_complete out'"

fun gives_up :: "tstate \<Rightarrow> bool" where
  "gives_up (h', out', st) \<longleftrightarrow> st = SUCCESS \<and> current_state h' = HDCP_INITIALIZED \<and>
     stay_count (state h') = 0 \<and> disable2 (adjust2 h') \<and> callback_needed out' \<and> \<not> auth_complete out'"

definition outcome ::
    "(u8 \<Rightarrow> bool) \<Rightarrow> u8 \<Rightarrow> handshake_table \<Rightarrow> mod_hdcp \<Rightarrow> tstate \<Rightarrow> bool" where
  "outcome ids final needs h r \<longleftrightarrow> tr_frame h (fst r) \<and>
     (resets h r \<or> stays h r \<or> moves ids final needs r \<or> completes final needs h r \<or> gives_up r)"

text \<open>Every case of the four transition functions has one of these outcomes.\<close>

lemmas outcome_simps = outcome_def tr_frame_def handshake_def passed_def hdcp_simps Let_def
  is_dp_mst_hdcp_def zero_state_def hdcp_id_iffs

lemmas hdcp1_cases =
  H1_A0_WAIT_FOR_ACTIVE_RX_case_def H1_A1_EXCHANGE_KSVS_case_def
  H1_A2_COMPUTATIONS_A3_VALIDATE_RX_A6_TEST_FOR_REPEATER_case_def H1_A45_AUTHENTICATED_case_def
  H1_A8_WAIT_FOR_READY_case_def H1_A9_READ_KSV_LIST_case_def

lemmas hdcp1_dp_cases =
  D1_A0_DETERMINE_RX_HDCP_CAPABLE_case_def D1_A1_EXCHANGE_KSVS_case_def
  D1_A23_WAIT_FOR_R0_PRIME_case_def
  D1_A2_COMPUTATIONS_A3_VALIDATE_RX_A5_TEST_FOR_REPEATER_case_def D1_A4_AUTHENTICATED_case_def
  D1_A6_WAIT_FOR_READY_case_def D1_A7_READ_KSV_LIST_case_def

lemmas hdcp2_cases =
  H2_A0_KNOWN_HDCP2_CAPABLE_RX_case_def H2_A1_SEND_AKE_INIT_case_def
  H2_A1_VALIDATE_AKE_CERT_case_def H2_A1_SEND_NO_STORED_KM_case_def H2_A1_READ_H_PRIME_case_def
  H2_A1_READ_PAIRING_INFO_AND_VALIDATE_H_PRIME_case_def H2_A1_SEND_STORED_KM_case_def
  H2_A1_VALIDATE_H_PRIME_case_def H2_A2_LOCALITY_CHECK_case_def
  H2_A3_EXCHANGE_KS_AND_TEST_FOR_REPEATER_case_def H2_ENABLE_ENCRYPTION_case_def
  H2_A5_AUTHENTICATED_case_def H2_A6_WAIT_FOR_RX_ID_LIST_case_def
  H2_A78_VERIFY_RX_ID_LIST_AND_SEND_ACK_case_def H2_A9_SEND_STREAM_MANAGEMENT_case_def
  H2_A9_VALIDATE_STREAM_READY_case_def

lemmas hdcp2_dp_cases =
  D2_A0_DETERMINE_RX_HDCP_CAPABLE_case_def D2_A1_SEND_AKE_INIT_case_def
  D2_A1_VALIDATE_AKE_CERT_case_def D2_A1_SEND_NO_STORED_KM_case_def D2_A1_READ_H_PRIME_case_def
  D2_A1_READ_PAIRING_INFO_AND_VALIDATE_H_PRIME_case_def D2_A1_SEND_STORED_KM_case_def
  D2_A1_VALIDATE_H_PRIME_case_def D2_A2_LOCALITY_CHECK_case_def
  D2_A34_EXCHANGE_KS_AND_TEST_FOR_REPEATER_case_def D2_SEND_CONTENT_STREAM_TYPE_case_def
  D2_ENABLE_ENCRYPTION_case_def D2_A5_AUTHENTICATED_case_def D2_A6_WAIT_FOR_RX_ID_LIST_case_def
  D2_A78_VERIFY_RX_ID_LIST_AND_SEND_ACK_case_def D2_A9_SEND_STREAM_MANAGEMENT_case_def
  D2_A9_VALIDATE_STREAM_READY_case_def

lemma hdcp1_outcome:
  assumes "in_hdcp1_ids (current_state h)" "handshake hdcp1_needs h" "\<not> auth_complete out"
  shows "outcome in_hdcp1_ids H1_A45_AUTHENTICATED hdcp1_needs h (mod_hdcp_hdcp1_transition c h out)"
  using assms unfolding in_hdcp1_ids_iff mod_hdcp_hdcp1_transition_def
  by (elim insertE emptyE; simp add: outcome_simps hdcp1_needs_def hdcp1_cases)

lemma hdcp1_dp_outcome:
  assumes "in_hdcp1_dp_ids (current_state h)" "handshake hdcp1_needs h" "\<not> auth_complete out"
  shows "outcome in_hdcp1_dp_ids D1_A4_AUTHENTICATED hdcp1_needs h (mod_hdcp_hdcp1_dp_transition c h out)"
  using assms unfolding in_hdcp1_dp_ids_iff mod_hdcp_hdcp1_dp_transition_def
  by (elim insertE emptyE; simp add: outcome_simps hdcp1_needs_def hdcp1_dp_cases)

lemma hdcp2_outcome:
  assumes "in_hdcp2_ids (current_state h)" "handshake hdcp2_needs h" "\<not> auth_complete out"
  shows "outcome in_hdcp2_ids H2_A5_AUTHENTICATED hdcp2_needs h (mod_hdcp_hdcp2_transition c h out)"
  using assms unfolding in_hdcp2_ids_iff mod_hdcp_hdcp2_transition_def
  by (elim insertE emptyE; simp add: outcome_simps hdcp2_needs_def hdcp2_cases)

lemma hdcp2_dp_outcome:
  assumes "in_hdcp2_dp_ids (current_state h)" "handshake hdcp2_needs h" "\<not> auth_complete out"
  shows "outcome in_hdcp2_dp_ids D2_A5_AUTHENTICATED hdcp2_needs h (mod_hdcp_hdcp2_dp_transition c h out)"
  using assms unfolding in_hdcp2_dp_ids_iff mod_hdcp_hdcp2_dp_transition_def
  by (elim insertE emptyE; simp add: outcome_simps hdcp2_needs_def hdcp2_dp_cases)

section \<open>The contract of a machine\<close>

locale hdcp_machine =
  fixes ids :: "u8 \<Rightarrow> bool" and start :: u8 and final :: u8 and needs :: handshake_table
    and ex :: "'w step" and tr :: "mod_hdcp_event_context \<Rightarrow> mod_hdcp \<Rightarrow> mod_hdcp_output \<Rightarrow> tstate"
  assumes start_in: "ids start" and final_in: "ids final"
    and ids_proper: "ids i \<Longrightarrow> i \<noteq> HDCP_UNINITIALIZED \<and> i \<noteq> HDCP_INITIALIZED \<and> i \<noteq> HDCP_CP_NOT_DESIRED"
    and needs_start: "needs start r m = []"
    and ex_keeps: "ids (current_state h) \<Longrightarrow> ex (h, c, w) = (st, h', c', w') \<Longrightarrow>
      same_module h h' \<and> event c' = event c \<and> (handshake needs h \<longrightarrow> handshake needs h')"
    and tr_outcome: "ids (current_state h) \<Longrightarrow> handshake needs h \<Longrightarrow> \<not> auth_complete out \<Longrightarrow>
      outcome ids final needs h (tr c h out)"
begin

lemma start_handshake: "current_state h = start \<Longrightarrow> handshake needs h"
  by (simp add: handshake_def passed_def needs_start)

text \<open>An event is executed and, unless it was unexpected, followed by a transition.\<close>

lemma step_outcome:
  assumes "ids (current_state h)" "handshake needs h" "ex (h, c, w) = (st, h1, c1, w1)"
  shows "same_module h h1"
    "outcome ids final needs h1
       (if unexpected_event c1 then (h1, zero_output, SUCCESS) else tr c1 h1 zero_output)"
proof -
  have k: "same_module h h1" "handshake needs h1"
    using ex_keeps [OF assms(1) assms(3)] assms(2) by auto
  then have cs: "current_state h1 = current_state h"
    by (simp add: same_module_def current_state_def)
  show "same_module h h1" by fact
  show "outcome ids final needs h1
       (if unexpected_event c1 then (h1, zero_output, SUCCESS) else tr c1 h1 zero_output)"
    using tr_outcome [of h1 zero_output c1] k cs assms(1)
    by (auto simp: outcome_def zero_output_def)
qed

lemma outcome_handshake:
  assumes "outcome ids final needs h (h', out', st)" "ids (current_state h)" "handshake needs h"
  shows "current_state h' = HDCP_INITIALIZED \<or> ids (current_state h') \<and> handshake needs h'"
  using assms tr_frame_handshake [of h h' needs] final_in by (auto simp: outcome_def current_state_def)

lemma outcome_complete:
  assumes "outcome ids final needs h (h', out', st)" "ids (current_state h)"
  shows "auth_complete out' \<longleftrightarrow> current_state h' = final \<and> current_state h \<noteq> final"
  using assms ids_proper [OF final_in] by (auto simp: outcome_def current_state_def)

lemma outcome_timer:
  assumes "outcome ids final needs h (h', out', st)" "current_state h' \<noteq> current_state h"
  shows "callback_needed out' \<or> watchdog_timer_needed out' \<or> auth_complete out'"
  using assms by (auto simp: outcome_def current_state_def)

lemma outcome_status:
  assumes "outcome ids final needs h (h', out', st)"
  shows "st = SUCCESS \<or> st = MOD_HDCP_STATUS_RESET_NEEDED \<and> state h' = state h \<and> callback_needed out'"
  using assms by (auto simp: outcome_def)

end

lemma hdcp1_execution_keeps:
  assumes "in_hdcp1_ids (current_state h)" "mod_hdcp_hdcp1_execution env (h, c, w) = (st, h', c', w')"
  shows "same_module h h' \<and> event c' = event c \<and> (handshake hdcp1_needs h \<longrightarrow> handshake hdcp1_needs h')"
  using hdcp1_execution_harmless [OF assms(1)] assms(2) harmless_D by metis

lemma hdcp1_dp_execution_keeps:
  assumes "in_hdcp1_dp_ids (current_state h)" "mod_hdcp_hdcp1_dp_execution env (h, c, w) = (st, h', c', w')"
  shows "same_module h h' \<and> event c' = event c \<and> (handshake hdcp1_needs h \<longrightarrow> handshake hdcp1_needs h')"
  using hdcp1_dp_execution_harmless [OF assms(1)] assms(2) harmless_D by metis

lemma hdcp2_execution_keeps:
  assumes "in_hdcp2_ids (current_state h)" "mod_hdcp_hdcp2_execution env (h, c, w) = (st, h', c', w')"
  shows "same_module h h' \<and> event c' = event c \<and> (handshake hdcp2_needs h \<longrightarrow> handshake hdcp2_needs h')"
  using hdcp2_execution_harmless [OF assms(1)] assms(2) harmless_D by metis

lemma hdcp2_dp_execution_keeps:
  assumes "in_hdcp2_dp_ids (current_state h)" "mod_hdcp_hdcp2_dp_execution env (h, c, w) = (st, h', c', w')"
  shows "same_module h h' \<and> event c' = event c \<and> (handshake hdcp2_needs h \<longrightarrow> handshake hdcp2_needs h')"
  using hdcp2_dp_execution_harmless [OF assms(1)] assms(2) harmless_D by metis

interpretation hdmi1: hdcp_machine in_hdcp1_ids H1_A0_WAIT_FOR_ACTIVE_RX
  H1_A45_AUTHENTICATED hdcp1_needs "mod_hdcp_hdcp1_execution env" mod_hdcp_hdcp1_transition for env
  by (unfold_locales; (rule hdcp1_execution_keeps hdcp1_outcome)?; (auto simp: in_hdcp1_ids_iff hdcp1_needs_def)?)

interpretation dp1: hdcp_machine in_hdcp1_dp_ids D1_A0_DETERMINE_RX_HDCP_CAPABLE
  D1_A4_AUTHENTICATED hdcp1_needs "mod_hdcp_hdcp1_dp_execution env" mod_hdcp_hdcp1_dp_transition for env
  by (unfold_locales; (rule hdcp1_dp_execution_keeps hdcp1_dp_outcome)?; (auto simp: in_hdcp1_dp_ids_iff hdcp1_needs_def)?)

interpretation hdmi2: hdcp_machine in_hdcp2_ids H2_A0_KNOWN_HDCP2_CAPABLE_RX
  H2_A5_AUTHENTICATED hdcp2_needs "mod_hdcp_hdcp2_execution env" mod_hdcp_hdcp2_transition for env
  by (unfold_locales; (rule hdcp2_execution_keeps hdcp2_outcome)?; (auto simp: in_hdcp2_ids_iff hdcp2_needs_def)?)

interpretation dp2: hdcp_machine in_hdcp2_dp_ids D2_A0_DETERMINE_RX_HDCP_CAPABLE
  D2_A5_AUTHENTICATED hdcp2_needs "mod_hdcp_hdcp2_dp_execution env" mod_hdcp_hdcp2_dp_transition for env
  by (unfold_locales; (rule hdcp2_dp_execution_keeps hdcp2_dp_outcome)?; (auto simp: in_hdcp2_dp_ids_iff hdcp2_needs_def)?)

end
