(* ===== verification/Hdcp_Inv.thy ===== *)
theory Hdcp_Inv
  imports Hdcp_Machine
begin

text \<open>
  The invariant of the HDCP module and the states the interface reaches. \<open>hdcp_inv\<close> says that
  the state number is one of the four machines' or of the three initial states, that a machine runs
  only on its own kind of link and only while a display is active, that active displays have distinct
  indices, that a version with four failed attempts is disabled, that the error trace is within its
  array, and that the handshake of the current state has passed. Every function of
  \<^verbatim>\<open>mod_hdcp.h\<close> keeps it, for any behaviour of the sink and of the security processor.
\<close>

section \<open>The invariant\<close>

definition displays_ok :: "mod_hdcp_display list \<Rightarrow> bool" where
  "displays_ok ds \<longleftrightarrow> length ds = MAX_NUM_OF_DISPLAYS \<and>
     (\<forall>i < MAX_NUM_OF_DISPLAYS. \<forall>j < MAX_NUM_OF_DISPLAYS.
        is_display_active (ds ! i) \<and> is_display_active (ds ! j) \<and> disp_index (ds ! i) = disp_index (ds ! j)
        \<longrightarrow> i = j)"

definition trace_ok :: "mod_hdcp_trace \<Rightarrow> bool" where
  "trace_ok t \<longleftrightarrow> length (errors t) = MAX_NUM_OF_ERROR_TRACE \<and> unat (error_count t) \<le> MAX_NUM_OF_ERROR_TRACE"

definition retries_ok :: "mod_hdcp \<Rightarrow> bool" where
  "retries_ok h \<longleftrightarrow>
     (hdcp1_retry_count (connection h) < MAX_NUM_OF_ATTEMPTS \<or> disable1 (adjust1 h)) \<and>
     (hdcp2_retry_count (connection h) < MAX_NUM_OF_ATTEMPTS \<or> disable2 (adjust2 h))"

definition mode_ok :: "mod_hdcp \<Rightarrow> bool" where
  "mode_ok h \<longleftrightarrow>
     (is_in_hdcp1_states h \<or> is_in_hdcp2_states h \<longrightarrow> is_hdmi_dvi_sl_hdcp h) \<and>
     (is_in_hdcp1_dp_states h \<or> is_in_hdcp2_dp_states h \<longrightarrow> is_dp_hdcp h)"

definition shape_inv :: "mod_hdcp \<Rightarrow> bool" where
  "shape_inv h \<longleftrightarrow> current_state h \<le> HDCP2_DP_STATE_END \<and> displays_ok (displays h) \<and>
     trace_ok (conn_trace (connection h)) \<and> retries_ok h \<and> mode_ok h \<and>
     (is_hdcp1 h \<or> is_hdcp2 h \<longrightarrow> list_ex is_display_active (displays h))"

definition hdcp_inv :: "mod_hdcp \<Rightarrow> bool" where
  "hdcp_inv h \<longleftrightarrow> shape_inv h \<and> handshake hdcp1_needs h \<and> handshake hdcp2_needs h"

lemma needs_outside [simp]:
  "\<not> in_hdcp1_ids i \<Longrightarrow> \<not> in_hdcp1_dp_ids i \<Longrightarrow> hdcp1_needs i r m = []"
  "\<not> in_hdcp2_ids i \<Longrightarrow> \<not> in_hdcp2_dp_ids i \<Longrightarrow> hdcp2_needs i r m = []"
  by (simp_all add: hdcp1_needs_def hdcp2_needs_def hdcp_id_iffs)

lemma handshake_outside:
  "\<not> is_hdcp1 h \<Longrightarrow> handshake hdcp1_needs h" "\<not> is_hdcp2 h \<Longrightarrow> handshake hdcp2_needs h"
  by (simp_all add: handshake_def passed_def hdcp_simps)

lemma not_both: "is_hdcp1 h \<Longrightarrow> \<not> is_hdcp2 h"
  using hdcp_ids_disjoint [of "current_state h"]
  unfolding is_hdcp1_def is_hdcp2_def is_in_hdcp1_states_def is_in_hdcp1_dp_states_def
    is_in_hdcp2_states_def is_in_hdcp2_dp_states_def by blast

section \<open>What keeps the invariant\<close>

text \<open>The parts of the module the invariant looks at, up to the state of displays that stay active.\<close>

lemma displays_ok_same:
  assumes "list_all2 same_display ds ds'" "displays_ok ds"
  shows "displays_ok ds'"
  using assms by (simp add: displays_ok_def list_all2_conv_all_nth same_display_def)

lemma active_same:
  "list_all2 same_display ds ds' \<Longrightarrow> list_ex is_display_active ds' = list_ex is_display_active ds"
  by (induction rule: list_all2_induct) (simp_all add: same_display_def)

lemma shape_same_module:
  assumes "same_module h h'" "shape_inv h"
  shows "shape_inv h'"
proof -
  have l: "list_all2 same_display (displays h) (displays h')"
    using assms(1) by (simp add: same_module_def)
  show ?thesis
    using assms displays_ok_same [OF l] active_same [OF l]
    by (simp add: same_module_def shape_inv_def retries_ok_def mode_ok_def hdcp_simps
        is_dp_hdcp_def is_hdmi_dvi_sl_hdcp_def)
qed

lemma handshake_same:
  assumes "same_module h h'" "input h' = input h" "is_repeater (connection h') = is_repeater (connection h)"
  shows "handshake needs h' = handshake needs h"
  using assms
  by (simp add: same_module_def handshake_def passed_def current_state_def is_dp_mst_hdcp_def)

lemma inv_same_module:
  assumes "same_module h h'" "input h' = input h" "is_repeater (connection h') = is_repeater (connection h)"
    "hdcp_inv h"
  shows "hdcp_inv h'"
  using assms shape_same_module [OF assms(1)] handshake_same [OF assms(1-3)] by (simp add: hdcp_inv_def)

lemma inv_calm:
  assumes "quiet f" "keeps_repeater f" "f h w = (st, h', w')" "hdcp_inv h"
  shows "hdcp_inv h'"
  using quiet_D [OF assms(1,3)] keeps_D [OF assms(2,3)] assms(4) inv_same_module by blast

text \<open>Outside the machines the handshakes and the demand for an active display are void.\<close>

lemma inv_outside:
  assumes "\<not> is_hdcp1 h" "\<not> is_hdcp2 h"
  shows "hdcp_inv h \<longleftrightarrow> current_state h \<le> HDCP2_DP_STATE_END \<and> displays_ok (displays h) \<and>
    trace_ok (conn_trace (connection h)) \<and> retries_ok h"
proof -
  have "mode_ok h"
    using assms by (auto simp: mode_ok_def is_hdcp1_def is_hdcp2_def)
  then show ?thesis
    using assms handshake_outside [of h] by (auto simp: hdcp_inv_def shape_inv_def)
qed

lemma outside_states:
  assumes "current_state h \<in> {HDCP_UNINITIALIZED, HDCP_INITIALIZED, HDCP_CP_NOT_DESIRED}"
  shows "\<not> is_hdcp1 h" "\<not> is_hdcp2 h" "current_state h \<le> HDCP2_DP_STATE_END"
  using assms by (auto simp: hdcp_simps hdcp_id_iffs word_le_nat_alt)

lemma inv_idle:
  assumes "current_state h \<in> {HDCP_UNINITIALIZED, HDCP_INITIALIZED, HDCP_CP_NOT_DESIRED}"
  shows "hdcp_inv h \<longleftrightarrow> displays_ok (displays h) \<and> trace_ok (conn_trace (connection h)) \<and> retries_ok h"
  using inv_outside [OF outside_states(1,2) [OF assms]] outside_states(3) [OF assms] by blast

lemma inv_parts:
  assumes "hdcp_inv h"
  shows "displays_ok (displays h)" "trace_ok (conn_trace (connection h))" "retries_ok h"
    "current_state h \<le> HDCP2_DP_STATE_END" "shape_inv h" "mode_ok h"
    "handshake hdcp1_needs h" "handshake hdcp2_needs h"
  using assms by (simp_all add: hdcp_inv_def shape_inv_def)

section \<open>Errors and resets\<close>

lemma trace_ok_push:
  assumes "trace_ok (conn_trace (connection h))"
  shows "trace_ok (conn_trace (connection (push_error_trace st h)))"
  using assms by (auto simp: trace_ok_def push_error_trace_def Let_def set_conn_def unat_word_ariths)

lemma push_error_trace_frame [simp]:
  "state (push_error_trace st h) = state h" "auth (push_error_trace st h) = auth h"
  "displays (push_error_trace st h) = displays h" "config (push_error_trace st h) = config h"
  "fault (push_error_trace st h) = fault h" "link (connection (push_error_trace st h)) = link (connection h)"
  "is_repeater (connection (push_error_trace st h)) = is_repeater (connection h)"
  "hdcp1_retry_count (connection (push_error_trace st h)) = hdcp1_retry_count (connection h)"
  "hdcp2_retry_count (connection (push_error_trace st h)) = hdcp2_retry_count (connection h)"
  by (simp_all add: push_error_trace_def Let_def set_conn_def)

lemma count_failed_attempt_frame [simp]:
  "state (count_failed_attempt h) = state h" "auth (count_failed_attempt h) = auth h"
  "displays (count_failed_attempt h) = displays h" "config (count_failed_attempt h) = config h"
  "fault (count_failed_attempt h) = fault h"
  "conn_trace (connection (count_failed_attempt h)) = conn_trace (connection h)"
  "is_repeater (connection (count_failed_attempt h)) = is_repeater (connection h)"
  "link_mode (link (connection (count_failed_attempt h))) = link_mode (link (connection h))"
  "link_dp (link (connection (count_failed_attempt h))) = link_dp (link (connection h))"
  by (simp_all add: count_failed_attempt_def Let_def set_conn_def update_adjust_def)

lemma attempt_bound:
  fixes n :: u8
  assumes "n < MAX_NUM_OF_ATTEMPTS" "n + 1 \<noteq> MAX_NUM_OF_ATTEMPTS"
  shows "n + 1 < MAX_NUM_OF_ATTEMPTS"
  using assms by (simp add: word_less_nat_alt word_unat_eq_iff unat_word_ariths)

lemma no_attempts [simp]: "(0 :: u8) < MAX_NUM_OF_ATTEMPTS"
  by (simp add: word_less_nat_alt MAX_NUM_OF_ATTEMPTS_def)

lemma retries_ok_count: "retries_ok h \<Longrightarrow> retries_ok (count_failed_attempt h)"
  by (auto simp: retries_ok_def count_failed_attempt_def Let_def set_conn_def update_adjust_def
      intro: attempt_bound)

lemma inv_push_error_status:
  assumes "hdcp_inv h"
  shows "hdcp_inv (push_error_status st h)"
proof -
  let ?h = "push_error_status st h"
  have cs: "current_state ?h = current_state h"
    by (simp add: push_error_status_def current_state_def)
  have "handshake needs ?h = handshake needs h" for needs
    by (simp add: push_error_status_def handshake_def passed_def current_state_def is_dp_mst_hdcp_def)
  moreover have "retries_ok ?h" "trace_ok (conn_trace (connection ?h))"
    using assms retries_ok_count [of "push_error_trace st h"] trace_ok_push [of h st]
    by (simp_all add: push_error_status_def hdcp_inv_def shape_inv_def retries_ok_def)
  moreover have "mode_ok ?h = mode_ok h"
    by (simp add: mode_ok_def push_error_status_def hdcp_simps is_dp_hdcp_def is_hdmi_dvi_sl_hdcp_def)
  ultimately show ?thesis
    using assms cs
    by (simp add: hdcp_inv_def shape_inv_def is_hdcp1_def is_hdcp2_def is_in_hdcp1_states_def
        is_in_hdcp1_dp_states_def is_in_hdcp2_states_def is_in_hdcp2_dp_states_def)
      (simp add: push_error_status_def)
qed

lemma inv_push_if_failed: "hdcp_inv h \<Longrightarrow> hdcp_inv (push_if_failed st h)"
  by (simp add: push_if_failed_def inv_push_error_status)

lemma inv_clear_authentication:
  assumes "hdcp_inv h"
  shows "hdcp_inv (clear_authentication h)" "current_state (clear_authentication h) = HDCP_INITIALIZED"
proof -
  show cs: "current_state (clear_authentication h) = HDCP_INITIALIZED"
    by (simp add: clear_authentication_def current_state_def)
  show "hdcp_inv (clear_authentication h)"
    using inv_parts [OF assms] inv_idle [of "clear_authentication h"] cs
    by (simp add: retries_ok_def) (simp add: clear_authentication_def)
qed

text \<open>A reset that succeeds leaves the machines; one that fails leaves the state as it was.\<close>

lemma reset_authentication_cases:
  assumes "reset_authentication env h out w = (st, h', out', w')" "hdcp_inv h"
  obtains (cleared) h0 where "st = SUCCESS" "same_module h h0" "hdcp_inv h0" "h' = clear_authentication h0"
    | (failed) "st \<noteq> SUCCESS" "is_hdcp2 h" "same_module h h'" "hdcp_inv h'"
    | (idle) "st = SUCCESS" "h' = h" "current_state h \<in> {HDCP_UNINITIALIZED, HDCP_INITIALIZED}"
proof -
  have q1: "same_module h h0 \<and> hdcp_inv h0" if "mod_hdcp_hdcp1_destroy_session env h w = (s, h0, w0)" for s h0 w0
    using quiet_D [OF calm_destroy_session(1) that] inv_calm [OF calm_destroy_session(1,2) that assms(2)] by blast
  have q2: "same_module h h0 \<and> hdcp_inv h0" if "mod_hdcp_hdcp2_destroy_session env h w = (s, h0, w0)" for s h0 w0
    using quiet_D [OF calm_destroy_session(3) that] inv_calm [OF calm_destroy_session(3,4) that assms(2)] by blast
  have idle: "current_state h \<in> {HDCP_UNINITIALIZED, HDCP_INITIALIZED}"
    if "\<not> is_hdcp1 h" "\<not> is_hdcp2 h" "\<not> is_in_cp_not_desired_state h"
    using assms(2) that hdcp_ids_total [of "current_state h"]
    unfolding hdcp_inv_def shape_inv_def is_hdcp1_def is_hdcp2_def is_in_cp_not_desired_state_def
      is_in_hdcp1_states_def is_in_hdcp1_dp_states_def is_in_hdcp2_states_def is_in_hdcp2_dp_states_def
    by blast
  consider "is_hdcp1 h" | "is_hdcp2 h" "\<not> is_hdcp1 h" | "\<not> is_hdcp1 h" "\<not> is_hdcp2 h" by blast
  then show thesis
  proof cases
    case 1
    then show thesis
      using assms cleared [of h] cleared q1
      by (auto simp: reset_authentication_def split: if_splits prod.splits)
  next
    case 2
    then show thesis
      using assms cleared [of h] cleared failed q2
      by (auto simp: reset_authentication_def split: if_splits prod.splits)
  next
    case 3
    then show thesis
      using assms cleared [of h] that(3) idle
      by (auto simp: reset_authentication_def split: if_splits)
  qed
qed

section \<open>Execution and transition\<close>

lemma tr_frame_parts:
  assumes "tr_frame h h'" "hdcp_inv h"
  shows "displays h' = displays h" "displays_ok (displays h')" "trace_ok (conn_trace (connection h'))"
    "retries_ok h'"
proof -
  have c: "connection h' = (connection h)\<lparr>link := (link (connection h))
      \<lparr>link_adjust := link_adjust (link (connection h'))\<rparr>\<rparr>"
    using assms(1) by (simp add: tr_frame_def)
  have "conn_trace (connection h') = conn_trace (connection h)"
    "hdcp1_retry_count (connection h') = hdcp1_retry_count (connection h)"
    "hdcp2_retry_count (connection h') = hdcp2_retry_count (connection h)"
    by (subst c, simp)+
  then show "displays h' = displays h" "displays_ok (displays h')" "trace_ok (conn_trace (connection h'))"
    "retries_ok h'"
    using assms(1) inv_parts(1-3) [OF assms(2)] by (auto simp: tr_frame_def retries_ok_def)
qed

lemmas is_in_defs = is_hdcp1_def is_hdcp2_def is_in_hdcp1_states_def is_in_hdcp1_dp_states_def
  is_in_hdcp2_states_def is_in_hdcp2_dp_states_def is_in_cp_not_desired_state_def
  is_in_initialized_state_def

text \<open>Staying among the states of one machine.\<close>

lemma inv_tr_frame:
  assumes "tr_frame h h'" "hdcp_inv h" "handshake hdcp1_needs h'" "handshake hdcp2_needs h'"
    and ids: "in_hdcp1_ids (current_state h) \<and> in_hdcp1_ids (current_state h') \<or>
      in_hdcp1_dp_ids (current_state h) \<and> in_hdcp1_dp_ids (current_state h') \<or>
      in_hdcp2_ids (current_state h) \<and> in_hdcp2_ids (current_state h') \<or>
      in_hdcp2_dp_ids (current_state h) \<and> in_hdcp2_dp_ids (current_state h')"
  shows "hdcp_inv h'"
proof -
  have "current_state h' \<le> HDCP2_DP_STATE_END"
    using ids hdcp_ids_total by blast
  moreover have "list_ex is_display_active (displays h')"
    using assms(2) ids tr_frame_parts(1) [OF assms(1,2)]
    by (auto simp: hdcp_inv_def shape_inv_def is_in_defs)
  moreover have "mode_ok h'"
    using ids hdcp_ids_disjoint [of "current_state h'"] inv_parts(6) [OF assms(2)]
    unfolding mode_ok_def tr_frame_mode(1,2) [OF assms(1)] is_in_defs by argo
  ultimately show ?thesis
    using assms(3,4) tr_frame_parts [OF assms(1,2)] by (simp add: hdcp_inv_def shape_inv_def)
qed

lemma inv_tr_idle:
  assumes "tr_frame h h'" "hdcp_inv h"
    "current_state h' \<in> {HDCP_UNINITIALIZED, HDCP_INITIALIZED, HDCP_CP_NOT_DESIRED}"
  shows "hdcp_inv h'"
  using tr_frame_parts [OF assms(1,2)] inv_idle [OF assms(3)] by blast

lemma auth_needed_active:
  assumes "is_auth_needed h" "displays_ok (displays h)"
  shows "list_ex is_display_active (displays h)"
proof -
  obtain i where "i < MAX_NUM_OF_DISPLAYS" "disp_state (displays h ! i) \<noteq> MOD_HDCP_DISPLAY_INACTIVE"
    using assms(1) by (auto simp: is_auth_needed_def list_ex_iff)
  then show ?thesis
    using assms(2) nth_mem [of i "displays h"] by (auto simp: displays_ok_def list_ex_iff active_iff)
qed

text \<open>Entering the first state of a machine.\<close>

lemma inv_start:
  assumes "hdcp_inv h" "is_auth_needed h" "state h' = zero_state\<lparr>state_id := i\<rparr>" "displays h' = displays h"
    "connection h' = connection h"
    and i: "i = D2_A0_DETERMINE_RX_HDCP_CAPABLE \<and> is_dp_hdcp h \<or> i = D1_A0_DETERMINE_RX_HDCP_CAPABLE \<and> is_dp_hdcp h \<or>
      i = H2_A0_KNOWN_HDCP2_CAPABLE_RX \<and> is_hdmi_dvi_sl_hdcp h \<or>
      i = H1_A0_WAIT_FOR_ACTIVE_RX \<and> is_hdmi_dvi_sl_hdcp h"
  shows "hdcp_inv h'"
proof -
  have cs: "current_state h' = i"
    using assms(3) by (simp add: current_state_def)
  have "mode_ok h'"
    using i by (elim disjE; simp add: mode_ok_def is_in_defs hdcp_id_iffs cs is_dp_hdcp_def
        is_hdmi_dvi_sl_hdcp_def assms(5))
  moreover have "handshake hdcp1_needs h'" "handshake hdcp2_needs h'"
    using i by (elim disjE; simp add: handshake_def passed_def hdcp1_needs_def hdcp2_needs_def cs)+
  moreover have "i \<le> HDCP2_DP_STATE_END"
    using i by (auto simp: word_le_nat_alt)
  ultimately show ?thesis
    using assms(1,4,5) cs auth_needed_active [OF assms(2)]
    by (simp add: hdcp_inv_def shape_inv_def retries_ok_def)
qed

lemma inv_start_transition:
  assumes "hdcp_inv h" "start_transition (h, out, st) = (h', out', st')"
  shows "hdcp_inv h'"
proof -
  have i: "hdcp_inv h'" if "current_state h' = HDCP_CP_NOT_DESIRED" "displays h' = displays h" "connection h' = connection h"
    using that inv_parts(1-3) [OF assms(1)] inv_idle [of h'] by (simp add: retries_ok_def)
  have m: "hdcp_inv h'" if "is_auth_needed h" "h' = h\<lparr>state := zero_state\<lparr>state_id := i\<rparr>\<rparr>"
    "i = D2_A0_DETERMINE_RX_HDCP_CAPABLE \<and> is_dp_hdcp h \<or> i = D1_A0_DETERMINE_RX_HDCP_CAPABLE \<and> is_dp_hdcp h \<or>
      i = H2_A0_KNOWN_HDCP2_CAPABLE_RX \<and> is_hdmi_dvi_sl_hdcp h \<or>
      i = H1_A0_WAIT_FOR_ACTIVE_RX \<and> is_hdmi_dvi_sl_hdcp h" for i
    using inv_start [OF assms(1) that(1), of h' i] that(2,3) by simp
  consider "h' = h\<lparr>state := zero_state\<lparr>state_id := HDCP_CP_NOT_DESIRED\<rparr>\<rparr>"
    | "is_auth_needed h" "is_dp_hdcp h" "h' = h\<lparr>state := zero_state\<lparr>state_id := D2_A0_DETERMINE_RX_HDCP_CAPABLE\<rparr>\<rparr>"
    | "is_auth_needed h" "is_dp_hdcp h" "h' = h\<lparr>state := zero_state\<lparr>state_id := D1_A0_DETERMINE_RX_HDCP_CAPABLE\<rparr>\<rparr>"
    | "is_auth_needed h" "is_hdmi_dvi_sl_hdcp h" "h' = h\<lparr>state := zero_state\<lparr>state_id := H2_A0_KNOWN_HDCP2_CAPABLE_RX\<rparr>\<rparr>"
    | "is_auth_needed h" "is_hdmi_dvi_sl_hdcp h" "h' = h\<lparr>state := zero_state\<lparr>state_id := H1_A0_WAIT_FOR_ACTIVE_RX\<rparr>\<rparr>"
    using assms(2)
    by (auto simp: start_transition_def is_cp_desired_hdcp1_def is_cp_desired_hdcp2_def split: if_splits)
  then show ?thesis
    using i m by cases (auto simp: current_state_def)
qed

lemma inv_exec_same:
  assumes "same_module h h'" "hdcp_inv h"
    and "is_hdcp1 h \<Longrightarrow> handshake hdcp1_needs h'" and "is_hdcp2 h \<Longrightarrow> handshake hdcp2_needs h'"
  shows "hdcp_inv h'"
proof -
  have "current_state h' = current_state h"
    using assms(1) by (simp add: same_module_def current_state_def)
  then have "is_hdcp1 h' = is_hdcp1 h" "is_hdcp2 h' = is_hdcp2 h"
    by (simp_all add: is_in_defs)
  then show ?thesis
    using assms(3,4) handshake_outside [of h'] shape_same_module [OF assms(1) inv_parts(5) [OF assms(2)]]
    unfolding hdcp_inv_def by blast
qed

lemma dispatch_execution:
  "in_hdcp1_ids (current_state h) \<Longrightarrow> execution env (h, c, w) = mod_hdcp_hdcp1_execution env (h, c, w)"
  "in_hdcp1_dp_ids (current_state h) \<Longrightarrow> execution env (h, c, w) = mod_hdcp_hdcp1_dp_execution env (h, c, w)"
  "in_hdcp2_ids (current_state h) \<Longrightarrow> execution env (h, c, w) = mod_hdcp_hdcp2_execution env (h, c, w)"
  "in_hdcp2_dp_ids (current_state h) \<Longrightarrow> execution env (h, c, w) = mod_hdcp_hdcp2_dp_execution env (h, c, w)"
  by (frule hdcp_ids_disjoint, simp add: execution_def is_in_defs)+

lemma dispatch_transition:
  "in_hdcp1_ids (current_state h) \<Longrightarrow> transition c h out =
     (if unexpected_event c then (h, out, SUCCESS) else mod_hdcp_hdcp1_transition c h out)"
  "in_hdcp1_dp_ids (current_state h) \<Longrightarrow> transition c h out =
     (if unexpected_event c then (h, out, SUCCESS) else mod_hdcp_hdcp1_dp_transition c h out)"
  "in_hdcp2_ids (current_state h) \<Longrightarrow> transition c h out =
     (if unexpected_event c then (h, out, SUCCESS) else mod_hdcp_hdcp2_transition c h out)"
  "in_hdcp2_dp_ids (current_state h) \<Longrightarrow> transition c h out =
     (if unexpected_event c then (h, out, SUCCESS) else mod_hdcp_hdcp2_dp_transition c h out)"
  by (frule hdcp_ids_disjoint, simp add: transition_def is_in_defs)+

lemma state_cases:
  assumes "hdcp_inv h"
  obtains (hdmi1) "in_hdcp1_ids (current_state h)" "is_hdcp1 h" "\<not> is_hdcp2 h"
    | (dp1) "in_hdcp1_dp_ids (current_state h)" "is_hdcp1 h" "\<not> is_hdcp2 h"
    | (hdmi2) "in_hdcp2_ids (current_state h)" "is_hdcp2 h" "\<not> is_hdcp1 h"
    | (dp2) "in_hdcp2_dp_ids (current_state h)" "is_hdcp2 h" "\<not> is_hdcp1 h"
    | (idle) "current_state h \<in> {HDCP_UNINITIALIZED, HDCP_INITIALIZED, HDCP_CP_NOT_DESIRED}"
        "\<not> is_hdcp1 h" "\<not> is_hdcp2 h"
  using hdcp_ids_total [of "current_state h"] inv_parts(4) [OF assms] not_both [of h] outside_states [of h]
  unfolding is_in_defs by blast

lemma inv_execution:
  assumes "hdcp_inv h" "execution env (h, c, w) = (st, h', c', w')"
  shows "same_module h h' \<and> event c' = event c \<and> hdcp_inv h'"
  using assms(1)
proof (cases rule: state_cases)
  case hdmi1
  then show ?thesis
    using hdmi1.ex_keeps [OF hdmi1(1) assms(2) [unfolded dispatch_execution(1) [OF hdmi1(1)]]]
      assms(1) inv_exec_same [of h h'] inv_parts(7) by blast
next
  case dp1
  then show ?thesis
    using dp1.ex_keeps [OF dp1(1) assms(2) [unfolded dispatch_execution(2) [OF dp1(1)]]]
      assms(1) inv_exec_same [of h h'] inv_parts(7) by blast
next
  case hdmi2
  then show ?thesis
    using hdmi2.ex_keeps [OF hdmi2(1) assms(2) [unfolded dispatch_execution(3) [OF hdmi2(1)]]]
      assms(1) inv_exec_same [of h h'] inv_parts(8) by blast
next
  case dp2
  then show ?thesis
    using dp2.ex_keeps [OF dp2(1) assms(2) [unfolded dispatch_execution(4) [OF dp2(1)]]]
      assms(1) inv_exec_same [of h h'] inv_parts(8) by blast
next
  case idle
  then have "same_module h h' \<and> event c' = event c"
    using assms(2) by (auto simp: execution_def is_in_defs hdcp_id_iffs expect_def clear_trans_input_def
        same_module_def list_all2_refl split: if_splits)
  then show ?thesis
    using idle(2,3) assms(1) inv_exec_same [of h h'] by blast
qed

text \<open>The contract of the machine the module is in, applied to a transition of the module.\<close>

definition machines :: "((u8 \<Rightarrow> bool) \<times> u8 \<times> handshake_table) set" where
  "machines = {(in_hdcp1_ids, H1_A45_AUTHENTICATED, hdcp1_needs), (in_hdcp1_dp_ids, D1_A4_AUTHENTICATED, hdcp1_needs),
     (in_hdcp2_ids, H2_A5_AUTHENTICATED, hdcp2_needs), (in_hdcp2_dp_ids, D2_A5_AUTHENTICATED, hdcp2_needs)}"

lemma machines_contract:
  assumes "(ids, final, needs) \<in> machines"
  obtains start ex tr where "hdcp_machine ids start final needs (ex :: unit step) tr"
  using assms hdmi1.hdcp_machine_axioms dp1.hdcp_machine_axioms hdmi2.hdcp_machine_axioms
    dp2.hdcp_machine_axioms unfolding machines_def by blast

lemma machines_outcome:
  assumes m: "(ids, final, needs) \<in> machines" "ids (current_state h)"
    "outcome ids final needs h (h', out', st)" "handshake needs h"
  shows "auth_complete out' \<longleftrightarrow> current_state h' = final \<and> current_state h \<noteq> final"
    "current_state h' = HDCP_INITIALIZED \<or> ids (current_state h') \<and> handshake needs h'"
    "current_state h' \<noteq> current_state h \<Longrightarrow>
       callback_needed out' \<or> watchdog_timer_needed out' \<or> auth_complete out'"
    "st = SUCCESS \<or> st = MOD_HDCP_STATUS_RESET_NEEDED \<and> state h' = state h \<and> callback_needed out'"
proof -
  obtain start ex tr where c: "hdcp_machine ids start final needs (ex :: unit step) tr"
    using machines_contract [OF m(1)] .
  show "auth_complete out' \<longleftrightarrow> current_state h' = final \<and> current_state h \<noteq> final"
    by (rule hdcp_machine.outcome_complete [OF c m(3,2)])
  show "current_state h' = HDCP_INITIALIZED \<or> ids (current_state h') \<and> handshake needs h'"
    by (rule hdcp_machine.outcome_handshake [OF c m(3,2,4)])
  show "callback_needed out' \<or> watchdog_timer_needed out' \<or> auth_complete out'"
    if "current_state h' \<noteq> current_state h"
    by (rule hdcp_machine.outcome_timer [OF c m(3) that])
  show "st = SUCCESS \<or> st = MOD_HDCP_STATUS_RESET_NEEDED \<and> state h' = state h \<and> callback_needed out'"
    by (rule hdcp_machine.outcome_status [OF c m(3)])
qed

lemma machines_final: "(ids, final, needs) \<in> machines \<Longrightarrow> ids final"
  using hdcp_machine.final_in machines_contract by metis

lemma machines_ids:
  assumes "(ids, final, needs) \<in> machines" "ids (current_state h)" "handshake needs h"
  shows "handshake hdcp1_needs h \<and> handshake hdcp2_needs h"
  using assms handshake_outside [of h] hdcp_ids_disjoint [of "current_state h"]
  unfolding machines_def is_in_defs by blast

lemma machine_step:
  assumes "hdcp_inv h" "is_hdcp1 h \<or> is_hdcp2 h" "transition c h zero_output = (h', out', st)"
  obtains ids final needs where "(ids, final, needs) \<in> machines" "ids (current_state h)" "handshake needs h"
    "outcome ids final needs h (h', out', st)"
proof -
  have u: "outcome ids final needs h (h, zero_output, SUCCESS)" for ids final needs
    by (simp add: outcome_def zero_output_def)
  have z: "\<not> auth_complete zero_output"
    by (simp add: zero_output_def)
  note hs = inv_parts(7,8) [OF assms(1)]
  show thesis
    using assms(1)
  proof (cases rule: state_cases)
    case hdmi1
    then show thesis
      using hdmi1.tr_outcome [OF hdmi1(1) hs(1) z, of c] assms(3) u hs
        that [of in_hdcp1_ids H1_A45_AUTHENTICATED hdcp1_needs]
      by (auto simp: dispatch_transition machines_def split: if_splits)
  next
    case dp1
    then show thesis
      using dp1.tr_outcome [OF dp1(1) hs(1) z, of c] assms(3) u hs
        that [of in_hdcp1_dp_ids D1_A4_AUTHENTICATED hdcp1_needs]
      by (auto simp: dispatch_transition machines_def split: if_splits)
  next
    case hdmi2
    then show thesis
      using hdmi2.tr_outcome [OF hdmi2(1) hs(2) z, of c] assms(3) u hs
        that [of in_hdcp2_ids H2_A5_AUTHENTICATED hdcp2_needs]
      by (auto simp: dispatch_transition machines_def split: if_splits)
  next
    case dp2
    then show thesis
      using dp2.tr_outcome [OF dp2(1) hs(2) z, of c] assms(3) u hs
        that [of in_hdcp2_dp_ids D2_A5_AUTHENTICATED hdcp2_needs]
      by (auto simp: dispatch_transition machines_def split: if_splits)
  qed (use assms(2) in blast)
qed

lemma inv_transition:
  assumes "hdcp_inv h" "transition c h zero_output = (h', out', st)"
  shows "hdcp_inv h'"
proof (cases "is_hdcp1 h \<or> is_hdcp2 h")
  case True
  then obtain ids final needs where m: "(ids, final, needs) \<in> machines" "ids (current_state h)"
    "handshake needs h" and o: "outcome ids final needs h (h', out', st)"
    using machine_step assms by metis
  have f: "tr_frame h h'"
    using o by (simp add: outcome_def)
  have "current_state h' = HDCP_INITIALIZED \<or> ids (current_state h') \<and> handshake needs h'"
    using machines_outcome(2) [OF m(1,2) o m(3)] .
  then show ?thesis
  proof
    assume "current_state h' = HDCP_INITIALIZED"
    then show ?thesis
      using inv_tr_idle [OF f assms(1)] by simp
  next
    assume i: "ids (current_state h') \<and> handshake needs h'"
    then show ?thesis
      using inv_tr_frame [OF f assms(1)] machines_ids [OF m(1)] m(1,2) unfolding machines_def by blast
  qed
next
  case False
  then have "current_state h \<in> {HDCP_UNINITIALIZED, HDCP_INITIALIZED, HDCP_CP_NOT_DESIRED}"
    using state_cases [OF assms(1)] by metis
  then show ?thesis
    using assms False inv_start_transition [OF assms(1)] inv_idle [of h] inv_idle [of h']
    by (auto simp: transition_def is_in_defs retries_ok_def current_state_def split: if_splits)
qed

section \<open>The interface keeps the invariant\<close>

lemma inv_reset_authentication:
  assumes "hdcp_inv h" "reset_authentication env h out w = (st, h', out', w')"
  shows "hdcp_inv h'" "st = SUCCESS \<Longrightarrow> current_state h' \<in> {HDCP_UNINITIALIZED, HDCP_INITIALIZED}"
    "list_all2 same_display (displays h) (displays h')"
proof -
  have d: "displays (clear_authentication h0) = displays h0" for h0
    by (simp add: clear_authentication_def)
  show "hdcp_inv h'"
    by (rule reset_authentication_cases [OF assms(2,1)]) (auto simp: inv_clear_authentication assms(1))
  show "current_state h' \<in> {HDCP_UNINITIALIZED, HDCP_INITIALIZED}" if "st = SUCCESS"
    by (rule reset_authentication_cases [OF assms(2,1)]) (auto simp: inv_clear_authentication that)
  show "list_all2 same_display (displays h) (displays h')"
    by (rule reset_authentication_cases [OF assms(2,1)]) (auto simp: d same_module_def list_all2_refl)
qed

lemma inv_reset_connection:
  assumes "hdcp_inv h" "reset_connection env h w = (st, h', out', w')"
  shows "hdcp_inv h'" "st = SUCCESS \<Longrightarrow> current_state h' = HDCP_UNINITIALIZED"
proof -
  obtain st1 h1 out1 w1 where r: "reset_authentication env h zero_output w = (st1, h1, out1, w1)"
    by (metis prod.exhaust)
  note i = inv_reset_authentication [OF assms(1) r]
  have z: "trace_ok zero_trace"
    by (simp add: trace_ok_def zero_trace_def)
  have u: "hdcp_inv (h2\<lparr>connection := zero_connection\<rparr>)"
    if "current_state h2 = HDCP_UNINITIALIZED" "displays h2 = displays h1" for h2
    using that inv_parts(1) [OF i(1)] inv_idle [of "h2\<lparr>connection := zero_connection\<rparr>"] z
    by (simp add: retries_ok_def zero_connection_def current_state_def)
  show "hdcp_inv h'"
    using assms(2) r i u by (auto simp: reset_connection_def current_state_def split: if_splits)
  show "current_state h' = HDCP_UNINITIALIZED" if "st = SUCCESS"
    using assms(2) r i that by (auto simp: reset_connection_def current_state_def split: if_splits)
qed

lemma inv_zero: "hdcp_inv (zero_hdcp\<lparr>fault := b\<rparr>)"
  using inv_idle [of "zero_hdcp\<lparr>fault := b\<rparr>"]
  by (simp add: zero_hdcp_def current_state_def zero_state_def displays_ok_def zero_display_def active_iff
      trace_ok_def zero_connection_def zero_trace_def retries_ok_def)

lemma inv_config: "hdcp_inv h \<Longrightarrow> hdcp_inv (h\<lparr>config := cfg\<rparr>)"
  by (simp add: hdcp_inv_def shape_inv_def retries_ok_def mode_ok_def is_in_defs is_dp_hdcp_def
      is_hdmi_dvi_sl_hdcp_def handshake_def passed_def current_state_def is_dp_mst_hdcp_def)

lemma inv_setup: "hdcp_inv h \<Longrightarrow> mod_hdcp_setup env cfg h w = (st, h', w') \<Longrightarrow> hdcp_inv h'"
  by (auto simp: mod_hdcp_setup_def split: prod.splits
      intro!: inv_push_if_failed dest: inv_reset_connection(1) [OF inv_config])

lemma inv_teardown: "hdcp_inv h \<Longrightarrow> mod_hdcp_teardown env h w = (st, h', w') \<Longrightarrow> hdcp_inv h'"
  by (auto simp: mod_hdcp_teardown_def inv_zero split: prod.splits if_splits
      intro!: inv_push_error_status dest: inv_reset_connection(1))

lemma inv_mod_reset_connection:
  "hdcp_inv h \<Longrightarrow> mod_hdcp_reset_connection env h w = (st, h', out, w') \<Longrightarrow> hdcp_inv h'"
  by (auto simp: mod_hdcp_reset_connection_def split: prod.splits
      intro!: inv_push_if_failed dest: inv_reset_connection(1))

text \<open>Adding, removing and re-adjusting a display.\<close>

lemma displays_ok_add:
  assumes "displays_ok ds"
    "\<forall>j < MAX_NUM_OF_DISPLAYS. is_display_active (ds ! j) \<longrightarrow> disp_index (ds ! j) \<noteq> disp_index d"
  shows "displays_ok (ds[i := d])"
  using assms by (cases "i < length ds") (auto simp: displays_ok_def nth_list_update list_update_beyond)

lemma displays_ok_drop: "displays_ok ds \<Longrightarrow> \<not> is_display_active d \<Longrightarrow> displays_ok (ds[i := d])"
  by (cases "i < length ds") (auto simp: displays_ok_def nth_list_update list_update_beyond)

lemma displays_ok_keep: "displays_ok ds \<Longrightarrow> same_display (ds ! i) d \<Longrightarrow> displays_ok (ds[i := d])"
  by (rule displays_ok_same [OF list_all2_update_same])

lemma set_display_state_frame [simp]:
  "state (set_display_state i v h) = state h" "config (set_display_state i v h) = config h"
  by (simp_all add: set_display_state_def)

lemma add_to_topology_cases:
  assumes "mod_hdcp_add_display_to_topology env i h w = (st, h', w')"
  shows "st = SUCCESS \<and> h' = h \<or> st \<noteq> SUCCESS \<and> h' = set_display_state i MOD_HDCP_DISPLAY_INACTIVE h"
proof -
  have twice: "set_display_state i v (set_display_state i v h) = set_display_state i v h" for v
    by (cases "i < length (displays h)") (simp_all add: set_display_state_def list_update_beyond)
  have v2: "st = SUCCESS \<and> h' = h \<or> st \<noteq> SUCCESS \<and> h' = set_display_state i MOD_HDCP_DISPLAY_INACTIVE h"
    if "add_display_to_topology_v2 env i h w = (st, h', w')" for st h' w w'
    using that by (auto simp: add_display_to_topology_v2_def Let_def split: if_splits prod.splits)
  show ?thesis
    using assms
    by (auto simp: mod_hdcp_add_display_to_topology_def add_display_to_topology_v3_def Let_def twice
        split: if_splits prod.splits dest!: v2)
qed

lemma remove_from_topology_cases:
  assumes "mod_hdcp_remove_display_from_topology env idx h w = (st, h', w')"
  shows "h' = h \<or> (\<exists>i v. i < MAX_NUM_OF_DISPLAYS \<and> is_display_active (displays h ! i) \<and>
    h' = set_display_state i v h)"
proof -
  have v2: "h' = h \<or> st = SUCCESS \<and> get_active_display_at_index h idx = Some i \<and>
      h' = set_display_state i MOD_HDCP_DISPLAY_ACTIVE h"
    if "remove_display_from_topology_v2 env idx h w = (st, h', w')" "get_active_display_at_index h idx = Some i"
    for st h' w w' i
    using that by (auto simp: remove_display_from_topology_v2_def Let_def split: if_splits prod.splits)
  show ?thesis
  proof (cases "get_active_display_at_index h idx")
    case None
    then show ?thesis
      using assms by (auto simp: mod_hdcp_remove_display_from_topology_def
          remove_display_from_topology_v2_def remove_display_from_topology_v3_def split: if_splits)
  next
    case (Some i)
    then have "h' = h \<or> (\<exists>v. h' = set_display_state i v h)"
      using assms v2 by (fastforce simp: mod_hdcp_remove_display_from_topology_def
          remove_display_from_topology_v3_def Let_def split: if_splits prod.splits)
    then show ?thesis
      using active_display_at_index [OF Some] by blast
  qed
qed

lemma displays_ok_set_state:
  assumes "displays_ok (displays h)" "is_display_active (displays h ! i)"
  shows "displays_ok (displays (set_display_state i v h))"
proof (cases "v = MOD_HDCP_DISPLAY_INACTIVE")
  case True
  then show ?thesis
    using assms(1) by (simp add: set_display_state_def displays_ok_drop)
next
  case False
  then show ?thesis
    using assms by (auto simp: set_display_state_def same_display_def active_iff intro!: displays_ok_keep)
qed

lemma inv_restart:
  assumes "current_state h \<in> {HDCP_UNINITIALIZED, HDCP_INITIALIZED}" "displays_ok (displays h)"
    "conn_trace (connection h) = zero_trace"
    "hdcp1_retry_count (connection h) = 0" "hdcp2_retry_count (connection h) = 0"
  shows "hdcp_inv h"
  using assms inv_idle [of h] by (auto simp: retries_ok_def trace_ok_def zero_trace_def)

lemma inv_add_display:
  assumes "hdcp_inv h" "mod_hdcp_add_display env lnk d h w = (st, h', out, w')"
  shows "hdcp_inv h'"
proof (cases "disp_state d = MOD_HDCP_DISPLAY_ACTIVE \<and> get_active_display_at_index h (disp_index d) = None \<and>
    get_empty_display_container h \<noteq> None")
  case False
  then show ?thesis
    using assms inv_push_error_status
    by (auto simp: mod_hdcp_add_display_def push_if_failed_def split: if_splits option.splits)
next
  case True
  then obtain i where i: "get_empty_display_container h = Some i" by auto
  obtain st1 h1 out1 w1 where r: "reset_authentication env h zero_output w = (st1, h1, out1, w1)"
    by (metis prod.exhaust)
  note r' = inv_reset_authentication [OF assms(1) r]
  let ?h3 = "(set_conn (link_update (\<lambda>_. lnk)) (reset_trace (reset_retry_counts h1)))
    \<lparr>displays := (displays h1)[i := d]\<rparr>"
  obtain st4 h4 w4 where t: "mod_hdcp_add_display_to_topology env i ?h3 w1 = (st4, h4, w4)"
    by (metis prod.exhaust)
  have "\<forall>j < MAX_NUM_OF_DISPLAYS. is_display_active (displays h1 ! j) \<longrightarrow> disp_index (displays h1 ! j) \<noteq> disp_index d"
    using True r'(3) inv_parts(1) [OF assms(1)]
    by (auto simp: get_active_display_at_index_def find_None_iff list_all2_conv_all_nth same_display_def
        displays_ok_def)
  then have "displays_ok ((displays h1)[i := d])"
    using displays_ok_add inv_parts(1) [OF r'(1)] by blast
  then have "displays_ok (displays h4)"
    using add_to_topology_cases [OF t] inv_parts(1) [OF r'(1)]
    by (auto simp: set_display_state_def displays_ok_drop)
  moreover have "state h4 = state h1" "conn_trace (connection h4) = zero_trace"
    "hdcp1_retry_count (connection h4) = 0" "hdcp2_retry_count (connection h4) = 0"
    using add_to_topology_cases [OF t] by (auto simp: reset_retry_counts_def set_conn_def)
  ultimately show ?thesis
    using assms(2) True i r r' t
    by (auto simp: mod_hdcp_add_display_def reset_retry_counts_def set_conn_def intro!: inv_push_if_failed
        inv_restart split: if_splits prod.splits) (auto simp: current_state_def)
qed

lemma inv_remove_display:
  assumes "hdcp_inv h" "mod_hdcp_remove_display env idx h w = (st, h', out, w')"
  shows "hdcp_inv h'"
proof (cases "get_active_display_at_index h idx")
  case None
  then show ?thesis
    using assms by (simp add: mod_hdcp_remove_display_def push_if_failed_def)
next
  case (Some i)
  obtain st1 h1 out1 w1 where r: "reset_authentication env h zero_output w = (st1, h1, out1, w1)"
    by (metis prod.exhaust)
  note r' = inv_reset_authentication [OF assms(1) r]
  obtain st2 h2 w2 where t: "mod_hdcp_remove_display_from_topology env idx
      (reset_trace (reset_retry_counts h1)) w1 = (st2, h2, w2)"
    by (metis prod.exhaust)
  note c = remove_from_topology_cases [OF t]
  have "displays_ok (displays h2)"
    using c inv_parts(1) [OF r'(1)] displays_ok_set_state [of "reset_trace (reset_retry_counts h1)"]
    by (auto simp: reset_retry_counts_def set_conn_def)
  moreover have "state h2 = state h1" "conn_trace (connection h2) = zero_trace"
    "hdcp1_retry_count (connection h2) = 0" "hdcp2_retry_count (connection h2) = 0"
    using c by (auto simp: reset_retry_counts_def set_conn_def)
  moreover have "displays_ok ((displays h2)[i := zero_display])"
    using calculation(1) by (simp add: displays_ok_drop zero_display_def active_iff)
  ultimately have "hdcp_inv h2" "hdcp_inv (h2\<lparr>displays := (displays h2)[i := zero_display]\<rparr>)"
    if "st1 = SUCCESS"
    using r'(2) [OF that] by (auto simp: current_state_def intro!: inv_restart)
  moreover have "h' = push_if_failed st (if st1 \<noteq> SUCCESS then h1 else if st2 \<noteq> SUCCESS then h2
      else h2\<lparr>displays := (displays h2)[i := zero_display]\<rparr>)"
    using assms(2) Some r t by (auto simp: mod_hdcp_remove_display_def Let_def split: if_splits prod.splits)
  ultimately show ?thesis
    using r'(1) by (simp add: inv_push_if_failed)
qed

text \<open>Re-adjusting a display on an authenticated MST link encrypts its stream without a restart.\<close>

lemma active_adjusted [simp]: "is_display_active (d\<lparr>disp_adjust := a\<rparr>) = is_display_active d"
  by (simp add: is_display_active_def)

lemma adjust_nth:
  "j < length ds \<Longrightarrow> disp_index (ds[i := (ds ! i)\<lparr>disp_adjust := a\<rparr>] ! j) = disp_index (ds ! j) \<and>
     is_display_active (ds[i := (ds ! i)\<lparr>disp_adjust := a\<rparr>] ! j) = is_display_active (ds ! j)"
  by (cases "i = j") simp_all

lemma displays_ok_adjust: "displays_ok ds \<Longrightarrow> displays_ok (ds[i := (ds ! i)\<lparr>disp_adjust := a\<rparr>])"
  by (simp add: displays_ok_def adjust_nth)

lemma active_adjust:
  "list_ex is_display_active (ds[i := (ds ! i)\<lparr>disp_adjust := a\<rparr>]) = list_ex is_display_active ds"
  by (simp add: list_ex_length adjust_nth cong: conj_cong)

lemma inv_set_display_disable: "hdcp_inv h \<Longrightarrow> hdcp_inv (set_display_disable i v h)"
  by (simp add: hdcp_inv_def shape_inv_def retries_ok_def mode_ok_def is_in_defs is_dp_hdcp_def
      is_hdmi_dvi_sl_hdcp_def handshake_def passed_def current_state_def is_dp_mst_hdcp_def
      set_display_disable_def displays_ok_adjust active_adjust)

lemma inv_update_display_adjustments:
  assumes "hdcp_inv h" "update_display_adjustments env i adj h w = (st, h', w')"
  shows "hdcp_inv h'"
proof -
  let ?h1 = "set_display_disable i 0 h"
  have i1: "hdcp_inv ?h1"
    using inv_set_display_disable [OF assms(1)] .
  have "hdcp_inv h2" if "mod_hdcp_hdcp1_enable_dp_stream_encryption env ?h1 w = (s, h2, w2)" for s h2 w2
    by (rule inv_calm [OF calm_stream_encryption(1,2) that i1])
  moreover have "hdcp_inv h2" if "mod_hdcp_hdcp2_enable_dp_stream_encryption env ?h1 w = (s, h2, w2)" for s h2 w2
    by (rule inv_calm [OF calm_stream_encryption(3,4) that i1])
  ultimately show ?thesis
    using assms i1
    by (auto simp: update_display_adjustments_def Let_def intro!: inv_set_display_disable
        split: if_splits prod.splits)
qed

lemma displays_conn [simp]:
  "displays (update_adjust f h) = displays h" "displays (reset_retry_counts h) = displays h"
  by (simp_all add: update_adjust_def reset_retry_counts_def)

lemma inv_update_display:
  assumes "hdcp_inv h" "mod_hdcp_update_display env idx ladj dadj h w = (st, h', out, w')"
  shows "hdcp_inv h'"
proof (cases "get_active_display_at_index h idx")
  case None
  then show ?thesis
    using assms by (auto simp: mod_hdcp_update_display_def intro: inv_push_if_failed)
next
  case (Some i)
  have restart: "hdcp_inv (update_adjust (\<lambda>_. a) (reset_trace (reset_retry_counts h1))
      \<lparr>displays := (displays h1)[i := (displays h1 ! i)\<lparr>disp_adjust := dadj\<rparr>]\<rparr>)"
    if "hdcp_inv g" "reset_authentication env g zero_output w = (SUCCESS, h1, out1, w1)" for a g w h1 out1 w1
    using inv_reset_authentication(1,2) [OF that] inv_parts(1)
    by (intro inv_restart)
      (auto simp: current_state_def reset_retry_counts_def set_conn_def update_adjust_def displays_ok_adjust)
  have upd: "hdcp_inv h1" if "update_display_adjustments env i dadj h w = (s, h1, w1)" for s h1 w1
    using inv_update_display_adjustments [OF assms(1) that] .
  show ?thesis
    using assms Some
    by (auto simp: mod_hdcp_update_display_def Let_def intro!: inv_push_if_failed
        split: if_splits prod.splits dest: upd restart inv_reset_authentication(1))
qed

lemma inv_execute_and_transition:
  assumes "hdcp_inv h" "execute_and_transition env ev h w = (ts, st, h', out, w')"
  shows "hdcp_inv h'"
proof -
  obtain es h1 c1 w1 where x: "execution env (h, event_context ev, w) = (es, h1, c1, w1)"
    by (metis prod.exhaust)
  obtain h2 out2 ts2 where t: "transition c1 h1 zero_output = (h2, out2, ts2)"
    by (metis prod.exhaust)
  have "hdcp_inv h2"
    using inv_transition [OF _ t] inv_execution [OF assms(1) x] by blast
  then show ?thesis
    using assms(2) x t
    by (auto simp: execute_and_transition_def intro: inv_push_error_status split: if_splits)
qed

lemma inv_process_event:
  assumes "hdcp_inv h" "mod_hdcp_process_event env ev h w = (st, h', out, w')"
  shows "hdcp_inv h'"
proof -
  obtain ts st2 h2 out2 w1 where x: "execute_and_transition env ev h w = (ts, st2, h2, out2, w1)"
    by (metis prod.exhaust)
  obtain rs hr outr wr where r: "reset_authentication env h2 out2 w1 = (rs, hr, outr, wr)"
    by (metis prod.exhaust)
  define h3 where "h3 = (if ts = MOD_HDCP_STATUS_RESET_NEEDED then push_if_failed rs hr else h2)"
  define w3 where "w3 = (if ts = MOD_HDCP_STATUS_RESET_NEEDED then wr else w1)"
  obtain cs h4 w4 where c: "mod_hdcp_clear_cp_irq_status env h3 w3 = (cs, h4, w4)"
    by (metis prod.exhaust)
  have i3: "hdcp_inv h3"
    using inv_execute_and_transition [OF assms(1) x] inv_reset_authentication(1) [OF _ r] inv_push_if_failed
    by (simp add: h3_def)
  have i4: "hdcp_inv h4"
    by (rule inv_calm [OF calm_clear_cp_irq(1,2) c i3])
  have "h' = (if ev = MOD_HDCP_EVENT_CPIRQ then push_if_failed cs h4 else h3)"
    using assms(2) x r c by (auto simp: mod_hdcp_process_event_def h3_def w3_def split: if_splits)
  then show ?thesis
    using i3 i4 by (simp add: inv_push_if_failed)
qed

section \<open>Reachable states\<close>

text \<open>
  The module is allocated zeroed and driven by the display manager through the interface. Between two
  calls the rest of the world, that is the sink and the security processor, may change arbitrarily: each
  step starts from any \<open>w\<close>.
\<close>

inductive hdcp_reach :: "'w hdcp_env \<Rightarrow> mod_hdcp \<Rightarrow> bool" for env :: "'w hdcp_env" where
  init: "hdcp_reach env zero_hdcp"
| set_up: "hdcp_reach env h \<Longrightarrow> mod_hdcp_setup env cfg h w = (st, h', w') \<Longrightarrow> hdcp_reach env h'"
| tear_down: "hdcp_reach env h \<Longrightarrow> mod_hdcp_teardown env h w = (st, h', w') \<Longrightarrow> hdcp_reach env h'"
| add_display: "hdcp_reach env h \<Longrightarrow> mod_hdcp_add_display env lnk d h w = (st, h', out, w') \<Longrightarrow>
    hdcp_reach env h'"
| remove_display: "hdcp_reach env h \<Longrightarrow> mod_hdcp_remove_display env idx h w = (st, h', out, w') \<Longrightarrow>
    hdcp_reach env h'"
| update_display: "hdcp_reach env h \<Longrightarrow>
    mod_hdcp_update_display env idx ladj dadj h w = (st, h', out, w') \<Longrightarrow> hdcp_reach env h'"
| reset: "hdcp_reach env h \<Longrightarrow> mod_hdcp_reset_connection env h w = (st, h', out, w') \<Longrightarrow> hdcp_reach env h'"
| event: "hdcp_reach env h \<Longrightarrow> mod_hdcp_process_event env ev h w = (st, h', out, w') \<Longrightarrow> hdcp_reach env h'"

lemma reach_inv: "hdcp_reach env h \<Longrightarrow> hdcp_inv h"
proof (induction rule: hdcp_reach.induct)
  case init
  then show ?case
    using inv_zero [of False] by (simp add: zero_hdcp_def)
qed (blast intro: inv_setup inv_teardown inv_add_display inv_remove_display inv_update_display
    inv_mod_reset_connection inv_process_event)+

end
