(* ===== verification/Hdcp_Run.thy ===== *)
theory Hdcp_Run
  imports Hdcp_Inv
begin

text \<open>
  Runs of the module under a sequence of events. \<open>process_event_split\<close> takes
  \<^verbatim>\<open>mod_hdcp_process_event\<close> apart into its three outcomes; from it follow the bound on the
  number of authentication attempts and the abstract state machine the module implements.
\<close>

section \<open>Remaining attempts\<close>

definition attempts1 :: "mod_hdcp \<Rightarrow> nat" where
  "attempts1 h = (if disable1 (adjust1 h) then 0
     else unat MAX_NUM_OF_ATTEMPTS - unat (hdcp1_retry_count (connection h)))"

definition attempts2 :: "mod_hdcp \<Rightarrow> nat" where
  "attempts2 h = (if disable2 (adjust2 h) then 0
     else unat MAX_NUM_OF_ATTEMPTS - unat (hdcp2_retry_count (connection h)))"

lemma attempts_same_module:
  "same_module h h' \<Longrightarrow> attempts1 h' = attempts1 h" "same_module h h' \<Longrightarrow> attempts2 h' = attempts2 h"
  by (simp_all add: same_module_def attempts1_def attempts2_def)

lemma attempts_tr_frame:
  assumes "tr_frame h h'"
  shows "attempts1 h' \<le> attempts1 h" "attempts2 h' \<le> attempts2 h"
proof -
  have c: "connection h' = (connection h)\<lparr>link := (link (connection h))
      \<lparr>link_adjust := link_adjust (link (connection h'))\<rparr>\<rparr>"
    using assms by (simp add: tr_frame_def)
  have "hdcp1_retry_count (connection h') = hdcp1_retry_count (connection h)"
    "hdcp2_retry_count (connection h') = hdcp2_retry_count (connection h)"
    by (subst c, simp)+
  then show "attempts1 h' \<le> attempts1 h" "attempts2 h' \<le> attempts2 h"
    using assms by (auto simp: tr_frame_def attempts1_def attempts2_def)
qed

lemma attempts_clear [simp]:
  "attempts1 (clear_authentication h) = attempts1 h" "attempts2 (clear_authentication h) = attempts2 h"
  by (simp_all add: clear_authentication_def attempts1_def attempts2_def)

lemma attempts_trace [simp]:
  "attempts1 (push_error_trace st h) = attempts1 h" "attempts2 (push_error_trace st h) = attempts2 h"
  by (simp_all add: attempts1_def attempts2_def)

lemma unat_retry:
  fixes n :: u8
  assumes "n < MAX_NUM_OF_ATTEMPTS"
  shows "unat (n + 1) = Suc (unat n)"
  using assms by (simp add: word_less_nat_alt MAX_NUM_OF_ATTEMPTS_def unat_word_ariths)

text \<open>A failed attempt of a version uses one up, and leaves the other version's count alone.\<close>

lemma attempts_count:
  assumes "retries_ok h"
  shows "attempts1 (count_failed_attempt h) = (if is_hdcp1 h then attempts1 h - 1 else attempts1 h)"
    "attempts2 (count_failed_attempt h) =
       (if is_hdcp2 h \<and> \<not> is_hdcp1 h then attempts2 h - 1 else attempts2 h)"
  using assms unat_retry [of "hdcp1_retry_count (connection h)"] unat_retry [of "hdcp2_retry_count (connection h)"]
  by (auto simp: count_failed_attempt_def Let_def attempts1_def attempts2_def retries_ok_def set_conn_def
      update_adjust_def word_unat_eq_iff)

lemma attempts_push_error_status:
  assumes "hdcp_inv h"
  shows "attempts1 (push_error_status st h) = (if is_hdcp1 h then attempts1 h - 1 else attempts1 h)"
    "attempts2 (push_error_status st h) = (if is_hdcp2 h then attempts2 h - 1 else attempts2 h)"
proof -
  have "retries_ok (push_error_trace st h)"
    using inv_parts(3) [OF assms] by (simp add: retries_ok_def)
  moreover have "is_hdcp1 (push_error_trace st h) = is_hdcp1 h" "is_hdcp2 (push_error_trace st h) = is_hdcp2 h"
    by (simp_all add: is_in_defs current_state_def)
  ultimately show "attempts1 (push_error_status st h) = (if is_hdcp1 h then attempts1 h - 1 else attempts1 h)"
    "attempts2 (push_error_status st h) = (if is_hdcp2 h then attempts2 h - 1 else attempts2 h)"
    using attempts_count [of "push_error_trace st h"] not_both [of h] by (auto simp: push_error_status_def)
qed

lemma attempts_push_if_failed:
  assumes "hdcp_inv h"
  shows "attempts1 (push_if_failed st h) \<le> attempts1 h" "attempts2 (push_if_failed st h) \<le> attempts2 h"
  using attempts_push_error_status [OF assms, of st] by (auto simp: push_if_failed_def)

section \<open>The outcomes of an event\<close>

lemma state_push [simp]:
  "state (push_error_status st h) = state h" "state (push_if_failed st h) = state h"
  by (simp_all add: push_error_status_def push_if_failed_def)

text \<open>Acknowledging the interrupt at the end changes neither the state nor grants attempts.\<close>

lemma irq_tail:
  assumes "hdcp_inv h" "mod_hdcp_clear_cp_irq_status env h w = (cs, h4, w4)"
  shows "state (push_if_failed cs h4) = state h"
    "attempts1 (push_if_failed cs h4) \<le> attempts1 h" "attempts2 (push_if_failed cs h4) \<le> attempts2 h"
proof -
  have m: "same_module h h4"
    using quiet_D [OF calm_clear_cp_irq(1) assms(2)] by blast
  have i: "hdcp_inv h4"
    by (rule inv_calm [OF calm_clear_cp_irq(1,2) assms(2,1)])
  show "state (push_if_failed cs h4) = state h"
    using m by (simp add: same_module_def)
  show "attempts1 (push_if_failed cs h4) \<le> attempts1 h" "attempts2 (push_if_failed cs h4) \<le> attempts2 h"
    using attempts_push_if_failed [OF i, of cs] attempts_same_module [OF m] by auto
qed

text \<open>The reset after a failed attempt succeeds, or an HDCP 2.2 session that cannot be destroyed keeps the state.\<close>

lemma reset_tail:
  assumes "hdcp_inv h" "is_hdcp1 h \<or> is_hdcp2 h" "reset_authentication env h out w = (rs, h', out', w')"
  shows "attempts1 (push_if_failed rs h') \<le> attempts1 h" "attempts2 (push_if_failed rs h') \<le> attempts2 h"
    "rs = SUCCESS \<and> current_state h' = HDCP_INITIALIZED \<and> out' = stop_timers out \<or>
     rs \<noteq> SUCCESS \<and> is_hdcp2 h \<and> state h' = state h \<and> \<not> callback_needed out' \<and> \<not> watchdog_timer_needed out'
       \<and> auth_complete out' = auth_complete out"
proof -
  have i: "hdcp_inv h'"
    by (rule inv_reset_authentication(1) [OF assms(1,3)])
  have n: "current_state h \<notin> {HDCP_UNINITIALIZED, HDCP_INITIALIZED}"
    using assms(2) outside_states [of h] by blast
  have r: "attempts1 h' = attempts1 h \<and> attempts2 h' = attempts2 h \<and>
      (rs = SUCCESS \<longrightarrow> current_state h' = HDCP_INITIALIZED) \<and> (rs \<noteq> SUCCESS \<longrightarrow> is_hdcp2 h \<and> state h' = state h)"
    using assms(3,1)
  proof (cases rule: reset_authentication_cases)
    case (cleared h0)
    then show ?thesis
      using attempts_same_module [OF cleared(2)] inv_clear_authentication(2) [OF cleared(3)] by simp
  next
    case failed
    then show ?thesis
      using attempts_same_module [OF failed(3)] by (simp add: same_module_def)
  qed (use n in blast)
  show "attempts1 (push_if_failed rs h') \<le> attempts1 h" "attempts2 (push_if_failed rs h') \<le> attempts2 h"
    using attempts_push_if_failed [OF i, of rs] r by auto
  have "rs = SUCCESS \<longrightarrow> out' = stop_timers out"
    "rs \<noteq> SUCCESS \<longrightarrow> \<not> callback_needed out' \<and> \<not> watchdog_timer_needed out' \<and> auth_complete out' = auth_complete out"
    using assms(3) by (auto simp: reset_authentication_def split: if_splits prod.splits)
  then show "rs = SUCCESS \<and> current_state h' = HDCP_INITIALIZED \<and> out' = stop_timers out \<or>
     rs \<noteq> SUCCESS \<and> is_hdcp2 h \<and> state h' = state h \<and> \<not> callback_needed out' \<and> \<not> watchdog_timer_needed out'
       \<and> auth_complete out' = auth_complete out"
    using r by blast
qed

text \<open>
  \<open>event_outcome h h2 ts out h' out'\<close>: after execution the transition took the module to
  \<open>h2\<close> with status \<open>ts\<close> and output \<open>out\<close>; the call returns \<open>h'\<close> and
  \<open>out'\<close>.
\<close>

definition event_outcome ::
    "mod_hdcp \<Rightarrow> mod_hdcp_status \<Rightarrow> mod_hdcp_output \<Rightarrow> mod_hdcp \<Rightarrow> mod_hdcp_output \<Rightarrow> bool" where
  "event_outcome h2 ts out h' out' \<longleftrightarrow> attempts1 h' \<le> attempts1 h2 \<and> attempts2 h' \<le> attempts2 h2 \<and>
     (if ts = MOD_HDCP_STATUS_RESET_NEEDED
      then (is_hdcp1 h2 \<longrightarrow> attempts1 h' \<le> attempts1 h2 - 1) \<and> (is_hdcp2 h2 \<longrightarrow> attempts2 h' \<le> attempts2 h2 - 1) \<and>
           (current_state h' = HDCP_INITIALIZED \<and> out' = stop_timers out \<or>
            is_hdcp2 h2 \<and> state h' = state h2 \<and> \<not> callback_needed out' \<and> \<not> watchdog_timer_needed out' \<and>
              auth_complete out' = auth_complete out)
      else state h' = state h2 \<and> out' = out)"

lemma reset_needed:
  assumes "hdcp_inv h" "transition c h zero_output = (h2, out2, MOD_HDCP_STATUS_RESET_NEEDED)"
  shows "is_hdcp1 h2 \<or> is_hdcp2 h2" "state h2 = state h" "callback_needed out2" "\<not> auth_complete out2"
proof -
  have m: "is_hdcp1 h \<or> is_hdcp2 h"
  proof (rule ccontr)
    assume n: "\<not> (is_hdcp1 h \<or> is_hdcp2 h)"
    then have "current_state h \<in> {HDCP_UNINITIALIZED, HDCP_INITIALIZED, HDCP_CP_NOT_DESIRED}"
      using state_cases [OF assms(1)] by metis
    then show False
      using assms(2) n by (auto simp: transition_def is_in_defs start_transition_def split: if_splits)
  qed
  obtain ids final needs where "outcome ids final needs h (h2, out2, MOD_HDCP_STATUS_RESET_NEEDED)"
    using machine_step [OF assms(1) m assms(2)] by blast
  then show "state h2 = state h" "callback_needed out2" "\<not> auth_complete out2"
    by (auto simp: outcome_def)
  then show "is_hdcp1 h2 \<or> is_hdcp2 h2"
    using m by (simp add: is_in_defs current_state_def)
qed

lemma event_reset:
  assumes "hdcp_inv h2" "is_hdcp1 h2 \<or> is_hdcp2 h2"
    and "reset_authentication env (push_error_status s h2) out w = (rs, hr, out', w')"
    and "state h' = state hr" "attempts1 h' \<le> attempts1 (push_if_failed rs hr)"
      "attempts2 h' \<le> attempts2 (push_if_failed rs hr)"
  shows "event_outcome h2 MOD_HDCP_STATUS_RESET_NEEDED out h' out'"
proof -
  let ?h3 = "push_error_status s h2"
  have same: "is_hdcp1 ?h3 = is_hdcp1 h2" "is_hdcp2 ?h3 = is_hdcp2 h2"
    by (simp_all add: is_in_defs current_state_def)
  note r = reset_tail [OF inv_push_error_status [OF assms(1)] _ assms(3)]
  show ?thesis
    using r assms(2,4-6) attempts_push_error_status [OF assms(1), of s]
    by (auto simp: event_outcome_def same current_state_def split: if_splits)
qed

lemma process_event_split:
  assumes "hdcp_inv h" "mod_hdcp_process_event env ev h w = (st, h', out', w')"
  obtains h1 c1 h2 out ts where "hdcp_inv h1" "same_module h h1" "hdcp_inv h2"
    "transition c1 h1 zero_output = (h2, out, ts)" "event_outcome h2 ts out h' out'"
proof -
  obtain es h1 c1 w1 where x: "execution env (h, event_context ev, w) = (es, h1, c1, w1)"
    by (metis prod.exhaust)
  obtain h2 out ts where t: "transition c1 h1 zero_output = (h2, out, ts)"
    by (metis prod.exhaust)
  have i1: "hdcp_inv h1" "same_module h h1"
    using inv_execution [OF assms(1) x] by auto
  have i2: "hdcp_inv h2"
    by (rule inv_transition [OF i1(1) t])
  define s where "s = (if ts = SUCCESS then SUCCESS else if es = SUCCESS
    then MOD_HDCP_STATUS_INTERNAL_POLICY_FAILURE else es)"
  define h3 where "h3 = (if ts = SUCCESS then h2 else push_error_status s h2)"
  have et: "execute_and_transition env ev h w = (ts, s, h3, out, w1)"
    using x t by (simp add: execute_and_transition_def s_def h3_def)
  have i3: "hdcp_inv h3" and e3: "attempts1 h3 \<le> attempts1 h2" "attempts2 h3 \<le> attempts2 h2" "state h3 = state h2"
    using i2 inv_push_error_status attempts_push_error_status [OF i2, of s] by (auto simp: h3_def)
  obtain rs hr outr wr where r: "reset_authentication env h3 out w1 = (rs, hr, outr, wr)"
    by (metis prod.exhaust)
  define h4 where "h4 = (if ts = MOD_HDCP_STATUS_RESET_NEEDED then push_if_failed rs hr else h3)"
  define w4 where "w4 = (if ts = MOD_HDCP_STATUS_RESET_NEEDED then wr else w1)"
  have i4: "hdcp_inv h4"
    using i3 inv_reset_authentication(1) [OF i3 r] inv_push_if_failed by (simp add: h4_def)
  obtain cs h5 w5 where c: "mod_hdcp_clear_cp_irq_status env h4 w4 = (cs, h5, w5)"
    by (metis prod.exhaust)
  have h': "h' = (if ev = MOD_HDCP_EVENT_CPIRQ then push_if_failed cs h5 else h4)"
    "out' = (if ts = MOD_HDCP_STATUS_RESET_NEEDED then outr else out)"
    using assms(2) et r c by (auto simp: mod_hdcp_process_event_def h4_def w4_def split: if_splits)
  have tail: "state h' = state h4" "attempts1 h' \<le> attempts1 h4" "attempts2 h' \<le> attempts2 h4"
    using irq_tail [OF i4 c] h' by auto
  have "event_outcome h2 ts out h' out'"
  proof (cases "ts = MOD_HDCP_STATUS_RESET_NEEDED")
    case True
    then have "reset_authentication env (push_error_status s h2) out w1 = (rs, hr, outr, wr)"
      using r by (simp add: h3_def)
    then show ?thesis
      using True tail h'(2) reset_needed(1) [OF i1(1)] event_reset [OF i2, of env s out w1 rs hr outr wr h'] t
      by (simp add: h4_def)
  qed (use tail e3 h'(2) in \<open>simp add: event_outcome_def h4_def\<close>)
  then show thesis
    using that i1 i2 t by blast
qed

section \<open>The abstract machine\<close>

text \<open>
  What the module promises its caller, without messages: which version it is negotiating or has
  completed, and how many attempts each version has left. A version is chosen only while it has an
  attempt left, giving up costs an attempt, and only an HDCP 2.2 link goes back from authenticated to
  negotiating (a repeater that reports a changed topology).
\<close>

datatype version = V1 | V2

datatype phase = Uninitialized | Ready | Not_Desired | Negotiating version | Authenticated version

record hdcp_spec =
  phase_of :: phase
  left1 :: nat
  left2 :: nat

inductive spec_step :: "hdcp_spec \<Rightarrow> hdcp_spec \<Rightarrow> bool" where
  stay: "left1 t \<le> left1 s \<Longrightarrow> left2 t \<le> left2 s \<Longrightarrow> phase_of t = phase_of s \<Longrightarrow> spec_step s t"
| decline: "left1 t \<le> left1 s \<Longrightarrow> left2 t \<le> left2 s \<Longrightarrow> phase_of s = Ready \<Longrightarrow> phase_of t = Not_Desired \<Longrightarrow>
    spec_step s t"
| choose1: "left1 t \<le> left1 s \<Longrightarrow> left2 t \<le> left2 s \<Longrightarrow> 0 < left1 s \<Longrightarrow>
    phase_of s = Ready \<Longrightarrow> phase_of t = Negotiating V1 \<Longrightarrow> spec_step s t"
| choose2: "left1 t \<le> left1 s \<Longrightarrow> left2 t \<le> left2 s \<Longrightarrow> 0 < left2 s \<Longrightarrow>
    phase_of s = Ready \<Longrightarrow> phase_of t = Negotiating V2 \<Longrightarrow> spec_step s t"
| complete: "left1 t \<le> left1 s \<Longrightarrow> left2 t \<le> left2 s \<Longrightarrow>
    phase_of s = Negotiating v \<Longrightarrow> phase_of t = Authenticated v \<Longrightarrow> spec_step s t"
| reverify: "left1 t \<le> left1 s \<Longrightarrow> left2 t \<le> left2 s \<Longrightarrow>
    phase_of s = Authenticated V2 \<Longrightarrow> phase_of t = Negotiating V2 \<Longrightarrow> spec_step s t"
| restart1: "left1 t \<le> left1 s - 1 \<Longrightarrow> left2 t \<le> left2 s \<Longrightarrow>
    phase_of s \<in> {Negotiating V1, Authenticated V1} \<Longrightarrow> phase_of t = Ready \<Longrightarrow> spec_step s t"
| restart2: "left1 t \<le> left1 s \<Longrightarrow> left2 t \<le> left2 s - 1 \<Longrightarrow>
    phase_of s \<in> {Negotiating V2, Authenticated V2} \<Longrightarrow> phase_of t = Ready \<Longrightarrow> spec_step s t"

inductive_cases spec_stepE: "spec_step s t"

definition phase :: "mod_hdcp \<Rightarrow> phase" where
  "phase h =
     (if is_hdcp1 h then if is_in_authenticated_states h then Authenticated V1 else Negotiating V1
      else if is_hdcp2 h then if is_in_authenticated_states h then Authenticated V2 else Negotiating V2
      else if is_in_cp_not_desired_state h then Not_Desired
      else if is_in_initialized_state h then Ready else Uninitialized)"

definition spec_of :: "mod_hdcp \<Rightarrow> hdcp_spec" where
  "spec_of h = \<lparr>phase_of = phase h, left1 = attempts1 h, left2 = attempts2 h\<rparr>"

lemma phase_same_state: "state h' = state h \<Longrightarrow> phase h' = phase h"
  by (simp add: phase_def is_in_defs is_in_authenticated_states_def current_state_def)

lemma phase_cong: "current_state h' = current_state h \<Longrightarrow> phase h' = phase h"
  by (simp add: phase_def is_in_defs is_in_authenticated_states_def)

lemma phase_idle:
  "current_state h = HDCP_UNINITIALIZED \<Longrightarrow> phase h = Uninitialized"
  "current_state h = HDCP_INITIALIZED \<Longrightarrow> phase h = Ready"
  "current_state h = HDCP_CP_NOT_DESIRED \<Longrightarrow> phase h = Not_Desired"
  by (simp_all add: phase_def is_in_defs hdcp_id_iffs)

text \<open>The phase of a state of a machine.\<close>

lemma phase_hdmi1: "in_hdcp1_ids (current_state h) \<Longrightarrow> is_hdcp1 h \<and> \<not> is_hdcp2 h \<and>
    phase h = (if current_state h = H1_A45_AUTHENTICATED then Authenticated V1 else Negotiating V1)"
  by (auto simp: phase_def is_in_defs is_in_authenticated_states_def hdcp_id_iffs)

lemma phase_dp1: "in_hdcp1_dp_ids (current_state h) \<Longrightarrow> is_hdcp1 h \<and> \<not> is_hdcp2 h \<and>
    phase h = (if current_state h = D1_A4_AUTHENTICATED then Authenticated V1 else Negotiating V1)"
  by (auto simp: phase_def is_in_defs is_in_authenticated_states_def hdcp_id_iffs)

lemma phase_hdmi2: "in_hdcp2_ids (current_state h) \<Longrightarrow> is_hdcp2 h \<and> \<not> is_hdcp1 h \<and>
    phase h = (if current_state h = H2_A5_AUTHENTICATED then Authenticated V2 else Negotiating V2)"
  by (auto simp: phase_def is_in_defs is_in_authenticated_states_def hdcp_id_iffs)

lemma phase_dp2: "in_hdcp2_dp_ids (current_state h) \<Longrightarrow> is_hdcp2 h \<and> \<not> is_hdcp1 h \<and>
    phase h = (if current_state h = D2_A5_AUTHENTICATED then Authenticated V2 else Negotiating V2)"
  by (auto simp: phase_def is_in_defs is_in_authenticated_states_def hdcp_id_iffs)

definition in_phase :: "(u8 \<Rightarrow> bool) \<Rightarrow> u8 \<Rightarrow> version \<Rightarrow> bool" where
  "in_phase ids final v \<longleftrightarrow> (\<forall>h. ids (current_state h) \<longrightarrow>
     phase h = (if current_state h = final then Authenticated v else Negotiating v) \<and>
     is_hdcp1 h = (v = V1) \<and> is_hdcp2 h = (v = V2)) \<and>
     (v = V1 \<longrightarrow> final = H1_A45_AUTHENTICATED \<or> final = D1_A4_AUTHENTICATED)"

lemma in_phase_D:
  assumes "in_phase ids final v" "ids (current_state h)"
  shows "phase h = (if current_state h = final then Authenticated v else Negotiating v)"
    "is_hdcp1 h = (v = V1)" "is_hdcp2 h = (v = V2)"
    "v = V1 \<Longrightarrow> final = H1_A45_AUTHENTICATED \<or> final = D1_A4_AUTHENTICATED"
  using assms unfolding in_phase_def by blast+

lemma phase_machine:
  assumes "(ids, final, needs) \<in> machines"
  shows "\<exists>v. in_phase ids final v"
proof -
  have "in_phase in_hdcp1_ids H1_A45_AUTHENTICATED V1" "in_phase in_hdcp1_dp_ids D1_A4_AUTHENTICATED V1"
    "in_phase in_hdcp2_ids H2_A5_AUTHENTICATED V2" "in_phase in_hdcp2_dp_ids D2_A5_AUTHENTICATED V2"
    by (simp_all add: in_phase_def phase_hdmi1 phase_dp1 phase_hdmi2 phase_dp2)
  then show ?thesis
    using assms unfolding machines_def by blast
qed

text \<open>An HDCP 1.4 link stays authenticated until it fails, and never goes back to the choice of the version itself.\<close>

lemma authenticated1_stays:
  "current_state h = H1_A45_AUTHENTICATED \<Longrightarrow> current_state (fst (transition c h out)) = H1_A45_AUTHENTICATED"
  "current_state h = D1_A4_AUTHENTICATED \<Longrightarrow> current_state (fst (transition c h out)) = D1_A4_AUTHENTICATED"
  by (simp_all add: transition_def is_in_defs hdcp_id_iffs mod_hdcp_hdcp1_transition_def Let_def
      mod_hdcp_hdcp1_dp_transition_def H1_A45_AUTHENTICATED_case_def D1_A4_AUTHENTICATED_case_def current_state_def)

lemma hdcp1_never_gives_up:
  assumes "is_hdcp1 h"
  shows "current_state (fst (transition c h out)) \<noteq> HDCP_INITIALIZED"
proof -
  have "in_hdcp1_ids (current_state h) \<or> in_hdcp1_dp_ids (current_state h)"
    using assms by (simp add: is_in_defs)
  then show ?thesis
  proof
    assume i: "in_hdcp1_ids (current_state h)"
    show ?thesis
      using i [unfolded in_hdcp1_ids_iff] unfolding dispatch_transition(1) [OF i] mod_hdcp_hdcp1_transition_def
      by (elim insertE emptyE; simp add: hdcp1_cases hdcp_simps Let_def zero_state_def)
  next
    assume i: "in_hdcp1_dp_ids (current_state h)"
    show ?thesis
      using i [unfolded in_hdcp1_dp_ids_iff] unfolding dispatch_transition(2) [OF i] mod_hdcp_hdcp1_dp_transition_def
      by (elim insertE emptyE; simp add: hdcp1_dp_cases hdcp_simps Let_def zero_state_def)
  qed
qed

lemma restart_refines:
  assumes "phase h = Negotiating v \<or> phase h = Authenticated v" "phase h' = Ready"
    "attempts1 h' \<le> attempts1 h" "attempts2 h' \<le> attempts2 h"
    "v = V1 \<Longrightarrow> attempts1 h' \<le> attempts1 h - 1" "v = V2 \<Longrightarrow> attempts2 h' \<le> attempts2 h - 1"
  shows "spec_step (spec_of h) (spec_of h')"
proof (cases v)
  case V1
  then show ?thesis
    using assms by (intro spec_step.restart1) (auto simp: spec_of_def)
next
  case V2
  then show ?thesis
    using assms by (intro spec_step.restart2) (auto simp: spec_of_def)
qed

lemma stay_refines:
  "phase h' = phase h \<Longrightarrow> attempts1 h' \<le> attempts1 h \<Longrightarrow> attempts2 h' \<le> attempts2 h \<Longrightarrow>
   spec_step (spec_of h) (spec_of h')"
  by (rule spec_step.stay) (simp_all add: spec_of_def)

lemma reset_refines:
  assumes v: "in_phase ids final v" "ids (current_state h)" and s: "state h2 = state h"
    and e: "event_outcome h2 MOD_HDCP_STATUS_RESET_NEEDED out h' out'"
    and g: "attempts1 h2 \<le> attempts1 h" "attempts2 h2 \<le> attempts2 h"
  shows "spec_step (spec_of h) (spec_of h')"
proof -
  have p: "phase h = Negotiating v \<or> phase h = Authenticated v" "is_hdcp1 h2 = (v = V1)" "is_hdcp2 h2 = (v = V2)"
    using in_phase_D [OF v] s by (simp_all add: is_in_defs current_state_def)
  have a: "attempts1 h' \<le> attempts1 h2" "attempts2 h' \<le> attempts2 h2"
    "v = V1 \<longrightarrow> attempts1 h' \<le> attempts1 h2 - 1" "v = V2 \<longrightarrow> attempts2 h' \<le> attempts2 h2 - 1"
    and "current_state h' = HDCP_INITIALIZED \<or> state h' = state h"
    using e p(2,3) s unfolding event_outcome_def by argo+
  then have "phase h' = Ready \<or> phase h' = phase h"
    using phase_idle(2) phase_same_state by blast
  moreover have f: "attempts1 h' \<le> attempts1 h" "attempts2 h' \<le> attempts2 h"
    "v = V1 \<Longrightarrow> attempts1 h' \<le> attempts1 h - 1" "v = V2 \<Longrightarrow> attempts2 h' \<le> attempts2 h - 1"
    using a g by linarith+
  ultimately show ?thesis
    using restart_refines [OF p(1)] stay_refines by blast
qed

lemma move_refines:
  assumes v: "in_phase ids final v" "ids (current_state h)" "ids (current_state h')" "current_state h' \<noteq> final"
    "v = V1 \<Longrightarrow> current_state h \<noteq> final"
    and f: "attempts1 h' \<le> attempts1 h" "attempts2 h' \<le> attempts2 h"
  shows "spec_step (spec_of h) (spec_of h')"
proof (cases "current_state h = final")
  case True
  then have "v = V2"
    using v(5) by (cases v) simp_all
  then show ?thesis
    using f in_phase_D [OF v(1,2)] in_phase_D [OF v(1,3)] v(4) True
    by (intro spec_step.reverify) (simp_all add: spec_of_def)
next
  case False
  then show ?thesis
    using f in_phase_D [OF v(1,2)] in_phase_D [OF v(1,3)] v(4) by (intro stay_refines) simp_all
qed

lemma machine_refines:
  assumes i: "hdcp_inv h" and m: "is_hdcp1 h \<or> is_hdcp2 h"
    and t: "transition c h zero_output = (h2, out, ts)" and e: "event_outcome h2 ts out h' out'"
  shows "spec_step (spec_of h) (spec_of h')"
proof -
  obtain ids final needs where k: "(ids, final, needs) \<in> machines" "ids (current_state h)"
    and o: "outcome ids final needs h (h2, out, ts)"
    using machine_step [OF i m t] by blast
  obtain v where v: "in_phase ids final v"
    using phase_machine [OF k(1)] ..
  note p = in_phase_D [OF v k(2)]
  have g: "attempts1 h2 \<le> attempts1 h" "attempts2 h2 \<le> attempts2 h"
    using o attempts_tr_frame [of h h2] by (simp_all add: outcome_def)
  have f: "attempts1 h' \<le> attempts1 h" "attempts2 h' \<le> attempts2 h"
    using g e unfolding event_outcome_def by auto
  consider (resets) "resets h (h2, out, ts)" | (stays) "stays h (h2, out, ts)"
    | (moves) "moves ids final needs (h2, out, ts)"
    | (completes) "completes final needs h (h2, out, ts)" | (gives_up) "gives_up (h2, out, ts)"
    using o unfolding outcome_def by blast
  then show ?thesis
  proof cases
    case resets
    then show ?thesis
      using reset_refines [OF v k(2) _ _ g] e by simp
  next
    case stays
    then have "phase h' = phase h"
      using e by (intro phase_cong) (simp add: event_outcome_def current_state_def)
    then show ?thesis
      using f stay_refines by blast
  next
    case moves
    then show ?thesis
      using e authenticated1_stays [of h c zero_output] t p(4) f
      by (intro move_refines [OF v k(2)]) (auto simp: event_outcome_def current_state_def)
  next
    case completes
    then show ?thesis
      using f p e machines_final [OF k(1)] in_phase_D(1) [OF v, of h']
      by (intro spec_step.complete [of _ _ v]) (simp_all add: spec_of_def event_outcome_def current_state_def)
  next
    case gives_up
    then have h': "current_state h' = HDCP_INITIALIZED" "attempts2 h' = 0"
      using e by (simp_all add: event_outcome_def current_state_def attempts2_def)
    have "v = V2"
      using hdcp1_never_gives_up [of h c zero_output] t gives_up p(2) by (cases v) simp_all
    then show ?thesis
      using f h' p(1) by (intro restart_refines [of h v]) (simp_all add: phase_idle)
  qed
qed

lemma attempts_state [simp]:
  "attempts1 (h\<lparr>state := s\<rparr>) = attempts1 h" "attempts2 (h\<lparr>state := s\<rparr>) = attempts2 h"
  by (simp_all add: attempts1_def attempts2_def)

lemma attempts_desired:
  assumes "hdcp_inv h"
  shows "is_cp_desired_hdcp1 h \<Longrightarrow> 0 < attempts1 h" "is_cp_desired_hdcp2 h \<Longrightarrow> 0 < attempts2 h"
  using inv_parts(3) [OF assms]
  by (auto simp: is_cp_desired_hdcp1_def is_cp_desired_hdcp2_def retries_ok_def attempts1_def attempts2_def
      word_less_nat_alt)

lemma phase_start:
  "phase (h\<lparr>state := zero_state\<lparr>state_id := D2_A0_DETERMINE_RX_HDCP_CAPABLE\<rparr>\<rparr>) = Negotiating V2"
  "phase (h\<lparr>state := zero_state\<lparr>state_id := H2_A0_KNOWN_HDCP2_CAPABLE_RX\<rparr>\<rparr>) = Negotiating V2"
  "phase (h\<lparr>state := zero_state\<lparr>state_id := D1_A0_DETERMINE_RX_HDCP_CAPABLE\<rparr>\<rparr>) = Negotiating V1"
  "phase (h\<lparr>state := zero_state\<lparr>state_id := H1_A0_WAIT_FOR_ACTIVE_RX\<rparr>\<rparr>) = Negotiating V1"
  "phase (h\<lparr>state := zero_state\<lparr>state_id := HDCP_CP_NOT_DESIRED\<rparr>\<rparr>) = Not_Desired"
  by (simp_all add: phase_def is_in_defs is_in_authenticated_states_def hdcp_id_iffs current_state_def)

text \<open>The choice in the initialized state.\<close>

lemma start_transition_choice:
  assumes "start_transition (h, out, SUCCESS) = (h2, out2, ts)"
  shows "ts = SUCCESS \<and> attempts1 h2 = attempts1 h \<and> attempts2 h2 = attempts2 h \<and>
    (phase h2 = Negotiating V2 \<and> is_cp_desired_hdcp2 h \<or> phase h2 = Negotiating V1 \<and> is_cp_desired_hdcp1 h \<or>
     phase h2 = Not_Desired)"
  using assms by (auto simp: start_transition_def phase_start split: if_splits)

lemma idle_refines:
  assumes i: "hdcp_inv h" and n: "\<not> is_hdcp1 h" "\<not> is_hdcp2 h"
    and t: "transition c h zero_output = (h2, out, ts)" and e: "event_outcome h2 ts out h' out'"
  shows "spec_step (spec_of h) (spec_of h')"
proof -
  have ts: "ts \<noteq> MOD_HDCP_STATUS_RESET_NEEDED"
    using reset_needed [OF i] t n by (force simp: is_in_defs current_state_def)
  then have h': "phase h' = phase h2" "attempts1 h' \<le> attempts1 h2" "attempts2 h' \<le> attempts2 h2"
    using e phase_same_state [of h' h2] by (simp_all add: event_outcome_def)
  show ?thesis
  proof (cases "is_in_initialized_state h \<and> \<not> unexpected_event c")
    case True
    then have s: "start_transition (h, zero_output, SUCCESS) = (h2, out, ts)"
      using t by (simp add: transition_def)
    have r: "phase h = Ready"
      using True phase_idle(2) by (simp add: is_in_defs)
    note c = start_transition_choice [OF s]
    then consider "phase h2 = Negotiating V2" "is_cp_desired_hdcp2 h" | "phase h2 = Negotiating V1" "is_cp_desired_hdcp1 h"
      | "phase h2 = Not_Desired" by blast
    then show ?thesis
    proof cases
      case 1
      then show ?thesis
        using c h' r attempts_desired [OF i] by (intro spec_step.choose2) (simp_all add: spec_of_def)
    next
      case 2
      then show ?thesis
        using c h' r attempts_desired [OF i] by (intro spec_step.choose1) (simp_all add: spec_of_def)
    next
      case 3
      then show ?thesis
        using c h' r by (intro spec_step.decline) (simp_all add: spec_of_def)
    qed
  next
    case False
    then have "current_state h2 = current_state h \<and> attempts1 h2 = attempts1 h \<and> attempts2 h2 = attempts2 h"
      using t n by (auto simp: transition_def is_in_defs current_state_def split: if_splits)
    then show ?thesis
      using h' phase_cong stay_refines by metis
  qed
qed

lemma event_refines:
  assumes "hdcp_inv h" "mod_hdcp_process_event env ev h w = (st, h', out', w')"
  shows "spec_step (spec_of h) (spec_of h')"
proof -
  obtain h1 c1 h2 out ts where s: "hdcp_inv h1" "same_module h h1" "hdcp_inv h2"
    "transition c1 h1 zero_output = (h2, out, ts)" "event_outcome h2 ts out h' out'"
    using process_event_split [OF assms] .
  have "spec_of h1 = spec_of h"
    using s(2) attempts_same_module [OF s(2)] phase_same_state [of h1 h] by (simp add: spec_of_def same_module_def)
  then show ?thesis
    using machine_refines [OF s(1) _ s(4,5)] idle_refines [OF s(1) _ _ s(4,5)] by metis
qed

section \<open>Runs\<close>

text \<open>
  The events the display manager delivers, each with the world it finds. \<open>starts v\<close> counts how
  often the module begins to negotiate a version in a run.
\<close>

fun run_events :: "'w hdcp_env \<Rightarrow> (mod_hdcp_event \<times> 'w) list \<Rightarrow> mod_hdcp \<Rightarrow> mod_hdcp list" where
  "run_events env [] h = [h]"
| "run_events env ((ev, w) # es) h =
     h # run_events env es (fst (snd (mod_hdcp_process_event env ev h w)))"

definition starts_at :: "version \<Rightarrow> phase \<Rightarrow> phase \<Rightarrow> bool" where
  "starts_at v p q \<longleftrightarrow> p \<notin> {Negotiating v, Authenticated v} \<and> q \<in> {Negotiating v, Authenticated v}"

fun starts :: "version \<Rightarrow> phase list \<Rightarrow> nat" where
  "starts v (p # q # ps) = (if starts_at v p q then 1 else 0) + starts v (q # ps)"
| "starts v ps = 0"

definition left_of :: "version \<Rightarrow> hdcp_spec \<Rightarrow> nat" where
  "left_of v s = (if v = V1 then left1 s else left2 s)"

text \<open>A version that is under way has already used one of its attempts.\<close>

definition budget :: "version \<Rightarrow> hdcp_spec \<Rightarrow> nat" where
  "budget v s = (if phase_of s \<in> {Negotiating v, Authenticated v} then left_of v s - 1 else left_of v s)"

lemma budget_step:
  "spec_step s t \<Longrightarrow> (if starts_at v (phase_of s) (phase_of t) then 1 else 0) + budget v t \<le> budget v s"
  by (cases v; erule spec_stepE) (auto simp: budget_def left_of_def starts_at_def)

lemma starts_bound:
  "hdcp_inv h \<Longrightarrow> starts v (map phase (run_events env es h)) \<le> budget v (spec_of h)"
proof (induction es arbitrary: h)
  case (Cons e es)
  obtain ev w where e: "e = (ev, w)" by (cases e)
  obtain st h' out w' where p: "mod_hdcp_process_event env ev h w = (st, h', out, w')"
    by (metis prod.exhaust)
  have hd: "\<exists>ps. map phase (run_events env es h') = phase h' # ps"
    by (cases es) auto
  have "(if starts_at v (phase h) (phase h') then 1 else 0) + budget v (spec_of h') \<le> budget v (spec_of h)"
    using budget_step [OF event_refines [OF Cons.prems p]] by (simp add: spec_of_def)
  moreover have "starts v (map phase (run_events env es h')) \<le> budget v (spec_of h')"
    by (rule Cons.IH [OF inv_process_event [OF Cons.prems p]])
  ultimately show ?case
    using hd by (auto simp: e p)
qed simp

lemma budget_max: "budget v (spec_of h) \<le> unat MAX_NUM_OF_ATTEMPTS"
  by (auto simp: budget_def left_of_def spec_of_def attempts1_def attempts2_def)

section \<open>Completion and timers\<close>

lemma start_transition_output:
  assumes "start_transition (h, zero_output, SUCCESS) = (h2, out, ts)"
  shows "callback_needed out" "auth_complete out = is_in_cp_not_desired_state h2"
  using assms by (auto simp: start_transition_def zero_output_def is_in_defs current_state_def split: if_splits)

definition completion :: "phase \<Rightarrow> phase \<Rightarrow> bool" where
  "completion p q \<longleftrightarrow> (\<exists>v. p = Negotiating v \<and> q = Authenticated v) \<or> p = Ready \<and> q = Not_Desired"

lemma completion_machine:
  assumes "(ids, final, needs) \<in> machines" "ids (current_state h)" "handshake needs h"
    "outcome ids final needs h (h2, out, ts)"
  shows "auth_complete out \<longleftrightarrow> completion (phase h) (phase h2)"
proof -
  obtain v where v: "in_phase ids final v"
    using phase_machine [OF assms(1)] ..
  have c: "auth_complete out \<longleftrightarrow> current_state h2 = final \<and> current_state h \<noteq> final"
    by (rule machines_outcome(1) [OF assms(1,2,4,3)])
  have "current_state h2 = HDCP_INITIALIZED \<or> ids (current_state h2)"
    using machines_outcome(2) [OF assms(1,2,4,3)] by blast
  then show ?thesis
  proof
    assume i: "current_state h2 = HDCP_INITIALIZED"
    have "final \<noteq> HDCP_INITIALIZED"
      using assms(1) by (auto simp: machines_def)
    then show ?thesis
      using c i in_phase_D(1) [OF v assms(2)] phase_idle(2) [OF i] by (simp add: completion_def)
  qed (use c in_phase_D(1) [OF v] assms(2) in \<open>auto simp: completion_def\<close>)
qed

lemma completion_event:
  assumes "event_outcome h2 ts out h' out'" "auth_complete out \<longleftrightarrow> completion p (phase h2)"
    and "ts = MOD_HDCP_STATUS_RESET_NEEDED \<Longrightarrow> \<not> auth_complete out \<and> p \<noteq> Ready \<and> phase h2 = p"
  shows "auth_complete out' \<longleftrightarrow> completion p (phase h')"
  using assms phase_idle(2) [of h'] phase_same_state [of h' h2]
  by (cases "ts = MOD_HDCP_STATUS_RESET_NEEDED") (auto simp: event_outcome_def completion_def)

lemma idle_transition:
  assumes "\<not> is_hdcp1 h" "\<not> is_hdcp2 h" "transition c h zero_output = (h2, out, ts)"
  obtains "is_in_initialized_state h" "start_transition (h, zero_output, SUCCESS) = (h2, out, ts)"
    | "current_state h2 = current_state h" "out = zero_output" "ts \<noteq> MOD_HDCP_STATUS_RESET_NEEDED"
  using assms by (auto simp: transition_def is_in_defs current_state_def split: if_splits)

lemma completion_start:
  assumes "is_in_initialized_state h" "start_transition (h, zero_output, SUCCESS) = (h2, out, ts)"
  shows "auth_complete out \<longleftrightarrow> completion (phase h) (phase h2)"
proof -
  have "phase h = Ready" "phase h2 = Not_Desired \<longleftrightarrow> is_in_cp_not_desired_state h2"
    using assms(1) phase_idle [of h] start_transition_choice [OF assms(2)] phase_idle [of h2]
    by (auto simp: is_in_defs phase_def split: if_splits)
  then show ?thesis
    using start_transition_output(2) [OF assms(2)] by (simp add: completion_def)
qed

lemma completion_idle: "current_state h2 = current_state h \<Longrightarrow> \<not> completion (phase h) (phase h2)"
  using phase_cong [of h2 h] by (auto simp: completion_def)

lemma event_completion:
  assumes "hdcp_inv h" "mod_hdcp_process_event env ev h w = (st, h', out', w')"
  shows "auth_complete out' \<longleftrightarrow> completion (phase h) (phase h')"
proof -
  obtain h1 c1 h2 out ts where s: "hdcp_inv h1" "same_module h h1" "hdcp_inv h2"
    "transition c1 h1 zero_output = (h2, out, ts)" "event_outcome h2 ts out h' out'"
    using process_event_split [OF assms] .
  have p: "phase h1 = phase h"
    using s(2) by (intro phase_same_state) (simp add: same_module_def)
  have "auth_complete out \<longleftrightarrow> completion (phase h1) (phase h2)"
  proof (cases "is_hdcp1 h1 \<or> is_hdcp2 h1")
    case True
    show ?thesis
      by (rule machine_step [OF s(1) True s(4)]) (rule completion_machine)
  next
    case False
    then have n: "\<not> is_hdcp1 h1" "\<not> is_hdcp2 h1" by simp_all
    show ?thesis
      by (rule idle_transition [OF n s(4)])
        (simp_all add: completion_idle completion_start zero_output_def)
  qed
  moreover have "\<not> auth_complete out \<and> phase h1 \<noteq> Ready \<and> phase h2 = phase h1"
    if "ts = MOD_HDCP_STATUS_RESET_NEEDED"
    using reset_needed [OF s(1) s(4) [unfolded that]] phase_same_state [of h2 h1]
    by (auto simp: phase_def split: if_splits)
  ultimately show ?thesis
    using completion_event [OF s(5)] p by metis
qed

lemma event_timer:
  assumes "hdcp_inv h" "mod_hdcp_process_event env ev h w = (st, h', out', w')"
    "current_state h' \<noteq> current_state h"
  shows "callback_needed out' \<or> watchdog_timer_needed out' \<or> auth_complete out'"
proof -
  obtain h1 c1 h2 out ts where s: "hdcp_inv h1" "same_module h h1" "hdcp_inv h2"
    "transition c1 h1 zero_output = (h2, out, ts)" "event_outcome h2 ts out h' out'"
    using process_event_split [OF assms(1,2)] .
  have cs: "current_state h1 = current_state h"
    using s(2) by (simp add: same_module_def current_state_def)
  show ?thesis
  proof (cases "ts = MOD_HDCP_STATUS_RESET_NEEDED")
    case True
    then show ?thesis
      using reset_needed(2,3) [OF s(1) s(4) [unfolded True]] s(5) assms(3) cs
      by (auto simp: event_outcome_def current_state_def)
  next
    case False
    then have n: "current_state h2 \<noteq> current_state h1" "out' = out"
      using s(5) assms(3) cs by (auto simp: event_outcome_def current_state_def)
    show ?thesis
    proof (cases "is_hdcp1 h1 \<or> is_hdcp2 h1")
      case True
      have "callback_needed out \<or> watchdog_timer_needed out \<or> auth_complete out"
        by (rule machine_step [OF s(1) True s(4)]) (rule machines_outcome(3) [OF _ _ _ _ n(1)])
      then show ?thesis
        using n(2) by simp
    next
      case False
      then have i: "\<not> is_hdcp1 h1" "\<not> is_hdcp2 h1" by simp_all
      have "callback_needed out"
        by (rule idle_transition [OF i s(4)]) (use n(1) start_transition_output(1) in blast)+
      then show ?thesis
        using n(2) by simp
    qed
  qed
qed

end
