(* ===== verification/Hdcp_Sample.thy ===== *)
theory Hdcp_Sample
  imports Hdcp_Run
begin

text \<open>
  A concrete run of the HDCP module, where its properties are applied: an HDMI sink with a valid key
  selection vector and trusted applications that accept, which four callbacks take from a freshly added
  display to authenticated HDCP 1.4; and a state of an authenticated HDCP 2.2 link.
\<close>

definition ta_answer :: ta_hdcp_cmd_output where
  "ta_answer = zero_ta_hdcp_output
     \<lparr>out_authentication_status := TA_HDCP_AUTHENTICATION_STATUS__HDCP1_AUTHENTICATED\<rparr>"

definition sample_env :: "unit hdcp_env" where
  "sample_env = \<lparr>
     read_dpcd = (\<lambda>addr n w. (True, replicate n 0, w)),
     write_dpcd = (\<lambda>addr bs w. (True, w)),
     read_i2c = (\<lambda>addr off n w. (True, if off = 0 then [0xFF, 0xFF, 0x0F, 0, 0] else replicate n 0, w)),
     write_i2c = (\<lambda>addr bs w. (True, w)),
     atomic_i2c = (\<lambda>wr p r w. (True, [], w)),
     atomic_aux = (\<lambda>wr r w. (True, [], w)),
     ta_hdcp_invoke = (\<lambda>cmd w. (Some ta_answer, w)),
     ta_dtm_invoke = (\<lambda>cmd w. (Some 0, w)),
     amdgpu_sriov_vf = False, hdcp_context_initialized = (\<lambda>w. True), dtm_context_initialized = (\<lambda>w. True),
     DP_BSTATUS_READY = 1, DP_BSTATUS_R0_PRIME_READY = 2, DP_BSTATUS_LINK_FAILURE = 4,
     DP_BSTATUS_REAUTH_REQ = 8, DP_BCAPS_HDCP_CAPABLE = 1, DRM_HDCP_DDC_BCAPS_KSV_FIFO_READY = 0x20,
     DRM_HDCP_MAX_CASCADE_EXCEEDED = (\<lambda>x. False), DRM_HDCP_MAX_DEVICE_EXCEEDED = (\<lambda>x. False),
     DP_DEVICE_SERVICE_IRQ_VECTOR = 0x201, DP_DEVICE_SERVICE_IRQ_VECTOR_ESI0 = 0x2003\<rparr>"

definition sample_link :: mod_hdcp_link where
  "sample_link = zero_link\<lparr>link_mode := MOD_HDCP_MODE_DEFAULT,
     link_adjust := zero_link_adjust\<lparr>adj_hdcp2 := (adj_hdcp2 zero_link_adjust)\<lparr>disable2 := True\<rparr>\<rparr>\<rparr>"

definition sample_display :: mod_hdcp_display where
  "sample_display = zero_display\<lparr>disp_state := MOD_HDCP_DISPLAY_ACTIVE, disp_index := 1\<rparr>"

definition sample_added :: mod_hdcp where
  "sample_added = fst (snd (mod_hdcp_add_display sample_env sample_link sample_display zero_hdcp ()))"

definition deliver :: "unit hdcp_env \<Rightarrow> mod_hdcp_event \<Rightarrow> mod_hdcp \<Rightarrow> mod_hdcp" where
  "deliver env ev h = fst (snd (mod_hdcp_process_event env ev h ()))"

definition sample_validated :: mod_hdcp where
  "sample_validated = fold (deliver sample_env) (replicate 3 MOD_HDCP_EVENT_CALLBACK) sample_added"

definition sample_authenticated :: mod_hdcp where
  "sample_authenticated = deliver sample_env MOD_HDCP_EVENT_CALLBACK sample_validated"

definition dp_authenticated :: mod_hdcp where
  "dp_authenticated = zero_hdcp\<lparr>
     connection := zero_connection\<lparr>link := zero_link\<lparr>link_mode := MOD_HDCP_MODE_DP\<rparr>, is_repeater := True\<rparr>,
     displays := (displays zero_hdcp)[0 := sample_display],
     auth := zero_auth\<lparr>trans_input := (\<lambda>_. PASS)\<rparr>,
     state := zero_state\<lparr>state_id := D2_A5_AUTHENTICATED\<rparr>\<rparr>"

lemma reach_add:
  assumes "hdcp_reach env h"
  shows "hdcp_reach env (fst (snd (mod_hdcp_add_display env lnk d h w)))"
proof -
  obtain st h' out w' where e: "mod_hdcp_add_display env lnk d h w = (st, h', out, w')"
    by (metis prod.exhaust)
  show ?thesis
    using hdcp_reach.add_display [OF assms e] by (simp add: e)
qed

lemma reach_deliver:
  assumes "hdcp_reach env h"
  shows "hdcp_reach env (deliver env ev h)"
proof -
  obtain st h' out w where e: "mod_hdcp_process_event env ev h () = (st, h', out, w)"
    by (metis prod.exhaust)
  show ?thesis
    using hdcp_reach.event [OF assms e] by (simp add: deliver_def e)
qed

lemma reach_fold: "hdcp_reach env h \<Longrightarrow> hdcp_reach env (fold (deliver env) evs h)"
  by (induction evs arbitrary: h) (simp_all add: reach_deliver)

lemma sample_reach [simp]:
  "hdcp_reach sample_env sample_added" "hdcp_reach sample_env sample_validated"
  "hdcp_reach sample_env sample_authenticated"
  unfolding sample_added_def sample_validated_def sample_authenticated_def
  by (intro reach_deliver reach_fold reach_add hdcp_reach.init)+

lemma sample_validated_state [simp]:
  "current_state sample_validated = H1_A2_COMPUTATIONS_A3_VALIDATE_RX_A6_TEST_FOR_REPEATER"
  by code_simp

lemma sample_authenticated_state [simp]:
  "current_state sample_authenticated = H1_A45_AUTHENTICATED" "\<not> fault sample_authenticated"
  by code_simp+

lemma dp_authenticated_state [simp]:
  "current_state dp_authenticated = D2_A5_AUTHENTICATED" "\<not> fault dp_authenticated"
  "is_repeater (connection dp_authenticated)"
  by (simp_all add: dp_authenticated_def zero_hdcp_def current_state_def)

lemma dp_authenticated_inv [simp]: "hdcp_inv dp_authenticated"
proof -
  have "displays_ok (displays dp_authenticated)"
    using displays_ok_add [OF inv_parts(1) [OF inv_zero [of False]], of sample_display 0]
    by (simp add: dp_authenticated_def zero_hdcp_def zero_display_def active_iff)
  moreover have "list_ex is_display_active (displays dp_authenticated)" "trace_ok (conn_trace (connection dp_authenticated))"
    "retries_ok dp_authenticated" "mode_ok dp_authenticated" "current_state dp_authenticated \<le> HDCP2_DP_STATE_END"
    "handshake hdcp1_needs dp_authenticated"
    by code_simp+
  moreover have "handshake hdcp2_needs dp_authenticated"
    by (simp add: dp_authenticated_def handshake_def passed_def list_all_iff)
  ultimately show ?thesis
    by (simp add: hdcp_inv_def shape_inv_def)
qed

end
