(* ===== verification/Hdcp_Msg.thy ===== *)
theory Hdcp_Msg
  imports Hdcp_Inv
begin

text \<open>
  Properties of single messages and commands: the check of the key selection vector counts its bits,
  splitting a transfer into AUX transactions is transparent, which reads stay inside their buffers, and
  what a command to the security processor that was not answered does.
\<close>

section \<open>The key selection vector\<close>

text \<open>The number of bits set, as a reference for the loop of \<^verbatim>\<open>validate_bksv\<close>.\<close>

fun pop_count :: "nat \<Rightarrow> nat" where
  "pop_count n = (if n = 0 then 0 else n mod 2 + pop_count (n div 2))"

declare pop_count.simps [simp del]

lemma pop_count_0 [simp]: "pop_count 0 = 0"
  by (simp add: pop_count.simps)

lemma pop_count_rec: "pop_count n = n mod 2 + pop_count (n div 2)"
  by (cases "n = 0") (simp_all add: pop_count.simps [of n])

lemma pop_count_double: "pop_count (2 * n) = pop_count n" "pop_count (Suc (2 * n)) = Suc (pop_count n)"
  by (simp_all add: pop_count_rec [of "2 * n"] pop_count_rec [of "Suc (2 * n)"])

lemma pop_count_clear_lowest: "0 < n \<Longrightarrow> pop_count n = Suc (pop_count (n AND (n - 1)))" for n :: nat
proof (induction n rule: less_induct)
  case (less n)
  have a: "m AND k = of_bool (odd m \<and> odd k) + 2 * ((m div 2) AND (k div 2))" for m k :: nat
    by (rule and_rec)
  show ?case
  proof (cases "even n")
    case True
    then obtain q where q: "n = 2 * q" by (elim evenE)
    have "odd (n - 1)" "(n - 1) div 2 = q - 1"
      using less.prems q by auto
    then have "n AND (n - 1) = 2 * (q AND (q - 1))"
      using a [of n "n - 1"] q by simp
    then show ?thesis
      using less q by (simp add: pop_count_double)
  next
    case False
    then obtain q where q: "n = 2 * q + 1" by (elim oddE)
    then have "n AND (n - 1) = 2 * q"
      using a [of n "n - 1"] by simp
    then show ?thesis
      using q by (simp add: pop_count_double)
  qed
qed

lemma pop_count_bound: "n < 2 ^ k \<Longrightarrow> pop_count n \<le> k"
proof (induction k arbitrary: n)
  case (Suc k)
  then have "pop_count (n div 2) \<le> k"
    by (simp add: less_mult_imp_div_less)
  then show ?case
    using pop_count_rec [of n] by simp
qed simp

lemma pop_count_add: "a < 2 ^ k \<Longrightarrow> pop_count (a + 2 ^ k * m) = pop_count a + pop_count m"
proof (induction k arbitrary: a)
  case (Suc k)
  have "(a + 2 ^ Suc k * m) mod 2 = a mod 2" "(a + 2 ^ Suc k * m) div 2 = a div 2 + 2 ^ k * m"
    by (simp_all add: mod_mult_self2 [of a 2] mult.assoc)
  moreover have "pop_count (a div 2 + 2 ^ k * m) = pop_count (a div 2) + pop_count m"
    by (rule Suc.IH) (use Suc.prems in \<open>simp add: less_mult_imp_div_less\<close>)
  ultimately show ?case
    using pop_count_rec [of a] pop_count_rec [of "a + 2 ^ Suc k * m"] by simp
qed simp

lemma bksv_count_pop: "bksv_count n count = count + of_nat (pop_count (unat n))"
proof (induction n count rule: bksv_count.induct)
  case (1 n count)
  show ?case
  proof (cases "n = 0")
    case False
    then have "0 < unat n" by (simp add: unat_gt_0)
    moreover have "unat (n AND (n - 1)) = unat n AND (unat n - 1)"
      using False by (simp add: unsigned_and_eq unat_minus_one)
    ultimately show ?thesis
      using 1 False pop_count_clear_lowest [of "unat n"] by (simp add: bksv_count.simps [of n])
  qed (simp add: bksv_count.simps)
qed

lemma unat_less_size: "unat w < 2 ^ LENGTH('a)" for w :: "'a :: len word"
  by (rule unsigned_less)

lemma unat_byte_or:
  fixes b :: u8 and n :: u64
  assumes "unat n < 2 ^ 56"
  shows "unat (ucast b OR push_bit 8 n) = unat b + 2 ^ 8 * unat n"
proof -
  have "\<not> bit (ucast b :: u64) i \<or> \<not> bit (push_bit 8 n) i" for i
    by (auto simp: bit_push_bit_iff bit_ucast_iff dest: bit_imp_le_length)
  then have "(ucast b :: u64) OR push_bit 8 n = ucast b + push_bit 8 n"
    by (simp add: disjunctive_add)
  moreover have "unat (push_bit 8 n) = 2 ^ 8 * unat n"
    using assms by (simp add: push_bit_eq_mult unat_word_ariths)
  moreover have "unat (ucast b :: u64) = unat b" "unat b < 2 ^ 8"
    using unat_less_size [of b] by (simp_all add: unsigned_ucast_eq take_bit_eq_mod)
  ultimately show ?thesis
    using assms by (simp add: unat_word_ariths)
qed

lemma bytes_u64_bound: "length bs \<le> 8 \<Longrightarrow> unat (bytes_u64 bs) < 2 ^ (8 * length bs)"
proof (induction bs)
  case (Cons b bs)
  then have i: "unat (bytes_u64 bs) < 2 ^ (8 * length bs)" "length bs \<le> 7" by simp_all
  then have "unat (bytes_u64 bs) < 2 ^ 56"
    using power_increasing [of "8 * length bs" 56 "2 :: nat"] by simp
  then have "unat (bytes_u64 (b # bs)) = unat b + 2 ^ 8 * unat (bytes_u64 bs)"
    using unat_byte_or [of "bytes_u64 bs" b] by (simp add: bytes_u64_def)
  moreover have "unat b < 2 ^ 8"
    using unat_less_size [of b] by simp
  ultimately show ?case
    using i(1) by (simp add: power_add)
qed (simp add: bytes_u64_def)

lemma pop_count_bytes:
  "length bs \<le> 8 \<Longrightarrow> pop_count (unat (bytes_u64 bs)) = (\<Sum>b\<leftarrow>bs. pop_count (unat b))"
proof (induction bs)
  case (Cons b bs)
  then have l: "length bs \<le> 7" by simp
  then have "unat (bytes_u64 bs) < 2 ^ (8 * length bs)"
    by (intro bytes_u64_bound) simp
  then have "unat (bytes_u64 bs) < 2 ^ 56"
    using power_increasing [of "8 * length bs" 56 "2 :: nat"] l by simp
  then have "unat (bytes_u64 (b # bs)) = unat b + 2 ^ 8 * unat (bytes_u64 bs)"
    using unat_byte_or [of "bytes_u64 bs" b] by (simp add: bytes_u64_def)
  moreover have "unat b < 2 ^ 8"
    using unat_less_size [of b] by simp
  ultimately show ?case
    using Cons l pop_count_add [of "unat b" 8 "unat (bytes_u64 bs)"] by simp
qed (simp add: bytes_u64_def)

text \<open>
  C30: the receiver's key selection vector is accepted exactly when twenty of its forty bits are set;
  the loop of the check, which clears the lowest bit until none is left, ends and counts the bits.
\<close>

theorem validate_bksv_counts_bits:
  assumes "length (m1_bksv (msg1 h)) = 5"
  shows "validate_bksv h = SUCCESS \<longleftrightarrow> (\<Sum>b\<leftarrow>m1_bksv (msg1 h). pop_count (unat b)) = 20"
proof -
  let ?bs = "m1_bksv (msg1 h) @ replicate 3 0"
  have p: "put_bytes 0 (take 5 (m1_bksv (msg1 h))) (replicate 8 0) = ?bs"
    using assms by (simp add: put_bytes_def)
  have c: "pop_count (unat (bytes_u64 ?bs)) = (\<Sum>b\<leftarrow>m1_bksv (msg1 h). pop_count (unat b))"
    using pop_count_bytes [of ?bs] assms by (simp add: eval_nat_numeral)
  have "pop_count (unat (bytes_u64 ?bs)) \<le> 64"
    by (rule pop_count_bound) (use unat_less_size [of "bytes_u64 ?bs"] in simp)
  then have "of_nat (pop_count (unat (bytes_u64 ?bs))) = (20 :: u8) \<longleftrightarrow> pop_count (unat (bytes_u64 ?bs)) = 20"
    by (simp add: word_unat_eq_iff unat_of_nat)
  then show ?thesis
    by (simp add: validate_bksv_def p bksv_count_pop c)
qed

theorem validate_bksv_counts_bits_witness:
  "validate_bksv (set_msg1 (\<lambda>m. m\<lparr>m1_bksv := [0xFF, 0xFF, 0x0F, 0, 0]\<rparr>) zero_hdcp) = SUCCESS"
proof -
  have "pop_count 255 = 8" "pop_count 15 = 4"
    by (simp_all add: pop_count.simps)
  then show ?thesis
    using validate_bksv_counts_bits [of "set_msg1 (\<lambda>m. m\<lparr>m1_bksv := [0xFF, 0xFF, 0x0F, 0, 0]\<rparr>) zero_hdcp"]
    by (simp add: set_msg1_def)
qed

section \<open>Splitting transfers into AUX transactions\<close>

lemma put_bytes_put_bytes:
  "put_bytes (p + length xs) ys (put_bytes p xs buf) = put_bytes p (xs @ ys) buf"
proof (rule nth_equalityI)
  fix i assume "i < length (put_bytes (p + length xs) ys (put_bytes p xs buf))"
  then show "put_bytes (p + length xs) ys (put_bytes p xs buf) ! i = put_bytes p (xs @ ys) buf ! i"
    by (auto simp: nth_put_bytes nth_append)
qed simp

text \<open>A sink whose DPCD registers are a memory.\<close>

definition store :: "u32 \<Rightarrow> u8 list \<Rightarrow> (u32 \<Rightarrow> u8) \<Rightarrow> u32 \<Rightarrow> u8" where
  "store a bs m x = (if unat (x - a) < length bs then bs ! unat (x - a) else m x)"

definition load :: "(u32 \<Rightarrow> u8) \<Rightarrow> u32 \<Rightarrow> nat \<Rightarrow> u8 list" where
  "load m a n = map (\<lambda>i. m (a + of_nat i)) [0..<n]"

definition dpcd_memory :: "(u32 \<Rightarrow> u8) hdcp_env \<Rightarrow> bool" where
  "dpcd_memory env \<longleftrightarrow> (\<forall>a n m. read_dpcd env a n m = (True, load m a n, m)) \<and>
     (\<forall>a bs m. write_dpcd env a bs m = (True, store a bs m))"

lemma length_load [simp]: "length (load m a n) = n"
  by (simp add: load_def)

lemma load_add: "load m a (n + k) = load m a n @ load m (a + of_nat n) k"
  by (rule nth_equalityI) (auto simp: load_def nth_append algebra_simps)

lemma store_store:
  assumes "length xs + length ys \<le> 2 ^ 32"
  shows "store (a + of_nat (length xs)) ys (store a xs m) = store a (xs @ ys) m"
proof
  fix x
  define d where "d = unat (x - a)"
  have d: "d < 2 ^ 32" "x - a = of_nat d"
    using unat_less_size [of "x - a"] by (simp_all add: d_def)
  have s: "x - (a + of_nat (length xs)) = of_nat d - of_nat (length xs)"
    using d(2) by (simp add: algebra_simps)
  have "unat (x - (a + of_nat (length xs))) = (if length xs \<le> d then d - length xs else 2 ^ 32 + d - length xs)"
  proof (cases "length xs \<le> d")
    case True
    then have "(of_nat d - of_nat (length xs) :: u32) = of_nat (d - length xs)"
      by (simp add: of_nat_diff)
    then show ?thesis
      using True d(1) unat_of_nat_small [of "d - length xs", where 'a = 32] by (simp add: s)
  next
    case False
    then have e: "(of_nat d - of_nat (length xs) :: u32) = of_nat (2 ^ 32 + d - length xs)"
      using assms by (simp add: of_nat_diff)
    have "2 ^ 32 + d - length xs < 2 ^ LENGTH(32)"
      using False by simp
    from unat_of_nat_small [OF this] show ?thesis
      using False unfolding s e by (simp only: if_False)
  qed
  then show "store (a + of_nat (length xs)) ys (store a xs m) x = store a (xs @ ys) m x"
    using assms by (auto simp: store_def nth_append simp flip: d_def)
qed

lemma load_store: "length bs \<le> 2 ^ 32 \<Longrightarrow> load (store a bs m) a (length bs) = bs"
  by (rule nth_equalityI) (auto simp: load_def store_def unat_of_nat_small)

lemma read_dpcd_loop_memory:
  assumes "dpcd_memory env"
  shows "read_dpcd_loop env addr base off len buf m =
    (True, put_bytes (base + off) (load m (addr + of_nat off) len) buf, m)"
proof (induction len arbitrary: off buf rule: less_induct)
  case (less len)
  let ?c = "min len HDCP_MAX_AUX_TRANSACTION_SIZE"
  have r: "read_dpcd env a n m = (True, load m a n, m)" for a n
    using assms by (simp add: dpcd_memory_def)
  show ?case
  proof (cases "len = 0")
    case True
    then show ?thesis
      by (simp add: read_dpcd_loop.simps load_def put_bytes_def)
  next
    case False
    have "load m (addr + of_nat off) len =
        load m (addr + of_nat off) ?c @ load m (addr + of_nat (off + ?c)) (len - ?c)"
      using load_add [of m "addr + of_nat off" ?c "len - ?c"] by (simp add: algebra_simps)
    then show ?thesis
      using False less [of "len - ?c" "off + ?c" "put_bytes (base + off) (load m (addr + of_nat off) ?c) buf"]
        put_bytes_put_bytes [of "base + off" "load m (addr + of_nat off) ?c"]
      by (simp add: read_dpcd_loop.simps [of env addr base off len] r Let_def add.assoc)
  qed
qed

lemma write_dpcd_loop_memory:
  assumes "dpcd_memory env" "length dat \<le> 2 ^ 32"
  shows "write_dpcd_loop env addr off dat m = (True, store (addr + of_nat off) dat m)"
  using assms(2)
proof (induction "length dat" arbitrary: off dat m rule: less_induct)
  case less
  let ?c = "min (length dat) HDCP_MAX_AUX_TRANSACTION_SIZE"
  have w: "write_dpcd env a bs m = (True, store a bs m)" for a bs m
    using assms by (simp add: dpcd_memory_def)
  show ?case
  proof (cases "dat = []")
    case True
    then show ?thesis
      by (simp add: write_dpcd_loop.simps store_def [abs_def])
  next
    case False
    then have "write_dpcd_loop env addr (off + ?c) (drop ?c dat) (store (addr + of_nat off) (take ?c dat) m) =
        (True, store (addr + of_nat (off + ?c)) (drop ?c dat) (store (addr + of_nat off) (take ?c dat) m))"
      using less.prems by (intro less.hyps) auto
    then show ?thesis
      using False less.prems store_store [of "take ?c dat" "drop ?c dat" "addr + of_nat off" m]
      by (simp add: write_dpcd_loop.simps [of env addr off dat] w Let_def add.assoc)
  qed
qed

text \<open>
  C29: on DisplayPort a message written in transactions of at most sixteen bytes to a sink whose
  registers are a memory is read back unchanged: splitting transfers is transparent.
\<close>

theorem dpcd_write_read:
  assumes "dpcd_memory env" "is_dp_hdcp h" "0 \<le> msg_id" "msg_id < MOD_HDCP_MESSAGE_ID_MAX"
    and "length dat \<le> 2 ^ 32"
  shows "\<exists>m'. ddc_write env h msg_id dat m = (SUCCESS, m') \<and>
    ddc_read env h msg_id buf base (length dat) m' = (SUCCESS, put_bytes base dat buf, m')"
proof -
  have "length hdcp_dpcd_addrs = 33"
    by (simp add: hdcp_dpcd_addrs_def)
  then show ?thesis
    using assms read_dpcd_loop_memory [OF assms(1)] write_dpcd_loop_memory [OF assms(1,5)] load_store [OF assms(5)]
    by (simp add: ddc_write_def ddc_read_def)
qed

definition memory_env :: "(u32 \<Rightarrow> u8) hdcp_env" where
  "memory_env = \<lparr>
     read_dpcd = (\<lambda>a n m. (True, load m a n, m)), write_dpcd = (\<lambda>a bs m. (True, store a bs m)),
     read_i2c = (\<lambda>addr off n m. (False, [], m)), write_i2c = (\<lambda>addr bs m. (False, m)),
     atomic_i2c = (\<lambda>wr p r m. (False, [], m)), atomic_aux = (\<lambda>wr r m. (False, [], m)),
     ta_hdcp_invoke = (\<lambda>cmd m. (None, m)), ta_dtm_invoke = (\<lambda>cmd m. (None, m)),
     amdgpu_sriov_vf = False, hdcp_context_initialized = (\<lambda>m. True), dtm_context_initialized = (\<lambda>m. True),
     DP_BSTATUS_READY = 1, DP_BSTATUS_R0_PRIME_READY = 2, DP_BSTATUS_LINK_FAILURE = 4,
     DP_BSTATUS_REAUTH_REQ = 8, DP_BCAPS_HDCP_CAPABLE = 1, DRM_HDCP_DDC_BCAPS_KSV_FIFO_READY = 0x20,
     DRM_HDCP_MAX_CASCADE_EXCEEDED = (\<lambda>x. False), DRM_HDCP_MAX_DEVICE_EXCEEDED = (\<lambda>x. False),
     DP_DEVICE_SERVICE_IRQ_VECTOR = 0x201, DP_DEVICE_SERVICE_IRQ_VECTOR_ESI0 = 0x2003\<rparr>"

definition dp_hdcp :: mod_hdcp where
  "dp_hdcp = zero_hdcp\<lparr>connection := zero_connection\<lparr>link := zero_link\<lparr>link_mode := MOD_HDCP_MODE_DP\<rparr>\<rparr>\<rparr>"

lemma dp_hdcp_is_dp [simp]: "is_dp_hdcp dp_hdcp"
  by (simp add: dp_hdcp_def is_dp_hdcp_def)

theorem dpcd_write_read_witness:
  "\<exists>m'. ddc_write memory_env dp_hdcp MOD_HDCP_MESSAGE_ID_WRITE_AKE_INIT (replicate 20 7) (\<lambda>_. 0) = (SUCCESS, m') \<and>
    ddc_read memory_env dp_hdcp MOD_HDCP_MESSAGE_ID_WRITE_AKE_INIT (replicate 20 0) 0 20 m' =
      (SUCCESS, put_bytes 0 (replicate 20 7) (replicate 20 0), m')"
  using dpcd_write_read [of memory_env dp_hdcp MOD_HDCP_MESSAGE_ID_WRITE_AKE_INIT "replicate 20 7" "\<lambda>_. 0"
      "replicate 20 0" 0]
  by (simp add: dpcd_memory_def memory_env_def)

section \<open>The receiver id list\<close>

lemma part2_bound: "rx_id_list_part2_size l \<le> 160"
proof -
  have "(min a 176 - 1) div 16 * 16 \<le> (160 :: nat)" for a
    using div_le_mono [of "min a 176 - 1" 175 16] by simp
  then show ?thesis
    by (simp add: rx_id_list_part2_size_def Let_def)
qed

lemma read_dpcd_loop_length: "length (fst (snd (read_dpcd_loop env addr base off len buf w))) = length buf"
proof (induction len arbitrary: off buf w rule: less_induct)
  case (less len)
  let ?c = "min len HDCP_MAX_AUX_TRANSACTION_SIZE"
  obtain ok dat w' where r: "read_dpcd env (addr + of_nat off) ?c w = (ok, dat, w')"
    by (metis prod.exhaust)
  show ?case
    using less [of "len - ?c" "off + ?c" "put_bytes (base + off) (take ?c dat) buf" w']
    by (simp add: read_dpcd_loop.simps [of env addr base off len] r Let_def)
qed

lemma ddc_read_length: "length (fst (snd (ddc_read env h i buf base len w))) = length buf"
  using read_dpcd_loop_length [of env "hdcp_dpcd_addrs ! nat i" base 0 len buf w]
  by (auto simp: ddc_read_def split: prod.split)

lemma fault_sets [simp]:
  "fault (set_msg2 f h) = fault h" "fault (set_msg1 g h) = fault h" "fault (note_fault b h) = (fault h \<or> b)"
  "msg2 (set_msg2 f h) = f (msg2 h)" "msg2 (note_fault b h) = msg2 h"
  by (simp_all add: set_defs)

lemma read2_fault:
  "fault (fst (snd (read2 env i sel upd base len h w))) \<longleftrightarrow> fault h \<or> length (sel (msg2 h)) < base + len"
  by (simp add: read2_def Let_def split: prod.split)

lemma read2_rx_id_list_length:
  "length (m2_rx_id_list (msg2 (fst (snd
     (read2 env i m2_rx_id_list (\<lambda>b. m2_rx_id_list_update (\<lambda>_. b)) base len h w))))) =
   length (m2_rx_id_list (msg2 h))"
  using ddc_read_length [of env h i "m2_rx_id_list (msg2 h)" base len w]
  by (auto simp: read2_def Let_def split: prod.split)

text \<open>
  C31: on DisplayPort the receiver id list is read within its buffer of 177 bytes, whatever device
  count the sink reports.
\<close>

theorem dp_rx_id_list_in_bounds:
  assumes "is_dp_hdcp h" "length (m2_rx_id_list (msg2 h)) = 177"
  shows "fault (fst (snd (mod_hdcp_read_rx_id_list env h w))) = fault h"
proof -
  let ?h1 = "set_msg2 (\<lambda>m. m\<lparr>m2_rx_id_list := (m2_rx_id_list m)[0 := HDCP_2_2_REP_SEND_RECVID_LIST]\<rparr>) h"
  let ?id = MOD_HDCP_MESSAGE_ID_READ_REPEATER_AUTH_SEND_RECEIVERID_LIST
  obtain st h2 w2 where r: "read2 env ?id m2_rx_id_list (\<lambda>b. m2_rx_id_list_update (\<lambda>_. b)) 1 16 ?h1 w = (st, h2, w2)"
    by (rule prod_cases3)
  have "length (m2_rx_id_list (msg2 h2)) = 177" "fault h2 = fault h"
    using read2_rx_id_list_length [of env ?id 1 16 ?h1 w, unfolded r] assms(2)
      read2_fault [of env ?id m2_rx_id_list "\<lambda>b. m2_rx_id_list_update (\<lambda>_. b)" 1 16 ?h1 w, unfolded r]
    by simp_all
  then have "fault (fst (snd (read2 env i m2_rx_id_list upd (1 + HDCP_MAX_AUX_TRANSACTION_SIZE)
      (rx_id_list_part2_size (m2_rx_id_list (msg2 h2))) h2 w2))) = fault h" for i upd
    using part2_bound [of "m2_rx_id_list (msg2 h2)"] by (simp add: read2_fault)
  then show ?thesis
    using assms(1) \<open>fault h2 = fault h\<close>
    unfolding mod_hdcp_read_rx_id_list_def r Let_def by simp
qed

theorem dp_rx_id_list_in_bounds_witness:
  "\<not> fault (fst (snd (mod_hdcp_read_rx_id_list memory_env dp_hdcp (\<lambda>_. 0xFF))))"
  using dp_rx_id_list_in_bounds [of dp_hdcp memory_env "\<lambda>_. 0xFF"]
  by (simp add: dp_hdcp_def zero_hdcp_def zero_auth_def zero_msg_hdcp2_def is_dp_hdcp_def)

text \<open>
  C32: on HDMI the length of the read is the message size of the receiver status, which the sink sets to
  anything up to 1023; the access leaves the buffer of 177 bytes exactly when the size exceeds 177.
\<close>

theorem hdmi_rx_id_list_overruns:
  assumes "\<not> is_dp_hdcp h" "length (m2_rx_id_list (msg2 h)) = 177"
    and "is_repeater (connection h)" "check_receiver_id_list_ready h = SUCCESS" "\<not> fault h"
  shows "fault (fst (snd (mod_hdcp_read_rx_id_list env (fst (snd (note_rx_id_list_ready (h, c, w)))) w))) \<longleftrightarrow>
    177 < unat (get_hdmi_rxstatus_msg_size (m2_rxstatus (msg2 h)))"
  using assms by (simp add: mod_hdcp_read_rx_id_list_def read2_fault is_dp_hdcp_def)

definition hdmi_repeater :: mod_hdcp where
  "hdmi_repeater = set_msg2 (\<lambda>m. m\<lparr>m2_rxstatus := [0xFF, 0x07]\<rparr>)
     (zero_hdcp\<lparr>connection := zero_connection\<lparr>is_repeater := True\<rparr>\<rparr>)"

theorem hdmi_rx_id_list_overruns_witness:
  "fault (fst (snd (mod_hdcp_read_rx_id_list memory_env
     (fst (snd (note_rx_id_list_ready (hdmi_repeater, event_context MOD_HDCP_EVENT_CALLBACK,
       (\<lambda>_. 0) :: u32 \<Rightarrow> u8)))) (\<lambda>_. 0))))"
proof -
  have "length (m2_rx_id_list (msg2 hdmi_repeater)) = 177" "\<not> is_dp_hdcp hdmi_repeater" "\<not> fault hdmi_repeater"
    "is_repeater (connection hdmi_repeater)"
    by (simp_all add: hdmi_repeater_def zero_hdcp_def zero_auth_def zero_msg_hdcp2_def is_dp_hdcp_def
        zero_connection_def zero_link_def set_msg2_def)
  moreover have "check_receiver_id_list_ready hdmi_repeater = SUCCESS"
    "177 < unat (get_hdmi_rxstatus_msg_size (m2_rxstatus (msg2 hdmi_repeater)))"
    by code_simp+
  ultimately show ?thesis
    using hdmi_rx_id_list_overruns [of hdmi_repeater memory_env] by blast
qed

section \<open>Commands to the security processor\<close>

text \<open>
  C36: a command to the HDCP application that is not answered counts as a success, because the status is
  read from memory that was cleared before: enabling encryption then marks the display as encrypted.
\<close>

theorem enable_encryption_unanswered:
  assumes "ta_hdcp_invoke env (TA_HDCP_COMMAND__HDCP1_ENABLE_ENCRYPTION (auth_id (auth h))) w = (None, w')"
    and "\<not> amdgpu_sriov_vf env" "hdcp_context_initialized env w"
    and "get_first_active_display h = Some i" "\<not> is_dp_mst_hdcp h"
  shows "mod_hdcp_hdcp1_enable_encryption env h w =
    (SUCCESS, set_display_state i MOD_HDCP_DISPLAY_ENCRYPTION_ENABLED h, w')"
  using assms by (simp add: mod_hdcp_hdcp1_enable_encryption_def psp_hdcp_invoke_def zero_ta_hdcp_output_def)

theorem enable_encryption_unanswered_witness:
  "fst (mod_hdcp_hdcp1_enable_encryption memory_env
     (zero_hdcp\<lparr>displays := replicate 6 (zero_display\<lparr>disp_state := MOD_HDCP_DISPLAY_ACTIVE\<rparr>)\<rparr>) (\<lambda>_. 0)) = SUCCESS"
proof -
  let ?h = "zero_hdcp\<lparr>displays := replicate 6 (zero_display\<lparr>disp_state := MOD_HDCP_DISPLAY_ACTIVE\<rparr>)\<rparr>"
  have "get_first_active_display ?h = Some 0" "\<not> is_dp_mst_hdcp ?h"
    by code_simp+
  then show ?thesis
    using enable_encryption_unanswered [of memory_env ?h "\<lambda>_. 0" "\<lambda>_. 0" 0] by (simp add: memory_env_def)
qed

text \<open>A machine runs only while a display is active.\<close>

lemma first_active_exists:
  assumes "hdcp_inv h" "is_hdcp1 h \<or> is_hdcp2 h"
  shows "get_first_active_display h \<noteq> None"
proof -
  obtain i where "i < length (displays h)" "is_display_active (displays h ! i)"
    using assms by (auto simp: hdcp_inv_def shape_inv_def list_ex_length)
  then show ?thesis
    using inv_parts(1) [OF assms(1)]
    by (auto simp: get_first_active_display_def find_None_iff displays_ok_def)
qed

end
