(* ===== verification/Hdcp_Props.thy ===== *)
theory Hdcp_Props
  imports Hdcp_Sample Hdcp_Msg
begin

text \<open>
  The properties of the HDCP module as a whole: its invariant, what an authenticated link has been
  through, the abstract machine it refines, the bound on authentication attempts, completion and timer
  requests, and the bookkeeping of displays.
\<close>

section \<open>Reachable states\<close>



text \<open>
  C12: a link the module reports as authenticated under HDCP 1.4 has exchanged and validated the key
  selection vector, read and validated the receiver's response and enabled encryption; if the receiver is
  a repeater its list of devices has been read, bounded and validated; on a DisplayPort MST link the
  streams are encrypted.
\<close>

theorem hdcp1_authenticated_handshake:
  assumes "hdcp_reach env h" "\<not> fault h"
    and "current_state h = H1_A45_AUTHENTICATED \<or> current_state h = D1_A4_AUTHENTICATED"
  shows "passed h [i1_create_session, i1_an_write, i1_aksv_write, i1_bksv_read, i1_bksv_validation,
      i1_r0p_read, i1_rx_validation, i1_encryption] \<and>
    (is_repeater (connection h) \<longrightarrow> passed h [i1_ready_check, i1_max_cascade_check, i1_max_devs_check,
      i1_device_count_check, i1_ksvlist_read, i1_vp_read, i1_ksvlist_vp_validation]) \<and>
    (is_dp_mst_hdcp h \<longrightarrow> passed h [i1_stream_encryption_dp])"
proof -
  have i: "handshake hdcp1_needs h" "mode_ok h"
    using inv_parts [OF reach_inv [OF assms(1)]] by auto
  have "\<not> is_dp_mst_hdcp h" if "current_state h = H1_A45_AUTHENTICATED"
    using i(2) that by (auto simp: mode_ok_def is_in_defs hdcp_id_iffs is_hdmi_dvi_sl_hdcp_def is_dp_mst_hdcp_def)
  then show ?thesis
    using i(1) assms(3) by (auto simp: handshake_def hdcp1_needs_def passed_def split: if_splits)
qed

theorem hdcp1_authenticated_handshake_witness:
  "current_state sample_authenticated = H1_A45_AUTHENTICATED \<and>
   passed sample_authenticated [i1_bksv_validation, i1_rx_validation, i1_encryption]"
  using hdcp1_authenticated_handshake [of sample_env sample_authenticated] by (simp add: passed_def)



section \<open>Events\<close>

text \<open>
  C13: every event refines a step of the abstract machine: the module chooses a version only while that
  version has an attempt left, completes only what it negotiates, loses an attempt whenever it falls back
  to the initialized state, and leaves an authenticated link only for that state or, under HDCP 2.2, for
  the verification of a changed topology.
\<close>

theorem process_event_refines:
  assumes "hdcp_inv h" "mod_hdcp_process_event env ev h w = (st, h', out, w')"
  shows "spec_step (spec_of h) (spec_of h')"
  using assms by (rule event_refines)

theorem process_event_refines_witness: "spec_step (spec_of sample_validated) (spec_of sample_authenticated)"
proof -
  obtain st h out w where
    e: "mod_hdcp_process_event sample_env MOD_HDCP_EVENT_CALLBACK sample_validated () = (st, h, out, w)"
    by (metis prod.exhaust)
  show ?thesis
    using process_event_refines [OF reach_inv [of sample_env] e]
    by (simp add: sample_authenticated_def deliver_def e)
qed



text \<open>
  C16: the module reports completion exactly when it goes from negotiating a version to authenticated, or
  decides in the initialized state that no protection is desired.
\<close>

theorem auth_complete_iff:
  assumes "hdcp_inv h" "mod_hdcp_process_event env ev h w = (st, h', out, w')"
  shows "auth_complete out \<longleftrightarrow>
    (\<exists>v. phase h = Negotiating v \<and> phase h' = Authenticated v) \<or> phase h = Ready \<and> phase h' = Not_Desired"
  using event_completion [OF assms] by (simp add: completion_def)

theorem auth_complete_iff_witness:
  "auth_complete (fst (snd (snd (mod_hdcp_process_event sample_env MOD_HDCP_EVENT_CALLBACK sample_validated ()))))"
proof -
  obtain st h out w where
    e: "mod_hdcp_process_event sample_env MOD_HDCP_EVENT_CALLBACK sample_validated () = (st, h, out, w)"
    by (metis prod.exhaust)
  have "h = sample_authenticated"
    by (simp add: sample_authenticated_def deliver_def e)
  moreover have "phase sample_validated = Negotiating V1" "phase sample_authenticated = Authenticated V1"
    by (simp_all add: phase_def is_in_defs is_in_authenticated_states_def hdcp_id_iffs)
  ultimately show ?thesis
    using auth_complete_iff [OF reach_inv [of sample_env] e] by (simp add: e)
qed

text \<open>
  C15: the module never changes its state without arranging to be called again: a callback or a watchdog
  is requested, or the authentication is complete.
\<close>

theorem state_change_requests_timer:
  assumes "hdcp_inv h" "mod_hdcp_process_event env ev h w = (st, h', out, w')"
    and "current_state h' \<noteq> current_state h"
  shows "callback_needed out \<or> watchdog_timer_needed out \<or> auth_complete out"
  using assms by (rule event_timer)

theorem state_change_requests_timer_witness:
  "let out = fst (snd (snd (mod_hdcp_process_event sample_env MOD_HDCP_EVENT_CALLBACK sample_validated ())))
   in callback_needed out \<or> watchdog_timer_needed out \<or> auth_complete out"
proof -
  obtain st h out w where
    e: "mod_hdcp_process_event sample_env MOD_HDCP_EVENT_CALLBACK sample_validated () = (st, h, out, w)"
    by (metis prod.exhaust)
  have "h = sample_authenticated"
    by (simp add: sample_authenticated_def deliver_def e)
  then show ?thesis
    using state_change_requests_timer [OF reach_inv [of sample_env] e] by (simp add: e)
qed

section \<open>Displays\<close>

lemma find_active_unique:
  assumes "displays_ok (displays h)" "i < MAX_NUM_OF_DISPLAYS" "is_display_active (displays h ! i)"
  shows "get_active_display_at_index h (disp_index (displays h ! i)) = Some i"
proof -
  obtain j where j: "get_active_display_at_index h (disp_index (displays h ! i)) = Some j"
    using assms(2,3)
    by (cases "get_active_display_at_index h (disp_index (displays h ! i))")
      (auto simp: get_active_display_at_index_def find_None_iff)
  then show ?thesis
    using active_display_at_index [OF j] assms unfolding displays_ok_def by metis
qed

lemma add_display_success:
  assumes "hdcp_inv h" "disp_state d = MOD_HDCP_DISPLAY_ACTIVE"
    "get_active_display_at_index h (disp_index d) = None"
    "mod_hdcp_add_display env lnk d h w = (SUCCESS, h', out, w')"
  obtains i where "i < MAX_NUM_OF_DISPLAYS" "displays h' ! i = d" "link (connection h') = lnk"
    "conn_trace (connection h') = zero_trace" "current_state h' = HDCP_INITIALIZED"
proof -
  obtain i where i: "get_empty_display_container h = Some i"
    using assms by (cases "get_empty_display_container h")
      (auto simp: mod_hdcp_add_display_def split: if_splits)
  then have i6: "i < MAX_NUM_OF_DISPLAYS"
    by (auto simp: get_empty_display_container_def find_Some_iff)
  obtain st1 h1 out1 w1 where r: "reset_authentication env h zero_output w = (st1, h1, out1, w1)"
    by (metis prod.exhaust)
  let ?h3 = "(set_conn (link_update (\<lambda>_. lnk)) (reset_trace (reset_retry_counts h1)))
    \<lparr>displays := (displays h1)[i := d]\<rparr>"
  obtain st4 h4 w4 where t: "mod_hdcp_add_display_to_topology env i ?h3 w1 = (st4, h4, w4)"
    by (metis prod.exhaust)
  have s: "st1 = SUCCESS" "st4 = SUCCESS"
    using assms(2-4) i r t by (auto simp: mod_hdcp_add_display_def split: if_splits)
  then have h4: "h4 = ?h3"
    using add_to_topology_cases [OF t] by simp
  have "displays h' = displays h4" "connection h' = connection h4" "current_state h' = HDCP_INITIALIZED"
    using assms(2-4) i r t s
    by (auto simp: mod_hdcp_add_display_def push_if_failed_def current_state_def split: if_splits)
  moreover have "length (displays h1) = MAX_NUM_OF_DISPLAYS"
    using inv_parts(1) [OF inv_reset_authentication(1) [OF assms(1) r]] by (simp add: displays_ok_def)
  ultimately show thesis
    using that [OF i6] i6 by (simp add: h4 reset_retry_counts_def set_conn_def)
qed

text \<open>
  C33: a display that was added is found again: a query for its index returns the link and the display
  that were passed in, an empty error trace, and encryption off.
\<close>

theorem add_then_query:
  assumes "hdcp_inv h" "disp_state d = MOD_HDCP_DISPLAY_ACTIVE"
    and "get_active_display_at_index h (disp_index d) = None"
    and "mod_hdcp_add_display env lnk d h w = (SUCCESS, h', out, w')"
  shows "mod_hdcp_query_display h' (disp_index d) =
    (SUCCESS, Some (lnk, d, zero_trace, MOD_HDCP_ENCRYPTION_STATUS_HDCP_OFF))"
proof -
  obtain i where i: "i < MAX_NUM_OF_DISPLAYS" "displays h' ! i = d" "link (connection h') = lnk"
    "conn_trace (connection h') = zero_trace" "current_state h' = HDCP_INITIALIZED"
    using add_display_success [OF assms] .
  have "get_active_display_at_index h' (disp_index d) = Some i"
    using find_active_unique [OF inv_parts(1) [OF inv_add_display [OF assms(1,4)]] i(1)] i(2) assms(2)
    by (simp add: active_iff)
  then show ?thesis
    using i assms(2) by (simp add: mod_hdcp_query_display_def query_encryption_status_def encryption_enabled_iff)
qed

theorem add_then_query_witness:
  "mod_hdcp_query_display sample_added 1 =
    (SUCCESS, Some (sample_link, sample_display, zero_trace, MOD_HDCP_ENCRYPTION_STATUS_HDCP_OFF))"
proof -
  obtain st h out w where
    e: "mod_hdcp_add_display sample_env sample_link sample_display zero_hdcp () = (st, h, out, w)"
    by (metis prod.exhaust)
  have "st = SUCCESS"
  proof -
    have "fst (mod_hdcp_add_display sample_env sample_link sample_display zero_hdcp ()) = SUCCESS"
      by code_simp
    then show ?thesis by (simp add: e)
  qed
  moreover have "get_active_display_at_index zero_hdcp (disp_index sample_display) = None"
    by code_simp
  moreover have "hdcp_inv zero_hdcp"
    by (rule reach_inv [OF hdcp_reach.init [of sample_env]])
  ultimately show ?thesis
    using add_then_query [of zero_hdcp sample_display sample_env sample_link "()" h out w] e
    by (simp add: sample_added_def sample_display_def)
qed

lemma remove_display_success:
  assumes "hdcp_inv h" "get_active_display_at_index h idx = Some i"
    "mod_hdcp_remove_display env idx h w = (SUCCESS, h', out, w')"
  obtains ds where "displays h' = ds[i := zero_display]" "length ds = MAX_NUM_OF_DISPLAYS"
    "\<forall>j < MAX_NUM_OF_DISPLAYS. is_display_active (ds ! j) \<longrightarrow>
       is_display_active (displays h ! j) \<and> disp_index (ds ! j) = disp_index (displays h ! j)"
proof -
  obtain st1 h1 out1 w1 where r: "reset_authentication env h zero_output w = (st1, h1, out1, w1)"
    by (metis prod.exhaust)
  obtain st2 h2 w2 where t: "mod_hdcp_remove_display_from_topology env idx
      (reset_trace (reset_retry_counts h1)) w1 = (st2, h2, w2)"
    by (metis prod.exhaust)
  have s: "st1 = SUCCESS" "st2 = SUCCESS"
    using assms(2,3) r t by (auto simp: mod_hdcp_remove_display_def split: if_splits)
  have d: "displays h' = (displays h2)[i := zero_display]"
    using assms(2,3) r t s
    by (auto simp: mod_hdcp_remove_display_def push_if_failed_def Let_def split: if_splits)
  have l: "list_all2 same_display (displays h) (displays h1)"
    by (rule inv_reset_authentication(3) [OF assms(1) r])
  have len: "length (displays h1) = MAX_NUM_OF_DISPLAYS"
    using l inv_parts(1) [OF assms(1)] by (simp add: displays_ok_def list_all2_lengthD)
  have "\<forall>j < MAX_NUM_OF_DISPLAYS. is_display_active (displays h2 ! j) \<longrightarrow>
      is_display_active (displays h1 ! j) \<and> disp_index (displays h2 ! j) = disp_index (displays h1 ! j)"
    using remove_from_topology_cases [OF t] len
    by (auto simp: set_display_state_def nth_list_update split: if_splits)
  moreover have "length (displays h2) = MAX_NUM_OF_DISPLAYS"
    using remove_from_topology_cases [OF t] len by (auto simp: set_display_state_def)
  ultimately show thesis
    using that [OF d] l len by (auto simp: list_all2_conv_all_nth same_display_def)
qed

text \<open>
  C34: a display that was removed is gone: a query for its index does not find a display any more,
  although the search looks at the first match only.
\<close>

theorem remove_then_query:
  assumes "hdcp_inv h" "get_active_display_at_index h idx = Some i"
    and "mod_hdcp_remove_display env idx h w = (SUCCESS, h', out, w')"
  shows "mod_hdcp_query_display h' idx = (MOD_HDCP_STATUS_DISPLAY_NOT_FOUND, None)"
proof -
  obtain ds where ds: "displays h' = ds[i := zero_display]" "length ds = MAX_NUM_OF_DISPLAYS"
    "\<forall>j < MAX_NUM_OF_DISPLAYS. is_display_active (ds ! j) \<longrightarrow>
       is_display_active (displays h ! j) \<and> disp_index (ds ! j) = disp_index (displays h ! j)"
    using remove_display_success [OF assms] .
  have u: "j = i" if "j < MAX_NUM_OF_DISPLAYS" "is_display_active (ds ! j)" "disp_index (ds ! j) = idx" for j
    using active_display_at_index [OF assms(2)] ds(3) that inv_parts(1) [OF assms(1)]
    unfolding displays_ok_def by metis
  have "\<not> is_display_active zero_display"
    by (simp add: zero_display_def active_iff)
  then have "\<not> (disp_index (displays h' ! j) = idx \<and> is_display_active (displays h' ! j))"
    if "j < MAX_NUM_OF_DISPLAYS" for j
    using u [OF that] ds(1,2) that by (cases "j = i") auto
  then have "get_active_display_at_index h' idx = None"
    by (simp add: get_active_display_at_index_def find_None_iff)
  then show ?thesis
    by (simp add: mod_hdcp_query_display_def)
qed

theorem remove_then_query_witness:
  "mod_hdcp_query_display (fst (snd (mod_hdcp_remove_display sample_env 1 sample_added ()))) 1 =
    (MOD_HDCP_STATUS_DISPLAY_NOT_FOUND, None)"
proof -
  obtain st h out w where e: "mod_hdcp_remove_display sample_env 1 sample_added () = (st, h, out, w)"
    by (metis prod.exhaust)
  have "fst (mod_hdcp_remove_display sample_env 1 sample_added ()) = SUCCESS"
    by code_simp
  moreover have "get_active_display_at_index sample_added 1 = Some 0"
    by code_simp
  ultimately show ?thesis
    using remove_then_query [of sample_added 1 0 sample_env "()" h out w] e reach_inv [of sample_env sample_added]
    by simp
qed



section \<open>Sessions and resets\<close>

text \<open>
  C35: creating an HDCP 1.4 session reads the index of the first active display without testing the
  pointer; in every reachable state of an HDCP 1.4 machine there is an active display, so the access is
  valid.
\<close>

theorem hdcp1_create_session_display:
  assumes "hdcp_reach env h" "is_hdcp1 h"
  shows "fault (fst (snd (mod_hdcp_hdcp1_create_session env h w))) = fault h"
  using first_active_exists [OF reach_inv [OF assms(1)]] assms(2)
  by (auto simp: mod_hdcp_hdcp1_create_session_def set_auth_id_def Let_def
      split: prod.split prod.split_asm if_splits)

theorem hdcp1_create_session_display_witness:
  "fault (fst (snd (mod_hdcp_hdcp1_create_session sample_env sample_validated ()))) = fault sample_validated"
  using hdcp1_create_session_display [of sample_env sample_validated "()"]
  by (simp add: is_in_defs hdcp_id_iffs)

text \<open>
  C17: resetting an authentication that is under way either succeeds, and then all its data and flags
  are cleared and the module is in the initialized state with its timers stopped, or the session of an
  HDCP 2.2 authentication could not be destroyed, and then the module stays in its state and requests
  no timer.
\<close>

theorem reset_authentication_outcome:
  assumes "hdcp_inv h" "is_hdcp1 h \<or> is_hdcp2 h" "reset_authentication env h out w = (st, h', out', w')"
  shows "st = SUCCESS \<and> auth h' = zero_auth \<and> state h' = zero_state\<lparr>state_id := HDCP_INITIALIZED\<rparr> \<and>
      watchdog_timer_stop out' \<and> callback_stop out' \<or>
    st \<noteq> SUCCESS \<and> is_hdcp2 h \<and> input h i2_create_session = PASS \<and> state h' = state h \<and>
      \<not> callback_needed out' \<and> \<not> watchdog_timer_needed out'"
  using assms(2,3) reset_tail(3) [OF assms] outside_states [of h]
  by (auto simp: reset_authentication_def clear_authentication_def split: if_splits prod.splits)

theorem reset_authentication_outcome_witness:
  "fst (reset_authentication sample_env sample_validated zero_output ()) = SUCCESS \<and>
   state (fst (snd (reset_authentication sample_env sample_validated zero_output ()))) =
     zero_state\<lparr>state_id := HDCP_INITIALIZED\<rparr>"
proof -
  obtain st h out w where e: "reset_authentication sample_env sample_validated zero_output () = (st, h, out, w)"
    by (metis prod.exhaust)
  have "is_hdcp1 sample_validated" "\<not> is_hdcp2 sample_validated"
    by (simp_all add: is_in_defs hdcp_id_iffs)
  then show ?thesis
    using reset_authentication_outcome [OF reach_inv [of sample_env] _ e] by (simp add: e)
qed


end
