(* ===== verification/Kernel_Math.thy ===== *)
theory Kernel_Math
  imports Prelude "HOL-Library.Log_Nat"
begin

text \<open>
  The arithmetic helpers of the kernel headers that the components use: bit masks, logarithms,
  rounding to powers of two, with their meaning on natural numbers.
\<close>

section \<open>Definitions\<close>

definition GENMASK_ULL :: "nat \<Rightarrow> nat \<Rightarrow> u64" where
  "GENMASK_ULL h l = push_bit l (mask (h + 1 - l))"

definition BIT :: "nat \<Rightarrow> u64" where
  "BIT n = push_bit n 1"

definition fls :: "u32 \<Rightarrow> nat" where
  "fls x = floorlog 2 (unat x)"

definition fls64 :: "u64 \<Rightarrow> nat" where
  "fls64 x = floorlog 2 (unat x)"

definition ilog2 :: "u64 \<Rightarrow> nat" where
  "ilog2 x = fls64 x - 1"

definition hweight64 :: "u64 \<Rightarrow> nat" where
  "hweight64 x = length (filter (bit x) [0..<64])"

definition is_power_of_2 :: "u64 \<Rightarrow> bool" where
  "is_power_of_2 n \<longleftrightarrow> n \<noteq> 0 \<and> n AND (n - 1) = 0"

definition round_down :: "u64 \<Rightarrow> u64 \<Rightarrow> u64" where
  "round_down x y = x AND NOT (y - 1)"

definition round_up :: "u64 \<Rightarrow> u64 \<Rightarrow> u64" where
  "round_up x y = ((x - 1) OR (y - 1)) + 1"

definition IS_ALIGNED :: "u64 \<Rightarrow> u64 \<Rightarrow> bool" where
  "IS_ALIGNED x a \<longleftrightarrow> x AND (a - 1) = 0"

definition rounddown_pow_of_two :: "u64 \<Rightarrow> u64" where
  "rounddown_pow_of_two n = push_bit (fls64 n - 1) 1"

definition roundup_pow_of_two :: "u64 \<Rightarrow> u64" where
  "roundup_pow_of_two n = push_bit (fls64 (n - 1)) 1"

section \<open>Bit masks\<close>

lemma unat_u64: "unat (x :: u64) < 2 ^ 64"
  using unsigned_less [of x] by simp

lemma bit_GENMASK_ULL: "bit (GENMASK_ULL h l) n \<longleftrightarrow> l \<le> n \<and> n \<le> h \<and> n < 64"
  by (auto simp: GENMASK_ULL_def bit_push_bit_iff bit_mask_iff)

end
