(* ===== verification/Buddy.thy ===== *)
theory Buddy
  imports Kernel_Math "HOL-Library.Monad_Syntax"
begin

text \<open>
  The DRM buddy allocator (\<^verbatim>\<open>drm_buddy.c\<close>, \<^verbatim>\<open>drm_buddy.h\<close>): data and operations.

  Blocks live in a store of the slab cache, from addresses to blocks. An address is the number of the
  allocation that returned it, so freed addresses are not reused and a dangling pointer is visible.
  \<^verbatim>\<open>slab_ok\<close> says which allocations of the cache succeed. An intrusive list is the list of the addresses
  linked in it. The result \<^term>\<open>None\<close> of an operation stands for a \<^verbatim>\<open>BUG_ON\<close> that fires, for an
  access through a null or dangling pointer, for linking an entry that is already linked, and for a loop
  that does not end. A \<^verbatim>\<open>WARN_ON\<close> that fires sets the flag \<^verbatim>\<open>warned\<close> and goes on. Orders are natural
  numbers; where the code computes one that could wrap, the definition says so.
\<close>

section \<open>Data\<close>

record drm_buddy_block =
  header :: u64
  left :: "nat option"
  right :: "nat option"
  parent :: "nat option"

record drm_buddy =
  free_list :: "nat list list"
  roots :: "nat list"
  n_roots :: nat
  max_order :: nat
  chunk_size :: u64
  mm_size :: u64
  avail :: u64
  clear_avail :: u64
  slab :: "nat \<rightharpoonup> drm_buddy_block"
  slab_next :: nat
  slab_ok :: "nat \<Rightarrow> bool"
  warned :: bool

datatype errno = OK | ENOMEM | EINVAL | ENOSPC

definition DRM_BUDDY_RANGE_ALLOCATION :: u64 where "DRM_BUDDY_RANGE_ALLOCATION = BIT 0"
definition DRM_BUDDY_TOPDOWN_ALLOCATION :: u64 where "DRM_BUDDY_TOPDOWN_ALLOCATION = BIT 1"
definition DRM_BUDDY_CONTIGUOUS_ALLOCATION :: u64 where "DRM_BUDDY_CONTIGUOUS_ALLOCATION = BIT 2"
definition DRM_BUDDY_CLEAR_ALLOCATION :: u64 where "DRM_BUDDY_CLEAR_ALLOCATION = BIT 3"
definition DRM_BUDDY_CLEARED :: u64 where "DRM_BUDDY_CLEARED = BIT 4"
definition DRM_BUDDY_TRIM_DISABLE :: u64 where "DRM_BUDDY_TRIM_DISABLE = BIT 5"

definition DRM_BUDDY_HEADER_OFFSET :: u64 where "DRM_BUDDY_HEADER_OFFSET = GENMASK_ULL 63 12"
definition DRM_BUDDY_HEADER_STATE :: u64 where "DRM_BUDDY_HEADER_STATE = GENMASK_ULL 11 10"
definition DRM_BUDDY_ALLOCATED :: u64 where "DRM_BUDDY_ALLOCATED = push_bit 10 1"
definition DRM_BUDDY_FREE :: u64 where "DRM_BUDDY_FREE = push_bit 10 2"
definition DRM_BUDDY_SPLIT :: u64 where "DRM_BUDDY_SPLIT = push_bit 10 3"
definition DRM_BUDDY_HEADER_CLEAR :: u64 where "DRM_BUDDY_HEADER_CLEAR = GENMASK_ULL 9 9"
definition DRM_BUDDY_HEADER_UNUSED :: u64 where "DRM_BUDDY_HEADER_UNUSED = GENMASK_ULL 8 6"
definition DRM_BUDDY_HEADER_ORDER :: u64 where "DRM_BUDDY_HEADER_ORDER = GENMASK_ULL 5 0"

definition DRM_BUDDY_MAX_ORDER :: nat where "DRM_BUDDY_MAX_ORDER = 63 - 12"

definition SZ_4K :: u64 where "SZ_4K = 4096"

definition range_overflows :: "u64 \<Rightarrow> u64 \<Rightarrow> u64 \<Rightarrow> bool" where
  "range_overflows start sz limit \<longleftrightarrow> limit \<le> start \<or> limit - start < sz"

section \<open>Block headers\<close>

definition drm_buddy_block_offset :: "drm_buddy_block \<Rightarrow> u64" where
  "drm_buddy_block_offset block = header block AND DRM_BUDDY_HEADER_OFFSET"

definition drm_buddy_block_order :: "drm_buddy_block \<Rightarrow> nat" where
  "drm_buddy_block_order block = unat (header block AND DRM_BUDDY_HEADER_ORDER)"

definition drm_buddy_block_state :: "drm_buddy_block \<Rightarrow> u64" where
  "drm_buddy_block_state block = header block AND DRM_BUDDY_HEADER_STATE"

definition drm_buddy_block_is_allocated :: "drm_buddy_block \<Rightarrow> bool" where
  "drm_buddy_block_is_allocated block \<longleftrightarrow> drm_buddy_block_state block = DRM_BUDDY_ALLOCATED"

definition drm_buddy_block_is_clear :: "drm_buddy_block \<Rightarrow> bool" where
  "drm_buddy_block_is_clear block \<longleftrightarrow> header block AND DRM_BUDDY_HEADER_CLEAR \<noteq> 0"

definition drm_buddy_block_is_free :: "drm_buddy_block \<Rightarrow> bool" where
  "drm_buddy_block_is_free block \<longleftrightarrow> drm_buddy_block_state block = DRM_BUDDY_FREE"

definition drm_buddy_block_is_split :: "drm_buddy_block \<Rightarrow> bool" where
  "drm_buddy_block_is_split block \<longleftrightarrow> drm_buddy_block_state block = DRM_BUDDY_SPLIT"

definition drm_buddy_block_size :: "drm_buddy \<Rightarrow> drm_buddy_block \<Rightarrow> u64" where
  "drm_buddy_block_size mm block = push_bit (drm_buddy_block_order block) (chunk_size mm)"

section \<open>Blocks in the store\<close>

definition set_block ::
    "nat \<Rightarrow> (drm_buddy_block \<Rightarrow> drm_buddy_block) \<Rightarrow> drm_buddy \<Rightarrow> drm_buddy option" where
  "set_block b f mm = do { block \<leftarrow> slab mm b; Some (mm\<lparr>slab := (slab mm)(b \<mapsto> f block)\<rparr>) }"

definition drm_block_alloc ::
    "nat option \<Rightarrow> nat \<Rightarrow> u64 \<Rightarrow> drm_buddy \<Rightarrow> (nat option \<times> drm_buddy) option" where
  "drm_block_alloc par order offset mm =
     (if DRM_BUDDY_MAX_ORDER < order then None
      else let b = slab_next mm; mm = mm\<lparr>slab_next := b + 1\<rparr> in
        if \<not> slab_ok mm b then Some (None, mm)
        else let block = \<lparr>header = offset OR of_nat order, left = None, right = None, parent = par\<rparr> in
          if header block AND DRM_BUDDY_HEADER_UNUSED \<noteq> 0 then None
          else Some (Some b, mm\<lparr>slab := (slab mm)(b \<mapsto> block)\<rparr>))"

definition drm_block_free :: "nat \<Rightarrow> drm_buddy \<Rightarrow> drm_buddy option" where
  "drm_block_free b mm = do { _ \<leftarrow> slab mm b; Some (mm\<lparr>slab := (slab mm)(b := None)\<rparr>) }"

text \<open>\<^verbatim>\<open>list_del\<close> of the link of a block that is on a free list.\<close>

definition list_del :: "nat \<Rightarrow> drm_buddy \<Rightarrow> drm_buddy option" where
  "list_del b mm =
     (if list_ex (\<lambda>fl. b \<in> set fl) (free_list mm)
      then Some (mm\<lparr>free_list := map (remove1 b) (free_list mm)\<rparr>) else None)"

text \<open>The entry before the first one with a larger offset, at the end if there is none.\<close>

fun insert_entry :: "drm_buddy \<Rightarrow> u64 \<Rightarrow> nat \<Rightarrow> nat list \<Rightarrow> nat list option" where
  "insert_entry mm offset b [] = Some [b]"
| "insert_entry mm offset b (node # ns) =
     do { block \<leftarrow> slab mm node;
          if offset < drm_buddy_block_offset block then Some (b # node # ns)
          else map_option ((#) node) (insert_entry mm offset b ns) }"

definition list_insert_sorted :: "nat \<Rightarrow> drm_buddy \<Rightarrow> drm_buddy option" where
  "list_insert_sorted b mm =
     do { block \<leftarrow> slab mm b;
          let order = drm_buddy_block_order block;
          if order < length (free_list mm) \<and> \<not> list_ex (\<lambda>fl. b \<in> set fl) (free_list mm)
          then do { fl \<leftarrow> insert_entry mm (drm_buddy_block_offset block) b (free_list mm ! order);
                    Some (mm\<lparr>free_list := (free_list mm)[order := fl]\<rparr>) }
          else None }"

definition without_clear :: "drm_buddy_block \<Rightarrow> drm_buddy_block" where
  "without_clear block = block\<lparr>header := header block AND NOT DRM_BUDDY_HEADER_CLEAR\<rparr>"

definition clear_reset :: "nat \<Rightarrow> drm_buddy \<Rightarrow> drm_buddy option" where
  "clear_reset b = set_block b without_clear"

definition with_clear :: "drm_buddy_block \<Rightarrow> drm_buddy_block" where
  "with_clear block = block\<lparr>header := header block OR DRM_BUDDY_HEADER_CLEAR\<rparr>"

definition mark_cleared :: "nat \<Rightarrow> drm_buddy \<Rightarrow> drm_buddy option" where
  "mark_cleared b = set_block b with_clear"

text \<open>The update of the state bits in \<^verbatim>\<open>mark_allocated\<close>, \<^verbatim>\<open>mark_free\<close> and \<^verbatim>\<open>mark_split\<close>.\<close>

definition with_state :: "u64 \<Rightarrow> drm_buddy_block \<Rightarrow> drm_buddy_block" where
  "with_state s block = block\<lparr>header := (header block AND NOT DRM_BUDDY_HEADER_STATE) OR s\<rparr>"

definition mark_allocated :: "nat \<Rightarrow> drm_buddy \<Rightarrow> drm_buddy option" where
  "mark_allocated b mm = do { mm \<leftarrow> set_block b (with_state DRM_BUDDY_ALLOCATED) mm; list_del b mm }"

definition mark_free :: "nat \<Rightarrow> drm_buddy \<Rightarrow> drm_buddy option" where
  "mark_free b mm = do { mm \<leftarrow> set_block b (with_state DRM_BUDDY_FREE) mm; list_insert_sorted b mm }"

definition mark_split :: "nat \<Rightarrow> drm_buddy \<Rightarrow> drm_buddy option" where
  "mark_split b mm = do { mm \<leftarrow> set_block b (with_state DRM_BUDDY_SPLIT) mm; list_del b mm }"

definition overlaps :: "u64 \<Rightarrow> u64 \<Rightarrow> u64 \<Rightarrow> u64 \<Rightarrow> bool" where
  "overlaps s1 e1 s2 e2 \<longleftrightarrow> s1 \<le> e2 \<and> s2 \<le> e1"

definition contains :: "u64 \<Rightarrow> u64 \<Rightarrow> u64 \<Rightarrow> u64 \<Rightarrow> bool" where
  "contains s1 e1 s2 e2 \<longleftrightarrow> s1 \<le> s2 \<and> e2 \<le> e1"

text \<open>The inner \<^term>\<open>None\<close> is the null pointer.\<close>

definition do_get_buddy :: "nat \<Rightarrow> drm_buddy \<Rightarrow> nat option option" where
  "do_get_buddy b mm =
     do { block \<leftarrow> slab mm b;
          case parent block of
            None \<Rightarrow> Some None
          | Some p \<Rightarrow> do { pb \<leftarrow> slab mm p; Some (if left pb = Some b then right pb else left pb) } }"

definition drm_get_buddy :: "nat \<Rightarrow> drm_buddy \<Rightarrow> nat option option" where
  "drm_get_buddy b = do_get_buddy b"

section \<open>Freeing and merging\<close>

definition sub_clear_avail :: "bool \<Rightarrow> drm_buddy_block \<Rightarrow> drm_buddy \<Rightarrow> drm_buddy" where
  "sub_clear_avail c block mm =
     (if c then mm\<lparr>clear_avail := clear_avail mm - drm_buddy_block_size mm block\<rparr> else mm)"

definition add_clear_avail :: "bool \<Rightarrow> drm_buddy_block \<Rightarrow> drm_buddy \<Rightarrow> drm_buddy" where
  "add_clear_avail c block mm =
     (if c then mm\<lparr>clear_avail := clear_avail mm + drm_buddy_block_size mm block\<rparr> else mm)"

text \<open>The loop of \<^verbatim>\<open>__drm_buddy_free\<close>; the result is the block the loop ends with.\<close>

partial_function (option) merge_up :: "bool \<Rightarrow> nat \<Rightarrow> drm_buddy \<Rightarrow> (nat \<times> drm_buddy) option" where
  "merge_up force_merge b mm =
     do { block \<leftarrow> slab mm b;
          case parent block of
            None \<Rightarrow> Some (b, mm)
          | Some p \<Rightarrow>
              do { bud \<leftarrow> do_get_buddy b mm;
                   y \<leftarrow> bud;
                   buddy \<leftarrow> slab mm y;
                   if \<not> drm_buddy_block_is_free buddy then Some (b, mm)
                   else if \<not> force_merge \<and> drm_buddy_block_is_clear block \<noteq> drm_buddy_block_is_clear buddy
                   then Some (b, mm)
                   else do { mm \<leftarrow> if \<not> force_merge \<and> drm_buddy_block_is_clear block
                                   then mark_cleared p mm else Some mm;
                             mm \<leftarrow> list_del y mm;
                             let mm = sub_clear_avail (force_merge \<and> drm_buddy_block_is_clear buddy) buddy mm;
                             mm \<leftarrow> drm_block_free b mm;
                             mm \<leftarrow> drm_block_free y mm;
                             merge_up force_merge p mm } } }"

declare merge_up.simps [code]

definition do_drm_buddy_free :: "bool \<Rightarrow> nat \<Rightarrow> drm_buddy \<Rightarrow> (nat \<times> drm_buddy) option" where
  "do_drm_buddy_free force_merge b mm =
     do { (b, mm) \<leftarrow> merge_up force_merge b mm;
          block \<leftarrow> slab mm b;
          let order = drm_buddy_block_order block;
          mm \<leftarrow> mark_free b mm;
          Some (order, mm) }"

text \<open>\<^verbatim>\<open>list_prev_entry\<close>: the entry before \<open>b\<close>; \<^term>\<open>None\<close> is the head of the list.\<close>

fun list_prev :: "nat \<Rightarrow> nat list \<Rightarrow> nat option" where
  "list_prev b (x # y # xs) = (if y = b then Some x else list_prev b (y # xs))"
| "list_prev b _ = None"

definition list_last :: "nat list \<Rightarrow> nat option" where
  "list_last xs = (if xs = [] then None else Some (last xs))"

definition warn_on :: "bool \<Rightarrow> drm_buddy \<Rightarrow> drm_buddy" where
  "warn_on c mm = (if c then mm\<lparr>warned := True\<rparr> else mm)"

text \<open>The inner loop of \<^verbatim>\<open>__force_merge\<close> over one free list; the result says whether it returns 0.\<close>

partial_function (option) force_merge_list ::
    "u64 \<Rightarrow> u64 \<Rightarrow> nat \<Rightarrow> nat \<Rightarrow> nat option \<Rightarrow> drm_buddy \<Rightarrow> (bool \<times> drm_buddy) option" where
  "force_merge_list start end min_order i pos mm =
     (case pos of
        None \<Rightarrow> Some (False, mm)
      | Some b \<Rightarrow>
          if i < length (free_list mm) \<and> b \<in> set (free_list mm ! i)
          then do { let prev = list_prev b (free_list mm ! i);
               block \<leftarrow> slab mm b;
               if parent block = None then force_merge_list start end min_order i prev mm
               else do {
                 let block_start = drm_buddy_block_offset block;
                 let block_end = block_start + drm_buddy_block_size mm block - 1;
                 if \<not> contains start end block_start block_end
                 then force_merge_list start end min_order i prev mm
                 else do {
                   bud \<leftarrow> do_get_buddy b mm;
                   y \<leftarrow> bud;
                   buddy \<leftarrow> slab mm y;
                   if \<not> drm_buddy_block_is_free buddy
                   then force_merge_list start end min_order i prev mm
                   else do {
                     let mm = warn_on (drm_buddy_block_is_clear block = drm_buddy_block_is_clear buddy) mm;
                     let prev = (if prev = Some y then list_prev y (free_list mm ! i) else prev);
                     mm \<leftarrow> list_del b mm;
                     let mm = sub_clear_avail (drm_buddy_block_is_clear block) block mm;
                     (order, mm) \<leftarrow> do_drm_buddy_free True b mm;
                     if min_order \<le> order then Some (True, mm)
                     else force_merge_list start end min_order i prev mm } } } }
          else None)"

declare force_merge_list.simps [code]

fun force_merge_orders ::
    "u64 \<Rightarrow> u64 \<Rightarrow> nat \<Rightarrow> nat \<Rightarrow> drm_buddy \<Rightarrow> (errno \<times> drm_buddy) option" where
  "force_merge_orders start end min_order 0 mm = Some (ENOMEM, mm)"
| "force_merge_orders start end min_order (Suc i) mm =
     do { (done, mm) \<leftarrow> force_merge_list start end min_order i (list_last (free_list mm ! i)) mm;
          if done then Some (OK, mm) else force_merge_orders start end min_order i mm }"

definition do_force_merge :: "u64 \<Rightarrow> u64 \<Rightarrow> nat \<Rightarrow> drm_buddy \<Rightarrow> (errno \<times> drm_buddy) option" where
  "do_force_merge start end min_order mm =
     (if min_order = 0 then Some (ENOMEM, mm)
      else if max_order mm < min_order then Some (EINVAL, mm)
      else force_merge_orders start end min_order min_order mm)"

section \<open>Setting up and tearing down\<close>

text \<open>
  The loop of \<^verbatim>\<open>drm_buddy_init\<close>. The array \<^verbatim>\<open>roots\<close> has \<^verbatim>\<open>n_roots\<close> entries, of which those already written are
  listed; the flag is whether the loop ends because the cache is empty.
\<close>

partial_function (option) init_roots :: "u64 \<Rightarrow> u64 \<Rightarrow> drm_buddy \<Rightarrow> (bool \<times> drm_buddy) option" where
  "init_roots sz offset mm =
     do { let order = ilog2 sz - ilog2 (chunk_size mm);
          let root_size = push_bit order (chunk_size mm);
          (new, mm) \<leftarrow> drm_block_alloc None order offset mm;
          case new of
            None \<Rightarrow> Some (False, mm)
          | Some rt \<Rightarrow>
              do { mm \<leftarrow> mark_free rt mm;
                   block \<leftarrow> slab mm rt;
                   if max_order mm < length (roots mm) \<or> drm_buddy_block_size mm block < chunk_size mm \<or>
                      n_roots mm \<le> length (roots mm)
                   then None
                   else do { let mm = mm\<lparr>roots := roots mm @ [rt]\<rparr>;
                             let sz = sz - root_size;
                             if sz \<noteq> 0 then init_roots sz (offset + root_size) mm else Some (True, mm) } } }"

declare init_roots.simps [code]

fun free_blocks_of :: "nat list \<Rightarrow> drm_buddy \<Rightarrow> drm_buddy option" where
  "free_blocks_of [] mm = Some mm"
| "free_blocks_of (b # bs) mm = do { mm \<leftarrow> drm_block_free b mm; free_blocks_of bs mm }"

text \<open>\<open>mem_free_list\<close> and \<open>mem_roots\<close> are whether the two arrays can be allocated.\<close>

definition drm_buddy_init ::
    "bool \<Rightarrow> bool \<Rightarrow> u64 \<Rightarrow> u64 \<Rightarrow> drm_buddy \<Rightarrow> (errno \<times> drm_buddy) option" where
  "drm_buddy_init mem_free_list mem_roots sz chunk mm =
     (if sz < chunk then Some (EINVAL, mm)
      else if chunk < SZ_4K then Some (EINVAL, mm)
      else if \<not> is_power_of_2 chunk then Some (EINVAL, mm)
      else do {
        let sz = round_down sz chunk;
        let mm = mm\<lparr>mm_size := sz, avail := sz, clear_avail := 0, chunk_size := chunk,
                     max_order := ilog2 sz - ilog2 chunk\<rparr>;
        if DRM_BUDDY_MAX_ORDER < max_order mm then None
        else if \<not> mem_free_list then Some (ENOMEM, mm)
        else do {
          let mm = mm\<lparr>free_list := replicate (max_order mm + 1) [], n_roots := hweight64 sz, roots := []\<rparr>;
          if \<not> mem_roots then Some (ENOMEM, mm)
          else do {
            (done, mm) \<leftarrow> init_roots sz 0 mm;
            if done then Some (OK, mm)
            else do { mm \<leftarrow> free_blocks_of (rev (roots mm)) mm; Some (ENOMEM, mm) } } } })"

fun fini_roots :: "nat list \<Rightarrow> u64 \<Rightarrow> drm_buddy \<Rightarrow> drm_buddy option" where
  "fini_roots [] sz mm = Some mm"
| "fini_roots (rt # rs) sz mm =
     do { let order = ilog2 sz - ilog2 (chunk_size mm);
          block \<leftarrow> slab mm rt;
          let start = drm_buddy_block_offset block;
          (_, mm) \<leftarrow> do_force_merge start (start + sz) order mm;
          block \<leftarrow> slab mm rt;
          let mm = warn_on (\<not> drm_buddy_block_is_free block) mm;
          mm \<leftarrow> drm_block_free rt mm;
          fini_roots rs (sz - push_bit order (chunk_size mm)) mm }"

definition drm_buddy_fini :: "drm_buddy \<Rightarrow> drm_buddy option" where
  "drm_buddy_fini mm =
     do { mm \<leftarrow> fini_roots (roots mm) (mm_size mm) mm;
          Some (warn_on (avail mm \<noteq> mm_size mm) mm) }"

section \<open>Splitting and freeing\<close>

definition split_block :: "nat \<Rightarrow> drm_buddy \<Rightarrow> (errno \<times> drm_buddy) option" where
  "split_block b mm =
     do { block \<leftarrow> slab mm b;
          let block_order = drm_buddy_block_order block - 1;
          let offset = drm_buddy_block_offset block;
          if \<not> drm_buddy_block_is_free block \<or> drm_buddy_block_order block = 0 then None
          else do {
            (new_left, mm) \<leftarrow> drm_block_alloc (Some b) block_order offset mm;
            mm \<leftarrow> set_block b (\<lambda>x. x\<lparr>left := new_left\<rparr>) mm;
            case new_left of
              None \<Rightarrow> Some (ENOMEM, mm)
            | Some l \<Rightarrow> do {
                (new_right, mm) \<leftarrow> drm_block_alloc (Some b) block_order
                  (offset + push_bit block_order (chunk_size mm)) mm;
                mm \<leftarrow> set_block b (\<lambda>x. x\<lparr>right := new_right\<rparr>) mm;
                case new_right of
                  None \<Rightarrow> do { mm \<leftarrow> drm_block_free l mm; Some (ENOMEM, mm) }
                | Some r \<Rightarrow> do {
                    mm \<leftarrow> mark_free l mm;
                    mm \<leftarrow> mark_free r mm;
                    mm \<leftarrow> if drm_buddy_block_is_clear block
                          then do { mm \<leftarrow> mark_cleared l mm; mm \<leftarrow> mark_cleared r mm; clear_reset b mm }
                          else Some mm;
                    mm \<leftarrow> mark_split b mm;
                    Some (OK, mm) } } } }"

definition drm_buddy_free_block :: "nat \<Rightarrow> drm_buddy \<Rightarrow> drm_buddy option" where
  "drm_buddy_free_block b mm =
     do { block \<leftarrow> slab mm b;
          if \<not> drm_buddy_block_is_allocated block then None
          else do { let mm = mm\<lparr>avail := avail mm + drm_buddy_block_size mm block\<rparr>;
                    let mm = add_clear_avail (drm_buddy_block_is_clear block) block mm;
                    (_, mm) \<leftarrow> do_drm_buddy_free False b mm;
                    Some mm } }"

fun free_list_loop :: "bool \<Rightarrow> bool \<Rightarrow> nat list \<Rightarrow> drm_buddy \<Rightarrow> drm_buddy option" where
  "free_list_loop mark_clear mark_dirty [] mm = Some mm"
| "free_list_loop mark_clear mark_dirty (b # bs) mm =
     do { mm \<leftarrow> if mark_clear then mark_cleared b mm
                else if mark_dirty then clear_reset b mm else Some mm;
          mm \<leftarrow> drm_buddy_free_block b mm;
          free_list_loop mark_clear mark_dirty bs mm }"

definition do_drm_buddy_free_list :: "bool \<Rightarrow> bool \<Rightarrow> nat list \<Rightarrow> drm_buddy \<Rightarrow> drm_buddy option" where
  "do_drm_buddy_free_list mark_clear mark_dirty objects mm =
     free_list_loop mark_clear mark_dirty objects (warn_on (mark_dirty \<and> mark_clear) mm)"

definition drm_buddy_free_list_internal :: "nat list \<Rightarrow> drm_buddy \<Rightarrow> drm_buddy option" where
  "drm_buddy_free_list_internal objects = do_drm_buddy_free_list False False objects"

definition drm_buddy_free_list :: "nat list \<Rightarrow> u64 \<Rightarrow> drm_buddy \<Rightarrow> drm_buddy option" where
  "drm_buddy_free_list objects flags =
     (let mark_clear = (flags AND DRM_BUDDY_CLEARED \<noteq> 0)
      in do_drm_buddy_free_list mark_clear (\<not> mark_clear) objects)"

section \<open>Looking for a block\<close>

definition block_incompatible :: "drm_buddy_block \<Rightarrow> u64 \<Rightarrow> bool" where
  "block_incompatible block flags \<longleftrightarrow>
     (flags AND DRM_BUDDY_CLEAR_ALLOCATION \<noteq> 0) \<noteq> drm_buddy_block_is_clear block"

text \<open>What both range searches do when a block cannot be split.\<close>

definition undo_split :: "nat \<Rightarrow> drm_buddy \<Rightarrow> drm_buddy option" where
  "undo_split b mm =
     do { bud \<leftarrow> do_get_buddy b mm;
          case bud of
            None \<Rightarrow> Some mm
          | Some y \<Rightarrow>
              do { block \<leftarrow> slab mm b;
                   buddy \<leftarrow> slab mm y;
                   if drm_buddy_block_is_free block \<and> drm_buddy_block_is_free buddy
                   then do { (_, mm) \<leftarrow> do_drm_buddy_free False b mm; Some mm }
                   else Some mm } }"

text \<open>The list \<open>dfs\<close> is a stack of the blocks still to visit.\<close>

definition push_children :: "nat \<Rightarrow> nat list \<Rightarrow> drm_buddy \<Rightarrow> nat list option" where
  "push_children b dfs mm =
     do { block \<leftarrow> slab mm b; r \<leftarrow> right block; l \<leftarrow> left block; Some (l # r # dfs) }"

definition no_slot :: "u64 \<Rightarrow> u64 \<Rightarrow> u64 \<Rightarrow> u64 \<Rightarrow> u64 \<Rightarrow> bool" where
  "no_slot start end req_size block_start block_end \<longleftrightarrow>
     (block_start < start \<or> end < block_end) \<and>
     round_down (min block_end end + 1) req_size \<le> round_up (max block_start start) req_size"

partial_function (option) alloc_range_bias_loop ::
    "u64 \<Rightarrow> u64 \<Rightarrow> nat \<Rightarrow> u64 \<Rightarrow> bool \<Rightarrow> nat list \<Rightarrow> drm_buddy \<Rightarrow> ((errno + nat) \<times> drm_buddy) option" where
  "alloc_range_bias_loop start end order flags fallback stack mm =
     (case stack of
        [] \<Rightarrow> Some (Inl ENOSPC, mm)
      | b # dfs \<Rightarrow> do {
          block \<leftarrow> slab mm b;
          let block_start = drm_buddy_block_offset block;
          let block_end = block_start + drm_buddy_block_size mm block - 1;
          if drm_buddy_block_order block < order \<or>
             \<not> overlaps start end block_start block_end \<or>
             drm_buddy_block_is_allocated block \<or>
             no_slot start end (push_bit order (chunk_size mm)) block_start block_end \<or>
             \<not> fallback \<and> block_incompatible block flags
          then alloc_range_bias_loop start end order flags fallback dfs mm
          else if contains start end block_start block_end \<and> order = drm_buddy_block_order block
          then if drm_buddy_block_is_free block then Some (Inr b, mm)
               else alloc_range_bias_loop start end order flags fallback dfs mm
          else do {
            (err, mm) \<leftarrow> if \<not> drm_buddy_block_is_split block then split_block b mm else Some (OK, mm);
            if err \<noteq> OK then do { mm \<leftarrow> undo_split b mm; Some (Inl err, mm) }
            else do { dfs \<leftarrow> push_children b dfs mm;
                      alloc_range_bias_loop start end order flags fallback dfs mm } } })"

declare alloc_range_bias_loop.simps [code]

definition do_alloc_range_bias ::
    "u64 \<Rightarrow> u64 \<Rightarrow> nat \<Rightarrow> u64 \<Rightarrow> bool \<Rightarrow> drm_buddy \<Rightarrow> ((errno + nat) \<times> drm_buddy) option" where
  "do_alloc_range_bias start end order flags fallback mm =
     alloc_range_bias_loop start (end - 1) order flags fallback (roots mm) mm"

definition do_drm_buddy_alloc_range_bias ::
    "u64 \<Rightarrow> u64 \<Rightarrow> nat \<Rightarrow> u64 \<Rightarrow> drm_buddy \<Rightarrow> ((errno + nat) \<times> drm_buddy) option" where
  "do_drm_buddy_alloc_range_bias start end order flags mm =
     do { (res, mm) \<leftarrow> do_alloc_range_bias start end order flags False mm;
          case res of
            Inl _ \<Rightarrow> do_alloc_range_bias start end order flags True mm
          | Inr b \<Rightarrow> Some (Inr b, mm) }"

text \<open>The last entry of a list that the flags allow.\<close>

fun last_compatible :: "drm_buddy \<Rightarrow> u64 \<Rightarrow> nat list \<Rightarrow> nat option option" where
  "last_compatible mm flags [] = Some None"
| "last_compatible mm flags (b # rest) =
     do { block \<leftarrow> slab mm b;
          if block_incompatible block flags then last_compatible mm flags rest else Some (Some b) }"

fun maxblock_loop ::
    "drm_buddy \<Rightarrow> u64 \<Rightarrow> nat list \<Rightarrow> nat option \<Rightarrow> nat option \<Rightarrow> nat option option" where
  "maxblock_loop mm flags [] max_block block = Some max_block"
| "maxblock_loop mm flags (i # is) max_block block =
     do { found \<leftarrow> last_compatible mm flags (rev (free_list mm ! i));
          let block = (if found = None then block else found);
          case block of
            None \<Rightarrow> maxblock_loop mm flags is max_block block
          | Some b \<Rightarrow>
              (case max_block of
                 None \<Rightarrow> maxblock_loop mm flags is block block
               | Some m \<Rightarrow>
                   do { bb \<leftarrow> slab mm b;
                        mb \<leftarrow> slab mm m;
                        maxblock_loop mm flags is
                          (if drm_buddy_block_offset mb < drm_buddy_block_offset bb then block else max_block)
                          block }) }"

definition get_maxblock :: "nat \<Rightarrow> u64 \<Rightarrow> drm_buddy \<Rightarrow> nat option option" where
  "get_maxblock order flags mm = maxblock_loop mm flags [order..<max_order mm + 1] None None"

text \<open>The first order with an entry that the flags allow, with that entry.\<close>

fun first_compatible :: "drm_buddy \<Rightarrow> u64 \<Rightarrow> nat list \<Rightarrow> (nat \<times> nat) option option" where
  "first_compatible mm flags [] = Some None"
| "first_compatible mm flags (tmp # tmps) =
     do { found \<leftarrow> last_compatible mm flags (rev (free_list mm ! tmp));
          case found of None \<Rightarrow> first_compatible mm flags tmps | Some b \<Rightarrow> Some (Some (b, tmp)) }"

fun first_nonempty :: "drm_buddy \<Rightarrow> nat list \<Rightarrow> (nat \<times> nat) option" where
  "first_nonempty mm [] = None"
| "first_nonempty mm (tmp # tmps) =
     (if free_list mm ! tmp \<noteq> [] then Some (last (free_list mm ! tmp), tmp) else first_nonempty mm tmps)"

fun split_down :: "nat \<Rightarrow> nat \<Rightarrow> nat \<Rightarrow> drm_buddy \<Rightarrow> ((errno + nat) \<times> drm_buddy) option" where
  "split_down order tmp b mm =
     (if tmp = order then Some (Inr b, mm)
      else case tmp of
        0 \<Rightarrow> None
      | Suc tmp' \<Rightarrow>
          do { (err, mm) \<leftarrow> split_block b mm;
               if err \<noteq> OK then do { (_, mm) \<leftarrow> do_drm_buddy_free False b mm; Some (Inl err, mm) }
               else do { block \<leftarrow> slab mm b; r \<leftarrow> right block; split_down order tmp' r mm } })"

definition alloc_from_freelist :: "nat \<Rightarrow> u64 \<Rightarrow> drm_buddy \<Rightarrow> ((errno + nat) \<times> drm_buddy) option" where
  "alloc_from_freelist order flags mm =
     do { found \<leftarrow> if flags AND DRM_BUDDY_TOPDOWN_ALLOCATION \<noteq> 0
            then do { res \<leftarrow> get_maxblock order flags mm;
                      case res of
                        None \<Rightarrow> Some None
                      | Some b \<Rightarrow> do { block \<leftarrow> slab mm b; Some (Some (b, drm_buddy_block_order block)) } }
            else first_compatible mm flags [order..<max_order mm + 1];
          case (if found = None then first_nonempty mm [order..<max_order mm + 1] else found) of
            None \<Rightarrow> Some (Inl ENOSPC, mm)
          | Some (b, tmp) \<Rightarrow>
              do { block \<leftarrow> slab mm b;
                   if \<not> drm_buddy_block_is_free block then None else split_down order tmp b mm } }"

section \<open>Allocating a range\<close>

text \<open>
  The loop of \<^verbatim>\<open>__alloc_range\<close> with its counter of allocated bytes and its list of allocated blocks.
\<close>

partial_function (option) alloc_range_loop ::
    "u64 \<Rightarrow> u64 \<Rightarrow> u64 \<Rightarrow> nat list \<Rightarrow> nat list \<Rightarrow> drm_buddy \<Rightarrow>
      (errno \<times> u64 \<times> nat list \<times> drm_buddy) option" where
  "alloc_range_loop start end tot allocated stack mm =
     (case stack of
        [] \<Rightarrow> Some (OK, tot, allocated, mm)
      | b # dfs \<Rightarrow> do {
          block \<leftarrow> slab mm b;
          let block_start = drm_buddy_block_offset block;
          let block_end = block_start + drm_buddy_block_size mm block - 1;
          if \<not> overlaps start end block_start block_end
          then alloc_range_loop start end tot allocated dfs mm
          else if drm_buddy_block_is_allocated block then Some (ENOSPC, tot, allocated, mm)
          else if contains start end block_start block_end \<and> drm_buddy_block_is_free block
          then do {
            mm \<leftarrow> mark_allocated b mm;
            let mm = mm\<lparr>avail := avail mm - drm_buddy_block_size mm block\<rparr>;
            let mm = sub_clear_avail (drm_buddy_block_is_clear block) block mm;
            alloc_range_loop start end (tot + drm_buddy_block_size mm block) (allocated @ [b]) dfs mm }
          else if contains start end block_start block_end \<and> clear_avail mm = 0
          then Some (ENOSPC, tot, allocated, mm)
          else do {
            (err, mm) \<leftarrow> if \<not> drm_buddy_block_is_split block then split_block b mm else Some (OK, mm);
            if err \<noteq> OK then do { mm \<leftarrow> undo_split b mm; Some (err, tot, allocated, mm) }
            else do { dfs \<leftarrow> push_children b dfs mm;
                      alloc_range_loop start end tot allocated dfs mm } } })"

declare alloc_range_loop.simps [code]

text \<open>
  \<open>want_total\<close> is whether \<^verbatim>\<open>total_allocated_on_err\<close> is not null; the second component of the result is the
  number written there, if any, and the third the list \<open>blocks\<close>.
\<close>

definition do_alloc_range ::
    "nat list \<Rightarrow> u64 \<Rightarrow> u64 \<Rightarrow> nat list \<Rightarrow> bool \<Rightarrow> drm_buddy \<Rightarrow>
      (errno \<times> u64 option \<times> nat list \<times> drm_buddy) option" where
  "do_alloc_range dfs start sz blocks want_total mm =
     do { (err, tot, allocated, mm) \<leftarrow> alloc_range_loop start (start + sz - 1) 0 [] dfs mm;
          if err = OK \<and> sz \<le> tot then Some (OK, None, blocks @ allocated, mm)
          else do { let err = (if err = OK then ENOSPC else err);
                    if err = ENOSPC \<and> want_total then Some (err, Some tot, blocks @ allocated, mm)
                    else do { mm \<leftarrow> drm_buddy_free_list_internal allocated mm;
                              Some (err, None, blocks, mm) } } }"

definition do_drm_buddy_alloc_range ::
    "u64 \<Rightarrow> u64 \<Rightarrow> bool \<Rightarrow> nat list \<Rightarrow> drm_buddy \<Rightarrow>
      (errno \<times> u64 option \<times> nat list \<times> drm_buddy) option" where
  "do_drm_buddy_alloc_range start sz want_total blocks mm =
     do_alloc_range (roots mm) start sz blocks want_total mm"

text \<open>\<^verbatim>\<open>fls\<close> takes an \<^verbatim>\<open>unsigned int\<close>, and the difference is unsigned.\<close>

definition order_of_pages :: "u64 \<Rightarrow> nat" where
  "order_of_pages pages = (let p = (ucast pages :: u32) in if p = 0 then 2 ^ 32 - 1 else fls p - 1)"

partial_function (option) try_harder_loop ::
    "nat \<Rightarrow> u64 \<Rightarrow> u64 \<Rightarrow> nat option \<Rightarrow> nat list \<Rightarrow> drm_buddy \<Rightarrow> (errno \<times> nat list \<times> drm_buddy) option" where
  "try_harder_loop order sz min_block_size pos blocks mm =
     (case pos of
        None \<Rightarrow> Some (ENOSPC, blocks, mm)
      | Some b \<Rightarrow> do {
          block \<leftarrow> slab mm b;
          (err, filled, blocks, mm) \<leftarrow>
            do_drm_buddy_alloc_range (drm_buddy_block_offset block) sz True blocks mm;
          if err \<noteq> ENOSPC then Some (err, blocks, mm)
          else do {
            filled \<leftarrow> filled;
            let lhs_size = max (sz - filled) min_block_size;
            let lhs_size = (if \<not> IS_ALIGNED lhs_size min_block_size
                            then round_up lhs_size min_block_size else lhs_size);
            block \<leftarrow> slab mm b;
            (err, _, blocks_lhs, mm) \<leftarrow>
              do_drm_buddy_alloc_range (drm_buddy_block_offset block - lhs_size) lhs_size False [] mm;
            if err = OK then Some (OK, blocks_lhs @ blocks, mm)
            else do {
              mm \<leftarrow> drm_buddy_free_list_internal blocks mm;
              if err \<noteq> ENOSPC then Some (err, [], mm)
              else if b \<in> set (free_list mm ! order)
              then try_harder_loop order sz min_block_size (list_prev b (free_list mm ! order)) [] mm
              else None } } })"

declare try_harder_loop.simps [code]

definition do_alloc_contig_try_harder ::
    "u64 \<Rightarrow> u64 \<Rightarrow> nat list \<Rightarrow> drm_buddy \<Rightarrow> (errno \<times> nat list \<times> drm_buddy) option" where
  "do_alloc_contig_try_harder sz min_block_size blocks mm =
     (let modify_size = rounddown_pow_of_two sz;
          pages = drop_bit (ilog2 (chunk_size mm)) modify_size;
          order = order_of_pages pages
      in if order = 0 then Some (ENOSPC, blocks, mm)
         else if length (free_list mm) \<le> order then None
         else if free_list mm ! order = [] then Some (ENOSPC, blocks, mm)
         else try_harder_loop order sz min_block_size (list_last (free_list mm ! order)) blocks mm)"

section \<open>Trimming\<close>

definition drm_buddy_block_trim ::
    "u64 option \<Rightarrow> u64 \<Rightarrow> nat list \<Rightarrow> drm_buddy \<Rightarrow> (errno \<times> nat list \<times> drm_buddy) option" where
  "drm_buddy_block_trim start new_size blocks mm =
     (case blocks of
        [b] \<Rightarrow> do {
          block \<leftarrow> slab mm b;
          let block_start = drm_buddy_block_offset block;
          let block_end = block_start + drm_buddy_block_size mm block;
          let new_start = (case start of None \<Rightarrow> block_start | Some s \<Rightarrow> s);
          if \<not> drm_buddy_block_is_allocated block then Some (EINVAL, blocks, warn_on True mm)
          else if drm_buddy_block_size mm block < new_size then Some (EINVAL, blocks, mm)
          else if new_size = 0 \<or> \<not> IS_ALIGNED new_size (chunk_size mm) then Some (EINVAL, blocks, mm)
          else if new_size = drm_buddy_block_size mm block then Some (OK, blocks, mm)
          else if start \<noteq> None \<and> (new_start < block_start \<or> \<not> IS_ALIGNED new_start (chunk_size mm) \<or>
                    range_overflows new_start new_size block_end)
          then Some (EINVAL, blocks, mm)
          else do {
            mm \<leftarrow> mark_free b mm;
            let mm = mm\<lparr>avail := avail mm + drm_buddy_block_size mm block\<rparr>;
            let mm = add_clear_avail (drm_buddy_block_is_clear block) block mm;
            mm \<leftarrow> set_block b (\<lambda>x. x\<lparr>parent := None\<rparr>) mm;
            (err, _, blocks, mm) \<leftarrow> do_alloc_range [b] new_start new_size [] False mm;
            (blocks, mm) \<leftarrow>
              if err \<noteq> OK
              then do { mm \<leftarrow> mark_allocated b mm;
                        block \<leftarrow> slab mm b;
                        let mm = mm\<lparr>avail := avail mm - drm_buddy_block_size mm block\<rparr>;
                        let mm = sub_clear_avail (drm_buddy_block_is_clear block) block mm;
                        Some (b # blocks, mm) }
              else Some (blocks, mm);
            mm \<leftarrow> set_block b (\<lambda>x. x\<lparr>parent := parent block\<rparr>) mm;
            Some (err, blocks, mm) } }
      | _ \<Rightarrow> Some (EINVAL, blocks, mm))"

section \<open>Allocation\<close>

definition do_drm_buddy_alloc_blocks ::
    "u64 \<Rightarrow> u64 \<Rightarrow> nat \<Rightarrow> u64 \<Rightarrow> drm_buddy \<Rightarrow> ((errno + nat) \<times> drm_buddy) option" where
  "do_drm_buddy_alloc_blocks start end order flags mm =
     (if flags AND DRM_BUDDY_RANGE_ALLOCATION \<noteq> 0
      then do_drm_buddy_alloc_range_bias start end order flags mm
      else alloc_from_freelist order flags mm)"

text \<open>
  The inner loop of \<^verbatim>\<open>drm_buddy_alloc_blocks\<close>, which lowers the order down to \<open>min_order\<close> and then tries once
  more after a forced merge. The result is the block with its order.
\<close>

definition alloc_after_merge ::
    "u64 \<Rightarrow> u64 \<Rightarrow> nat \<Rightarrow> u64 \<Rightarrow> drm_buddy \<Rightarrow> ((nat \<times> nat) option \<times> drm_buddy) option" where
  "alloc_after_merge start end min_order flags mm =
     do { (err, mm) \<leftarrow> if clear_avail mm \<noteq> 0 then do_force_merge start end min_order mm else Some (ENOMEM, mm);
          if err = OK
          then do { (res, mm) \<leftarrow> do_drm_buddy_alloc_blocks start end min_order flags mm;
                    Some (case res of Inr b \<Rightarrow> Some (b, min_order) | Inl _ \<Rightarrow> None, mm) }
          else Some (None, mm) }"

fun alloc_orders ::
    "u64 \<Rightarrow> u64 \<Rightarrow> nat \<Rightarrow> u64 \<Rightarrow> nat \<Rightarrow> drm_buddy \<Rightarrow> ((nat \<times> nat) option \<times> drm_buddy) option" where
  "alloc_orders start end min_order flags order mm =
     do { (res, mm) \<leftarrow> do_drm_buddy_alloc_blocks start end order flags mm;
          case res of
            Inr b \<Rightarrow> Some (Some (b, order), mm)
          | Inl _ \<Rightarrow>
              if order = min_order then alloc_after_merge start end min_order flags mm
              else (case order of
                      0 \<Rightarrow> None
                    | Suc order' \<Rightarrow> alloc_orders start end min_order flags order' mm) }"

partial_function (option) alloc_pages_loop ::
    "u64 \<Rightarrow> u64 \<Rightarrow> nat \<Rightarrow> u64 \<Rightarrow> nat \<Rightarrow> u64 \<Rightarrow> nat list \<Rightarrow> drm_buddy \<Rightarrow>
      (bool \<times> nat list \<times> drm_buddy) option" where
  "alloc_pages_loop start end min_order flags order pages allocated mm =
     do { let order = min order (order_of_pages pages);
          if max_order mm < order \<or> order < min_order then None
          else do {
            (found, mm) \<leftarrow> alloc_orders start end min_order flags order mm;
            case found of
              None \<Rightarrow> Some (False, allocated, mm)
            | Some (b, order) \<Rightarrow> do {
                block \<leftarrow> slab mm b;
                mm \<leftarrow> mark_allocated b mm;
                let mm = mm\<lparr>avail := avail mm - drm_buddy_block_size mm block\<rparr>;
                let mm = sub_clear_avail (drm_buddy_block_is_clear block) block mm;
                let pages = pages - BIT order;
                if pages = 0 then Some (True, allocated @ [b], mm)
                else alloc_pages_loop start end min_order flags order pages (allocated @ [b]) mm } } }"

declare alloc_pages_loop.simps [code]

definition trim_allocated ::
    "u64 \<Rightarrow> u64 \<Rightarrow> nat list \<Rightarrow> drm_buddy \<Rightarrow> (nat list \<times> drm_buddy) option" where
  "trim_allocated original_size sz allocated mm =
     (if length allocated = 1
      then do { (_, allocated, mm) \<leftarrow> drm_buddy_block_trim None original_size allocated mm;
                Some (allocated, mm) }
      else do { let b = last allocated;
                block \<leftarrow> slab mm b;
                let trim_size = drm_buddy_block_size mm block - (sz - original_size);
                (_, temp, mm) \<leftarrow> drm_buddy_block_trim None trim_size [b] mm;
                Some (butlast allocated @ temp, mm) })"

definition alloc_params_valid :: "u64 \<Rightarrow> u64 \<Rightarrow> u64 \<Rightarrow> u64 \<Rightarrow> drm_buddy \<Rightarrow> bool" where
  "alloc_params_valid start end sz min_block_size mm \<longleftrightarrow>
     \<not> sz < chunk_size mm \<and> \<not> min_block_size < chunk_size mm \<and> is_power_of_2 min_block_size \<and>
     IS_ALIGNED (start OR end OR sz) (chunk_size mm) \<and> \<not> mm_size mm < end \<and>
     \<not> range_overflows start sz (mm_size mm)"

text \<open>The size and the minimal block size after rounding.\<close>

definition rounded_sizes :: "u64 \<Rightarrow> u64 \<Rightarrow> u64 \<Rightarrow> u64 \<times> u64" where
  "rounded_sizes sz min_block_size flags =
     (if flags AND DRM_BUDDY_CONTIGUOUS_ALLOCATION \<noteq> 0
      then (roundup_pow_of_two sz, roundup_pow_of_two sz)
      else if \<not> IS_ALIGNED sz min_block_size then (round_up sz min_block_size, min_block_size)
      else (sz, min_block_size))"

definition drm_buddy_alloc_blocks ::
    "u64 \<Rightarrow> u64 \<Rightarrow> u64 \<Rightarrow> u64 \<Rightarrow> nat list \<Rightarrow> u64 \<Rightarrow> drm_buddy \<Rightarrow>
      (errno \<times> nat list \<times> drm_buddy) option" where
  "drm_buddy_alloc_blocks start end original_size original_min_size blocks flags mm =
     (if \<not> alloc_params_valid start end original_size original_min_size mm then Some (EINVAL, blocks, mm)
      else if start + original_size = end
      then if \<not> IS_ALIGNED (start OR end) original_min_size then Some (EINVAL, blocks, mm)
           else do { (err, _, blocks, mm) \<leftarrow> do_drm_buddy_alloc_range start original_size False blocks mm;
                     Some (err, blocks, mm) }
      else do {
        let (sz, min_block_size) = rounded_sizes original_size original_min_size flags;
        let pages = drop_bit (ilog2 (chunk_size mm)) sz;
        let min_order = ilog2 min_block_size - ilog2 (chunk_size mm);
        (ok, allocated, mm) \<leftarrow>
          alloc_pages_loop start end min_order flags (order_of_pages pages) pages [] mm;
        if ok
        then do {
          (allocated, mm) \<leftarrow>
            if flags AND DRM_BUDDY_TRIM_DISABLE = 0 \<and> original_size \<noteq> sz
            then trim_allocated original_size sz allocated mm else Some (allocated, mm);
          Some (OK, blocks @ allocated, mm) }
        else if flags AND DRM_BUDDY_CONTIGUOUS_ALLOCATION \<noteq> 0 \<and> flags AND DRM_BUDDY_RANGE_ALLOCATION = 0
        then do_alloc_contig_try_harder original_size original_min_size blocks mm
        else do { mm \<leftarrow> drm_buddy_free_list_internal allocated mm;
                  Some (ENOSPC, blocks, mm) } })"

end
