(* ===== verification/Buddy_Inv.thy ===== *)
theory Buddy_Inv
  imports Buddy "HOL-Library.Disjoint_Sets"
begin

text \<open>
  The invariant of the buddy allocator. The blocks of the store form binary trees whose leaves, the
  free and the allocated blocks, tile the managed space; each free list holds the free blocks of its
  order, sorted by offset; the counters are the sums of the free blocks.
\<close>

section \<open>Header fields\<close>

lemma bit_states:
  "bit DRM_BUDDY_ALLOCATED n \<longleftrightarrow> n = 10"
  "bit DRM_BUDDY_FREE n \<longleftrightarrow> n = 11"
  "bit DRM_BUDDY_SPLIT n \<longleftrightarrow> n = 10 \<or> n = 11"
proof -
  have 3: "(push_bit 10 3 :: u64) = push_bit 10 1 OR push_bit 10 2"
    by simp
  show "bit DRM_BUDDY_ALLOCATED n \<longleftrightarrow> n = 10" "bit DRM_BUDDY_FREE n \<longleftrightarrow> n = 11"
    "bit DRM_BUDDY_SPLIT n \<longleftrightarrow> n = 10 \<or> n = 11"
    unfolding DRM_BUDDY_ALLOCATED_def DRM_BUDDY_FREE_def DRM_BUDDY_SPLIT_def 3
    by (auto simp only: bit_or_iff bit_push_bit_iff bit_1_iff bit_2_iff)
      (auto simp: possible_bit_def)
qed

lemmas header_masks = DRM_BUDDY_HEADER_OFFSET_def DRM_BUDDY_HEADER_STATE_def DRM_BUDDY_HEADER_CLEAR_def
  DRM_BUDDY_HEADER_UNUSED_def DRM_BUDDY_HEADER_ORDER_def

lemma block_states_distinct [simp]:
  "DRM_BUDDY_ALLOCATED \<noteq> DRM_BUDDY_FREE" "DRM_BUDDY_ALLOCATED \<noteq> DRM_BUDDY_SPLIT" "DRM_BUDDY_FREE \<noteq> DRM_BUDDY_SPLIT"
  "DRM_BUDDY_FREE \<noteq> DRM_BUDDY_ALLOCATED" "DRM_BUDDY_SPLIT \<noteq> DRM_BUDDY_ALLOCATED" "DRM_BUDDY_SPLIT \<noteq> DRM_BUDDY_FREE"
  by (simp_all add: DRM_BUDDY_ALLOCATED_def DRM_BUDDY_FREE_def DRM_BUDDY_SPLIT_def)

definition block_state :: "u64 \<Rightarrow> bool" where
  "block_state s \<longleftrightarrow> s \<in> {DRM_BUDDY_ALLOCATED, DRM_BUDDY_FREE, DRM_BUDDY_SPLIT}"

lemma block_state_bits: "block_state s \<Longrightarrow> bit s n \<Longrightarrow> n = 10 \<or> n = 11"
  by (auto simp: block_state_def bit_states)

lemma clear_iff_bit: "h AND DRM_BUDDY_HEADER_CLEAR \<noteq> 0 \<longleftrightarrow> bit h 9"
proof
  assume "h AND DRM_BUDDY_HEADER_CLEAR \<noteq> 0"
  then obtain n where "bit (h AND DRM_BUDDY_HEADER_CLEAR) n"
    by (auto simp: bit_eq_iff)
  then have "bit h n" "9 \<le> n" "n \<le> 9"
    by (auto simp: bit_and_iff header_masks bit_GENMASK_ULL)
  then show "bit h 9"
    by (metis le_antisym)
next
  assume "bit h 9"
  then have "bit (h AND DRM_BUDDY_HEADER_CLEAR) 9"
    by (simp add: bit_and_iff header_masks bit_GENMASK_ULL)
  then show "h AND DRM_BUDDY_HEADER_CLEAR \<noteq> 0"
    by (metis bit_0_eq bot_apply bot_bool_def)
qed

lemma header_with_state:
  assumes "block_state s"
  shows "(h AND NOT DRM_BUDDY_HEADER_STATE OR s) AND DRM_BUDDY_HEADER_OFFSET = h AND DRM_BUDDY_HEADER_OFFSET"
    "(h AND NOT DRM_BUDDY_HEADER_STATE OR s) AND DRM_BUDDY_HEADER_ORDER = h AND DRM_BUDDY_HEADER_ORDER"
    "(h AND NOT DRM_BUDDY_HEADER_STATE OR s) AND DRM_BUDDY_HEADER_STATE = s"
    "bit (h AND NOT DRM_BUDDY_HEADER_STATE OR s) 9 = bit h 9"
  using block_state_bits [OF assms]
  by (auto intro!: bit_word_eqI simp: bit_and_iff bit_or_iff bit_not_iff header_masks bit_GENMASK_ULL)
    fastforce+

lemma header_with_clear:
  "(h OR DRM_BUDDY_HEADER_CLEAR) AND DRM_BUDDY_HEADER_OFFSET = h AND DRM_BUDDY_HEADER_OFFSET"
  "(h OR DRM_BUDDY_HEADER_CLEAR) AND DRM_BUDDY_HEADER_ORDER = h AND DRM_BUDDY_HEADER_ORDER"
  "(h OR DRM_BUDDY_HEADER_CLEAR) AND DRM_BUDDY_HEADER_STATE = h AND DRM_BUDDY_HEADER_STATE"
  "bit (h OR DRM_BUDDY_HEADER_CLEAR) 9"
  "(h AND NOT DRM_BUDDY_HEADER_CLEAR) AND DRM_BUDDY_HEADER_OFFSET = h AND DRM_BUDDY_HEADER_OFFSET"
  "(h AND NOT DRM_BUDDY_HEADER_CLEAR) AND DRM_BUDDY_HEADER_ORDER = h AND DRM_BUDDY_HEADER_ORDER"
  "(h AND NOT DRM_BUDDY_HEADER_CLEAR) AND DRM_BUDDY_HEADER_STATE = h AND DRM_BUDDY_HEADER_STATE"
  "\<not> bit (h AND NOT DRM_BUDDY_HEADER_CLEAR) 9"
  by (auto intro!: bit_word_eqI simp: bit_and_iff bit_or_iff bit_not_iff header_masks bit_GENMASK_ULL)

lemma header_new:
  assumes "4096 dvd unat off" "n \<le> 51"
  shows "(off OR of_nat n) AND DRM_BUDDY_HEADER_OFFSET = off"
    "unat ((off OR of_nat n) AND DRM_BUDDY_HEADER_ORDER) = n"
    "(off OR of_nat n) AND DRM_BUDDY_HEADER_STATE = 0"
    "(off OR of_nat n) AND DRM_BUDDY_HEADER_UNUSED = 0"
    "\<not> bit (off OR of_nat n) 9"
proof -
  have o: "\<not> bit off i" if "i < 12" for i
  proof -
    have "take_bit 12 (unat off) = 0"
      using assms(1) by (simp add: take_bit_eq_mod)
    then have "\<not> bit (take_bit 12 (unat off)) i" by simp
    then show ?thesis
      using that by (simp add: bit_take_bit_iff bit_unsigned_iff)
  qed
  have n: "i < 6" if "bit (of_nat n :: u64) i" for i
  proof -
    have "take_bit 6 n = n"
      using assms(2) by (simp add: take_bit_nat_eq_self)
    then have "bit n i \<Longrightarrow> i < 6"
      by (metis bit_take_bit_iff)
    then show ?thesis using that by (simp add: bit_of_nat_iff)
  qed
  have *: "(off OR of_nat n) AND DRM_BUDDY_HEADER_ORDER = of_nat n"
    using o n by (intro bit_word_eqI) (fastforce simp: bit_and_iff bit_or_iff header_masks bit_GENMASK_ULL)
  show "unat ((off OR of_nat n) AND DRM_BUDDY_HEADER_ORDER) = n"
    unfolding * using assms(2) by (simp add: unat_of_nat_small)
  show "(off OR of_nat n) AND DRM_BUDDY_HEADER_OFFSET = off"
    using o by (intro bit_word_eqI) (fastforce simp: bit_and_iff bit_or_iff header_masks bit_GENMASK_ULL not_less dest: n o)
  show "(off OR of_nat n) AND DRM_BUDDY_HEADER_STATE = 0" "(off OR of_nat n) AND DRM_BUDDY_HEADER_UNUSED = 0"
    "\<not> bit (off OR of_nat n) 9"
    using o n by (auto intro!: bit_word_eqI simp: bit_and_iff bit_or_iff header_masks bit_GENMASK_ULL dest: n)
      fastforce+
qed

lemma block_state_intros [simp]:
  "block_state DRM_BUDDY_ALLOCATED" "block_state DRM_BUDDY_FREE" "block_state DRM_BUDDY_SPLIT"
  by (simp_all add: block_state_def)

lemmas block_field_defs = drm_buddy_block_offset_def drm_buddy_block_order_def drm_buddy_block_state_def
  drm_buddy_block_is_allocated_def drm_buddy_block_is_free_def drm_buddy_block_is_split_def
  drm_buddy_block_is_clear_def clear_iff_bit

lemma with_state_fields [simp]:
  assumes "block_state s"
  shows "drm_buddy_block_offset (with_state s x) = drm_buddy_block_offset x"
    "drm_buddy_block_order (with_state s x) = drm_buddy_block_order x"
    "drm_buddy_block_is_clear (with_state s x) = drm_buddy_block_is_clear x"
    "drm_buddy_block_is_allocated (with_state s x) \<longleftrightarrow> s = DRM_BUDDY_ALLOCATED"
    "drm_buddy_block_is_free (with_state s x) \<longleftrightarrow> s = DRM_BUDDY_FREE"
    "drm_buddy_block_is_split (with_state s x) \<longleftrightarrow> s = DRM_BUDDY_SPLIT"
  using header_with_state [OF assms] by (simp_all add: block_field_defs with_state_def)

lemma clear_mask_nonzero [simp]: "DRM_BUDDY_HEADER_CLEAR \<noteq> 0"
  by (simp add: DRM_BUDDY_HEADER_CLEAR_def GENMASK_ULL_def mask_eq_exp_minus_1)

lemma with_clear_fields [simp]:
  "drm_buddy_block_offset (with_clear x) = drm_buddy_block_offset x"
  "drm_buddy_block_order (with_clear x) = drm_buddy_block_order x"
  "drm_buddy_block_is_clear (with_clear x)"
  "drm_buddy_block_is_allocated (with_clear x) = drm_buddy_block_is_allocated x"
  "drm_buddy_block_is_free (with_clear x) = drm_buddy_block_is_free x"
  "drm_buddy_block_is_split (with_clear x) = drm_buddy_block_is_split x"
  "drm_buddy_block_offset (without_clear x) = drm_buddy_block_offset x"
  "drm_buddy_block_order (without_clear x) = drm_buddy_block_order x"
  "\<not> drm_buddy_block_is_clear (without_clear x)"
  "drm_buddy_block_is_allocated (without_clear x) = drm_buddy_block_is_allocated x"
  "drm_buddy_block_is_free (without_clear x) = drm_buddy_block_is_free x"
  "drm_buddy_block_is_split (without_clear x) = drm_buddy_block_is_split x"
  by (simp_all add: block_field_defs with_clear_def without_clear_def header_with_clear)

lemma pointer_fields [simp]:
  "left (with_state s x) = left x" "right (with_state s x) = right x" "parent (with_state s x) = parent x"
  "left (with_clear x) = left x" "right (with_clear x) = right x" "parent (with_clear x) = parent x"
  "left (without_clear x) = left x" "right (without_clear x) = right x" "parent (without_clear x) = parent x"
  by (simp_all add: with_state_def with_clear_def without_clear_def)

lemma header_only [simp]:
  "drm_buddy_block_offset (x\<lparr>left := l\<rparr>) = drm_buddy_block_offset x"
  "drm_buddy_block_offset (x\<lparr>right := l\<rparr>) = drm_buddy_block_offset x"
  "drm_buddy_block_offset (x\<lparr>parent := l\<rparr>) = drm_buddy_block_offset x"
  "drm_buddy_block_order (x\<lparr>left := l\<rparr>) = drm_buddy_block_order x"
  "drm_buddy_block_order (x\<lparr>right := l\<rparr>) = drm_buddy_block_order x"
  "drm_buddy_block_order (x\<lparr>parent := l\<rparr>) = drm_buddy_block_order x"
  "drm_buddy_block_state (x\<lparr>left := l\<rparr>) = drm_buddy_block_state x"
  "drm_buddy_block_state (x\<lparr>right := l\<rparr>) = drm_buddy_block_state x"
  "drm_buddy_block_state (x\<lparr>parent := l\<rparr>) = drm_buddy_block_state x"
  "drm_buddy_block_is_clear (x\<lparr>left := l\<rparr>) = drm_buddy_block_is_clear x"
  "drm_buddy_block_is_clear (x\<lparr>right := l\<rparr>) = drm_buddy_block_is_clear x"
  "drm_buddy_block_is_clear (x\<lparr>parent := l\<rparr>) = drm_buddy_block_is_clear x"
  by (simp_all add: drm_buddy_block_offset_def drm_buddy_block_order_def drm_buddy_block_state_def
      drm_buddy_block_is_clear_def)

lemma header_only_states [simp]:
  "drm_buddy_block_is_allocated (x\<lparr>left := l\<rparr>) = drm_buddy_block_is_allocated x"
  "drm_buddy_block_is_allocated (x\<lparr>right := l\<rparr>) = drm_buddy_block_is_allocated x"
  "drm_buddy_block_is_allocated (x\<lparr>parent := l\<rparr>) = drm_buddy_block_is_allocated x"
  "drm_buddy_block_is_free (x\<lparr>left := l\<rparr>) = drm_buddy_block_is_free x"
  "drm_buddy_block_is_free (x\<lparr>right := l\<rparr>) = drm_buddy_block_is_free x"
  "drm_buddy_block_is_free (x\<lparr>parent := l\<rparr>) = drm_buddy_block_is_free x"
  "drm_buddy_block_is_split (x\<lparr>left := l\<rparr>) = drm_buddy_block_is_split x"
  "drm_buddy_block_is_split (x\<lparr>right := l\<rparr>) = drm_buddy_block_is_split x"
  "drm_buddy_block_is_split (x\<lparr>parent := l\<rparr>) = drm_buddy_block_is_split x"
  by (simp_all add: drm_buddy_block_is_allocated_def drm_buddy_block_is_free_def drm_buddy_block_is_split_def)

lemma states_exclude:
  "drm_buddy_block_is_free x \<Longrightarrow> \<not> drm_buddy_block_is_allocated x \<and> \<not> drm_buddy_block_is_split x"
  "drm_buddy_block_is_allocated x \<Longrightarrow> \<not> drm_buddy_block_is_free x \<and> \<not> drm_buddy_block_is_split x"
  "drm_buddy_block_is_split x \<Longrightarrow> \<not> drm_buddy_block_is_free x \<and> \<not> drm_buddy_block_is_allocated x"
  by (auto simp: drm_buddy_block_is_allocated_def drm_buddy_block_is_free_def drm_buddy_block_is_split_def)

section \<open>Geometry\<close>

definition block_start :: "drm_buddy_block \<Rightarrow> nat" where
  "block_start x = unat (drm_buddy_block_offset x)"

definition block_bytes :: "drm_buddy \<Rightarrow> drm_buddy_block \<Rightarrow> nat" where
  "block_bytes mm x = unat (chunk_size mm) * 2 ^ drm_buddy_block_order x"

definition region :: "drm_buddy \<Rightarrow> drm_buddy_block \<Rightarrow> nat set" where
  "region mm x = {block_start x ..< block_start x + block_bytes mm x}"

definition leaf :: "drm_buddy_block \<Rightarrow> bool" where
  "leaf x \<longleftrightarrow> drm_buddy_block_is_allocated x \<or> drm_buddy_block_is_free x"

lemma leaf_not_split: "leaf x \<Longrightarrow> \<not> drm_buddy_block_is_split x"
  by (auto simp: leaf_def dest: states_exclude)

section \<open>Trees of blocks\<close>

text \<open>
  \<open>X\<close> is the set of blocks whose parent pointer is cut, as \<^verbatim>\<open>drm_buddy_block_trim\<close> does for the block it trims.
\<close>

definition child_of :: "nat set \<Rightarrow> drm_buddy \<Rightarrow> nat \<Rightarrow> drm_buddy_block \<Rightarrow> nat \<Rightarrow> nat \<Rightarrow> bool" where
  "child_of X mm b x c start \<longleftrightarrow>
     (\<exists>y. slab mm c = Some y \<and> Suc (drm_buddy_block_order y) = drm_buddy_block_order x \<and>
        block_start y = start \<and> parent y = (if c \<in> X then None else Some b))"

definition has_children :: "nat set \<Rightarrow> drm_buddy \<Rightarrow> nat \<Rightarrow> drm_buddy_block \<Rightarrow> bool" where
  "has_children X mm b x \<longleftrightarrow>
     (\<exists>l r. left x = Some l \<and> right x = Some r \<and> l \<noteq> r \<and> child_of X mm b x l (block_start x) \<and>
        child_of X mm b x r (block_start x + unat (chunk_size mm) * 2 ^ (drm_buddy_block_order x - 1)))"

definition block_ok :: "nat set \<Rightarrow> drm_buddy \<Rightarrow> nat \<Rightarrow> drm_buddy_block \<Rightarrow> bool" where
  "block_ok X mm b x \<longleftrightarrow>
     b < slab_next mm \<and> drm_buddy_block_order x \<le> max_order mm \<and> block_bytes mm x dvd block_start x \<and>
     block_start x + block_bytes mm x \<le> unat (mm_size mm) \<and>
     (leaf x \<or> drm_buddy_block_is_split x \<and> \<not> drm_buddy_block_is_clear x \<and> has_children X mm b x) \<and>
     (parent x = None \<longleftrightarrow> b \<in> set (roots mm) \<or> b \<in> X) \<and>
     (\<forall>p. parent x = Some p \<longrightarrow> (\<exists>y. slab mm p = Some y \<and> drm_buddy_block_is_split y \<and> Some b \<in> {left y, right y}))"

definition leaves :: "drm_buddy \<Rightarrow> nat set" where
  "leaves mm = {b. \<exists>x. slab mm b = Some x \<and> leaf x}"

definition region_of :: "drm_buddy \<Rightarrow> nat \<Rightarrow> nat set" where
  "region_of mm b = (case slab mm b of None \<Rightarrow> {} | Some x \<Rightarrow> region mm x)"

definition tiling :: "drm_buddy \<Rightarrow> nat set \<Rightarrow> bool" where
  "tiling mm B \<longleftrightarrow> disjoint_family_on (region_of mm) B \<and> (\<Union>b\<in>B. region_of mm b) = {0 ..< unat (mm_size mm)}"

text \<open>The blocks of a list follow one another from \<open>s\<close> to \<open>e\<close>.\<close>

fun chain :: "drm_buddy \<Rightarrow> nat list \<Rightarrow> nat \<Rightarrow> nat \<Rightarrow> bool" where
  "chain mm [] s e \<longleftrightarrow> s = e"
| "chain mm (b # bs) s e \<longleftrightarrow> (\<exists>x. slab mm b = Some x \<and> block_start x = s \<and> chain mm bs (s + block_bytes mm x) e)"

definition geometry :: "drm_buddy \<Rightarrow> bool" where
  "geometry mm \<longleftrightarrow> (\<exists>k. 12 \<le> k \<and> unat (chunk_size mm) = 2 ^ k) \<and> max_order mm \<le> DRM_BUDDY_MAX_ORDER"

definition tree_ok :: "nat set \<Rightarrow> drm_buddy \<Rightarrow> bool" where
  "tree_ok X mm \<longleftrightarrow> geometry mm \<and> (\<forall>b x. slab mm b = Some x \<longrightarrow> block_ok X mm b x) \<and>
     distinct (roots mm) \<and> (\<forall>b \<in> set (roots mm) \<union> X. slab mm b \<noteq> None) \<and>
     tiling mm (leaves mm) \<and> chain mm (roots mm) 0 (unat (mm_size mm))"

text \<open>What the operations never change.\<close>

definition same_shape :: "drm_buddy \<Rightarrow> drm_buddy \<Rightarrow> bool" where
  "same_shape mm mm' \<longleftrightarrow> chunk_size mm' = chunk_size mm \<and> mm_size mm' = mm_size mm \<and>
     max_order mm' = max_order mm \<and> roots mm' = roots mm \<and> n_roots mm' = n_roots mm \<and> slab_ok mm' = slab_ok mm"

lemma same_shape_refl [simp]: "same_shape mm mm"
  by (simp add: same_shape_def)

lemma same_shape_trans [trans]: "same_shape a b \<Longrightarrow> same_shape b c \<Longrightarrow> same_shape a c"
  by (simp add: same_shape_def)

lemma same_shape_eqs:
  assumes "same_shape mm mm'"
  shows "block_bytes mm' = block_bytes mm" "region mm' = region mm" "geometry mm' = geometry mm"
    "drm_buddy_block_size mm' = drm_buddy_block_size mm"
  using assms by (auto simp: same_shape_def block_bytes_def region_def geometry_def drm_buddy_block_size_def fun_eq_iff)

lemma tree_ok_cong:
  assumes "same_shape mm mm'" "slab mm' = slab mm" "slab_next mm' = slab_next mm"
  shows "tree_ok X mm' = tree_ok X mm"
proof -
  have c: "child_of X mm' = child_of X mm"
    using assms(2) by (simp add: child_of_def fun_eq_iff)
  have h: "has_children X mm' = has_children X mm"
    using c assms(1) by (simp add: has_children_def fun_eq_iff same_shape_def)
  have b: "block_ok X mm' = block_ok X mm"
    using h assms same_shape_eqs(1) [OF assms(1)] by (simp add: block_ok_def fun_eq_iff same_shape_def)
  have r: "region_of mm' = region_of mm"
    using assms(2) same_shape_eqs(2) [OF assms(1)] by (intro ext) (simp add: region_of_def split: option.split)
  have t: "tiling mm' = tiling mm"
    using assms(1) by (intro ext) (simp add: tiling_def r same_shape_def)
  have ch: "chain mm' bs s e = chain mm bs s e" for bs s e
    using assms(2) same_shape_eqs(1) [OF assms(1)] by (induction bs arbitrary: s) simp_all
  show ?thesis
    using b t ch assms same_shape_eqs(3) [OF assms(1)] by (simp add: tree_ok_def leaves_def same_shape_def)
qed

lemma tree_okD:
  assumes "tree_ok X mm" "slab mm b = Some x"
  shows "b < slab_next mm" "drm_buddy_block_order x \<le> max_order mm" "block_bytes mm x dvd block_start x"
    "block_start x + block_bytes mm x \<le> unat (mm_size mm)"
    "leaf x \<or> drm_buddy_block_is_split x \<and> \<not> drm_buddy_block_is_clear x \<and> has_children X mm b x"
    "parent x = None \<longleftrightarrow> b \<in> set (roots mm) \<or> b \<in> X"
    "\<And>p. parent x = Some p \<Longrightarrow> \<exists>y. slab mm p = Some y \<and> drm_buddy_block_is_split y \<and> Some b \<in> {left y, right y}"
  using assms unfolding tree_ok_def block_ok_def by blast+

lemma tree_okD2:
  assumes "tree_ok X mm"
  shows "geometry mm" "tiling mm (leaves mm)" "chain mm (roots mm) 0 (unat (mm_size mm))" "distinct (roots mm)"
  using assms by (simp_all add: tree_ok_def)

lemma geometryD:
  assumes "geometry mm"
  obtains k where "12 \<le> k" "unat (chunk_size mm) = 2 ^ k" "k < 64" "max_order mm \<le> 51"
proof -
  obtain k where k: "12 \<le> k" "unat (chunk_size mm) = 2 ^ k"
    using assms by (auto simp: geometry_def)
  have "(2::nat) ^ k < 2 ^ 64"
    using unat_u64 [of "chunk_size mm"] k(2) by simp
  then have "k < 64"
    by (metis nat_power_less_imp_less zero_less_numeral)
  then show ?thesis
    using that [of k] k assms by (simp add: geometry_def DRM_BUDDY_MAX_ORDER_def)
qed

lemma chain_cong:
  assumes "same_shape mm mm'"
    and "\<And>b x. b \<in> set bs \<Longrightarrow> slab mm b = Some x \<Longrightarrow>
      \<exists>y. slab mm' b = Some y \<and> block_start y = block_start x \<and> block_bytes mm y = block_bytes mm x"
    and "chain mm bs s e"
  shows "chain mm' bs s e"
  using assms(2,3) same_shape_eqs(1) [OF assms(1)]
proof (induction bs arbitrary: s)
  case (Cons b bs)
  then obtain x where x: "slab mm b = Some x" "block_start x = s" "chain mm bs (s + block_bytes mm x) e"
    by auto
  then obtain y where "slab mm' b = Some y" "block_start y = block_start x" "block_bytes mm y = block_bytes mm x"
    using Cons.prems(1) [of b] by auto
  then show ?case
    using Cons.IH [OF _ x(3)] Cons.prems(1,3) x(2) by auto
qed simp

text \<open>A leaf may change its state and its clear flag.\<close>

definition same_block :: "drm_buddy_block \<Rightarrow> drm_buddy_block \<Rightarrow> bool" where
  "same_block x y \<longleftrightarrow> drm_buddy_block_offset y = drm_buddy_block_offset x \<and>
     drm_buddy_block_order y = drm_buddy_block_order x \<and> parent y = parent x"

lemma same_block_eqs:
  assumes "same_block x y"
  shows "block_start y = block_start x" "block_bytes mm y = block_bytes mm x" "region mm y = region mm x"
    "parent y = parent x" "drm_buddy_block_order y = drm_buddy_block_order x"
    "drm_buddy_block_size mm y = drm_buddy_block_size mm x"
  using assms by (simp_all add: same_block_def block_start_def block_bytes_def region_def drm_buddy_block_size_def)

lemma child_of_update:
  assumes "slab mm b = Some x" "same_block x y" "slab mm' = (slab mm)(b \<mapsto> y)"
  shows "child_of X mm' c z d s = child_of X mm c z d s"
  using assms same_block_eqs [OF assms(2)] by (auto simp: child_of_def)

lemma region_of_update:
  assumes "same_shape mm mm'" "slab mm b = Some x" "same_block x y" "slab mm' = (slab mm)(b \<mapsto> y)"
  shows "region_of mm' = region_of mm"
  using assms(2,4) same_block_eqs(3) [OF assms(3)] same_shape_eqs(2) [OF assms(1)]
  by (intro ext) (simp add: region_of_def split: option.split)

lemma tree_ok_leaf_update:
  assumes "tree_ok X mm" "slab mm b = Some x" "leaf x" "leaf y" "same_block x y"
    and "same_shape mm mm'" "slab mm' = (slab mm)(b \<mapsto> y)" "slab_next mm' = slab_next mm"
  shows "tree_ok X mm'"
proof -
  note c = child_of_update [OF assms(2,5,7)] and r = region_of_update [OF assms(6,2,5,7)]
  have h: "has_children X mm' = has_children X mm"
    using assms(6) by (simp add: has_children_def c fun_eq_iff same_shape_def)
  have l: "leaves mm' = leaves mm"
    using assms(2,3,4,7) by (auto simp: leaves_def split: if_splits)
  have "block_ok X mm' d z" if d: "slab mm' d = Some z" for d z
  proof -
    define z0 where "z0 = (if d = b then x else z)"
    have z0: "slab mm d = Some z0"
      using d assms(2,7) by (auto simp: z0_def split: if_splits)
    have "same_block z0 z" "leaf z0 = leaf z" "z0 = z \<or> leaf z"
      using d assms(4,5,7,3) by (auto simp: z0_def same_block_def split: if_splits)
    moreover have "\<exists>w. slab mm' p = Some w \<and> drm_buddy_block_is_split w \<and> Some d \<in> {left w, right w}"
      if "parent z0 = Some p" for p
      using tree_okD(7) [OF assms(1) z0 that] assms(2,3,7) leaf_not_split [of x] by (auto split: if_splits)
    ultimately show ?thesis
      using tree_okD [OF assms(1) z0] assms(6,8) same_block_eqs [of z0 z] same_shape_eqs(1) [OF assms(6)]
      unfolding block_ok_def h by (auto simp: same_shape_def)
  qed
  moreover have "chain mm' (roots mm) 0 (unat (mm_size mm))"
    by (rule chain_cong [OF assms(6) _ tree_okD2(3) [OF assms(1)]])
      (use assms(2,7) same_block_eqs [OF assms(5)] in auto)
  ultimately show ?thesis
    using assms(1,2,6,7) r l same_shape_eqs(3) [OF assms(6)]
    by (auto simp: tree_ok_def tiling_def same_shape_def)
qed

lemma tree_ok_live:
  assumes "tree_ok X mm" "b \<in> set (roots mm) \<or> b \<in> X"
  shows "slab mm b \<noteq> None" "b < slab_next mm"
proof -
  show l: "slab mm b \<noteq> None"
    using assms unfolding tree_ok_def by blast
  then show "b < slab_next mm"
    using tree_okD(1) [OF assms(1)] by blast
qed

lemma has_childrenD:
  assumes "has_children X mm b x"
  obtains l r where "left x = Some l" "right x = Some r" "l \<noteq> r" "child_of X mm b x l (block_start x)"
    "child_of X mm b x r (block_start x + unat (chunk_size mm) * 2 ^ (drm_buddy_block_order x - 1))"
  using assms unfolding has_children_def by blast

lemma tiling_split:
  assumes "b \<notin> B" "l \<notin> B" "r \<notin> B" "l \<noteq> r"
    and u: "region_of mm l \<union> region_of mm r = region_of mm b" and "region_of mm l \<inter> region_of mm r = {}"
  shows "tiling mm (insert b B) \<longleftrightarrow> tiling mm (insert l (insert r B))"
proof -
  have "disjoint_family_on (region_of mm) (insert b B) \<longleftrightarrow>
      disjoint_family_on (region_of mm) (insert l (insert r B))"
    using assms(1-4,6) by (auto simp: disjoint_family_on_insert u [symmetric])
  moreover have "(\<Union>c\<in>insert b B. region_of mm c) = (\<Union>c\<in>insert l (insert r B). region_of mm c)"
    by (auto simp: u [symmetric])
  ultimately show ?thesis
    unfolding tiling_def by simp
qed

lemma tiling_cong:
  assumes "same_shape mm mm'" "\<And>b. b \<in> B \<Longrightarrow> region_of mm' b = region_of mm b"
  shows "tiling mm' B = tiling mm B"
  using assms by (simp add: tiling_def disjoint_family_on_def same_shape_def)

lemma halves:
  assumes "Suc (drm_buddy_block_order y) = drm_buddy_block_order x"
  shows "block_bytes mm x = 2 * block_bytes mm y"
    "block_bytes mm y = unat (chunk_size mm) * 2 ^ (drm_buddy_block_order x - 1)"
  using assms by (auto simp: block_bytes_def simp flip: assms)

lemma halves_tile:
  assumes "Suc (drm_buddy_block_order y) = drm_buddy_block_order x" "block_start y = block_start x"
    and "Suc (drm_buddy_block_order z) = drm_buddy_block_order x"
    and "block_start z = block_start x + unat (chunk_size mm) * 2 ^ (drm_buddy_block_order x - 1)"
  shows "region mm y \<union> region mm z = region mm x" "region mm y \<inter> region mm z = {}"
    "block_bytes mm x dvd block_start x \<Longrightarrow> block_bytes mm y dvd block_start y \<and> block_bytes mm z dvd block_start z"
  using halves [OF assms(1), of mm] halves [OF assms(3), of mm] assms(2,4)
  by (auto simp: region_def dest: dvd_mult_right)

lemma tree_ok_split:
  assumes ok: "tree_ok X mm" and b: "slab mm b = Some x" "leaf x"
    and new: "l = slab_next mm" "r = Suc (slab_next mm)"
    and x': "same_block x x'" "drm_buddy_block_is_split x'" "\<not> drm_buddy_block_is_clear x'"
      "left x' = Some l" "right x' = Some r"
    and lb: "leaf lb" "parent lb = Some b" "Suc (drm_buddy_block_order lb) = drm_buddy_block_order x"
      "block_start lb = block_start x"
    and rb: "leaf rb" "parent rb = Some b" "Suc (drm_buddy_block_order rb) = drm_buddy_block_order x"
      "block_start rb = block_start x + unat (chunk_size mm) * 2 ^ (drm_buddy_block_order x - 1)"
    and mm': "same_shape mm mm'" "slab mm' = (slab mm)(b \<mapsto> x', l \<mapsto> lb, r \<mapsto> rb)" "slab_next mm' = Suc r"
  shows "tree_ok X mm'"
proof -
  have fresh: "slab mm l = None" "slab mm r = None" "l \<noteq> b" "r \<noteq> b" "l \<noteq> r" "l \<notin> X" "r \<notin> X"
      "l \<notin> set (roots mm)" "r \<notin> set (roots mm)"
    using tree_okD(1) [OF ok] tree_ok_live(2) [OF ok] new b(1) by (auto, fastforce+)
  note e = same_shape_eqs(1,2,3) [OF mm'(1)] same_block_eqs [OF x'(1)]
  have t: "region mm lb \<union> region mm rb = region mm x" "region mm lb \<inter> region mm rb = {}"
      "block_bytes mm lb dvd block_start lb \<and> block_bytes mm rb dvd block_start rb"
    using halves_tile [OF lb(3,4) rb(3,4)] tree_okD(3) [OF ok b(1)] by blast+
  have c: "child_of X mm' d z k s" if "child_of X mm d z k s" for d z k s
    using that fresh mm'(2) x'(1) b(1) by (auto simp: child_of_def e)
  have h: "has_children X mm' d z" if "has_children X mm d z" for d z
    using that mm'(1) by (auto simp: has_children_def same_shape_def intro: c)
  have pp: "\<exists>w. slab mm' p = Some w \<and> drm_buddy_block_is_split w \<and> Some d \<in> {left w, right w}"
    if "slab mm d = Some z" "parent z = Some p" for d z p
    using tree_okD(7) [OF ok that] fresh b leaf_not_split [OF b(2)] mm'(2) by (auto split: if_splits)
  have old: "block_ok X mm' d z" if d: "d \<noteq> b" "slab mm d = Some z" for d z
    using tree_okD [OF ok d(2)] h [of d z] pp [OF d(2)] mm'(1,3) new
    unfolding block_ok_def e(1) by (auto simp: same_shape_def)
  have self: "block_ok X mm' b x'"
  proof -
    have "has_children X mm' b x'"
      using x'(4,5) fresh mm' lb rb by (simp add: has_children_def child_of_def e same_shape_def)
    then show ?thesis
      using tree_okD [OF ok b(1)] pp [OF b(1)] mm'(1,3) new x'(2,3) unfolding block_ok_def e
      by (auto simp: same_shape_def)
  qed
  have kids: "block_ok X mm' l lb" "block_ok X mm' r rb"
    using tree_okD(2,4) [OF ok b(1)] halves(1) [OF lb(3), of mm] halves [OF rb(3), of mm] t(3) fresh lb rb mm' x' new
    unfolding block_ok_def e(1) by (auto simp: same_shape_def)
  have R: "region_of mm' d = region_of mm d" if "d \<noteq> l" "d \<noteq> r" for d
    using that mm'(2) b(1) e by (auto simp: region_of_def split: option.split)
  have R': "region_of mm' l \<union> region_of mm' r = region_of mm' b" "region_of mm' l \<inter> region_of mm' r = {}"
    using fresh mm'(2) t(1,2) by (auto simp: region_of_def e)
  have l: "insert b (leaves mm - {b}) = leaves mm" "leaves mm' = insert l (insert r (leaves mm - {b}))"
    using b fresh lb(1) rb(1) x'(2) mm'(2) leaf_not_split by (auto simp: leaves_def split: if_splits)
  have nl: "l \<notin> leaves mm" "r \<notin> leaves mm"
    using fresh by (auto simp: leaves_def)
  have "tiling mm' (leaves mm) = tiling mm (leaves mm)"
    by (rule tiling_cong [OF mm'(1)], rule R) (use nl in auto)
  then have "tiling mm' (insert b (leaves mm - {b}))"
    unfolding l(1) using tree_okD2(2) [OF ok] by simp
  then have "tiling mm' (leaves mm')"
    unfolding l(2) using tiling_split [OF _ _ _ fresh(5) R', of "leaves mm - {b}"] nl by blast
  moreover have "chain mm' (roots mm) 0 (unat (mm_size mm))"
    by (rule chain_cong [OF mm'(1) _ tree_okD2(3) [OF ok]]) (use fresh mm'(2) b(1) e in auto)
  moreover have "block_ok X mm' d z" if "slab mm' d = Some z" for d z
    using that old self kids fresh(3-5) mm'(2) by (auto split: if_splits)
  ultimately show ?thesis
    using ok mm' e(3) unfolding tree_ok_def same_shape_def by auto
qed

text \<open>The children of a split block in a tree without cuts.\<close>

lemma children_of:
  assumes "tree_ok {} mm" "slab mm p = Some y" "drm_buddy_block_is_split y"
  obtains l r lb rb where "left y = Some l" "right y = Some r" "l \<noteq> r" "l \<noteq> p" "r \<noteq> p"
    "slab mm l = Some lb" "slab mm r = Some rb" "parent lb = Some p" "parent rb = Some p"
    "Suc (drm_buddy_block_order lb) = drm_buddy_block_order y" "block_start lb = block_start y"
    "Suc (drm_buddy_block_order rb) = drm_buddy_block_order y"
    "block_start rb = block_start y + unat (chunk_size mm) * 2 ^ (drm_buddy_block_order y - 1)"
proof -
  have "has_children {} mm p y"
    using tree_okD(5) [OF assms(1,2)] assms(3) leaf_not_split by blast
  then obtain l r where lr: "left y = Some l" "right y = Some r" "l \<noteq> r" "child_of {} mm p y l (block_start y)"
      "child_of {} mm p y r (block_start y + unat (chunk_size mm) * 2 ^ (drm_buddy_block_order y - 1))"
    by (rule has_childrenD)
  show ?thesis
    using lr(4,5) assms(2) that [OF lr(1-3)] unfolding child_of_def by fastforce
qed

lemma tree_ok_merge:
  assumes ok: "tree_ok {} mm" and p: "slab mm p = Some y" "drm_buddy_block_is_split y"
    and lr: "left y = Some l" "right y = Some r" "slab mm l = Some lb" "slab mm r = Some rb" "leaf lb" "leaf rb"
    and y': "same_block y y'" "leaf y'"
    and mm': "same_shape mm mm'" "slab mm' = (slab mm)(l := None, r := None, p \<mapsto> y')" "slab_next mm' = slab_next mm"
  shows "tree_ok {} mm'"
proof -
  have k: "l \<noteq> r" "l \<noteq> p" "r \<noteq> p" "parent lb = Some p" "parent rb = Some p"
    and o: "Suc (drm_buddy_block_order lb) = drm_buddy_block_order y" "block_start lb = block_start y"
      "Suc (drm_buddy_block_order rb) = drm_buddy_block_order y"
      "block_start rb = block_start y + unat (chunk_size mm) * 2 ^ (drm_buddy_block_order y - 1)"
    using children_of [OF ok p] lr by (metis option.inject)+
  note e = same_shape_eqs(1,2,3) [OF mm'(1)] same_block_eqs [OF y'(1)]
  have nr: "l \<notin> set (roots mm)" "r \<notin> set (roots mm)"
    using tree_okD(6) [OF ok lr(3)] tree_okD(6) [OF ok lr(4)] k(4,5) by auto
  have c: "child_of {} mm' d z i s" if "child_of {} mm d z i s" "d \<noteq> p" for d z i s
    using that k lr(3,4) p(1) mm'(2) by (auto simp: child_of_def e)
  have h: "has_children {} mm' d z" if "has_children {} mm d z" "d \<noteq> p" for d z
    using that mm'(1) by (auto simp: has_children_def same_shape_def intro: c)
  have pp: "\<exists>w. slab mm' q = Some w \<and> drm_buddy_block_is_split w \<and> Some d \<in> {left w, right w}"
    if "slab mm d = Some z" "parent z = Some q" "d \<noteq> l" "d \<noteq> r" for d z q
    using tree_okD(7) [OF ok that(1,2)] that(3,4) p(1) lr leaf_not_split [OF lr(5)] leaf_not_split [OF lr(6)] mm'(2)
    by (auto split: if_splits)
  have old: "block_ok {} mm' d z" if d: "d \<notin> {l, r, p}" "slab mm d = Some z" for d z
    using tree_okD [OF ok d(2)] h [of d z] pp [OF d(2)] mm'(1,3) d(1)
    unfolding block_ok_def e(1) by (auto simp: same_shape_def)
  have self: "block_ok {} mm' p y'"
    using tree_okD [OF ok p(1)] pp [OF p(1)] mm'(1,3) y'(2) k(2,3) unfolding block_ok_def e
    by (auto simp: same_shape_def)
  have R: "region_of mm' d = region_of mm d" if "d \<noteq> l" "d \<noteq> r" for d
    using that mm'(2) p(1) e by (auto simp: region_of_def split: option.split)
  have R': "region_of mm l \<union> region_of mm r = region_of mm p" "region_of mm l \<inter> region_of mm r = {}"
    using halves_tile(1,2) [OF o] lr(3,4) p(1) by (simp_all add: region_of_def)
  define B where "B = leaves mm - {l, r}"
  have l: "leaves mm = insert l (insert r B)" "leaves mm' = insert p B"
    using lr p k mm'(2) y'(2) leaf_not_split by (auto simp: leaves_def B_def split: if_splits)
  have pB: "p \<notin> B"
    using p leaf_not_split by (auto simp: leaves_def B_def)
  have "tiling mm (insert p B)"
    using tree_okD2(2) [OF ok] tiling_split [OF pB _ _ k(1) R'] unfolding l(1) by (auto simp: B_def)
  moreover have "tiling mm' (insert p B) = tiling mm (insert p B)"
    by (rule tiling_cong [OF mm'(1)], rule R) (use k in \<open>auto simp: B_def\<close>)
  moreover have "chain mm' (roots mm) 0 (unat (mm_size mm))"
    by (rule chain_cong [OF mm'(1) _ tree_okD2(3) [OF ok]]) (use nr mm'(2) p(1) k(2,3) e in auto)
  moreover have "block_ok {} mm' d z" if "slab mm' d = Some z" for d z
    using that old self mm'(2) by (auto split: if_splits)
  ultimately show ?thesis
    using ok mm' e(3) nr unfolding tree_ok_def same_shape_def l(2) by auto
qed

end
