(* ===== verification/Buddy_Ops.thy ===== *)
theory Buddy_Ops
  imports Buddy_Inv
begin

text \<open>
  The free lists and the counters, and what the primitive operations do to them: linking and
  unlinking, marking, splitting a block and merging it with its buddy.
\<close>

section \<open>Free lists\<close>

definition offset_of :: "drm_buddy \<Rightarrow> nat \<Rightarrow> u64" where
  "offset_of mm b = (case slab mm b of None \<Rightarrow> 0 | Some x \<Rightarrow> drm_buddy_block_offset x)"

definition free_of_order :: "drm_buddy \<Rightarrow> nat \<Rightarrow> nat set" where
  "free_of_order mm n = {b. \<exists>x. slab mm b = Some x \<and> drm_buddy_block_is_free x \<and> drm_buddy_block_order x = n}"

lemma slab_views [simp]:
  "offset_of (mm\<lparr>free_list := fl\<rparr>) = offset_of mm" "free_of_order (mm\<lparr>free_list := fl\<rparr>) = free_of_order mm"
  "offset_of (mm\<lparr>avail := a\<rparr>) = offset_of mm" "free_of_order (mm\<lparr>avail := a\<rparr>) = free_of_order mm"
  "offset_of (mm\<lparr>clear_avail := a\<rparr>) = offset_of mm" "free_of_order (mm\<lparr>clear_avail := a\<rparr>) = free_of_order mm"
  "offset_of (mm\<lparr>warned := c\<rparr>) = offset_of mm" "free_of_order (mm\<lparr>warned := c\<rparr>) = free_of_order mm"
  by (simp_all add: offset_of_def free_of_order_def fun_eq_iff)

text \<open>The free lists are exact, apart from the blocks in \<open>Y\<close>, which are free but not linked.\<close>

definition lists_ok :: "nat set \<Rightarrow> drm_buddy \<Rightarrow> bool" where
  "lists_ok Y mm \<longleftrightarrow> length (free_list mm) = Suc (max_order mm) \<and>
     (\<forall>n \<le> max_order mm. distinct (free_list mm ! n) \<and> sorted (map (offset_of mm) (free_list mm ! n)) \<and>
        set (free_list mm ! n) = free_of_order mm n - Y)"

lemma lists_okD:
  assumes "lists_ok Y mm" "n \<le> max_order mm"
  shows "n < length (free_list mm)" "distinct (free_list mm ! n)" "sorted (map (offset_of mm) (free_list mm ! n))"
    "set (free_list mm ! n) = free_of_order mm n - Y"
  using assms by (auto simp: lists_ok_def)

lemma lists_ok_cong:
  assumes "free_list mm' = free_list mm" "max_order mm' = max_order mm"
    and "\<And>n. free_of_order mm' n - Y' = free_of_order mm n - Y"
    and "\<And>b n. b \<in> free_of_order mm n \<Longrightarrow> offset_of mm' b = offset_of mm b"
    and "lists_ok Y mm"
  shows "lists_ok Y' mm'"
  unfolding lists_ok_def assms(1,2,3)
proof (intro conjI allI impI)
  show "length (free_list mm) = Suc (max_order mm)"
    using assms(5) by (simp add: lists_ok_def)
  fix n assume n: "n \<le> max_order mm"
  note l = lists_okD [OF assms(5) n]
  show "distinct (free_list mm ! n)" "set (free_list mm ! n) = free_of_order mm n - Y"
    using l by simp_all
  have e: "map (offset_of mm') (free_list mm ! n) = map (offset_of mm) (free_list mm ! n)"
    using l(4) assms(4) [of _ n] by auto
  show "sorted (map (offset_of mm') (free_list mm ! n))"
    unfolding e by (rule l(3))
qed

text \<open>Changing a block without changing offset, order and whether it is free.\<close>

lemma lists_ok_update:
  assumes "lists_ok Y mm" "slab mm b = Some x"
    and "drm_buddy_block_offset y = drm_buddy_block_offset x" "drm_buddy_block_order y = drm_buddy_block_order x"
    and "drm_buddy_block_is_free y = drm_buddy_block_is_free x"
    and "slab mm' = (slab mm)(b \<mapsto> y)" "free_list mm' = free_list mm" "max_order mm' = max_order mm"
  shows "lists_ok Y mm'"
  by (rule lists_ok_cong [OF assms(7,8) _ _ assms(1)])
    (use assms(2-6) in \<open>auto simp: free_of_order_def offset_of_def\<close>)

text \<open>Adding, changing or dropping a block that is not free, or is not linked.\<close>

lemma lists_ok_unlinked:
  assumes "lists_ok Y mm" "\<And>x. slab mm b = Some x \<Longrightarrow> drm_buddy_block_is_free x \<Longrightarrow> b \<in> Y"
    and "\<And>x. v = Some x \<Longrightarrow> drm_buddy_block_is_free x \<Longrightarrow> b \<in> Y'" "Y' - {b} = Y - {b}"
    and "slab mm' = (slab mm)(b := v)" "free_list mm' = free_list mm" "max_order mm' = max_order mm"
  shows "lists_ok Y' mm'"
proof -
  let ?A = "Y - {b}"
  have "free_of_order mm' n - Y' = free_of_order mm n - Y" for n
    using assms(2-5) by (auto simp: free_of_order_def split: if_splits)
  moreover have "sorted (map (offset_of mm') (free_list mm ! n))" "distinct (free_list mm ! n)"
    "set (free_list mm ! n) = free_of_order mm n - Y" if "n \<le> max_order mm" for n
  proof -
    note l = lists_okD [OF assms(1) that]
    have "b \<notin> set (free_list mm ! n)"
      using l(4) assms(2) by (auto simp: free_of_order_def)
    then have e: "map (offset_of mm') (free_list mm ! n) = map (offset_of mm) (free_list mm ! n)"
      using assms(5) by (auto simp: offset_of_def)
    show "sorted (map (offset_of mm') (free_list mm ! n))" "distinct (free_list mm ! n)"
      "set (free_list mm ! n) = free_of_order mm n - Y"
      unfolding e using l by simp_all
  qed
  ultimately show ?thesis
    using assms(1,6,7) by (simp add: lists_ok_def)
qed

lemma insert_entry_sorted:
  assumes "\<forall>c \<in> set fl. slab mm c \<noteq> None" "sorted (map (offset_of mm) fl)"
  shows "\<exists>fl'. insert_entry mm (offset_of mm b) b fl = Some fl' \<and> set fl' = insert b (set fl) \<and>
    sorted (map (offset_of mm) fl') \<and> (distinct fl \<and> b \<notin> set fl \<longrightarrow> distinct fl')"
  using assms
proof (induction fl)
  case (Cons c fl)
  obtain x where x: "slab mm c = Some x"
    using Cons.prems(1) by auto
  show ?case
  proof (cases "offset_of mm b < drm_buddy_block_offset x")
    case True
    then show ?thesis
      using Cons.prems x by (auto simp: offset_of_def)
  next
    case False
    obtain fl' where fl': "insert_entry mm (offset_of mm b) b fl = Some fl'" "set fl' = insert b (set fl)"
        "sorted (map (offset_of mm) fl')" "distinct fl \<and> b \<notin> set fl \<longrightarrow> distinct fl'"
      using Cons by auto
    then have "insert_entry mm (offset_of mm b) b (c # fl) = Some (c # fl')"
      using False x by simp
    moreover have "sorted (map (offset_of mm) (c # fl'))"
      using fl'(2,3) Cons.prems(2) False x by (auto simp: offset_of_def)
    ultimately show ?thesis
      using fl'(2,4) by auto
  qed
qed simp

lemma list_ex_linked:
  assumes "lists_ok Y mm"
  shows "list_ex (\<lambda>fl. b \<in> set fl) (free_list mm) \<longleftrightarrow> (\<exists>n \<le> max_order mm. b \<in> free_of_order mm n) \<and> b \<notin> Y"
  using assms by (auto simp: lists_ok_def list_ex_length less_Suc_eq_le)

lemma list_insert_sorted_ok:
  assumes "lists_ok Y mm" "slab mm b = Some x" "drm_buddy_block_is_free x" "b \<in> Y"
    and "drm_buddy_block_order x \<le> max_order mm"
  shows "\<exists>fl. list_insert_sorted b mm = Some (mm\<lparr>free_list := fl\<rparr>) \<and> lists_ok (Y - {b}) (mm\<lparr>free_list := fl\<rparr>)"
proof -
  let ?n = "drm_buddy_block_order x"
  note l = lists_okD [OF assms(1,5)]
  obtain fl where fl: "insert_entry mm (offset_of mm b) b (free_list mm ! ?n) = Some fl"
      "set fl = insert b (free_of_order mm ?n - Y)" "sorted (map (offset_of mm) fl)" "distinct fl"
    using insert_entry_sorted [OF _ l(3), of b] l(2,4) assms(4) by (auto simp: free_of_order_def)
  have "list_insert_sorted b mm = Some (mm\<lparr>free_list := (free_list mm)[?n := fl]\<rparr>)"
    using fl(1) l(1) assms(2,4) list_ex_linked [OF assms(1)] by (simp add: list_insert_sorted_def offset_of_def)
  moreover have "lists_ok (Y - {b}) (mm\<lparr>free_list := (free_list mm)[?n := fl]\<rparr>)"
    using assms fl lists_okD(1) [OF assms(1)] unfolding lists_ok_def
    by (auto simp: nth_list_update free_of_order_def)
  ultimately show ?thesis by blast
qed

lemma list_del_ok:
  assumes "lists_ok Y mm" "slab mm b = Some x" "drm_buddy_block_is_free x" "b \<notin> Y"
    and "drm_buddy_block_order x \<le> max_order mm"
  shows "list_del b mm = Some (mm\<lparr>free_list := map (remove1 b) (free_list mm)\<rparr>)"
    and "lists_ok (insert b Y) (mm\<lparr>free_list := map (remove1 b) (free_list mm)\<rparr>)"
proof -
  have "b \<in> free_of_order mm (drm_buddy_block_order x)"
    using assms(2,3) by (auto simp: free_of_order_def)
  then show "list_del b mm = Some (mm\<lparr>free_list := map (remove1 b) (free_list mm)\<rparr>)"
    using list_ex_linked [OF assms(1), of b] assms(4,5) by (auto simp: list_del_def)
  have "sorted (map (offset_of mm) (remove1 b fl))" if "sorted (map (offset_of mm) fl)" for fl
    using that by (rule sorted_map_remove1)
  then show "lists_ok (insert b Y) (mm\<lparr>free_list := map (remove1 b) (free_list mm)\<rparr>)"
    using assms(1) unfolding lists_ok_def by auto
qed

section \<open>Counters\<close>

definition free_size :: "drm_buddy \<Rightarrow> drm_buddy_block option \<Rightarrow> u64" where
  "free_size mm v = (case v of None \<Rightarrow> 0
     | Some x \<Rightarrow> if drm_buddy_block_is_free x then drm_buddy_block_size mm x else 0)"

definition clear_size :: "drm_buddy \<Rightarrow> drm_buddy_block option \<Rightarrow> u64" where
  "clear_size mm v = (case v of None \<Rightarrow> 0
     | Some x \<Rightarrow> if drm_buddy_block_is_free x \<and> drm_buddy_block_is_clear x then drm_buddy_block_size mm x else 0)"

definition free_bytes :: "drm_buddy \<Rightarrow> u64" where
  "free_bytes mm = (\<Sum>b \<in> {..<slab_next mm}. free_size mm (slab mm b))"

definition clear_bytes :: "drm_buddy \<Rightarrow> u64" where
  "clear_bytes mm = (\<Sum>b \<in> {..<slab_next mm}. clear_size mm (slab mm b))"

definition counters_ok :: "drm_buddy \<Rightarrow> bool" where
  "counters_ok mm \<longleftrightarrow> avail mm = free_bytes mm \<and> clear_avail mm = clear_bytes mm"

lemma sum_store_update:
  fixes f :: "'v option \<Rightarrow> u64" and b n :: nat
  assumes "b < n"
  shows "(\<Sum>c \<in> {..<n}. f ((s(b := v)) c)) = (\<Sum>c \<in> {..<n}. f (s c)) - f (s b) + f v"
proof -
  have "(\<Sum>c \<in> {..<n}. f ((s(b := v)) c)) = f v + (\<Sum>c \<in> {..<n} - {b}. f (s c))"
    using assms by (subst sum.remove [of _ b]) auto
  moreover have "(\<Sum>c \<in> {..<n}. f (s c)) = f (s b) + (\<Sum>c \<in> {..<n} - {b}. f (s c))"
    using assms by (subst sum.remove [of _ b]) auto
  ultimately show ?thesis by simp
qed

lemma size_views:
  assumes "chunk_size mm' = chunk_size mm"
  shows "free_size mm' = free_size mm" "clear_size mm' = clear_size mm"
  using assms by (simp_all add: free_size_def clear_size_def drm_buddy_block_size_def fun_eq_iff split: option.split)

lemma bytes_update:
  assumes "slab mm' = (slab mm)(b := v)" "b < slab_next mm" "slab_next mm' = slab_next mm" "chunk_size mm' = chunk_size mm"
  shows "free_bytes mm' = free_bytes mm - free_size mm (slab mm b) + free_size mm v"
    "clear_bytes mm' = clear_bytes mm - clear_size mm (slab mm b) + clear_size mm v"
  using assms(1,3) sum_store_update [OF assms(2)] size_views [OF assms(4)]
  by (simp_all add: free_bytes_def clear_bytes_def)

lemma bytes_cong:
  assumes "slab mm' = slab mm" "slab_next mm' = slab_next mm" "chunk_size mm' = chunk_size mm"
  shows "free_bytes mm' = free_bytes mm" "clear_bytes mm' = clear_bytes mm"
  using assms(1,2) size_views [OF assms(3)] by (simp_all add: free_bytes_def clear_bytes_def)

section \<open>Marking blocks\<close>

lemma set_block_Some [simp]:
  "slab mm b = Some x \<Longrightarrow> set_block b f mm = Some (mm\<lparr>slab := (slab mm)(b \<mapsto> f x)\<rparr>)"
  by (simp add: set_block_def)

lemma mark_free_ok:
  assumes "lists_ok Y mm" "slab mm b = Some x" "drm_buddy_block_order x \<le> max_order mm"
    and "drm_buddy_block_is_free x \<Longrightarrow> b \<in> Y"
  shows "\<exists>fl. mark_free b mm = Some (mm\<lparr>slab := (slab mm)(b \<mapsto> with_state DRM_BUDDY_FREE x), free_list := fl\<rparr>) \<and>
    lists_ok (Y - {b}) (mm\<lparr>slab := (slab mm)(b \<mapsto> with_state DRM_BUDDY_FREE x), free_list := fl\<rparr>)"
proof -
  let ?mm = "mm\<lparr>slab := (slab mm)(b \<mapsto> with_state DRM_BUDDY_FREE x)\<rparr>"
  have "lists_ok (insert b Y) ?mm"
    by (rule lists_ok_unlinked [OF assms(1), of b "Some (with_state DRM_BUDDY_FREE x)"])
      (use assms(2,4) in auto)
  then obtain fl where "list_insert_sorted b ?mm = Some (?mm\<lparr>free_list := fl\<rparr>)"
      "lists_ok (insert b Y - {b}) (?mm\<lparr>free_list := fl\<rparr>)"
    using list_insert_sorted_ok [of "insert b Y" ?mm b "with_state DRM_BUDDY_FREE x"] assms(3) by auto
  then show ?thesis
    using assms(2) by (auto simp: mark_free_def)
qed

lemma mark_used_ok:
  assumes "lists_ok Y mm" "slab mm b = Some x" "drm_buddy_block_is_free x" "b \<notin> Y"
    and "drm_buddy_block_order x \<le> max_order mm" "block_state st" "st \<noteq> DRM_BUDDY_FREE"
  defines "mm' \<equiv> mm\<lparr>slab := (slab mm)(b \<mapsto> with_state st x), free_list := map (remove1 b) (free_list mm)\<rparr>"
  shows "list_del b (mm\<lparr>slab := (slab mm)(b \<mapsto> with_state st x)\<rparr>) = Some mm'" "lists_ok Y mm'"
proof -
  note d = list_del_ok [OF assms(1-5)]
  show "list_del b (mm\<lparr>slab := (slab mm)(b \<mapsto> with_state st x)\<rparr>) = Some mm'"
    using d(1) by (auto simp: list_del_def mm'_def split: if_splits)
  show "lists_ok Y mm'"
    by (rule lists_ok_unlinked [OF d(2), of b "Some (with_state st x)"]) (use assms(4,6,7) in \<open>auto simp: mm'_def\<close>)
qed

lemma mark_allocated_ok:
  assumes "lists_ok Y mm" "slab mm b = Some x" "drm_buddy_block_is_free x" "b \<notin> Y"
    and "drm_buddy_block_order x \<le> max_order mm"
  defines "mm' \<equiv> mm\<lparr>slab := (slab mm)(b \<mapsto> with_state DRM_BUDDY_ALLOCATED x), free_list := map (remove1 b) (free_list mm)\<rparr>"
  shows "mark_allocated b mm = Some mm'" "lists_ok Y mm'"
  using mark_used_ok [OF assms(1-5), of DRM_BUDDY_ALLOCATED] assms(2) by (simp_all add: mark_allocated_def mm'_def)

lemma mark_split_ok:
  assumes "lists_ok Y mm" "slab mm b = Some x" "drm_buddy_block_is_free x" "b \<notin> Y"
    and "drm_buddy_block_order x \<le> max_order mm"
  defines "mm' \<equiv> mm\<lparr>slab := (slab mm)(b \<mapsto> with_state DRM_BUDDY_SPLIT x), free_list := map (remove1 b) (free_list mm)\<rparr>"
  shows "mark_split b mm = Some mm'" "lists_ok Y mm'"
  using mark_used_ok [OF assms(1-5), of DRM_BUDDY_SPLIT] assms(2) by (simp_all add: mark_split_def mm'_def)

section \<open>New blocks\<close>

definition new_block :: "nat option \<Rightarrow> nat \<Rightarrow> u64 \<Rightarrow> drm_buddy_block" where
  "new_block par n off = \<lparr>header = off OR of_nat n, left = None, right = None, parent = par\<rparr>"

lemma new_block_fields:
  assumes "4096 dvd unat off" "n \<le> 51"
  shows "drm_buddy_block_offset (new_block par n off) = off" "drm_buddy_block_order (new_block par n off) = n"
    "\<not> drm_buddy_block_is_free (new_block par n off)" "\<not> drm_buddy_block_is_allocated (new_block par n off)"
    "\<not> drm_buddy_block_is_split (new_block par n off)" "\<not> drm_buddy_block_is_clear (new_block par n off)"
    "parent (new_block par n off) = par"
  using header_new [OF assms]
  by (simp_all add: new_block_def block_field_defs)
    (simp_all add: DRM_BUDDY_ALLOCATED_def DRM_BUDDY_FREE_def DRM_BUDDY_SPLIT_def)

lemma drm_block_alloc_ok:
  assumes "4096 dvd unat off" "n \<le> 51" "slab_ok mm (slab_next mm)"
  shows "drm_block_alloc par n off mm = Some (Some (slab_next mm),
    mm\<lparr>slab_next := Suc (slab_next mm), slab := (slab mm)(slab_next mm \<mapsto> new_block par n off)\<rparr>)"
  using header_new [OF assms(1,2)] assms(2,3)
  by (simp add: drm_block_alloc_def new_block_def DRM_BUDDY_MAX_ORDER_def Let_def)

end
