(* ===== verification/Buddy_Split.thy ===== *)
theory Buddy_Split
  imports Buddy_Ops
begin

text \<open>
  Splitting a block: the model of \<^verbatim>\<open>split_block\<close> keeps the invariant of the trees, the free lists and the counters.
\<close>

section \<open>Sizes\<close>

lemma unat_push_bit:
  assumes "unat (w :: u64) * 2 ^ n < 2 ^ 64"
  shows "unat (push_bit n w) = unat w * 2 ^ n"
  using assms unsigned_push_bit_eq [of n w, where ?'a = nat] push_bit_eq_mult [of n "unat w"]
  by (simp add: take_bit_eq_mod)

lemma unat_add_small: "unat (a :: u64) + unat b < 2 ^ 64 \<Longrightarrow> unat (a + b) = unat a + unat b"
  by (simp add: unat_word_ariths)

lemma unat_block_size:
  assumes "tree_ok X mm" "slab mm b = Some x"
  shows "unat (drm_buddy_block_size mm x) = block_bytes mm x"
  using tree_okD(4) [OF assms] unat_u64 [of "mm_size mm"] unat_push_bit [of "chunk_size mm" "drm_buddy_block_order x"]
  by (simp add: drm_buddy_block_size_def block_bytes_def)

lemma chunk_dvd:
  assumes "geometry mm"
  shows "4096 dvd unat (chunk_size mm)" "4096 dvd block_bytes mm x" "0 < unat (chunk_size mm)" "0 < block_bytes mm x"
proof -
  obtain k where k: "12 \<le> k" "unat (chunk_size mm) = 2 ^ k"
    using assms by (auto simp: geometry_def)
  have "(2 :: nat) ^ 12 dvd 2 ^ k"
    using k(1) by (rule le_imp_power_dvd)
  then show c: "4096 dvd unat (chunk_size mm)"
    by (simp add: k(2))
  then show "4096 dvd block_bytes mm x"
    by (simp add: block_bytes_def)
  show "0 < unat (chunk_size mm)" "0 < block_bytes mm x"
    using k(2) by (simp_all add: block_bytes_def)
qed

definition buddy_inv :: "nat set \<Rightarrow> drm_buddy \<Rightarrow> bool" where
  "buddy_inv X mm \<longleftrightarrow> tree_ok X mm \<and> lists_ok {} mm \<and> counters_ok mm"

definition memory_ok :: "drm_buddy \<Rightarrow> bool" where
  "memory_ok mm \<longleftrightarrow> (\<forall>n. slab_ok mm n)"

definition half_of :: "nat \<Rightarrow> drm_buddy_block \<Rightarrow> nat \<Rightarrow> drm_buddy_block \<Rightarrow> bool" where
  "half_of b x start h \<longleftrightarrow> drm_buddy_block_is_free h \<and> drm_buddy_block_is_clear h = drm_buddy_block_is_clear x \<and>
     parent h = Some b \<and> Suc (drm_buddy_block_order h) = drm_buddy_block_order x \<and> block_start h = start"

text \<open>The store after a split.\<close>

definition split_store :: "nat \<Rightarrow> drm_buddy_block \<Rightarrow> drm_buddy \<Rightarrow> drm_buddy \<Rightarrow> bool" where
  "split_store b x mm mm' \<longleftrightarrow> slab_next mm' = Suc (Suc (slab_next mm)) \<and>
     (\<exists>xb lb rb. slab mm' = (slab mm)(b \<mapsto> xb, slab_next mm \<mapsto> lb, Suc (slab_next mm) \<mapsto> rb) \<and>
        same_block x xb \<and> drm_buddy_block_is_split xb \<and> \<not> drm_buddy_block_is_clear xb \<and>
        left xb = Some (slab_next mm) \<and> right xb = Some (Suc (slab_next mm)) \<and> half_of b x (block_start x) lb \<and>
        half_of b x (block_start x + unat (chunk_size mm) * 2 ^ (drm_buddy_block_order x - 1)) rb)"

text \<open>The offsets of the halves.\<close>

lemma half_offsets:
  assumes "tree_ok X mm" "slab mm b = Some x" "drm_buddy_block_order x \<noteq> 0"
  defines "n \<equiv> drm_buddy_block_order x - 1"
  shows "4096 dvd unat (drm_buddy_block_offset x)" "4096 dvd unat (drm_buddy_block_offset x + push_bit n (chunk_size mm))"
    "unat (drm_buddy_block_offset x + push_bit n (chunk_size mm)) = block_start x + unat (chunk_size mm) * 2 ^ n"
    "n \<le> 51" "Suc n = drm_buddy_block_order x" "drm_buddy_block_order x \<le> max_order mm"
proof -
  have g: "geometry mm"
    by (rule tree_okD2(1) [OF assms(1)])
  show o: "Suc n = drm_buddy_block_order x" "drm_buddy_block_order x \<le> max_order mm"
    using assms(3) tree_okD(2) [OF assms(1,2)] by (simp_all add: n_def)
  then show "n \<le> 51"
    using g by (simp add: geometry_def DRM_BUDDY_MAX_ORDER_def)
  have bytes: "block_bytes mm x = 2 * (unat (chunk_size mm) * 2 ^ n)"
    by (simp add: block_bytes_def flip: o(1))
  show off: "4096 dvd unat (drm_buddy_block_offset x)"
    using tree_okD(3) [OF assms(1,2)] chunk_dvd(2) [OF g, of x] dvd_trans unfolding block_start_def by blast
  show e: "unat (drm_buddy_block_offset x + push_bit n (chunk_size mm)) = block_start x + unat (chunk_size mm) * 2 ^ n"
    using tree_okD(4) [OF assms(1,2)] bytes unat_u64 [of "mm_size mm"] unat_push_bit [of "chunk_size mm" n]
      unat_add_small [of "drm_buddy_block_offset x" "push_bit n (chunk_size mm)"] by (simp add: block_start_def)
  show "4096 dvd unat (drm_buddy_block_offset x + push_bit n (chunk_size mm))"
    unfolding e using off chunk_dvd(1) [OF g] by (simp add: block_start_def)
qed

text \<open>The state with both halves allocated and linked to their parent, but not yet free.\<close>

definition with_halves :: "nat \<Rightarrow> drm_buddy_block \<Rightarrow> drm_buddy_block \<Rightarrow> drm_buddy_block \<Rightarrow> drm_buddy \<Rightarrow> drm_buddy" where
  "with_halves b x nl nr mm = mm\<lparr>slab_next := Suc (Suc (slab_next mm)),
     slab := (slab mm)(slab_next mm \<mapsto> nl, Suc (slab_next mm) \<mapsto> nr,
       b \<mapsto> x\<lparr>left := Some (slab_next mm), right := Some (Suc (slab_next mm))\<rparr>)\<rparr>"

lemma with_halves_lists:
  assumes "tree_ok X mm" "lists_ok {} mm" "slab mm b = Some x" "\<not> drm_buddy_block_is_free nl" "\<not> drm_buddy_block_is_free nr"
  shows "lists_ok {} (with_halves b x nl nr mm)"
proof -
  let ?l = "slab_next mm" and ?r = "Suc (slab_next mm)"
  have b: "b < ?l"
    using tree_okD(1) [OF assms(1,3)] .
  have fresh: "slab mm ?l = None" "slab mm ?r = None"
    using tree_okD(1) [OF assms(1)] by fastforce+
  let ?mm1 = "mm\<lparr>slab_next := ?r, slab := (slab mm)(?l \<mapsto> nl)\<rparr>"
  let ?mm2 = "?mm1\<lparr>slab_next := Suc ?r, slab := (slab ?mm1)(?r \<mapsto> nr)\<rparr>"
  have 1: "lists_ok {} ?mm1"
    by (rule lists_ok_unlinked [OF assms(2), of ?l "Some nl"]) (use fresh assms(4) in auto)
  have 2: "lists_ok {} ?mm2"
    by (rule lists_ok_unlinked [OF 1, of ?r "Some nr"]) (use fresh assms(5) in auto)
  show ?thesis
    by (rule lists_ok_update [OF 2, of b x "x\<lparr>left := Some ?l, right := Some ?r\<rparr>"])
      (use b assms(3) in \<open>auto simp: with_halves_def\<close>)
qed

text \<open>The second part of the operation: both halves become free and inherit the clear flag, the block is split.\<close>

definition mark_halves :: "nat \<Rightarrow> nat \<Rightarrow> nat \<Rightarrow> bool \<Rightarrow> drm_buddy \<Rightarrow> drm_buddy option" where
  "mark_halves b l r c mm =
     do { mm \<leftarrow> mark_free l mm;
          mm \<leftarrow> mark_free r mm;
          mm \<leftarrow> if c then do { mm \<leftarrow> mark_cleared l mm; mm \<leftarrow> mark_cleared r mm; clear_reset b mm } else Some mm;
          mark_split b mm }"

definition flagged :: "bool \<Rightarrow> drm_buddy_block \<Rightarrow> drm_buddy_block" where
  "flagged c y = (if c then with_clear y else y)"

lemma flagged_fields [simp]:
  "drm_buddy_block_offset (flagged c y) = drm_buddy_block_offset y" "drm_buddy_block_order (flagged c y) = drm_buddy_block_order y"
  "drm_buddy_block_is_free (flagged c y) = drm_buddy_block_is_free y" "parent (flagged c y) = parent y"
  "drm_buddy_block_is_clear (flagged c y) \<longleftrightarrow> c \<or> drm_buddy_block_is_clear y"
  by (simp_all add: flagged_def)

lemma mark_halves_ok:
  fixes c :: bool
  assumes "lists_ok {} mm" "slab mm l = Some nl" "slab mm r = Some nr" "slab mm b = Some x" "l \<noteq> r" "l \<noteq> b" "r \<noteq> b"
    and "\<not> drm_buddy_block_is_free nl" "\<not> drm_buddy_block_is_free nr" "drm_buddy_block_is_free x"
    and "drm_buddy_block_order nl \<le> max_order mm" "drm_buddy_block_order nr \<le> max_order mm" "drm_buddy_block_order x \<le> max_order mm"
  defines "x' \<equiv> if c then without_clear x else x"
  shows "\<exists>fl mm'. mark_halves b l r c mm = Some mm' \<and> lists_ok {} mm' \<and>
    mm' = mm\<lparr>slab := (slab mm)(l \<mapsto> flagged c (with_state DRM_BUDDY_FREE nl), r \<mapsto> flagged c (with_state DRM_BUDDY_FREE nr),
      b \<mapsto> with_state DRM_BUDDY_SPLIT x'), free_list := fl\<rparr>"
proof -
  let ?nl = "with_state DRM_BUDDY_FREE nl" and ?nr = "with_state DRM_BUDDY_FREE nr"
  obtain fl where 1: "mark_free l mm = Some (mm\<lparr>slab := (slab mm)(l \<mapsto> ?nl), free_list := fl\<rparr>)"
      "lists_ok {} (mm\<lparr>slab := (slab mm)(l \<mapsto> ?nl), free_list := fl\<rparr>)"
    using mark_free_ok [OF assms(1,2,11)] assms(8) by auto
  define mm1 where "mm1 = mm\<lparr>slab := (slab mm)(l \<mapsto> ?nl), free_list := fl\<rparr>"
  obtain fr where 2: "mark_free r mm1 = Some (mm1\<lparr>slab := (slab mm1)(r \<mapsto> ?nr), free_list := fr\<rparr>)"
      "lists_ok {} (mm1\<lparr>slab := (slab mm1)(r \<mapsto> ?nr), free_list := fr\<rparr>)"
    using mark_free_ok [OF 1(2) [folded mm1_def], of r nr] assms(3,5,9,12) by (auto simp: mm1_def)
  define mm2 where "mm2 = mm1\<lparr>slab := (slab mm1)(r \<mapsto> ?nr), free_list := fr\<rparr>"
  have s2: "slab mm2 l = Some ?nl" "slab mm2 r = Some ?nr" "slab mm2 b = Some x"
    using assms(4-7) by (auto simp: mm2_def mm1_def)
  define ma where "ma = mm2\<lparr>slab := (slab mm2)(l \<mapsto> flagged c ?nl)\<rparr>"
  define mb where "mb = ma\<lparr>slab := (slab ma)(r \<mapsto> flagged c ?nr)\<rparr>"
  define mm3 where "mm3 = mb\<lparr>slab := (slab mb)(b \<mapsto> x')\<rparr>"
  have x': "drm_buddy_block_offset x' = drm_buddy_block_offset x" "drm_buddy_block_order x' = drm_buddy_block_order x"
      "drm_buddy_block_is_free x'"
    using assms(10) by (simp_all add: x'_def)
  have 3: "(if c then do { mm \<leftarrow> mark_cleared l mm2; mm \<leftarrow> mark_cleared r mm; clear_reset b mm } else Some mm2) = Some mm3"
    using s2 assms(5-7) by (auto simp: mm3_def ma_def mb_def x'_def flagged_def mark_cleared_def clear_reset_def fun_upd_idem)
  have la: "lists_ok {} ma"
    by (rule lists_ok_update [OF 2(2) [folded mm2_def] s2(1), of "flagged c ?nl"]) (simp_all add: ma_def)
  have lb: "lists_ok {} mb"
    by (rule lists_ok_update [OF la, of r ?nr "flagged c ?nr"]) (use s2 assms(5) in \<open>simp_all add: ma_def mb_def\<close>)
  have l3: "lists_ok {} mm3"
    by (rule lists_ok_update [OF lb, of b x x']) (use s2 assms(6,7,10) x' in \<open>simp_all add: ma_def mb_def mm3_def\<close>)
  have s3: "slab mm3 b = Some x'" "drm_buddy_block_order x' \<le> max_order mm3"
    using x'(2) assms(13) by (simp_all add: mm3_def mb_def ma_def mm2_def mm1_def)
  note m = mark_split_ok [OF l3 s3(1) x'(3) _ s3(2)]
  have "mark_halves b l r c mm = mark_split b mm3"
    unfolding mark_halves_def using 1(1) 2(1) 3 by (simp add: mm1_def [symmetric] mm2_def [symmetric])
  then show ?thesis
    using m assms(5-7) by (auto simp: mm3_def mb_def ma_def mm2_def mm1_def fun_upd_twist)
qed

lemma split_block_unfold:
  assumes "slab mm b = Some x" "drm_buddy_block_is_free x" "drm_buddy_block_order x \<noteq> 0" "slab_ok mm (slab_next mm)"
    "slab_ok mm (Suc (slab_next mm))" "b < slab_next mm"
  defines "n \<equiv> drm_buddy_block_order x - 1" and "l \<equiv> slab_next mm" and "off \<equiv> drm_buddy_block_offset x"
  assumes "4096 dvd unat off" "4096 dvd unat (off + push_bit n (chunk_size mm))" "n \<le> 51"
  shows "split_block b mm = do { mm \<leftarrow> mark_halves b l (Suc l) (drm_buddy_block_is_clear x)
      (with_halves b x (new_block (Some b) n off) (new_block (Some b) n (off + push_bit n (chunk_size mm))) mm); Some (OK, mm) }"
proof -
  let ?mm1 = "mm\<lparr>slab_next := Suc l, slab := (slab mm)(l \<mapsto> new_block (Some b) n off)\<rparr>"
  let ?mm2 = "?mm1\<lparr>slab := (slab ?mm1)(b \<mapsto> x\<lparr>left := Some l\<rparr>)\<rparr>"
  have 1: "drm_block_alloc (Some b) n off mm = Some (Some l, ?mm1)"
    using drm_block_alloc_ok [OF assms(10,12), of mm "Some b"] assms(4) by (simp add: l_def)
  have 2: "drm_block_alloc (Some b) n (off + push_bit n (chunk_size mm)) ?mm2 =
      Some (Some (Suc l), ?mm2\<lparr>slab_next := Suc (Suc l), slab := (slab ?mm2)(Suc l \<mapsto> new_block (Some b) n (off + push_bit n (chunk_size mm)))\<rparr>)"
    using drm_block_alloc_ok [OF assms(11,12), of ?mm2 "Some b"] assms(5) by (simp add: l_def)
  have b: "b \<noteq> l" "b \<noteq> Suc l"
    using assms(6) by (simp_all add: l_def)
  have m: "?mm2\<lparr>slab_next := Suc (Suc l), slab := (slab ?mm2)(Suc l \<mapsto> nr, b \<mapsto> x\<lparr>left := Some l, right := Some (Suc l)\<rparr>)\<rparr> =
      with_halves b x (new_block (Some b) n off) nr mm" for nr
    using b by (auto simp: with_halves_def l_def)
  show ?thesis
    unfolding split_block_def mark_halves_def m [symmetric] using assms(1-3) b
    by (simp add: Let_def n_def off_def 1 [unfolded n_def off_def, simplified] 2 [unfolded n_def off_def, simplified])
qed

lemma split_block_step:
  assumes "tree_ok X mm" "lists_ok {} mm" "memory_ok mm"
    and "slab mm b = Some x" "drm_buddy_block_is_free x" "drm_buddy_block_order x \<noteq> 0"
  shows "\<exists>mm'. split_block b mm = Some (OK, mm') \<and> same_shape mm mm' \<and> split_store b x mm mm' \<and> lists_ok {} mm' \<and>
    avail mm' = avail mm \<and> clear_avail mm' = clear_avail mm \<and> warned mm' = warned mm"
proof -
  let ?n = "drm_buddy_block_order x - 1" and ?l = "slab_next mm" and ?off = "drm_buddy_block_offset x"
  let ?off' = "?off + push_bit ?n (chunk_size mm)"
  let ?c = "drm_buddy_block_is_clear x"
  define nl nr where "nl = new_block (Some b) ?n ?off" and "nr = new_block (Some b) ?n ?off'"
  note h = half_offsets [OF assms(1,4,6)]
  note nl = new_block_fields [OF h(1,4), of "Some b", folded nl_def] and nr = new_block_fields [OF h(2,4), of "Some b", folded nr_def]
  have b: "b < ?l"
    using tree_okD(1) [OF assms(1,4)] .
  define mm4 where "mm4 = with_halves b x nl nr mm"
  define x4 where "x4 = x\<lparr>left := Some ?l, right := Some (Suc ?l)\<rparr>"
  have s4: "slab mm4 ?l = Some nl" "slab mm4 (Suc ?l) = Some nr" "slab mm4 b = Some x4" "max_order mm4 = max_order mm"
    using b by (auto simp: mm4_def with_halves_def x4_def)
  have l4: "lists_ok {} mm4"
    unfolding mm4_def by (rule with_halves_lists [OF assms(1,2,4) nl(3) nr(3)])
  define x7 where "x7 = (if ?c then without_clear x4 else x4)"
  obtain fl mm' where m: "mark_halves b ?l (Suc ?l) ?c mm4 = Some mm'" "lists_ok {} mm'"
      "mm' = mm4\<lparr>slab := (slab mm4)(?l \<mapsto> flagged ?c (with_state DRM_BUDDY_FREE nl), Suc ?l \<mapsto> flagged ?c (with_state DRM_BUDDY_FREE nr),
        b \<mapsto> with_state DRM_BUDDY_SPLIT x7), free_list := fl\<rparr>"
    using mark_halves_ok [OF l4 s4(1-3), of ?c] b nl(2,3) nr(2,3) assms(5) h(5,6) s4(4) unfolding x7_def by (auto simp: x4_def)
  have "split_block b mm = Some (OK, mm')"
    using split_block_unfold [OF assms(4-6) _ _ b h(1,2,4)] assms(3) m(1) by (simp add: memory_ok_def mm4_def nl_def nr_def)
  moreover have "split_store b x mm mm'"
    unfolding split_store_def
  proof (intro conjI exI)
    show "slab mm' = (slab mm)(b \<mapsto> with_state DRM_BUDDY_SPLIT x7, ?l \<mapsto> flagged ?c (with_state DRM_BUDDY_FREE nl),
        Suc ?l \<mapsto> flagged ?c (with_state DRM_BUDDY_FREE nr))"
      using b by (auto simp: m(3) mm4_def with_halves_def)
  qed (use nl nr h(3,5) in \<open>auto simp: m(3) mm4_def with_halves_def same_block_def half_of_def block_start_def x7_def x4_def\<close>)
  ultimately show ?thesis
    using m(2) by (auto simp: m(3) mm4_def with_halves_def same_shape_def)
qed

lemma split_store_tree:
  assumes "tree_ok X mm" "slab mm b = Some x" "drm_buddy_block_is_free x"
    and "same_shape mm mm'" "split_store b x mm mm'"
  shows "tree_ok X mm'"
proof -
  obtain xb lb rb where s: "slab mm' = (slab mm)(b \<mapsto> xb, slab_next mm \<mapsto> lb, Suc (slab_next mm) \<mapsto> rb)"
      "same_block x xb" "drm_buddy_block_is_split xb" "\<not> drm_buddy_block_is_clear xb"
      "left xb = Some (slab_next mm)" "right xb = Some (Suc (slab_next mm))" "half_of b x (block_start x) lb"
      "half_of b x (block_start x + unat (chunk_size mm) * 2 ^ (drm_buddy_block_order x - 1)) rb"
    using assms(5) unfolding split_store_def by blast
  show ?thesis
    by (rule tree_ok_split [OF assms(1,2) _ refl refl s(2-6) _ _ _ _ _ _ _ _ assms(4) s(1)])
      (use assms(3,5) s(7,8) in \<open>auto simp: leaf_def half_of_def split_store_def\<close>)
qed

lemma block_size_halves:
  assumes "Suc (drm_buddy_block_order y) = drm_buddy_block_order x"
  shows "drm_buddy_block_size mm y + drm_buddy_block_size mm y = drm_buddy_block_size mm x"
  using assms by (simp add: drm_buddy_block_size_def push_bit_eq_mult flip: assms)

lemma split_store_bytes:
  assumes "tree_ok X mm" "slab mm b = Some x" "drm_buddy_block_is_free x"
    and "same_shape mm mm'" "split_store b x mm mm'"
  shows "free_bytes mm' = free_bytes mm" "clear_bytes mm' = clear_bytes mm"
proof -
  obtain xb lb rb where s: "slab mm' = (slab mm)(b \<mapsto> xb, slab_next mm \<mapsto> lb, Suc (slab_next mm) \<mapsto> rb)"
      "drm_buddy_block_is_split xb" "half_of b x (block_start x) lb"
      "half_of b x (block_start x + unat (chunk_size mm) * 2 ^ (drm_buddy_block_order x - 1)) rb"
      "slab_next mm' = Suc (Suc (slab_next mm))"
    using assms(5) unfolding split_store_def by blast
  have b: "b < slab_next mm"
    using tree_okD(1) [OF assms(1,2)] .
  have e: "free_size mm' = free_size mm" "clear_size mm' = clear_size mm"
    using assms(4) size_views [of mm' mm] by (simp_all add: same_shape_def)
  have sz: "drm_buddy_block_size mm lb = drm_buddy_block_size mm rb"
      "drm_buddy_block_size mm rb + drm_buddy_block_size mm rb = drm_buddy_block_size mm x"
  proof -
    have "drm_buddy_block_order lb = drm_buddy_block_order rb" "Suc (drm_buddy_block_order rb) = drm_buddy_block_order x"
      using s(3,4) by (simp_all add: half_of_def)
    then show "drm_buddy_block_size mm lb = drm_buddy_block_size mm rb"
        "drm_buddy_block_size mm rb + drm_buddy_block_size mm rb = drm_buddy_block_size mm x"
      using block_size_halves [of rb x mm] by (simp_all add: drm_buddy_block_size_def)
  qed
  have f: "free_size mm (Some xb) = 0" "clear_size mm (Some xb) = 0"
      "free_size mm (Some lb) + free_size mm (Some rb) = free_size mm (Some x)"
      "clear_size mm (Some lb) + clear_size mm (Some rb) = clear_size mm (Some x)"
    using s(2-4) states_exclude(3) [of xb] assms(3) sz by (auto simp: free_size_def clear_size_def half_of_def)
  have "(\<Sum>c \<in> {..<slab_next mm'}. g (slab mm' c)) = (\<Sum>c \<in> {..<slab_next mm}. g (slab mm c))"
    if "g (Some xb) = 0" "g (Some lb) + g (Some rb) = g (Some x)" for g :: "drm_buddy_block option \<Rightarrow> u64"
  proof -
    have "(\<Sum>c \<in> {..<slab_next mm}. g (slab mm' c)) = (\<Sum>c \<in> {..<slab_next mm}. g (((slab mm)(b \<mapsto> xb)) c))"
      by (rule sum.cong) (use s(1) in auto)
    then show ?thesis
      using sum_store_update [OF b, of g "slab mm" "Some xb"] that assms(2) b s(1,5) by (simp add: add.assoc)
  qed
  from this [of "free_size mm"] this [of "clear_size mm"]
  show "free_bytes mm' = free_bytes mm" "clear_bytes mm' = clear_bytes mm"
    using f by (simp_all add: free_bytes_def clear_bytes_def e)
qed

lemma split_block_ok:
  assumes "buddy_inv X mm" "memory_ok mm"
    and "slab mm b = Some x" "drm_buddy_block_is_free x" "drm_buddy_block_order x \<noteq> 0"
  obtains mm' where "split_block b mm = Some (OK, mm')" "same_shape mm mm'" "split_store b x mm mm'" "buddy_inv X mm'"
    "avail mm' = avail mm" "clear_avail mm' = clear_avail mm" "warned mm' = warned mm"
proof -
  have ok: "tree_ok X mm" "lists_ok {} mm" "counters_ok mm"
    using assms(1) by (simp_all add: buddy_inv_def)
  obtain mm' where mm': "split_block b mm = Some (OK, mm')" "same_shape mm mm'" "split_store b x mm mm'" "lists_ok {} mm'"
      "avail mm' = avail mm" "clear_avail mm' = clear_avail mm" "warned mm' = warned mm"
    using split_block_step [OF ok(1,2) assms(2-5)] by blast
  have "buddy_inv X mm'"
    using split_store_tree [OF ok(1) assms(3,4) mm'(2,3)] split_store_bytes [OF ok(1) assms(3,4) mm'(2,3)] mm'(4-6) ok(3)
    by (simp add: buddy_inv_def counters_ok_def)
  then show ?thesis
    using that mm' by blast
qed

end
