(* ===== verification/Buddy_Free.thy ===== *)
theory Buddy_Free
  imports Buddy_Split
begin

text \<open>Freeing a block: the loop that merges it with its buddy, and the accounting.\<close>

section \<open>Blocks that are about to be freed\<close>

text \<open>
  While a block is freed its state bits are stale; the invariants hold with the block taken as an
  allocated leaf.
\<close>

definition as_leaf :: "nat \<Rightarrow> drm_buddy \<Rightarrow> drm_buddy" where
  "as_leaf b mm = mm\<lparr>slab := (slab mm)(b := map_option (with_state DRM_BUDDY_ALLOCATED) (slab mm b))\<rparr>"

definition detached :: "nat \<Rightarrow> drm_buddy \<Rightarrow> bool" where
  "detached b mm \<longleftrightarrow> slab mm b \<noteq> None \<and> tree_ok {} (as_leaf b mm) \<and> lists_ok {} (as_leaf b mm)"

lemma as_leaf_fields [simp]:
  "free_list (as_leaf b mm) = free_list mm" "roots (as_leaf b mm) = roots mm" "max_order (as_leaf b mm) = max_order mm"
  "chunk_size (as_leaf b mm) = chunk_size mm" "mm_size (as_leaf b mm) = mm_size mm" "avail (as_leaf b mm) = avail mm"
  "clear_avail (as_leaf b mm) = clear_avail mm" "slab_next (as_leaf b mm) = slab_next mm" "c \<noteq> b \<Longrightarrow> slab (as_leaf b mm) c = slab mm c"
  "drm_buddy_block_size (as_leaf b mm) = drm_buddy_block_size mm" "slab_ok (as_leaf b mm) = slab_ok mm"
  by (auto simp: as_leaf_def drm_buddy_block_size_def fun_eq_iff)

lemma as_leaf_self: "slab mm b = Some x \<Longrightarrow> slab (as_leaf b mm) b = Some (with_state DRM_BUDDY_ALLOCATED x)"
  by (simp add: as_leaf_def)

lemma same_shape_as_leaf [simp]: "same_shape mm (as_leaf b mm)" "same_shape (as_leaf b mm) mm"
  by (simp_all add: same_shape_def as_leaf_def)

text \<open>The buddy of a block that has a parent.\<close>

lemma buddy_of:
  assumes "detached b mm" "slab mm b = Some x" "parent x = Some p"
  obtains pb y yb where "slab mm p = Some pb" "drm_buddy_block_is_split pb" "\<not> drm_buddy_block_is_clear pb"
    "do_get_buddy b mm = Some (Some y)" "slab mm y = Some yb" "y \<noteq> b" "p \<noteq> b" "p \<noteq> y" "parent yb = Some p"
    "(left pb = Some b \<and> right pb = Some y) \<or> (left pb = Some y \<and> right pb = Some b)"
    "drm_buddy_block_order yb = drm_buddy_block_order x" "Suc (drm_buddy_block_order x) = drm_buddy_block_order pb"
    "region mm x \<union> region mm yb = region mm pb"
proof -
  let ?mm = "as_leaf b mm" and ?x = "with_state DRM_BUDDY_ALLOCATED x"
  have ok: "tree_ok {} ?mm" and s: "slab ?mm b = Some ?x"
    using assms(1) as_leaf_self [OF assms(2)] by (simp_all add: detached_def)
  obtain pb where pb: "slab ?mm p = Some pb" "drm_buddy_block_is_split pb" "Some b \<in> {left pb, right pb}"
    using tree_okD(7) [OF ok s, of p] assms(3) by auto
  have pnb: "p \<noteq> b"
    using pb(1,2) s by auto
  have nc: "\<not> drm_buddy_block_is_clear pb"
    using tree_okD(5) [OF ok pb(1)] pb(2) leaf_not_split by blast
  obtain l r lb rb where k: "left pb = Some l" "right pb = Some r" "l \<noteq> r" "l \<noteq> p" "r \<noteq> p"
    "slab ?mm l = Some lb" "slab ?mm r = Some rb" "parent lb = Some p" "parent rb = Some p"
    "Suc (drm_buddy_block_order lb) = drm_buddy_block_order pb" "block_start lb = block_start pb"
    "Suc (drm_buddy_block_order rb) = drm_buddy_block_order pb"
    "block_start rb = block_start pb + unat (chunk_size ?mm) * 2 ^ (drm_buddy_block_order pb - 1)"
    by (rule children_of [OF ok pb(1,2)])
  define y yb where "y = (if l = b then r else l)" and "yb = (if l = b then rb else lb)"
  have y: "slab mm y = Some yb" "y \<noteq> b" "p \<noteq> y" "parent yb = Some p"
    "(left pb = Some b \<and> right pb = Some y) \<or> (left pb = Some y \<and> right pb = Some b)"
    "Suc (drm_buddy_block_order yb) = drm_buddy_block_order pb" "Suc (drm_buddy_block_order x) = drm_buddy_block_order pb"
    using k pb(3) s by (auto simp: y_def yb_def split: if_splits)
  have "region mm lb \<union> region mm rb = region mm pb"
    using halves_tile(1) [OF k(10-13)] by (simp add: region_def block_bytes_def)
  moreover have "region mm x = region mm ?x"
    by (simp add: region_def block_start_def block_bytes_def)
  moreover have "l = b \<and> lb = ?x \<and> yb = rb \<or> r = b \<and> rb = ?x \<and> yb = lb"
    using k(1-3,6,7) pb(3) s by (auto simp: yb_def)
  ultimately have "region mm x \<union> region mm yb = region mm pb"
    by auto
  moreover have "do_get_buddy b mm = Some (Some y)"
    using assms(2,3) pb(1) pnb y(2,5) by (auto simp: do_get_buddy_def)
  ultimately show ?thesis
    using that [of pb y yb] pb pnb nc y by simp
qed

section \<open>One step of the loop\<close>

definition merge_step :: "bool \<Rightarrow> nat \<Rightarrow> drm_buddy_block \<Rightarrow> nat \<Rightarrow> nat \<Rightarrow> drm_buddy_block \<Rightarrow> drm_buddy \<Rightarrow> drm_buddy option" where
  "merge_step force_merge b block p y buddy mm =
     do { mm \<leftarrow> if \<not> force_merge \<and> drm_buddy_block_is_clear block then mark_cleared p mm else Some mm;
          mm \<leftarrow> list_del y mm;
          let mm = sub_clear_avail (force_merge \<and> drm_buddy_block_is_clear buddy) buddy mm;
          mm \<leftarrow> drm_block_free b mm;
          drm_block_free y mm }"

lemma merge_up_unfold:
  assumes "slab mm b = Some x" "parent x = Some p" "do_get_buddy b mm = Some (Some y)" "slab mm y = Some yb"
  shows "merge_up force b mm =
    (if drm_buddy_block_is_free yb \<and> (force \<or> drm_buddy_block_is_clear x = drm_buddy_block_is_clear yb)
     then Option.bind (merge_step force b x p y yb mm) (merge_up force p) else Some (b, mm))"
  using assms by (subst merge_up.simps) (simp add: merge_step_def Let_def)

lemma merge_step_ok:
  fixes force_merge :: bool
  assumes "detached b mm" "slab mm b = Some x" "parent x = Some p"
    and pb: "slab mm p = Some pb" "drm_buddy_block_is_split pb" "\<not> drm_buddy_block_is_clear pb"
    and y: "slab mm y = Some yb" "y \<noteq> b" "p \<noteq> b" "p \<noteq> y" "drm_buddy_block_is_free yb"
    and lr: "(left pb = Some b \<and> right pb = Some y) \<or> (left pb = Some y \<and> right pb = Some b)"
  defines "pb' \<equiv> if \<not> force_merge \<and> drm_buddy_block_is_clear x then with_clear pb else pb"
  defines "mm' \<equiv> mm\<lparr>slab := (slab mm)(p \<mapsto> pb', b := None, y := None), free_list := map (remove1 y) (free_list mm),
    clear_avail := clear_avail mm - (if force_merge \<and> drm_buddy_block_is_clear yb then drm_buddy_block_size mm yb else 0)\<rparr>"
  shows "merge_step force_merge b x p y yb mm = Some mm'" "detached p mm'"
proof -
  let ?mm = "as_leaf b mm" and ?x = "with_state DRM_BUDDY_ALLOCATED x"
  have ok: "tree_ok {} ?mm" "lists_ok {} ?mm" and s: "slab ?mm b = Some ?x" "slab ?mm p = Some pb" "slab ?mm y = Some yb"
    using assms(1) as_leaf_self [OF assms(2)] pb(1) y by (simp_all add: detached_def)
  have oy: "drm_buddy_block_order yb \<le> max_order ?mm"
    using tree_okD(2) [OF ok(1) s(3)] .
  note d = list_del_ok [OF ok(2) s(3) y(5) _ oy, simplified]
  have del: "list_del y m = Some (m\<lparr>free_list := map (remove1 y) (free_list m)\<rparr>)" if "free_list m = free_list mm" for m
    using d(1) that by (auto simp: list_del_def split: if_splits)
  have "(if \<not> force_merge \<and> drm_buddy_block_is_clear x then mark_cleared p mm else Some mm) =
      Some (mm\<lparr>slab := (slab mm)(p \<mapsto> pb')\<rparr>)"
    using pb(1) by (auto simp: mark_cleared_def pb'_def fun_upd_idem)
  then show "merge_step force_merge b x p y yb mm = Some mm'"
    using assms(2) pb(1) y(1-4) unfolding merge_step_def
    by (simp add: del sub_clear_avail_def drm_block_free_def mm'_def drm_buddy_block_size_def)
  define q where "q = as_leaf p mm'"
  define pq where "pq = with_state DRM_BUDDY_ALLOCATED pb'"
  have q: "slab q = (slab ?mm)(b := None, y := None, p \<mapsto> pq)" "same_shape ?mm q" "slab_next q = slab_next ?mm"
    using y(2-4) by (auto simp: q_def mm'_def as_leaf_def pq_def same_shape_def)
  have "tree_ok {} q"
  proof -
    have sb: "same_block pb pq" "leaf pq"
      by (auto simp: pq_def pb'_def same_block_def leaf_def)
    have lf: "leaf ?x" "leaf yb"
      using y(5) by (simp_all add: leaf_def)
    show ?thesis
      using lr
    proof
      assume "left pb = Some b \<and> right pb = Some y"
      then show ?thesis
        using tree_ok_merge [OF ok(1) s(2) pb(2) _ _ s(1,3) lf sb q(2,1,3)] by blast
    next
      assume "left pb = Some y \<and> right pb = Some b"
      moreover have "slab q = (slab ?mm)(y := None, b := None, p \<mapsto> pq)"
        using q(1) y(2) by (simp add: fun_upd_twist)
      ultimately show ?thesis
        using tree_ok_merge [OF ok(1) s(2) pb(2) _ _ s(3,1) lf(2,1) sb q(2) _ q(3)] by blast
    qed
  qed
  moreover have "lists_ok {} q"
  proof -
    define m1 where "m1 = ?mm\<lparr>free_list := map (remove1 y) (free_list mm)\<rparr>"
    define m2 where "m2 = m1\<lparr>slab := (slab m1)(b := None)\<rparr>"
    define m3 where "m3 = m2\<lparr>slab := (slab m2)(y := None)\<rparr>"
    have "lists_ok {y} m2"
      by (rule lists_ok_unlinked [OF d(2), of b None]) (use s(1) in \<open>auto simp: m1_def m2_def\<close>)
    then have "lists_ok {} m3"
      by (rule lists_ok_unlinked [where b = y and v = None]) (auto simp: m3_def)
    then show ?thesis
      by (rule lists_ok_unlinked [where b = p and v = "Some pq"])
        (use s(2) pb(2) y(2-4) states_exclude(3) [OF pb(2)] in
          \<open>auto simp: m1_def m2_def m3_def q(1) pq_def\<close>, auto simp: q_def mm'_def)
  qed
  ultimately show "detached p mm'"
    using y(3,4) by (simp add: detached_def q_def mm'_def)
qed

section \<open>Merged trees\<close>

text \<open>Two free buddies with the same clear flag would have been merged.\<close>

definition mergeable :: "drm_buddy \<Rightarrow> nat \<Rightarrow> bool" where
  "mergeable mm p \<longleftrightarrow> (\<exists>y l r lb rb. slab mm p = Some y \<and> drm_buddy_block_is_split y \<and> left y = Some l \<and> right y = Some r \<and>
     slab mm l = Some lb \<and> slab mm r = Some rb \<and> drm_buddy_block_is_free lb \<and> drm_buddy_block_is_free rb \<and>
     drm_buddy_block_is_clear lb = drm_buddy_block_is_clear rb)"

definition merged :: "nat set \<Rightarrow> drm_buddy \<Rightarrow> bool" where
  "merged E mm \<longleftrightarrow> (\<forall>p. mergeable mm p \<longrightarrow> p \<in> E)"

definition clear_part :: "drm_buddy \<Rightarrow> drm_buddy_block \<Rightarrow> u64" where
  "clear_part mm x = (if drm_buddy_block_is_clear x then drm_buddy_block_size mm x else 0)"

lemma merge_step_merged:
  assumes "detached b mm" "slab mm b = Some x" "parent x = Some p"
    and pb: "slab mm p = Some pb" "drm_buddy_block_is_split pb" "\<not> drm_buddy_block_is_clear pb"
    and y: "slab mm y = Some yb" "y \<noteq> b" "p \<noteq> b" "p \<noteq> y" "drm_buddy_block_is_free yb"
    and mm': "slab mm' = (slab mm)(p \<mapsto> pb', b := None, y := None)" "slab_next mm' = slab_next mm" "chunk_size mm' = chunk_size mm"
  shows "merged E (as_leaf b mm) \<Longrightarrow> merged E (as_leaf p mm')"
    "free_bytes (as_leaf p mm') = free_bytes (as_leaf b mm) - drm_buddy_block_size mm yb"
    "clear_bytes (as_leaf p mm') = clear_bytes (as_leaf b mm) - clear_part mm yb"
proof -
  let ?mm = "as_leaf b mm" and ?x = "with_state DRM_BUDDY_ALLOCATED x"
  define q where "q = as_leaf p mm'"
  define pq where "pq = with_state DRM_BUDDY_ALLOCATED pb'"
  have q: "slab q = (slab ?mm)(b := None, y := None, p \<mapsto> pq)"
    using y(2-4) mm'(1) by (auto simp: q_def as_leaf_def pq_def)
  have s: "slab ?mm b = Some ?x" "slab ?mm p = Some pb" "slab ?mm y = Some yb" and ok: "tree_ok {} ?mm"
    using assms(1) as_leaf_self [OF assms(2)] pb(1) y by (simp_all add: detached_def)
  have "mergeable ?mm k" if "mergeable q k" for k
    using that unfolding mergeable_def q by (auto split: if_splits simp: pq_def)
  then show "merged E ?mm \<Longrightarrow> merged E (as_leaf p mm')"
    by (auto simp: merged_def q_def)
  define m1 where "m1 = ?mm\<lparr>slab := (slab ?mm)(b := None)\<rparr>"
  define m2 where "m2 = m1\<lparr>slab := (slab m1)(y := None)\<rparr>"
  have n: "b < slab_next mm" "y < slab_next mm" "p < slab_next mm"
    using tree_okD(1) [OF ok s(1)] tree_okD(1) [OF ok s(2)] tree_okD(1) [OF ok s(3)] by simp_all
  have v: "free_size m = free_size mm" "clear_size m = clear_size mm" if "chunk_size m = chunk_size mm" for m
    using size_views [OF that] .
  have 1: "free_bytes m1 = free_bytes ?mm" "clear_bytes m1 = clear_bytes ?mm"
    using bytes_update [of m1 ?mm b None] n s(1) by (simp_all add: m1_def free_size_def clear_size_def)
  have 2: "free_bytes m2 = free_bytes m1 - drm_buddy_block_size mm yb" "clear_bytes m2 = clear_bytes m1 - clear_part mm yb"
    using bytes_update [of m2 m1 y None] n s(3) y(2,5)
    by (auto simp: m1_def m2_def free_size_def clear_size_def clear_part_def drm_buddy_block_size_def)
  have 3: "free_bytes q = free_bytes m2" "clear_bytes q = clear_bytes m2"
    using bytes_update [of q m2 p "Some pq"] n s(2) y(2-4) pb(2) states_exclude(3) [OF pb(2)] q mm'(2,3)
    by (auto simp: m1_def m2_def q_def free_size_def clear_size_def pq_def)
  show "free_bytes (as_leaf p mm') = free_bytes ?mm - drm_buddy_block_size mm yb"
    "clear_bytes (as_leaf p mm') = clear_bytes ?mm - clear_part mm yb"
    using 1 2 3 by (simp_all add: q_def)
qed

section \<open>The loop\<close>

text \<open>The addresses of the free blocks whose clear flag is in \<open>F\<close>.\<close>

definition free_part :: "drm_buddy \<Rightarrow> bool set \<Rightarrow> drm_buddy_block option \<Rightarrow> nat set" where
  "free_part mm F v = (case v of None \<Rightarrow> {}
     | Some z \<Rightarrow> if drm_buddy_block_is_free z \<and> drm_buddy_block_is_clear z \<in> F then region mm z else {})"

definition free_space :: "drm_buddy \<Rightarrow> bool set \<Rightarrow> nat set" where
  "free_space mm F = (\<Union>c. free_part mm F (slab mm c))"

lemma free_part_cong: "region mm' = region mm \<Longrightarrow> free_part mm' = free_part mm"
  by (intro ext) (simp add: free_part_def split: option.split)

lemma free_space_cong: "region mm' = region mm \<Longrightarrow> slab mm' = slab mm \<Longrightarrow> free_space mm' F = free_space mm F"
  using free_part_cong [of mm' mm] by (simp add: free_space_def)

lemma free_space_drop:
  assumes "slab mm' = (slab mm)(b := v)" "region mm' = region mm" "free_part mm F v = {}"
  shows "free_space mm F = free_space mm' F \<union> free_part mm F (slab mm b)"
  using assms(1,3) free_part_cong [OF assms(2)] by (auto simp: free_space_def split: if_splits)

lemma free_space_add:
  assumes "slab mm' = (slab mm)(b := v)" "region mm' = region mm" "free_part mm F (slab mm b) = {}"
  shows "free_space mm' F = free_space mm F \<union> free_part mm F v"
proof -
  have "slab mm = (slab mm')(b := slab mm b)"
    using assms(1) by auto
  from free_space_drop [OF this assms(2) [symmetric], of F] show ?thesis
    using assms(1,3) free_part_cong [OF assms(2)] by simp
qed

definition space_part :: "drm_buddy \<Rightarrow> drm_buddy_block \<Rightarrow> bool set \<Rightarrow> nat set" where
  "space_part mm x F = (if drm_buddy_block_is_clear x \<in> F then region mm x else {})"

definition merge_rel :: "bool \<Rightarrow> nat \<Rightarrow> drm_buddy \<Rightarrow> nat \<Rightarrow> drm_buddy \<Rightarrow> bool" where
  "merge_rel force_merge b mm b' mm' \<longleftrightarrow> (\<exists>x x'. slab mm b = Some x \<and> slab mm' b' = Some x' \<and> same_shape mm mm' \<and>
     avail mm' = avail mm \<and> slab_next mm' = slab_next mm \<and> warned mm' = warned mm \<and>
     drm_buddy_block_order x \<le> drm_buddy_block_order x' \<and>
     free_bytes (as_leaf b' mm') + drm_buddy_block_size mm x' = free_bytes (as_leaf b mm) + drm_buddy_block_size mm x \<and>
     (if force_merge then clear_avail mm' - clear_bytes (as_leaf b' mm') = clear_avail mm - clear_bytes (as_leaf b mm)
      else clear_avail mm' = clear_avail mm \<and>
        clear_bytes (as_leaf b' mm') + clear_part mm x' = clear_bytes (as_leaf b mm) + clear_part mm x) \<and>
     (force_merge \<longrightarrow> b' = b \<and> mm' = mm \<or> \<not> drm_buddy_block_is_clear x') \<and>
     (\<forall>F. (force_merge \<longrightarrow> F = UNIV) \<longrightarrow>
        free_space (as_leaf b' mm') F \<union> space_part mm x' F = free_space (as_leaf b mm) F \<union> space_part mm x F) \<and>
     (\<forall>c z. slab mm c = Some z \<and> drm_buddy_block_order z < drm_buddy_block_order x \<longrightarrow> slab mm' c = Some z) \<and>
     (\<forall>c z. drm_buddy_block_is_allocated z \<longrightarrow>
        (slab mm c = Some z \<and> c \<noteq> b \<longleftrightarrow> slab mm' c = Some z \<and> c \<noteq> b')))"

lemma merge_relI:
  assumes "slab mm b = Some x" "slab mm' b' = Some x'" "same_shape mm mm'"
    "avail mm' = avail mm" "slab_next mm' = slab_next mm" "warned mm' = warned mm"
    "drm_buddy_block_order x \<le> drm_buddy_block_order x'"
    "free_bytes (as_leaf b' mm') + drm_buddy_block_size mm x' = free_bytes (as_leaf b mm) + drm_buddy_block_size mm x"
    "if force_merge then clear_avail mm' - clear_bytes (as_leaf b' mm') = clear_avail mm - clear_bytes (as_leaf b mm)
     else clear_avail mm' = clear_avail mm \<and>
      clear_bytes (as_leaf b' mm') + clear_part mm x' = clear_bytes (as_leaf b mm) + clear_part mm x"
    "force_merge \<Longrightarrow> b' = b \<and> mm' = mm \<or> \<not> drm_buddy_block_is_clear x'"
    "\<And>F. force_merge \<longrightarrow> F = UNIV \<Longrightarrow>
      free_space (as_leaf b' mm') F \<union> space_part mm x' F = free_space (as_leaf b mm) F \<union> space_part mm x F"
    "\<And>c z. slab mm c = Some z \<and> drm_buddy_block_order z < drm_buddy_block_order x \<Longrightarrow> slab mm' c = Some z"
    "\<And>c z. drm_buddy_block_is_allocated z \<Longrightarrow> slab mm c = Some z \<and> c \<noteq> b \<longleftrightarrow> slab mm' c = Some z \<and> c \<noteq> b'"
  shows "merge_rel force_merge b mm b' mm'"
  unfolding merge_rel_def
  by (rule exI [of _ x], rule exI [of _ x'], intro conjI allI impI;
      (rule assms(1-9) | (rule assms(10), assumption) | (rule assms(11), assumption) | (rule assms(12), assumption) |
        (rule assms(13), assumption)))

lemma merge_rel_refl: "slab mm b = Some x \<Longrightarrow> merge_rel force_merge b mm b mm"
  by (simp add: merge_rel_def)

lemma shape_sizes:
  assumes "same_shape mm mm'"
  shows "drm_buddy_block_size mm' = drm_buddy_block_size mm" "clear_part mm' = clear_part mm" "space_part mm' = space_part mm"
  using assms by (auto simp: same_shape_def drm_buddy_block_size_def clear_part_def space_part_def region_def block_bytes_def fun_eq_iff)

lemma merge_rel_trans:
  assumes "merge_rel force_merge a mm b mm'" "merge_rel force_merge b mm' c mm''"
  shows "merge_rel force_merge a mm c mm''"
proof -
  obtain x x' where 1: "slab mm a = Some x" "slab mm' b = Some x'" "same_shape mm mm'"
      "avail mm' = avail mm" "slab_next mm' = slab_next mm" "warned mm' = warned mm"
      "drm_buddy_block_order x \<le> drm_buddy_block_order x'"
      "free_bytes (as_leaf b mm') + drm_buddy_block_size mm x' = free_bytes (as_leaf a mm) + drm_buddy_block_size mm x"
      "if force_merge then clear_avail mm' - clear_bytes (as_leaf b mm') = clear_avail mm - clear_bytes (as_leaf a mm)
       else clear_avail mm' = clear_avail mm \<and>
        clear_bytes (as_leaf b mm') + clear_part mm x' = clear_bytes (as_leaf a mm) + clear_part mm x"
      "force_merge \<longrightarrow> b = a \<and> mm' = mm \<or> \<not> drm_buddy_block_is_clear x'"
      "\<And>F. (force_merge \<longrightarrow> F = UNIV) \<Longrightarrow>
        free_space (as_leaf b mm') F \<union> space_part mm x' F = free_space (as_leaf a mm) F \<union> space_part mm x F"
      "\<And>d z. slab mm d = Some z \<and> drm_buddy_block_order z < drm_buddy_block_order x \<Longrightarrow> slab mm' d = Some z"
      "\<And>d z. drm_buddy_block_is_allocated z \<Longrightarrow> slab mm d = Some z \<and> d \<noteq> a \<longleftrightarrow> slab mm' d = Some z \<and> d \<noteq> b"
    using assms(1) unfolding merge_rel_def by blast
  obtain x'' where 2: "slab mm'' c = Some x''" "same_shape mm' mm''"
      "avail mm'' = avail mm'" "slab_next mm'' = slab_next mm'" "warned mm'' = warned mm'"
      "drm_buddy_block_order x' \<le> drm_buddy_block_order x''"
      "free_bytes (as_leaf c mm'') + drm_buddy_block_size mm' x'' = free_bytes (as_leaf b mm') + drm_buddy_block_size mm' x'"
      "if force_merge then clear_avail mm'' - clear_bytes (as_leaf c mm'') = clear_avail mm' - clear_bytes (as_leaf b mm')
       else clear_avail mm'' = clear_avail mm' \<and>
        clear_bytes (as_leaf c mm'') + clear_part mm' x'' = clear_bytes (as_leaf b mm') + clear_part mm' x'"
      "force_merge \<longrightarrow> c = b \<and> mm'' = mm' \<or> \<not> drm_buddy_block_is_clear x''"
      "\<And>F. (force_merge \<longrightarrow> F = UNIV) \<Longrightarrow>
        free_space (as_leaf c mm'') F \<union> space_part mm' x'' F = free_space (as_leaf b mm') F \<union> space_part mm' x' F"
      "\<And>d z. slab mm' d = Some z \<and> drm_buddy_block_order z < drm_buddy_block_order x' \<Longrightarrow> slab mm'' d = Some z"
      "\<And>d z. drm_buddy_block_is_allocated z \<Longrightarrow> slab mm' d = Some z \<and> d \<noteq> b \<longleftrightarrow> slab mm'' d = Some z \<and> d \<noteq> c"
    using assms(2) 1(2) unfolding merge_rel_def by auto
  note e = shape_sizes [OF 1(3)]
  have "same_shape mm mm''" "avail mm'' = avail mm" "slab_next mm'' = slab_next mm" "warned mm'' = warned mm"
      "drm_buddy_block_order x \<le> drm_buddy_block_order x''"
      "free_bytes (as_leaf c mm'') + drm_buddy_block_size mm x'' = free_bytes (as_leaf a mm) + drm_buddy_block_size mm x"
    using same_shape_trans [OF 1(3) 2(2)] 1(4-8) 2(3-7) by (simp_all add: e)
  moreover have "if force_merge then clear_avail mm'' - clear_bytes (as_leaf c mm'') = clear_avail mm - clear_bytes (as_leaf a mm)
       else clear_avail mm'' = clear_avail mm \<and>
        clear_bytes (as_leaf c mm'') + clear_part mm x'' = clear_bytes (as_leaf a mm) + clear_part mm x"
    using 1(9) 2(8) by (cases force_merge) (simp_all add: e)
  moreover have "c = a \<and> mm'' = mm \<or> \<not> drm_buddy_block_is_clear x''" if force_merge
    using that 1(2,10) 2(1,9) by auto
  moreover have "free_space (as_leaf c mm'') F \<union> space_part mm x'' F = free_space (as_leaf a mm) F \<union> space_part mm x F"
    if "force_merge \<longrightarrow> F = UNIV" for F
    using 1(11) [OF that] 2(10) [OF that] by (simp add: e)
  moreover have "slab mm'' d = Some z" if "slab mm d = Some z \<and> drm_buddy_block_order z < drm_buddy_block_order x" for d z
    using 1(12) [OF that] 2(11) [of d z] 1(7) that by simp
  moreover have "slab mm d = Some z \<and> d \<noteq> a \<longleftrightarrow> slab mm'' d = Some z \<and> d \<noteq> c" if "drm_buddy_block_is_allocated z" for d z
    using 1(13) [OF that] 2(12) [OF that] by simp
  ultimately show ?thesis
    by (rule merge_relI [OF 1(1) 2(1)])
qed

definition merge_stop :: "bool \<Rightarrow> nat \<Rightarrow> drm_buddy \<Rightarrow> bool" where
  "merge_stop force_merge b mm \<longleftrightarrow> (\<exists>x. slab mm b = Some x \<and> (parent x = None \<or>
     (\<exists>y yb. do_get_buddy b mm = Some (Some y) \<and> slab mm y = Some yb \<and>
       (\<not> drm_buddy_block_is_free yb \<or>
        \<not> force_merge \<and> drm_buddy_block_is_clear x \<noteq> drm_buddy_block_is_clear yb))))"

lemma merge_rel_step:
  assumes "detached b mm" "slab mm b = Some x" "parent x = Some p"
    and pb: "slab mm p = Some pb" "drm_buddy_block_is_split pb" "\<not> drm_buddy_block_is_clear pb"
    and y: "slab mm y = Some yb" "y \<noteq> b" "p \<noteq> b" "p \<noteq> y" "drm_buddy_block_is_free yb"
    and o: "drm_buddy_block_order yb = drm_buddy_block_order x" "Suc (drm_buddy_block_order x) = drm_buddy_block_order pb"
    and c: "force_merge \<or> drm_buddy_block_is_clear x = drm_buddy_block_is_clear yb"
    and reg: "region mm x \<union> region mm yb = region mm pb"
  defines "pb' \<equiv> if \<not> force_merge \<and> drm_buddy_block_is_clear x then with_clear pb else pb"
  defines "mm' \<equiv> mm\<lparr>slab := (slab mm)(p \<mapsto> pb', b := None, y := None), free_list := map (remove1 y) (free_list mm),
    clear_avail := clear_avail mm - (if force_merge \<and> drm_buddy_block_is_clear yb then drm_buddy_block_size mm yb else 0)\<rparr>"
  shows "merge_rel force_merge b mm p mm'"
proof -
  have m: "slab mm' = (slab mm)(p \<mapsto> pb', b := None, y := None)" "slab_next mm' = slab_next mm" "chunk_size mm' = chunk_size mm"
      "clear_avail mm' = clear_avail mm - (if force_merge \<and> drm_buddy_block_is_clear yb then drm_buddy_block_size mm yb else 0)"
    by (simp_all add: mm'_def)
  note f = merge_step_merged [OF assms(1-11) m(1-3)]
  have pb': "drm_buddy_block_order pb' = drm_buddy_block_order pb" "drm_buddy_block_is_split pb'"
      "drm_buddy_block_is_clear pb' \<longleftrightarrow> \<not> force_merge \<and> drm_buddy_block_is_clear x"
    using pb by (auto simp: pb'_def)
  have sz: "drm_buddy_block_size mm pb' = drm_buddy_block_size mm x + drm_buddy_block_size mm x"
      "drm_buddy_block_size mm yb = drm_buddy_block_size mm x"
    using block_size_halves [of x pb mm] o pb'(1) by (simp_all add: drm_buddy_block_size_def)
  have "slab mm' p = Some pb'" "same_shape mm mm'" "avail mm' = avail mm" "slab_next mm' = slab_next mm" "warned mm' = warned mm"
    using y(3,4) by (simp_all add: mm'_def same_shape_def)
  moreover have "drm_buddy_block_order x \<le> drm_buddy_block_order pb'"
    using o(2) pb'(1) by simp
  moreover have "free_bytes (as_leaf p mm') + drm_buddy_block_size mm pb' = free_bytes (as_leaf b mm) + drm_buddy_block_size mm x"
    using f(2) sz by simp
  moreover have "if force_merge then clear_avail mm' - clear_bytes (as_leaf p mm') = clear_avail mm - clear_bytes (as_leaf b mm)
      else clear_avail mm' = clear_avail mm \<and>
        clear_bytes (as_leaf p mm') + clear_part mm pb' = clear_bytes (as_leaf b mm) + clear_part mm x"
    using f(3) sz c pb'(3) m(4) by (auto simp: clear_part_def)
  moreover have "p = b \<and> mm' = mm \<or> \<not> drm_buddy_block_is_clear pb'" if force_merge
    using that pb'(3) by simp
  moreover have "free_space (as_leaf p mm') F \<union> space_part mm pb' F = free_space (as_leaf b mm) F \<union> space_part mm x F"
    if F: "force_merge \<longrightarrow> F = UNIV" for F
  proof -
    have q: "slab (as_leaf p mm') = (slab (as_leaf b mm))(b := None, y := None, p \<mapsto> with_state DRM_BUDDY_ALLOCATED pb')"
      using y(2-4) by (auto simp: m(1) as_leaf_def)
    have r: "region (as_leaf p mm') = region mm" "region (as_leaf b mm) = region mm"
      by (auto simp: region_def block_bytes_def m(3) fun_eq_iff)
    have s: "slab (as_leaf b mm) b = Some (with_state DRM_BUDDY_ALLOCATED x)" "slab (as_leaf b mm) y = Some yb" "slab (as_leaf b mm) p = Some pb"
      using assms(2) y pb(1) by (simp_all add: as_leaf_self)
    define m1 where "m1 = (as_leaf b mm)\<lparr>slab := (slab (as_leaf b mm))(b := None)\<rparr>"
    define m2 where "m2 = m1\<lparr>slab := (slab m1)(y := None)\<rparr>"
    have r': "region m1 = region mm" "region m2 = region mm"
      by (auto simp: m1_def m2_def region_def block_bytes_def fun_eq_iff)
    have "free_space (as_leaf b mm) F = free_space m1 F"
      using free_space_drop [of m1 "as_leaf b mm" b None F] s(1) r r' by (simp add: m1_def free_part_def)
    moreover have "free_space m1 F = free_space m2 F \<union> space_part mm yb F"
      using free_space_drop [of m2 m1 y None F] s(2) r' y(2,5) by (simp add: m1_def m2_def free_part_def space_part_def)
    moreover have "free_space (as_leaf p mm') F = free_space m2 F"
      using free_space_add [of "as_leaf p mm'" m2 p _ F] q s(3) r r' y(2-4) states_exclude(3) [OF pb(2)]
      by (simp add: m1_def m2_def free_part_def)
    ultimately have "free_space (as_leaf b mm) F = free_space (as_leaf p mm') F \<union> space_part mm yb F"
      by simp
    moreover have "region mm pb' = region mm pb"
      by (simp add: pb'_def region_def block_start_def block_bytes_def)
    ultimately show ?thesis
      using F c pb'(3) reg by (auto simp: space_part_def)
  qed
  moreover have "slab mm' c = Some z" if "slab mm c = Some z \<and> drm_buddy_block_order z < drm_buddy_block_order x" for c z
    using that o pb(1) y(1) assms(2) by (auto simp: m(1))
  moreover have "slab mm c = Some z \<and> c \<noteq> b \<longleftrightarrow> slab mm' c = Some z \<and> c \<noteq> p" if "drm_buddy_block_is_allocated z" for c z
    using that pb' pb(1,2) y(1,5) states_exclude(1) [of z] states_exclude(3) [of z] by (auto simp: m(1))
  ultimately show ?thesis
    by (rule merge_relI [OF assms(2)])
qed

lemma merge_up_ok:
  assumes "detached b mm" "merged E (as_leaf b mm)"
  shows "\<exists>b' mm'. merge_up force_merge b mm = Some (b', mm') \<and> detached b' mm' \<and> merged E (as_leaf b' mm') \<and>
    merge_rel force_merge b mm b' mm' \<and> merge_stop force_merge b' mm'"
  using assms
proof (induction "max_order mm - drm_buddy_block_order (the (slab mm b))" arbitrary: b mm rule: less_induct)
  case less
  obtain x where x: "slab mm b = Some x"
    using less.prems(1) by (auto simp: detached_def)
  show ?case
  proof (cases "parent x")
    case None
    then have "merge_up force_merge b mm = Some (b, mm)"
      using x by (subst merge_up.simps) simp
    then show ?thesis
      using less.prems x None merge_rel_refl [OF x] by (auto simp: merge_stop_def)
  next
    case (Some p)
    obtain pb y yb where k: "slab mm p = Some pb" "drm_buddy_block_is_split pb" "\<not> drm_buddy_block_is_clear pb"
        "do_get_buddy b mm = Some (Some y)" "slab mm y = Some yb" "y \<noteq> b" "p \<noteq> b" "p \<noteq> y" "parent yb = Some p"
        "(left pb = Some b \<and> right pb = Some y) \<or> (left pb = Some y \<and> right pb = Some b)"
        "drm_buddy_block_order yb = drm_buddy_block_order x" "Suc (drm_buddy_block_order x) = drm_buddy_block_order pb"
        "region mm x \<union> region mm yb = region mm pb"
      by (rule buddy_of [OF less.prems(1) x Some])
    note u = merge_up_unfold [OF x Some k(4,5), of force_merge]
    show ?thesis
    proof (cases "drm_buddy_block_is_free yb \<and> (force_merge \<or> drm_buddy_block_is_clear x = drm_buddy_block_is_clear yb)")
      case False
      then have "merge_stop force_merge b mm" "merge_up force_merge b mm = Some (b, mm)"
        using x k u by (auto simp: merge_stop_def)
      then show ?thesis
        using less.prems merge_rel_refl [OF x] by blast
    next
      case True
      define pb' where "pb' = (if \<not> force_merge \<and> drm_buddy_block_is_clear x then with_clear pb else pb)"
      define mm' where "mm' = mm\<lparr>slab := (slab mm)(p \<mapsto> pb', b := None, y := None), free_list := map (remove1 y) (free_list mm),
        clear_avail := clear_avail mm - (if force_merge \<and> drm_buddy_block_is_clear yb then drm_buddy_block_size mm yb else 0)\<rparr>"
      note st = merge_step_ok [OF less.prems(1) x Some k(1-3,5-8) conjunct1 [OF True] k(10), of force_merge, folded pb'_def, folded mm'_def]
      have r: "merge_rel force_merge b mm p mm'"
        using merge_rel_step [OF less.prems(1) x Some k(1-3,5-8) conjunct1 [OF True] k(11,12) conjunct2 [OF True] k(13)]
        by (simp add: mm'_def pb'_def)
      have m: "merged E (as_leaf p mm')"
        by (rule merge_step_merged(1) [OF less.prems(1) x Some k(1-3,5-8) conjunct1 [OF True] _ _ _ less.prems(2), of mm' pb'])
          (simp_all add: mm'_def)
      have "drm_buddy_block_order pb \<le> max_order mm" "slab mm' p = Some pb'" "drm_buddy_block_order pb' = drm_buddy_block_order pb"
        using tree_okD(2) [of "{}" "as_leaf b mm" p pb] less.prems(1) k(1,7,8) by (auto simp: detached_def mm'_def pb'_def)
      then have "max_order mm' - drm_buddy_block_order (the (slab mm' p)) < max_order mm - drm_buddy_block_order (the (slab mm b))"
        using k(12) x by (simp add: mm'_def)
      from less.hyps [OF this st(2) m] merge_rel_trans [OF r] u True st(1) show ?thesis
        by fastforce
    qed
  qed
qed

section \<open>Freeing\<close>

text \<open>The block the loop ends with is marked free and linked.\<close>

lemma mark_free_detached:
  assumes "detached b mm" "slab mm b = Some x"
  obtains mm' fl where "mark_free b mm = Some mm'" "mm' = mm\<lparr>slab := (slab mm)(b \<mapsto> with_state DRM_BUDDY_FREE x), free_list := fl\<rparr>"
    "tree_ok {} mm'" "lists_ok {} mm'"
proof -
  let ?mm = "as_leaf b mm"
  have ok: "tree_ok {} ?mm" "lists_ok {} ?mm" and s: "slab ?mm b = Some (with_state DRM_BUDDY_ALLOCATED x)"
    using assms(1) as_leaf_self [OF assms(2)] by (simp_all add: detached_def)
  have "lists_ok {b} mm"
    by (rule lists_ok_unlinked [OF ok(2), of b "Some x"]) (use s assms(2) in \<open>auto simp: as_leaf_def\<close>)
  moreover have "drm_buddy_block_order x \<le> max_order mm"
    using tree_okD(2) [OF ok(1) s] by simp
  ultimately obtain fl where fl: "mark_free b mm = Some (mm\<lparr>slab := (slab mm)(b \<mapsto> with_state DRM_BUDDY_FREE x), free_list := fl\<rparr>)"
      "lists_ok {} (mm\<lparr>slab := (slab mm)(b \<mapsto> with_state DRM_BUDDY_FREE x), free_list := fl\<rparr>)"
    using mark_free_ok [of "{b}" mm b x] assms(2) by auto
  define mm' where "mm' = mm\<lparr>slab := (slab mm)(b \<mapsto> with_state DRM_BUDDY_FREE x), free_list := fl\<rparr>"
  have "tree_ok {} mm'"
    by (rule tree_ok_leaf_update [OF ok(1) s, of "with_state DRM_BUDDY_FREE x"])
      (auto simp: leaf_def same_block_def mm'_def same_shape_def as_leaf_def)
  then show ?thesis
    using that [of mm' fl] fl by (simp add: mm'_def)
qed

lemma mark_free_merged:
  assumes "detached b mm" "slab mm b = Some x" "merged E (as_leaf b mm)" "merge_stop force_merge b mm"
    and "slab mm' = (slab mm)(b \<mapsto> with_state DRM_BUDDY_FREE x)"
  shows "merged E mm'"
proof -
  have ok: "tree_ok {} (as_leaf b mm)" and s: "slab (as_leaf b mm) b = Some (with_state DRM_BUDDY_ALLOCATED x)"
    using assms(1) as_leaf_self [OF assms(2)] by (simp_all add: detached_def)
  have "p \<in> E" if mp: "mergeable mm' p" for p
  proof (rule ccontr)
    assume p: "p \<notin> E"
    obtain y l r lb rb where m: "slab mm' p = Some y" "drm_buddy_block_is_split y" "left y = Some l" "right y = Some r"
      "slab mm' l = Some lb" "slab mm' r = Some rb" "drm_buddy_block_is_free lb" "drm_buddy_block_is_free rb"
      "drm_buddy_block_is_clear lb = drm_buddy_block_is_clear rb"
      using mp unfolding mergeable_def by blast
    have pb: "p \<noteq> b" "slab mm p = Some y" "slab (as_leaf b mm) p = Some y"
      using m(1,2) assms(5) by (auto split: if_splits)
    have "l = b \<or> r = b"
    proof (rule ccontr)
      assume "\<not> (l = b \<or> r = b)"
      then have "mergeable (as_leaf b mm) p"
        using m pb assms(5) unfolding mergeable_def by auto
      then show False
        using assms(3) p by (simp add: merged_def)
    qed
    obtain lb' rb' where k: "l \<noteq> r" "slab (as_leaf b mm) l = Some lb'" "slab (as_leaf b mm) r = Some rb'"
        "parent lb' = Some p" "parent rb' = Some p"
      using children_of [OF ok pb(3) m(2)] m(3,4) by (metis option.inject)
    have par: "parent x = Some p"
      using \<open>l = b \<or> r = b\<close> k s by auto
    then have "do_get_buddy b mm = Some (Some (if l = b then r else l))"
      using assms(2) pb(2) m(3,4) \<open>l = b \<or> r = b\<close> k(1) by (auto simp: do_get_buddy_def)
    then show False
      using assms(2,4,5) par m \<open>l = b \<or> r = b\<close> k(1) unfolding merge_stop_def by (auto split: if_splits)
  qed
  then show ?thesis
    by (simp add: merged_def)
qed

definition freed :: "bool \<Rightarrow> nat \<Rightarrow> drm_buddy \<Rightarrow> drm_buddy \<Rightarrow> bool" where
  "freed force_merge b mm mm' \<longleftrightarrow> (\<exists>x. slab mm b = Some x \<and> same_shape mm mm' \<and> avail mm' = avail mm \<and>
     slab_next mm' = slab_next mm \<and> warned mm' = warned mm \<and>
     free_bytes mm' = free_bytes (as_leaf b mm) + drm_buddy_block_size mm x \<and>
     (\<not> force_merge \<longrightarrow> clear_avail mm' = clear_avail mm \<and> clear_bytes mm' = clear_bytes (as_leaf b mm) + clear_part mm x) \<and>
     (force_merge \<and> \<not> merge_stop True b mm \<longrightarrow>
        clear_avail mm' - clear_bytes mm' = clear_avail mm - clear_bytes (as_leaf b mm)) \<and>
     (\<forall>F. (force_merge \<longrightarrow> F = UNIV) \<longrightarrow> free_space mm' F = free_space (as_leaf b mm) F \<union> space_part mm x F) \<and>
     (\<forall>c z. slab mm c = Some z \<and> drm_buddy_block_order z < drm_buddy_block_order x \<longrightarrow> slab mm' c = Some z) \<and>
     (\<forall>c z. drm_buddy_block_is_allocated z \<longrightarrow> (slab mm c = Some z \<and> c \<noteq> b \<longleftrightarrow> slab mm' c = Some z)))"

lemma freedI:
  assumes "slab mm b = Some x" "same_shape mm mm'" "avail mm' = avail mm" "slab_next mm' = slab_next mm" "warned mm' = warned mm"
    "free_bytes mm' = free_bytes (as_leaf b mm) + drm_buddy_block_size mm x"
    "\<not> force_merge \<Longrightarrow> clear_avail mm' = clear_avail mm \<and> clear_bytes mm' = clear_bytes (as_leaf b mm) + clear_part mm x"
    "force_merge \<and> \<not> merge_stop True b mm \<Longrightarrow>
      clear_avail mm' - clear_bytes mm' = clear_avail mm - clear_bytes (as_leaf b mm)"
    "\<And>F. force_merge \<longrightarrow> F = UNIV \<Longrightarrow> free_space mm' F = free_space (as_leaf b mm) F \<union> space_part mm x F"
    "\<And>c z. slab mm c = Some z \<and> drm_buddy_block_order z < drm_buddy_block_order x \<Longrightarrow> slab mm' c = Some z"
    "\<And>c z. drm_buddy_block_is_allocated z \<Longrightarrow> slab mm c = Some z \<and> c \<noteq> b \<longleftrightarrow> slab mm' c = Some z"
  shows "freed force_merge b mm mm'"
  unfolding freed_def
  by (rule exI [of _ x]) (simp add: assms(1-6,11), simp add: assms(7-10))

lemma do_drm_buddy_free_ok:
  assumes "detached b mm" "merged E (as_leaf b mm)"
  obtains n mm' where "do_drm_buddy_free force_merge b mm = Some (n, mm')" "tree_ok {} mm'" "lists_ok {} mm'" "merged E mm'"
    "freed force_merge b mm mm'"
proof -
  obtain b' mm1 where up: "merge_up force_merge b mm = Some (b', mm1)" "detached b' mm1" "merged E (as_leaf b' mm1)"
      "merge_rel force_merge b mm b' mm1" "merge_stop force_merge b' mm1"
    using merge_up_ok [OF assms] by blast
  obtain x x' where r: "slab mm b = Some x" "slab mm1 b' = Some x'" "same_shape mm mm1"
      "avail mm1 = avail mm" "slab_next mm1 = slab_next mm" "warned mm1 = warned mm"
      "drm_buddy_block_order x \<le> drm_buddy_block_order x'"
      "free_bytes (as_leaf b' mm1) + drm_buddy_block_size mm x' = free_bytes (as_leaf b mm) + drm_buddy_block_size mm x"
      "if force_merge then clear_avail mm1 - clear_bytes (as_leaf b' mm1) = clear_avail mm - clear_bytes (as_leaf b mm)
       else clear_avail mm1 = clear_avail mm \<and>
        clear_bytes (as_leaf b' mm1) + clear_part mm x' = clear_bytes (as_leaf b mm) + clear_part mm x"
      "force_merge \<longrightarrow> b' = b \<and> mm1 = mm \<or> \<not> drm_buddy_block_is_clear x'"
      "\<And>F. (force_merge \<longrightarrow> F = UNIV) \<Longrightarrow>
        free_space (as_leaf b' mm1) F \<union> space_part mm x' F = free_space (as_leaf b mm) F \<union> space_part mm x F"
      "\<And>c z. slab mm c = Some z \<and> drm_buddy_block_order z < drm_buddy_block_order x \<Longrightarrow> slab mm1 c = Some z"
      "\<And>c z. drm_buddy_block_is_allocated z \<Longrightarrow> slab mm c = Some z \<and> c \<noteq> b \<longleftrightarrow> slab mm1 c = Some z \<and> c \<noteq> b'"
    using up(4) unfolding merge_rel_def by blast
  obtain mm' fl where f: "mark_free b' mm1 = Some mm'"
      "mm' = mm1\<lparr>slab := (slab mm1)(b' \<mapsto> with_state DRM_BUDDY_FREE x'), free_list := fl\<rparr>" "tree_ok {} mm'" "lists_ok {} mm'"
    using mark_free_detached [OF up(2) r(2)] .
  let ?l = "as_leaf b' mm1" and ?x = "with_state DRM_BUDDY_FREE x'"
  have q: "slab mm' = (slab ?l)(b' \<mapsto> ?x)" "slab ?l b' = Some (with_state DRM_BUDDY_ALLOCATED x')" "same_shape mm1 mm'"
      "region mm' = region ?l"
    using r(2) by (auto simp: f(2) as_leaf_def same_shape_def region_def block_bytes_def fun_eq_iff)
  have n: "b' < slab_next ?l"
    using tree_okD(1) [of "{}" ?l b'] up(2) q(2) by (simp add: detached_def)
  note e = shape_sizes [OF r(3)]
  have bts: "free_bytes mm' = free_bytes ?l + drm_buddy_block_size mm x'" "clear_bytes mm' = clear_bytes ?l + clear_part mm x'"
    using bytes_update [OF q(1) n] q(2) e by (auto simp: f(2) free_size_def clear_size_def clear_part_def)
      (simp_all add: drm_buddy_block_size_def)
  have sp: "free_space mm' F = free_space ?l F \<union> space_part mm x' F" for F
  proof -
    have "region ?l = region mm" "region ?l ?x = region ?l x'"
      using r(3) by (auto simp: region_def block_bytes_def block_start_def same_shape_def fun_eq_iff)
    then show ?thesis
      using free_space_add [OF q(1,4), of F] q(2) by (simp add: free_part_def space_part_def)
  qed
  have "merged E mm'"
    by (rule mark_free_merged [OF up(2) r(2) up(3,5)]) (simp add: f(2))
  moreover have "do_drm_buddy_free force_merge b mm = Some (drm_buddy_block_order x', mm')"
    using up(1) r(2) f(1) by (simp add: do_drm_buddy_free_def)
  moreover have "freed force_merge b mm mm'"
  proof -
    have "same_shape mm mm'" "avail mm' = avail mm" "slab_next mm' = slab_next mm" "warned mm' = warned mm"
      using same_shape_trans [OF r(3) q(3)] r(4-6) by (simp_all add: f(2))
    moreover have "free_bytes mm' = free_bytes (as_leaf b mm) + drm_buddy_block_size mm x"
      using bts(1) r(8) by simp
    moreover have "clear_avail mm' = clear_avail mm \<and> clear_bytes mm' = clear_bytes (as_leaf b mm) + clear_part mm x"
      if "\<not> force_merge"
      using that bts(2) r(9) by (simp add: f(2))
    moreover have "clear_avail mm' - clear_bytes mm' = clear_avail mm - clear_bytes (as_leaf b mm)"
      if "force_merge \<and> \<not> merge_stop True b mm"
    proof -
      have "\<not> drm_buddy_block_is_clear x'"
        using that r(10) up(5) by auto
      then show ?thesis
        using that bts(2) r(9) by (simp add: f(2) clear_part_def)
    qed
    moreover have "free_space mm' F = free_space (as_leaf b mm) F \<union> space_part mm x F" if "force_merge \<longrightarrow> F = UNIV" for F
      using sp r(11) [OF that] by simp
    moreover have "slab mm' c = Some z" if "slab mm c = Some z \<and> drm_buddy_block_order z < drm_buddy_block_order x" for c z
      using r(12) [OF that] r(2,7) that by (auto simp: f(2))
    moreover have "slab mm c = Some z \<and> c \<noteq> b \<longleftrightarrow> slab mm' c = Some z" if "drm_buddy_block_is_allocated z" for c z
      using r(13) [OF that, of c] that by (auto simp: f(2))
    ultimately show ?thesis
      by (rule freedI [OF r(1)])
  qed
  ultimately show ?thesis
    using that f(3,4) by blast
qed

section \<open>Freeing allocated blocks\<close>

text \<open>The states between two calls of the interface.\<close>

definition valid :: "drm_buddy \<Rightarrow> bool" where
  "valid mm \<longleftrightarrow> buddy_inv {} mm \<and> merged {} mm"

lemma validD:
  assumes "valid mm"
  shows "tree_ok {} mm" "lists_ok {} mm" "avail mm = free_bytes mm" "clear_avail mm = clear_bytes mm" "merged {} mm"
  using assms by (simp_all add: valid_def buddy_inv_def counters_ok_def)

definition is_allocated :: "drm_buddy \<Rightarrow> nat \<Rightarrow> bool" where
  "is_allocated mm b \<longleftrightarrow> (\<exists>x. slab mm b = Some x \<and> drm_buddy_block_is_allocated x)"

text \<open>
  From \<open>mm\<close> to \<open>mm'\<close> the blocks \<open>bs\<close> were released: the other allocated blocks are the same, and the free space
  has grown by the regions of \<open>bs\<close>, with the clear flags \<open>fl\<close>.
\<close>

definition released :: "nat set \<Rightarrow> (drm_buddy_block \<Rightarrow> bool) \<Rightarrow> drm_buddy \<Rightarrow> drm_buddy \<Rightarrow> bool" where
  "released bs fl mm mm' \<longleftrightarrow> same_shape mm mm' \<and> warned mm' = warned mm \<and>
     (\<forall>c z. drm_buddy_block_is_allocated z \<longrightarrow> (slab mm' c = Some z \<longleftrightarrow> slab mm c = Some z \<and> c \<notin> bs)) \<and>
     avail mm' = avail mm + (\<Sum>b \<in> bs. drm_buddy_block_size mm (the (slab mm b))) \<and>
     (\<forall>F. free_space mm' F = free_space mm F \<union> (\<Union>b \<in> {b \<in> bs. fl (the (slab mm b)) \<in> F}. region mm (the (slab mm b))))"

lemma with_state_same: "drm_buddy_block_is_allocated x \<Longrightarrow> with_state DRM_BUDDY_ALLOCATED x = x"
proof -
  assume "drm_buddy_block_is_allocated x"
  then have "header x AND DRM_BUDDY_HEADER_STATE = DRM_BUDDY_ALLOCATED"
    by (simp add: block_field_defs)
  then have "(header x AND NOT DRM_BUDDY_HEADER_STATE) OR DRM_BUDDY_ALLOCATED = header x"
    by (metis and.commute bit.conj_disj_distrib2 bit.disj_cancel_left or.commute word_bw_comms(1) word_and_max)
  then show ?thesis
    by (simp add: with_state_def)
qed

lemma as_leaf_allocated:
  assumes "slab mm b = Some x" "drm_buddy_block_is_allocated x"
  shows "as_leaf b mm = mm"
  using assms by (simp add: as_leaf_def with_state_same fun_upd_idem)

lemma free_block_ok:
  assumes "valid mm" "slab mm b = Some x" "drm_buddy_block_is_allocated x"
  obtains mm' where "drm_buddy_free_block b mm = Some mm'" "valid mm'" "released {b} drm_buddy_block_is_clear mm mm'"
    "clear_avail mm' = clear_avail mm + clear_part mm x"
proof -
  define mm1 where "mm1 = add_clear_avail (drm_buddy_block_is_clear x) x (mm\<lparr>avail := avail mm + drm_buddy_block_size mm x\<rparr>)"
  have m1: "slab mm1 = slab mm" "same_shape mm mm1" "slab_next mm1 = slab_next mm" "free_list mm1 = free_list mm"
      "avail mm1 = avail mm + drm_buddy_block_size mm x" "clear_avail mm1 = clear_avail mm + clear_part mm x" "warned mm1 = warned mm"
    by (simp_all add: mm1_def add_clear_avail_def same_shape_def clear_part_def drm_buddy_block_size_def)
  have s1: "slab mm1 b = Some x"
    using assms(2) m1(1) by simp
  note l = as_leaf_allocated [OF s1 assms(3)] and v = validD [OF assms(1)]
  have "tree_ok {} mm1"
    using tree_ok_cong [OF m1(2,1,3)] v(1) by simp
  moreover have "lists_ok {} mm1"
    by (rule lists_ok_cong [OF m1(4) _ _ _ v(2)]) (use m1(1,2) in \<open>auto simp: same_shape_def free_of_order_def offset_of_def\<close>)
  ultimately have "detached b mm1"
    using s1 by (simp add: detached_def l)
  moreover have "merged {} (as_leaf b mm1)"
    using v(5) m1(1) by (simp add: l merged_def mergeable_def)
  ultimately obtain n mm' where f: "do_drm_buddy_free False b mm1 = Some (n, mm')" "tree_ok {} mm'" "lists_ok {} mm'" "merged {} mm'"
    "freed False b mm1 mm'"
    by (rule do_drm_buddy_free_ok)
  have c: "free_bytes mm1 = free_bytes mm" "clear_bytes mm1 = clear_bytes mm"
    using bytes_cong [OF m1(1,3)] m1(2) by (simp_all add: same_shape_def)
  have r: "region mm1 = region mm"
    using same_shape_eqs(2) [OF m1(2)] .
  have d: "same_shape mm1 mm'" "avail mm' = avail mm1" "slab_next mm' = slab_next mm1" "warned mm' = warned mm1"
      "free_bytes mm' = free_bytes mm + drm_buddy_block_size mm x" "clear_avail mm' = clear_avail mm1"
      "clear_bytes mm' = clear_bytes mm + clear_part mm x" "\<And>F. free_space mm' F = free_space mm1 F \<union> space_part mm1 x F"
      "\<And>c z. drm_buddy_block_is_allocated z \<Longrightarrow> slab mm c = Some z \<and> c \<noteq> b \<longleftrightarrow> slab mm' c = Some z"
    using f(5) s1 c shape_sizes [OF m1(2)] unfolding freed_def l m1(1) by auto
  have "drm_buddy_free_block b mm = Some mm'"
    using assms(2,3) f(1) by (simp add: drm_buddy_free_block_def mm1_def Let_def)
  moreover have "valid mm'"
    using f(2-4) d(2,5,6,7) m1(5,6) v(3,4) by (simp add: valid_def buddy_inv_def counters_ok_def)
  moreover have "released {b} drm_buddy_block_is_clear mm mm'"
    using same_shape_trans [OF m1(2) d(1)] d(2,3,4) d(9) m1(3,5,7) assms(2) d(8) free_space_cong [OF r m1(1)] r
    by (auto simp: released_def space_part_def)
  ultimately show ?thesis
    using that d(6) m1(6) by simp
qed

lemma releasedD:
  assumes "released bs fl mm mm'"
  shows "same_shape mm mm'" "warned mm' = warned mm"
    "\<And>c z. drm_buddy_block_is_allocated z \<Longrightarrow> slab mm' c = Some z \<longleftrightarrow> slab mm c = Some z \<and> c \<notin> bs"
    "avail mm' = avail mm + (\<Sum>b \<in> bs. drm_buddy_block_size mm (the (slab mm b)))"
    "\<And>F. free_space mm' F = free_space mm F \<union> (\<Union>b \<in> {b \<in> bs. fl (the (slab mm b)) \<in> F}. region mm (the (slab mm b)))"
  using assms unfolding released_def by blast+

lemma released_empty [simp]: "released {} fl mm mm"
  by (simp add: released_def)

lemma released_union:
  assumes "released A fl mm mm1" "released B fl mm1 mm'" "finite A" "finite B" "A \<inter> B = {}" "\<forall>c \<in> B. is_allocated mm c"
  shows "released (A \<union> B) fl mm mm'"
proof -
  note 1 = releasedD [OF assms(1)] and 2 = releasedD [OF assms(2)]
  have e: "slab mm1 c = slab mm c" if "c \<in> B" for c
    using that assms(5,6) 1(3) unfolding is_allocated_def by fastforce
  have r: "region mm1 = region mm" "drm_buddy_block_size mm1 = drm_buddy_block_size mm"
    using same_shape_eqs(2) [OF 1(1)] shape_sizes(1) [OF 1(1)] by simp_all
  have "same_shape mm mm'"
    using 1(1) 2(1) by (rule same_shape_trans)
  moreover have "warned mm' = warned mm"
    using 1(2) 2(2) by simp
  moreover have "slab mm' c = Some z \<longleftrightarrow> slab mm c = Some z \<and> c \<notin> A \<union> B" if "drm_buddy_block_is_allocated z" for c z
    using 1(3) [OF that, of c] 2(3) [OF that, of c] by auto
  moreover have "avail mm' = avail mm + (\<Sum>c \<in> A \<union> B. drm_buddy_block_size mm (the (slab mm c)))"
  proof -
    have "(\<Sum>c \<in> B. drm_buddy_block_size mm1 (the (slab mm1 c))) = (\<Sum>c \<in> B. drm_buddy_block_size mm (the (slab mm c)))"
      by (rule sum.cong) (simp_all add: e r)
    then show ?thesis
      using 1(4) 2(4) assms(3-5) by (simp add: add.assoc sum.union_disjoint)
  qed
  moreover have "free_space mm' F = free_space mm F \<union>
      (\<Union>c \<in> {c \<in> A \<union> B. fl (the (slab mm c)) \<in> F}. region mm (the (slab mm c)))" for F
  proof -
    have "(\<Union>c \<in> {c \<in> B. fl (the (slab mm1 c)) \<in> F}. region mm1 (the (slab mm1 c))) =
        (\<Union>c \<in> {c \<in> B. fl (the (slab mm c)) \<in> F}. region mm (the (slab mm c)))"
      using e by (auto simp: r)
    then show ?thesis
      using 1(5) [of F] 2(5) [of F] by auto
  qed
  ultimately show ?thesis
    unfolding released_def by blast
qed

text \<open>The clear flag of an allocated block does not matter to the allocator.\<close>

lemma set_flag_ok:
  assumes "valid mm" "slab mm b = Some x" "drm_buddy_block_is_allocated x" "drm_buddy_block_is_allocated y" "same_block x y"
  defines "mm' \<equiv> mm\<lparr>slab := (slab mm)(b \<mapsto> y)\<rparr>"
  shows "valid mm'" "free_space mm' F = free_space mm F"
proof -
  note v = validD [OF assms(1)]
  have nf: "\<not> drm_buddy_block_is_free x" "\<not> drm_buddy_block_is_free y"
    using states_exclude(2) assms(3,4) by blast+
  have "tree_ok {} mm'"
    by (rule tree_ok_leaf_update [OF v(1) assms(2) _ _ assms(5)]) (use assms(3,4) in \<open>auto simp: leaf_def mm'_def same_shape_def\<close>)
  moreover have "lists_ok {} mm'"
    by (rule lists_ok_unlinked [OF v(2), of b "Some y"]) (use assms(2) nf in \<open>auto simp: mm'_def\<close>)
  moreover have "counters_ok mm'"
    using bytes_update [of mm' mm b "Some y"] tree_okD(1) [OF v(1) assms(2)] v(3,4) assms(2) nf
    by (auto simp: mm'_def counters_ok_def free_size_def clear_size_def)
  moreover have "mergeable mm p" if "mergeable mm' p" for p
    using that nf states_exclude(2) [OF assms(4)] unfolding mergeable_def mm'_def by (auto split: if_splits)
  ultimately show "valid mm'"
    using v(5) by (auto simp: valid_def buddy_inv_def merged_def)
  have "region mm' = region mm"
    by (auto simp: mm'_def region_def block_bytes_def fun_eq_iff)
  then show "free_space mm' F = free_space mm F"
    using free_space_drop [of mm' mm b "Some y" F] assms(2) nf by (simp add: mm'_def free_part_def)
qed

text \<open>The clear flag a block has when it is freed.\<close>

definition flag_of :: "bool \<Rightarrow> bool \<Rightarrow> drm_buddy_block \<Rightarrow> bool" where
  "flag_of mark_clear mark_dirty x = (if mark_clear then True else if mark_dirty then False else drm_buddy_block_is_clear x)"

lemma free_one_ok:
  assumes "valid mm" "slab mm b = Some x" "drm_buddy_block_is_allocated x"
  obtains mm1 mm' where "(if mark_clear then mark_cleared b mm else if mark_dirty then clear_reset b mm else Some mm) = Some mm1"
    "drm_buddy_free_block b mm1 = Some mm'" "valid mm'" "released {b} (flag_of mark_clear mark_dirty) mm mm'"
proof -
  define y where "y = (if mark_clear then with_clear x else if mark_dirty then without_clear x else x)"
  have y: "drm_buddy_block_is_allocated y" "same_block x y" "drm_buddy_block_is_clear y = flag_of mark_clear mark_dirty x"
    using assms(3) by (auto simp: y_def same_block_def flag_of_def)
  define mm1 where "mm1 = mm\<lparr>slab := (slab mm)(b \<mapsto> y)\<rparr>"
  have m1: "(if mark_clear then mark_cleared b mm else if mark_dirty then clear_reset b mm else Some mm) = Some mm1"
    using assms(2) by (auto simp: mark_cleared_def clear_reset_def mm1_def y_def fun_upd_idem)
  have v1: "valid mm1" "\<And>F. free_space mm1 F = free_space mm F"
    using set_flag_ok [OF assms y(1,2)] by (simp_all add: mm1_def)
  have s1: "slab mm1 b = Some y"
    by (simp add: mm1_def)
  obtain mm' where mm': "drm_buddy_free_block b mm1 = Some mm'" "valid mm'" "released {b} drm_buddy_block_is_clear mm1 mm'"
    by (rule free_block_ok [OF v1(1) s1 y(1)])
  note r = releasedD [OF mm'(3)]
  have sz: "drm_buddy_block_size mm1 y = drm_buddy_block_size mm x" "region mm1 y = region mm x"
    using same_block_eqs [OF y(2)] by (simp_all add: mm1_def drm_buddy_block_size_def region_def block_bytes_def)
  have "slab mm' c = Some z \<longleftrightarrow> slab mm c = Some z \<and> c \<notin> {b}" if "drm_buddy_block_is_allocated z" for c z
    using r(3) [OF that, of c] by (simp add: mm1_def)
  moreover have "same_shape mm mm'"
    using r(1) by (simp add: mm1_def same_shape_def)
  moreover have "warned mm' = warned mm" "avail mm' = avail mm + drm_buddy_block_size mm x"
    using r(2,4) s1 sz(1) by (simp_all add: mm1_def)
  moreover have "free_space mm' F = free_space mm F \<union> (if flag_of mark_clear mark_dirty x \<in> F then region mm x else {})" for F
    using r(5) [of F] s1 sz(2) y(3) v1(2) by auto
  ultimately have "released {b} (flag_of mark_clear mark_dirty) mm mm'"
    using assms(2) unfolding released_def by auto
  then show ?thesis
    using that m1 mm'(1,2) by blast
qed

lemma free_list_loop_ok:
  assumes "valid mm" "distinct bs" "\<forall>b \<in> set bs. is_allocated mm b"
  shows "\<exists>mm'. free_list_loop mark_clear mark_dirty bs mm = Some mm' \<and> valid mm' \<and>
    released (set bs) (flag_of mark_clear mark_dirty) mm mm'"
  using assms
proof (induction bs arbitrary: mm)
  case (Cons b bs)
  obtain x where x: "slab mm b = Some x" "drm_buddy_block_is_allocated x"
    using Cons.prems(3) by (auto simp: is_allocated_def)
  obtain mm1 mm2 where 1: "(if mark_clear then mark_cleared b mm else if mark_dirty then clear_reset b mm else Some mm) = Some mm1"
    "drm_buddy_free_block b mm1 = Some mm2" "valid mm2" "released {b} (flag_of mark_clear mark_dirty) mm mm2"
    by (rule free_one_ok [OF Cons.prems(1) x])
  have "\<forall>c \<in> set bs. is_allocated mm2 c"
    using Cons.prems(2,3) releasedD(3) [OF 1(4)] unfolding is_allocated_def by (metis distinct.simps(2) list.set_intros(2) singletonD)
  then obtain mm' where 2: "free_list_loop mark_clear mark_dirty bs mm2 = Some mm'" "valid mm'"
      "released (set bs) (flag_of mark_clear mark_dirty) mm2 mm'"
    using Cons.IH [OF 1(3)] Cons.prems(2) by auto
  have "released ({b} \<union> set bs) (flag_of mark_clear mark_dirty) mm mm'"
    by (rule released_union [OF 1(4) 2(3)]) (use Cons.prems in auto)
  then show ?case
    using 1(1,2) 2(1,2) by simp
qed simp

end
