(* ===== verification/Buddy_Claim.thy ===== *)
theory Buddy_Claim
  imports Buddy_Free
begin

text \<open>
  Allocation as a sequence of two steps: splitting a free block, and claiming a free block for the caller.
  The relation \<open>claims\<close> says what a sequence of such steps does.
\<close>

section \<open>The relation\<close>

text \<open>
  From \<open>mm\<close> to \<open>mm'\<close> the blocks \<open>bs\<close> were claimed; of the blocks of \<open>mm\<close> only free ones in \<open>T\<close> have changed, and
  only blocks in \<open>S\<close> have become mergeable. The children of new split blocks are new.
\<close>

definition claims :: "nat set \<Rightarrow> nat set \<Rightarrow> nat list \<Rightarrow> drm_buddy \<Rightarrow> drm_buddy \<Rightarrow> bool" where
  "claims T S bs mm mm' \<longleftrightarrow> released (set bs) drm_buddy_block_is_clear mm' mm \<and> distinct bs \<and>
     slab_next mm \<le> slab_next mm' \<and> (\<forall>b \<in> set bs. is_allocated mm' b) \<and>
     (\<forall>c x. slab mm c = Some x \<longrightarrow> (\<exists>x'. slab mm' c = Some x' \<and> same_block x x' \<and>
        (c \<notin> T \<or> \<not> drm_buddy_block_is_free x \<longrightarrow> x' = x))) \<and>
     (\<forall>p. mergeable mm' p \<longrightarrow> mergeable mm p \<or> p \<in> S) \<and>
     (\<forall>c x d. slab mm' c = Some x \<and> drm_buddy_block_is_split x \<and> Some d \<in> {left x, right x} \<longrightarrow>
        slab mm c = Some x \<or> slab_next mm \<le> d)"

lemma claimsD:
  assumes "claims T S bs mm mm'"
  shows "released (set bs) drm_buddy_block_is_clear mm' mm" "distinct bs" "slab_next mm \<le> slab_next mm'"
    "\<And>b. b \<in> set bs \<Longrightarrow> is_allocated mm' b"
    "\<And>c x. slab mm c = Some x \<Longrightarrow> \<exists>x'. slab mm' c = Some x' \<and> same_block x x' \<and> (c \<notin> T \<or> \<not> drm_buddy_block_is_free x \<longrightarrow> x' = x)"
    "\<And>p. mergeable mm' p \<Longrightarrow> mergeable mm p \<or> p \<in> S"
    "\<And>c x d. slab mm' c = Some x \<Longrightarrow> drm_buddy_block_is_split x \<Longrightarrow> Some d \<in> {left x, right x} \<Longrightarrow>
      slab mm c = Some x \<or> slab_next mm \<le> d"
  using assms by (simp_all add: claims_def)

lemma claims_shape: "claims T S bs mm mm' \<Longrightarrow> same_shape mm mm'"
  by (auto dest!: claimsD(1) releasedD(1) simp: same_shape_def)

lemma claims_keep:
  assumes "claims T S bs mm mm'" "slab mm c = Some x" "c \<notin> T \<or> \<not> drm_buddy_block_is_free x"
  shows "slab mm' c = Some x"
  using claimsD(5) [OF assms(1,2)] assms(3) by auto

lemma claims_block:
  assumes "claims T S bs mm mm'" "slab mm c = Some x"
  obtains x' where "slab mm' c = Some x'" "same_block x x'"
  using claimsD(5) [OF assms] by blast

lemma claims_unallocated:
  assumes "claims T S bs mm mm'" "b \<in> set bs"
  shows "\<not> is_allocated mm b"
  using releasedD(3) [OF claimsD(1) [OF assms(1)], of _ b] assms(2) by (auto simp: is_allocated_def)

lemma claims_refl [simp]: "claims {} {} [] mm mm"
  by (simp add: claims_def same_block_def)

lemma claims_mono: "claims T S bs mm mm' \<Longrightarrow> T \<subseteq> T' \<Longrightarrow> S \<subseteq> S' \<Longrightarrow> claims T' S' bs mm mm'"
  unfolding claims_def by blast

lemma claims_except: "claims T S bs mm mm' \<Longrightarrow> \<not> mergeable mm' p \<Longrightarrow> claims T (S - {p}) bs mm mm'"
  unfolding claims_def by blast

lemma same_block_trans: "same_block x y \<Longrightarrow> same_block y z \<Longrightarrow> same_block x z"
  by (simp add: same_block_def)

lemma claims_trans:
  assumes "claims T S bs mm mm1" "claims T' S' cs mm1 mm'" "\<And>c. c \<in> T' \<Longrightarrow> slab mm c \<noteq> None \<Longrightarrow> c \<in> T"
  shows "claims T (S \<union> S') (bs @ cs) mm mm'"
proof -
  note 1 = claimsD [OF assms(1)] and 2 = claimsD [OF assms(2)]
  have al: "is_allocated mm' b" if b: "b \<in> set bs" for b
  proof -
    obtain x where x: "slab mm1 b = Some x" "drm_buddy_block_is_allocated x"
      using 1(4) [OF b] by (auto simp: is_allocated_def)
    then show ?thesis
      using claims_keep [OF assms(2) x(1)] states_exclude(2) [OF x(2)] by (auto simp: is_allocated_def)
  qed
  have dis: "set bs \<inter> set cs = {}"
    using 1(4) claims_unallocated [OF assms(2)] by auto
  have "released (set cs \<union> set bs) drm_buddy_block_is_clear mm' mm"
    by (rule released_union [OF 2(1) 1(1)]) (use dis al in auto)
  moreover have "\<exists>x'. slab mm' c = Some x' \<and> same_block x x' \<and> (c \<notin> T \<or> \<not> drm_buddy_block_is_free x \<longrightarrow> x' = x)"
    if x: "slab mm c = Some x" for c x
  proof -
    obtain y where y: "slab mm1 c = Some y" "same_block x y" "c \<notin> T \<or> \<not> drm_buddy_block_is_free x \<longrightarrow> y = x"
      using 1(5) [OF x] by blast
    obtain z where z: "slab mm' c = Some z" "same_block y z" "c \<notin> T' \<or> \<not> drm_buddy_block_is_free y \<longrightarrow> z = y"
      using 2(5) [OF y(1)] by blast
    show ?thesis
      using same_block_trans [OF y(2) z(2)] z(1,3) y(3) assms(3) [of c] x by auto
  qed
  moreover have "mergeable mm p \<or> p \<in> S \<union> S'" if "mergeable mm' p" for p
    using 2(6) [OF that] 1(6) by blast
  moreover have "slab mm c = Some x \<or> slab_next mm \<le> d"
    if "slab mm' c = Some x" "drm_buddy_block_is_split x" "Some d \<in> {left x, right x}" for c x d
    using 2(7) [OF that] 1(7) [OF _ that(2,3)] 1(3) by fastforce
  ultimately show ?thesis
    using 1(2,3) 2(2,3,4) al dis unfolding claims_def by (auto simp: Un_commute)
qed

section \<open>Splitting\<close>

lemma half_regions:
  assumes "half_of b x (block_start x) lb" "half_of b x (block_start x + unat (chunk_size mm) * 2 ^ (drm_buddy_block_order x - 1)) rb"
  shows "region mm lb \<union> region mm rb = region mm x" "block_bytes mm lb + block_bytes mm rb = block_bytes mm x"
    "block_start rb = block_start lb + block_bytes mm lb"
proof -
  obtain n where n: "drm_buddy_block_order x = Suc n" "drm_buddy_block_order lb = n" "drm_buddy_block_order rb = n"
    using assms unfolding half_of_def by (metis nat.inject)
  then show "region mm lb \<union> region mm rb = region mm x" "block_bytes mm lb + block_bytes mm rb = block_bytes mm x"
    "block_start rb = block_start lb + block_bytes mm lb"
    using assms by (auto simp: region_def block_bytes_def half_of_def)
qed

lemma split_store_free_space:
  assumes "tree_ok X mm" "slab mm b = Some x" "drm_buddy_block_is_free x" "drm_buddy_block_order x \<noteq> 0"
    and "same_shape mm mm'" "split_store b x mm mm'"
  shows "free_space mm' F = free_space mm F"
proof -
  obtain xb lb rb where s: "slab mm' = (slab mm)(b \<mapsto> xb, slab_next mm \<mapsto> lb, Suc (slab_next mm) \<mapsto> rb)"
      "drm_buddy_block_is_split xb" "half_of b x (block_start x) lb"
      "half_of b x (block_start x + unat (chunk_size mm) * 2 ^ (drm_buddy_block_order x - 1)) rb"
    using assms(6) unfolding split_store_def by blast
  have n: "slab mm (slab_next mm) = None" "slab mm (Suc (slab_next mm)) = None" "b < slab_next mm"
    using tree_okD(1) [OF assms(1)] assms(2) by fastforce+
  have r: "region mm' = region mm"
    using same_shape_eqs(2) [OF assms(5)] .
  note u = half_regions [OF s(3,4)]
  have p: "free_part mm F (Some xb) = {}" "free_part mm F (Some lb) \<union> free_part mm F (Some rb) = free_part mm F (Some x)"
    using s(3,4) states_exclude(3) [OF s(2)] assms(3) u(1) by (auto simp: free_part_def half_of_def)
  have "(\<Union>c. free_part mm F (slab mm' c)) = (\<Union>c. free_part mm F (slab mm c))"
  proof (intro equalityI subsetI)
    fix a assume "a \<in> (\<Union>c. free_part mm F (slab mm' c))"
    then obtain c where "a \<in> free_part mm F (slab mm' c)"
      by blast
    then have "a \<in> free_part mm F (slab mm c) \<or> a \<in> free_part mm F (slab mm b)"
      unfolding s(1) assms(2) p(2) [symmetric] using p(1) by (auto split: if_splits)
    then show "a \<in> (\<Union>c. free_part mm F (slab mm c))"
      by blast
  next
    fix a assume "a \<in> (\<Union>c. free_part mm F (slab mm c))"
    then obtain c where c: "a \<in> free_part mm F (slab mm c)"
      by blast
    then have "c \<noteq> slab_next mm" "c \<noteq> Suc (slab_next mm)"
      using n by (auto simp: free_part_def)
    then have "a \<in> free_part mm F (slab mm' c) \<or> a \<in> free_part mm F (slab mm' (slab_next mm)) \<or>
        a \<in> free_part mm F (slab mm' (Suc (slab_next mm)))"
      using c p(2) n(3) unfolding s(1) by (cases "c = b") (auto simp: assms(2))
    then show "a \<in> (\<Union>c. free_part mm F (slab mm' c))"
      by blast
  qed
  then show ?thesis
    by (simp add: free_space_def free_part_cong [OF r])
qed

lemma split_claims:
  assumes "buddy_inv X mm" "memory_ok mm"
    and "slab mm b = Some x" "drm_buddy_block_is_free x" "drm_buddy_block_order x \<noteq> 0"
  obtains mm' where "split_block b mm = Some (OK, mm')" "split_store b x mm mm'" "buddy_inv X mm'" "claims {b} {b} [] mm mm'"
proof -
  obtain mm' where mm': "split_block b mm = Some (OK, mm')" "same_shape mm mm'" "split_store b x mm mm'" "buddy_inv X mm'"
    "avail mm' = avail mm" "clear_avail mm' = clear_avail mm" "warned mm' = warned mm"
    by (rule split_block_ok [OF assms])
  have ok: "tree_ok X mm"
    using assms(1) by (simp add: buddy_inv_def)
  obtain xb lb rb where s: "slab mm' = (slab mm)(b \<mapsto> xb, slab_next mm \<mapsto> lb, Suc (slab_next mm) \<mapsto> rb)"
      "same_block x xb" "drm_buddy_block_is_split xb" "half_of b x (block_start x) lb"
      "half_of b x (block_start x + unat (chunk_size mm) * 2 ^ (drm_buddy_block_order x - 1)) rb"
      "left xb = Some (slab_next mm)" "right xb = Some (Suc (slab_next mm))"
    using mm'(3) unfolding split_store_def by blast
  have n: "slab mm (slab_next mm) = None" "slab mm (Suc (slab_next mm)) = None" "b < slab_next mm"
    using tree_okD(1) [OF ok] assms(3) by fastforce+
  have nf: "drm_buddy_block_is_free lb" "drm_buddy_block_is_free rb"
    using s(4,5) by (simp_all add: half_of_def)
  have "slab mm c = Some z \<longleftrightarrow> slab mm' c = Some z" if "drm_buddy_block_is_allocated z" for c z
    using states_exclude(2) [OF that] s(3) nf n assms(3,4) by (auto simp: s(1))
  then have "released {} drm_buddy_block_is_clear mm' mm"
    using mm'(2,5,7) split_store_free_space [OF ok assms(3-5) mm'(2,3)] by (simp add: released_def same_shape_def)
  moreover have "\<exists>x'. slab mm' c = Some x' \<and> same_block z x' \<and> (c \<notin> {b} \<or> \<not> drm_buddy_block_is_free z \<longrightarrow> x' = z)"
    if z: "slab mm c = Some z" for c z
    using z n assms(3,4) s(2) by (cases "c = b") (auto simp: s(1) same_block_def)
  moreover have "mergeable mm p" if m: "mergeable mm' p" "p \<noteq> b" for p
  proof -
    obtain y l r yl yr where y: "slab mm' p = Some y" "drm_buddy_block_is_split y" "left y = Some l" "right y = Some r"
        "slab mm' l = Some yl" "slab mm' r = Some yr" "drm_buddy_block_is_free yl" "drm_buddy_block_is_free yr"
        "drm_buddy_block_is_clear yl = drm_buddy_block_is_clear yr"
      using m(1) unfolding mergeable_def by blast
    have p: "slab mm p = Some y"
      using y(1,2) m(2) s(1) nf states_exclude(3) [OF y(2)] by (auto split: if_splits)
    then have "has_children X mm p y"
      using tree_okD(5) [OF ok] y(2) leaf_not_split by blast
    then have "slab mm l \<noteq> None" "slab mm r \<noteq> None"
      using y(3,4) by (auto simp: has_children_def child_of_def)
    then have "slab mm l = Some yl" "slab mm r = Some yr"
      using y(5-8) n states_exclude(3) [OF s(3)] by (auto simp: s(1) split: if_splits)
    then show ?thesis
      unfolding mergeable_def using p y by blast
  qed
  moreover have "slab mm c = Some z \<or> slab_next mm \<le> d"
    if "slab mm' c = Some z" "drm_buddy_block_is_split z" "Some d \<in> {left z, right z}" for c z d
    using that nf states_exclude(1) [OF nf(1)] states_exclude(1) [OF nf(2)] s(6,7) by (auto simp: s(1) split: if_splits)
  ultimately have "claims {b} {b} [] mm mm'"
    using mm'(3) unfolding claims_def by (auto simp: split_store_def)
  then show ?thesis
    using that mm'(1,3,4) by blast
qed

section \<open>Claiming\<close>

text \<open>What the callers do to the block they take.\<close>

definition claim_block :: "nat \<Rightarrow> drm_buddy \<Rightarrow> drm_buddy option" where
  "claim_block b mm =
     do { block \<leftarrow> slab mm b;
          mm \<leftarrow> mark_allocated b mm;
          let mm = mm\<lparr>avail := avail mm - drm_buddy_block_size mm block\<rparr>;
          Some (sub_clear_avail (drm_buddy_block_is_clear block) block mm) }"

lemma claim_block_ok:
  assumes "buddy_inv X mm" "slab mm b = Some x" "drm_buddy_block_is_free x"
  obtains mm' where "claim_block b mm = Some mm'" "slab mm' = (slab mm)(b \<mapsto> with_state DRM_BUDDY_ALLOCATED x)"
    "buddy_inv X mm'" "claims {b} {} [b] mm mm'"
proof -
  have ok: "tree_ok X mm" "lists_ok {} mm" "avail mm = free_bytes mm" "clear_avail mm = clear_bytes mm"
    using assms(1) by (simp_all add: buddy_inv_def counters_ok_def)
  let ?x = "with_state DRM_BUDDY_ALLOCATED x"
  define mm1 where "mm1 = mm\<lparr>slab := (slab mm)(b \<mapsto> ?x), free_list := map (remove1 b) (free_list mm)\<rparr>"
  have m1: "mark_allocated b mm = Some mm1" "lists_ok {} mm1"
    using mark_allocated_ok [OF ok(2) assms(2,3) _ tree_okD(2) [OF ok(1) assms(2)]] by (simp_all add: mm1_def)
  define mm' where "mm' = sub_clear_avail (drm_buddy_block_is_clear x) x (mm1\<lparr>avail := avail mm1 - drm_buddy_block_size mm1 x\<rparr>)"
  have m': "slab mm' = (slab mm)(b \<mapsto> ?x)" "same_shape mm mm'" "slab_next mm' = slab_next mm" "free_list mm' = free_list mm1"
      "avail mm' = avail mm - drm_buddy_block_size mm x" "warned mm' = warned mm"
      "clear_avail mm' = clear_avail mm - (if drm_buddy_block_is_clear x then drm_buddy_block_size mm x else 0)"
    by (simp_all add: mm'_def mm1_def sub_clear_avail_def same_shape_def drm_buddy_block_size_def)
  have sb: "same_block x ?x"
    by (simp add: same_block_def)
  have "tree_ok X mm'"
    by (rule tree_ok_leaf_update [OF ok(1) assms(2) _ _ sb]) (use assms(3) m' in \<open>auto simp: leaf_def\<close>)
  moreover have "lists_ok {} mm'"
    by (rule lists_ok_cong [OF m'(4) _ _ _ m1(2)]) (use m'(1,2) in \<open>auto simp: same_shape_def mm1_def free_of_order_def offset_of_def\<close>)
  moreover have "counters_ok mm'"
    using bytes_update [OF m'(1) tree_okD(1) [OF ok(1) assms(2)] m'(3)] m'(2,5,7) ok(3,4) assms(2,3)
    by (simp add: counters_ok_def free_size_def clear_size_def same_shape_def)
  ultimately have inv: "buddy_inv X mm'"
    by (simp add: buddy_inv_def)
  have nf: "\<not> drm_buddy_block_is_allocated x"
    using states_exclude(1) [OF assms(3)] by simp
  have r: "region mm' = region mm" "drm_buddy_block_size mm' = drm_buddy_block_size mm" "region mm' ?x = region mm x"
      "drm_buddy_block_size mm' ?x = drm_buddy_block_size mm x"
    using same_shape_eqs(2,4) [OF m'(2)] same_block_eqs [OF sb] by (simp_all add: region_def block_bytes_def drm_buddy_block_size_def)
  have "free_space mm F = free_space mm' F \<union> (if drm_buddy_block_is_clear x \<in> F then region mm x else {})" for F
    using free_space_drop [OF m'(1) r(1), of F] assms(2,3) by (simp add: free_part_def)
  then have "released {b} drm_buddy_block_is_clear mm' mm"
    using m'(1,2,5,6) r nf assms(2) unfolding released_def by (auto simp: same_shape_def)
  moreover have "mergeable mm p" if "mergeable mm' p" for p
    using that unfolding mergeable_def m'(1) by (auto split: if_splits)
  moreover have "\<exists>x'. slab mm' c = Some x' \<and> same_block z x' \<and> (c \<notin> {b} \<or> \<not> drm_buddy_block_is_free z \<longrightarrow> x' = z)"
    if z: "slab mm c = Some z" for c z
    using z assms(2,3) sb by (cases "c = b") (auto simp: m'(1) same_block_def)
  moreover have "slab mm c = Some z \<or> slab_next mm \<le> d"
    if "slab mm' c = Some z" "drm_buddy_block_is_split z" "Some d \<in> {left z, right z}" for c z d
    using that(1,2) by (auto simp: m'(1) split: if_splits)
  ultimately have "claims {b} {} [b] mm mm'"
    using m'(1,3) unfolding claims_def by (auto simp: is_allocated_def)
  moreover have "claim_block b mm = Some mm'"
    using assms(2) m1(1) by (simp add: claim_block_def mm'_def Let_def)
  ultimately show ?thesis
    using that m'(1) inv by blast
qed

end
