(* ===== verification/Buddy_Range.thy ===== *)
theory Buddy_Range
  imports Buddy_Claim
begin

text \<open>
  Allocating a range of addresses: the walk over the trees that \<^verbatim>\<open>__alloc_range\<close> makes.
\<close>

section \<open>Ranges\<close>

definition block_last :: "drm_buddy \<Rightarrow> drm_buddy_block \<Rightarrow> u64" where
  "block_last mm x = drm_buddy_block_offset x + drm_buddy_block_size mm x - 1"

definition rng :: "u64 \<Rightarrow> u64 \<Rightarrow> nat set" where
  "rng start end = {unat start .. unat end}"

text \<open>A proper range, or one that begins after the managed space.\<close>

definition range_ok :: "drm_buddy \<Rightarrow> u64 \<Rightarrow> u64 \<Rightarrow> bool" where
  "range_ok mm start end \<longleftrightarrow> unat (chunk_size mm) dvd unat start \<and> unat (chunk_size mm) dvd unat end + 1 \<and>
     (start \<le> end \<or> unat (mm_size mm) \<le> unat start)"

lemma unat_block_last:
  assumes "tree_ok X mm" "slab mm b = Some x"
  shows "unat (block_last mm x) = block_start x + block_bytes mm x - 1"
proof -
  have s: "unat (drm_buddy_block_size mm x) = block_bytes mm x" "0 < block_bytes mm x"
    using unat_block_size [OF assms] chunk_dvd(4) tree_okD2(1) [OF assms(1)] by simp_all
  have "unat (drm_buddy_block_offset x + drm_buddy_block_size mm x) = block_start x + block_bytes mm x"
    using tree_okD(4) [OF assms] s(1) unat_u64 [of "mm_size mm"]
      unat_add_small [of "drm_buddy_block_offset x" "drm_buddy_block_size mm x"] by (simp add: block_start_def)
  moreover have "drm_buddy_block_offset x + drm_buddy_block_size mm x \<noteq> 0"
    using calculation s(2) by (metis add_is_0 less_irrefl unat_0)
  ultimately show ?thesis
    by (simp add: block_last_def unat_minus_one)
qed

lemma overlaps_iff:
  assumes "tree_ok X mm" "slab mm b = Some x" "range_ok mm start end"
  shows "overlaps start end (drm_buddy_block_offset x) (block_last mm x) \<longleftrightarrow> region mm x \<inter> rng start end \<noteq> {}"
proof -
  note l = unat_block_last [OF assms(1,2)] and b = chunk_dvd(4) [OF tree_okD2(1) [OF assms(1)], of x]
  have "overlaps start end (drm_buddy_block_offset x) (block_last mm x) \<longleftrightarrow>
      unat start < block_start x + block_bytes mm x \<and> block_start x \<le> unat end"
    using b by (auto simp: overlaps_def word_le_nat_alt l block_start_def)
  also have "\<dots> \<longleftrightarrow> region mm x \<inter> rng start end \<noteq> {}"
  proof
    assume a: "unat start < block_start x + block_bytes mm x \<and> block_start x \<le> unat end"
    then have "start \<le> end"
      using assms(3) tree_okD(4) [OF assms(1,2)] by (auto simp: range_ok_def)
    then have "max (block_start x) (unat start) \<in> region mm x \<inter> rng start end"
      using a b by (auto simp: region_def rng_def word_le_nat_alt)
    then show "region mm x \<inter> rng start end \<noteq> {}"
      by blast
  qed (auto simp: region_def rng_def)
  finally show ?thesis .
qed

lemma contains_iff:
  assumes "tree_ok X mm" "slab mm b = Some x"
  shows "contains start end (drm_buddy_block_offset x) (block_last mm x) \<longleftrightarrow> region mm x \<subseteq> rng start end"
proof -
  note l = unat_block_last [OF assms] and b = chunk_dvd(4) [OF tree_okD2(1) [OF assms(1)], of x]
  have "contains start end (drm_buddy_block_offset x) (block_last mm x) \<longleftrightarrow>
      unat start \<le> block_start x \<and> block_start x + block_bytes mm x - 1 \<le> unat end"
    by (simp add: contains_def word_le_nat_alt l block_start_def)
  also have "\<dots> \<longleftrightarrow> region mm x \<subseteq> rng start end"
  proof
    assume "region mm x \<subseteq> rng start end"
    moreover have "block_start x \<in> region mm x" "block_start x + block_bytes mm x - 1 \<in> region mm x"
      using b by (auto simp: region_def)
    ultimately show "unat start \<le> block_start x \<and> block_start x + block_bytes mm x - 1 \<le> unat end"
      unfolding rng_def by auto
  qed (auto simp: region_def rng_def)
  finally show ?thesis .
qed

text \<open>A block of one chunk is inside an aligned range or apart from it.\<close>

lemma chunk_inside:
  assumes "tree_ok X mm" "slab mm b = Some x" "range_ok mm start end"
    and "drm_buddy_block_order x = 0" "region mm x \<inter> rng start end \<noteq> {}"
  shows "region mm x \<subseteq> rng start end"
proof -
  let ?c = "unat (chunk_size mm)"
  have c: "0 < ?c" "block_bytes mm x = ?c"
    using chunk_dvd(3) [OF tree_okD2(1) [OF assms(1)]] assms(4) by (simp_all add: block_bytes_def)
  obtain i where i: "block_start x = ?c * i"
    using tree_okD(3) [OF assms(1,2)] c(2) by auto
  obtain j k where jk: "unat start = ?c * j" "unat end + 1 = ?c * k"
    using assms(3) unfolding range_ok_def dvd_def by blast
  obtain a where "a \<in> region mm x" "a \<in> rng start end"
    using assms(5) by blast
  then have "?c * i \<le> a" "a < ?c * i + ?c" "?c * j \<le> a" "a < ?c * k"
    using i jk(1) c(2) unfolding jk(2) [symmetric] by (auto simp: region_def rng_def)
  then have "?c * j < ?c * i + ?c" "?c * i < ?c * k"
    by linarith+
  then have "?c * j < ?c * Suc i" "?c * i < ?c * k"
    by simp_all
  then have "j \<le> i" "Suc i \<le> k"
    using c(1) by (simp_all del: mult_Suc_right add: less_Suc_eq_le Suc_le_eq)
  then have "?c * j \<le> ?c * i" "?c * Suc i \<le> ?c * k"
    using mult_le_mono2 by blast+
  then have "unat start \<le> block_start x" "block_start x + block_bytes mm x \<le> unat end + 1"
    unfolding jk i c(2) by simp_all
  then show ?thesis
    by (auto simp: region_def rng_def)
qed

lemma range_ok_cong: "same_shape mm mm' \<Longrightarrow> range_ok mm' start end = range_ok mm start end"
  by (simp add: range_ok_def same_shape_def)

section \<open>The steps of the walk\<close>

definition total_size :: "drm_buddy \<Rightarrow> nat list \<Rightarrow> u64" where
  "total_size mm bs = sum_list (map (\<lambda>b. drm_buddy_block_size mm (the (slab mm b))) bs)"

lemma total_size_simps [simp]:
  "total_size mm [] = 0" "total_size mm (b # bs) = drm_buddy_block_size mm (the (slab mm b)) + total_size mm bs"
  "total_size mm (bs @ cs) = total_size mm bs + total_size mm cs"
  by (simp_all add: total_size_def)

text \<open>Visiting the block on top of the stack, with all that it pushes, claims \<open>bs\<close>.\<close>

definition walks :: "u64 \<Rightarrow> u64 \<Rightarrow> nat \<Rightarrow> drm_buddy \<Rightarrow> nat list \<Rightarrow> drm_buddy \<Rightarrow> bool" where
  "walks start end b mm bs mm' \<longleftrightarrow> (\<forall>tot allocated dfs.
     alloc_range_loop start end tot allocated (b # dfs) mm =
     alloc_range_loop start end (tot + total_size mm' bs) (allocated @ bs) dfs mm')"

lemma walk_skip:
  assumes "slab mm b = Some x" "\<not> overlaps start end (drm_buddy_block_offset x) (block_last mm x)"
  shows "alloc_range_loop start end tot allocated (b # dfs) mm = alloc_range_loop start end tot allocated dfs mm"
  using assms by (subst alloc_range_loop.simps) (simp add: block_last_def Let_def)

lemma walk_claim:
  assumes "slab mm b = Some x" "drm_buddy_block_is_free x" "claim_block b mm = Some mm'"
    "overlaps start end (drm_buddy_block_offset x) (block_last mm x)" "contains start end (drm_buddy_block_offset x) (block_last mm x)"
    "same_shape mm mm'"
  shows "alloc_range_loop start end tot allocated (b # dfs) mm =
    alloc_range_loop start end (tot + drm_buddy_block_size mm x) (allocated @ [b]) dfs mm'"
proof -
  obtain mm1 where m: "mark_allocated b mm = Some mm1"
      "mm' = sub_clear_avail (drm_buddy_block_is_clear x) x (mm1\<lparr>avail := avail mm1 - drm_buddy_block_size mm1 x\<rparr>)"
    using assms(1,3) by (auto simp: claim_block_def Let_def split: bind_splits)
  show ?thesis
    using assms(1,2,4,5) states_exclude(1) [OF assms(2)] m same_shape_eqs(4) [OF assms(6)]
    by (subst alloc_range_loop.simps) (simp add: block_last_def Let_def)
qed

lemma walk_split:
  assumes "slab mm b = Some x" "drm_buddy_block_is_free x" "split_block b mm = Some (OK, mm1)"
    "overlaps start end (drm_buddy_block_offset x) (block_last mm x)" "\<not> contains start end (drm_buddy_block_offset x) (block_last mm x)"
    "slab mm1 b = Some xb" "left xb = Some l" "right xb = Some r"
  shows "alloc_range_loop start end tot allocated (b # dfs) mm = alloc_range_loop start end tot allocated (l # r # dfs) mm1"
  using assms states_exclude(1) [OF assms(2)]
  by (subst alloc_range_loop.simps) (simp add: block_last_def Let_def push_children_def)

lemma walks_pair:
  assumes "\<And>tot allocated dfs. alloc_range_loop start end tot allocated (b # dfs) mm =
      alloc_range_loop start end tot allocated (l # r # dfs) mm1"
    and "walks start end l mm1 bs mm2" "walks start end r mm2 cs mm'" "total_size mm' bs = total_size mm2 bs"
  shows "walks start end b mm (bs @ cs) mm'"
  using assms unfolding walks_def by (simp add: add.assoc)

lemma claims_total_size:
  assumes "claims T S cs mm mm'" "\<forall>b \<in> set bs. is_allocated mm b"
  shows "total_size mm' bs = total_size mm bs" "\<And>b. b \<in> set bs \<Longrightarrow> region_of mm' b = region_of mm b"
proof -
  have k: "slab mm' b = slab mm b" if "b \<in> set bs" for b
    using that assms(2) claims_keep [OF assms(1), of b] states_exclude(2) by (fastforce simp: is_allocated_def)
  note e = same_shape_eqs [OF claims_shape [OF assms(1)]]
  show "total_size mm' bs = total_size mm bs"
    unfolding total_size_def by (rule arg_cong [of _ _ sum_list], rule map_cong) (simp_all add: k e)
  show "region_of mm' b = region_of mm b" if "b \<in> set bs" for b
    using k [OF that] e by (simp add: region_of_def split: option.split)
qed

section \<open>Walking into a free block\<close>

lemma memory_ok_cong: "same_shape mm mm' \<Longrightarrow> memory_ok mm' = memory_ok mm"
  by (simp add: same_shape_def memory_ok_def)

lemma not_mergeable:
  assumes "slab mm b = Some x" "left x = Some l" "right x = Some r"
    "slab mm l = Some lb" "slab mm r = Some rb" "\<not> drm_buddy_block_is_free lb \<or> \<not> drm_buddy_block_is_free rb"
  shows "\<not> mergeable mm b"
  using assms by (auto simp: mergeable_def)

definition walked :: "nat set \<Rightarrow> u64 \<Rightarrow> u64 \<Rightarrow> nat \<Rightarrow> drm_buddy_block \<Rightarrow> drm_buddy \<Rightarrow> nat list \<Rightarrow> drm_buddy \<Rightarrow> bool" where
  "walked X start end b x mm bs mm' \<longleftrightarrow> walks start end b mm bs mm' \<and> buddy_inv X mm' \<and> claims {b} {} bs mm mm' \<and>
     (\<Union>c \<in> set bs. region_of mm' c) = region mm x \<inter> rng start end \<and>
     (\<exists>x'. slab mm' b = Some x' \<and> (drm_buddy_block_is_free x' \<longleftrightarrow> region mm x \<inter> rng start end = {}))"

lemma walked_split:
  assumes inv: "buddy_inv X mm" "memory_ok mm" "range_ok mm start end"
    and x: "slab mm b = Some x" "drm_buddy_block_is_free x" "drm_buddy_block_order x = Suc n"
    and r: "region mm x \<inter> rng start end \<noteq> {}" "\<not> region mm x \<subseteq> rng start end"
    and IH: "\<And>mm b x. buddy_inv X mm \<Longrightarrow> memory_ok mm \<Longrightarrow> range_ok mm start end \<Longrightarrow> slab mm b = Some x \<Longrightarrow>
      drm_buddy_block_is_free x \<Longrightarrow> drm_buddy_block_order x = n \<Longrightarrow> \<exists>bs mm'. walked X start end b x mm bs mm'"
  shows "\<exists>bs mm'. walked X start end b x mm bs mm'"
proof -
  have ok: "tree_ok X mm"
    using inv(1) by (simp add: buddy_inv_def)
  obtain mm1 where 1: "split_block b mm = Some (OK, mm1)" "split_store b x mm mm1" "buddy_inv X mm1" "claims {b} {b} [] mm mm1"
    by (rule split_claims [OF inv(1,2) x(1,2)]) (use x(3) in simp_all)
  let ?l = "slab_next mm" and ?r = "Suc (slab_next mm)"
  obtain xb lb rb where s: "slab mm1 = (slab mm)(b \<mapsto> xb, ?l \<mapsto> lb, ?r \<mapsto> rb)" "left xb = Some ?l" "right xb = Some ?r"
      "half_of b x (block_start x) lb" "half_of b x (block_start x + unat (chunk_size mm) * 2 ^ (drm_buddy_block_order x - 1)) rb"
      "drm_buddy_block_is_split xb"
    using 1(2) unfolding split_store_def by blast
  have bl: "b < ?l" "slab mm ?l = None" "slab mm ?r = None"
    using tree_okD(1) [OF ok] x(1) by fastforce+
  have h: "slab mm1 ?l = Some lb" "slab mm1 ?r = Some rb" "slab mm1 b = Some xb" "drm_buddy_block_is_free lb" "drm_buddy_block_is_free rb"
      "drm_buddy_block_order lb = n" "drm_buddy_block_order rb = n"
    using s bl x(3) by (auto simp: half_of_def)
  note sh1 = claims_shape [OF 1(4)]
  obtain bs mm2 where 2: "walked X start end ?l lb mm1 bs mm2"
    using IH [OF 1(3) _ _ h(1,4,6)] inv(2,3) memory_ok_cong [OF sh1] range_ok_cong [OF sh1] by auto
  then have c2: "claims {?l} {} bs mm1 mm2" "buddy_inv X mm2" "walks start end ?l mm1 bs mm2"
      "(\<Union>c \<in> set bs. region_of mm2 c) = region mm1 lb \<inter> rng start end"
    by (simp_all add: walked_def)
  obtain lb' where lb': "slab mm2 ?l = Some lb'" "drm_buddy_block_is_free lb' \<longleftrightarrow> region mm1 lb \<inter> rng start end = {}"
    using 2 by (auto simp: walked_def)
  have h2: "slab mm2 ?r = Some rb" "slab mm2 b = Some xb"
    using claims_keep [OF c2(1) h(2)] claims_keep [OF c2(1) h(3)] bl by auto
  note sh2 = same_shape_trans [OF sh1 claims_shape [OF c2(1)]]
  obtain cs mm3 where 3: "walked X start end ?r rb mm2 cs mm3"
    using IH [OF c2(2) _ _ h2(1) h(5,7)] inv(2,3) memory_ok_cong [OF sh2] range_ok_cong [OF sh2] by auto
  then have c3: "claims {?r} {} cs mm2 mm3" "buddy_inv X mm3" "walks start end ?r mm2 cs mm3"
      "(\<Union>c \<in> set cs. region_of mm3 c) = region mm2 rb \<inter> rng start end"
    by (simp_all add: walked_def)
  obtain rb' where rb': "slab mm3 ?r = Some rb'" "drm_buddy_block_is_free rb' \<longleftrightarrow> region mm2 rb \<inter> rng start end = {}"
    using 3 by (auto simp: walked_def)
  have h3: "slab mm3 ?l = Some lb'" "slab mm3 b = Some xb"
    using claims_keep [OF c3(1) lb'(1)] claims_keep [OF c3(1) h2(2)] bl by auto
  have g: "region mm1 = region mm" "region mm2 = region mm"
    using same_shape_eqs(2) [OF sh1] same_shape_eqs(2) [OF sh2] by simp_all
  note u = half_regions(1) [OF s(4,5)]
  have nm: "\<not> mergeable mm3 b"
    by (rule not_mergeable [OF h3(2) s(2,3) h3(1) rb'(1)]) (use lb'(2) rb'(2) r(1) u g in auto)
  have "claims {b} ({b} \<union> {}) ([] @ bs) mm mm2"
    by (rule claims_trans [OF 1(4) c2(1)]) (use bl in auto)
  then have "claims {b} ({b} \<union> {} \<union> {}) (([] @ bs) @ cs) mm mm3"
    by (rule claims_trans [OF _ c3(1)]) (use bl in auto)
  then have "claims {b} {b} (bs @ cs) mm mm3"
    by simp
  then have cl: "claims {b} {} (bs @ cs) mm mm3"
    using claims_except [OF _ nm] by fastforce
  note k = claims_total_size [OF c3(1)]
  have al: "\<forall>b \<in> set bs. is_allocated mm2 b"
    using claimsD(4) [OF c2(1)] by blast
  have "walks start end b mm (bs @ cs) mm3"
  proof (rule walks_pair [OF _ c2(3) c3(3) k(1) [OF al]])
    show "alloc_range_loop start end tot allocated (b # dfs) mm =
        alloc_range_loop start end tot allocated (?l # ?r # dfs) mm1" for tot allocated dfs
      by (rule walk_split [OF x(1,2) 1(1) _ _ h(3) s(2,3)])
        (use r overlaps_iff [OF ok x(1) inv(3)] contains_iff [OF ok x(1)] in auto)
  qed
  moreover have "(\<Union>c \<in> set (bs @ cs). region_of mm3 c) = region mm x \<inter> rng start end"
    using c2(4) c3(4) k(2) [OF al] g u by auto
  moreover have "\<not> drm_buddy_block_is_free xb"
    using states_exclude(3) [OF s(6)] by simp
  ultimately show ?thesis
    using c3(2) cl h3(2) r(1) unfolding walked_def by blast
qed

lemma walked_skip:
  assumes "buddy_inv X mm" "range_ok mm start end" "slab mm b = Some x" "drm_buddy_block_is_free x" "region mm x \<inter> rng start end = {}"
  shows "walked X start end b x mm [] mm"
proof -
  have "\<not> overlaps start end (drm_buddy_block_offset x) (block_last mm x)"
    using overlaps_iff [OF _ assms(3,2)] assms(1,5) by (auto simp: buddy_inv_def)
  then show ?thesis
    using assms(1,3-5) walk_skip [OF assms(3)] claims_mono [OF claims_refl] by (auto simp: walked_def walks_def)
qed

lemma walked_claim:
  assumes "buddy_inv X mm" "range_ok mm start end" "slab mm b = Some x" "drm_buddy_block_is_free x"
    "region mm x \<inter> rng start end \<noteq> {}" "region mm x \<subseteq> rng start end"
  shows "\<exists>mm'. walked X start end b x mm [b] mm'"
proof -
  have ok: "tree_ok X mm"
    using assms(1) by (simp add: buddy_inv_def)
  obtain mm' where m: "claim_block b mm = Some mm'" "slab mm' = (slab mm)(b \<mapsto> with_state DRM_BUDDY_ALLOCATED x)"
      "buddy_inv X mm'" "claims {b} {} [b] mm mm'"
    by (rule claim_block_ok [OF assms(1,3,4)])
  note sh = claims_shape [OF m(4)]
  have sz: "drm_buddy_block_size mm' (with_state DRM_BUDDY_ALLOCATED x) = drm_buddy_block_size mm x"
      "region mm' (with_state DRM_BUDDY_ALLOCATED x) = region mm x"
    using same_shape_eqs [OF sh] by (simp_all add: drm_buddy_block_size_def region_def block_bytes_def block_start_def)
  have "walks start end b mm [b] mm'"
    using walk_claim [OF assms(3,4) m(1) _ _ sh] overlaps_iff [OF ok assms(3,2)] contains_iff [OF ok assms(3)] assms(5,6) sz(1)
    by (simp add: walks_def m(2))
  then show ?thesis
    using m(2-4) sz(2) assms(5,6) by (intro exI [of _ mm']) (auto simp: walked_def region_of_def)
qed

lemma walk_free:
  assumes "buddy_inv X mm" "memory_ok mm" "range_ok mm start end" "slab mm b = Some x" "drm_buddy_block_is_free x"
  shows "\<exists>bs mm'. walked X start end b x mm bs mm'"
  using assms
proof (induction "drm_buddy_block_order x" arbitrary: mm b x)
  case 0
  then have "tree_ok X mm"
    by (simp add: buddy_inv_def)
  then show ?case
    using 0 walked_skip [of X mm start "end" b x] walked_claim [of X mm start "end" b x] chunk_inside [of X mm b x start "end"]
    by (cases "region mm x \<inter> rng start end = {}") auto
next
  case (Suc n)
  have "\<exists>bs mm'. walked X start end b x mm bs mm'" if "region mm x \<inter> rng start end \<noteq> {}" "\<not> region mm x \<subseteq> rng start end"
    by (rule walked_split [OF Suc.prems Suc.hyps(2) [symmetric] that]) (use Suc.hyps(1) in blast)
  then show ?case
    using Suc.prems walked_skip [of X mm start "end" b x] walked_claim [of X mm start "end" b x]
    by blast
qed

end
