(* ===== verification/Buddy_Space.thy ===== *)
theory Buddy_Space
  imports Buddy_Range
begin

text \<open>
  The counters measure the free space, and a whole walk over the trees: the loop of \<^verbatim>\<open>__alloc_range\<close>.
\<close>

section \<open>The counters measure the free space\<close>

lemma unat_sum:
  fixes f :: "nat \<Rightarrow> u64"
  assumes "finite A" "(\<Sum>a \<in> A. unat (f a)) < 2 ^ 64"
  shows "unat (\<Sum>a \<in> A. f a) = (\<Sum>a \<in> A. unat (f a))"
  using assms
proof (induction A)
  case (insert a A)
  then show ?case
    using unat_add_small [of "f a" "sum f A"] by simp
qed simp

definition part_size :: "drm_buddy \<Rightarrow> bool set \<Rightarrow> drm_buddy_block option \<Rightarrow> u64" where
  "part_size mm F v = (case v of None \<Rightarrow> 0
     | Some z \<Rightarrow> if drm_buddy_block_is_free z \<and> drm_buddy_block_is_clear z \<in> F then drm_buddy_block_size mm z else 0)"

lemma part_size_bytes:
  "free_bytes mm = (\<Sum>b \<in> {..<slab_next mm}. part_size mm UNIV (slab mm b))"
  "clear_bytes mm = (\<Sum>b \<in> {..<slab_next mm}. part_size mm {True} (slab mm b))"
proof -
  have "free_size mm = part_size mm UNIV" "clear_size mm = part_size mm {True}"
    by (intro ext; simp add: part_size_def free_size_def clear_size_def split: option.split)+
  then show "free_bytes mm = (\<Sum>b \<in> {..<slab_next mm}. part_size mm UNIV (slab mm b))"
    "clear_bytes mm = (\<Sum>b \<in> {..<slab_next mm}. part_size mm {True} (slab mm b))"
    by (simp_all add: free_bytes_def clear_bytes_def)
qed

lemma part_size_card:
  assumes "tree_ok X mm"
  shows "unat (part_size mm F (slab mm c)) = card (free_part mm F (slab mm c))"
  using unat_block_size [OF assms, of c] by (auto simp: part_size_def free_part_def region_def split: option.split)

lemma free_space_card:
  assumes "tree_ok X mm"
  shows "unat (\<Sum>b \<in> {..<slab_next mm}. part_size mm F (slab mm b)) = card (free_space mm F)"
    and "free_space mm F \<subseteq> {0 ..< unat (mm_size mm)}"
proof -
  let ?p = "\<lambda>c. free_part mm F (slab mm c)"
  have t: "disjoint_family_on (region_of mm) (leaves mm)" "(\<Union>b \<in> leaves mm. region_of mm b) = {0 ..< unat (mm_size mm)}"
    using tree_okD2(2) [OF assms] by (simp_all add: tiling_def)
  have p: "?p c \<subseteq> region_of mm c \<and> (?p c \<noteq> {} \<longrightarrow> c \<in> leaves mm \<and> c < slab_next mm)" for c
    using tree_okD(1) [OF assms, of c] by (auto simp: free_part_def region_of_def leaves_def leaf_def split: option.splits if_splits)
  have u: "free_space mm F = (\<Union>c \<in> {..<slab_next mm}. ?p c)"
    unfolding free_space_def using p by blast
  show sub: "free_space mm F \<subseteq> {0 ..< unat (mm_size mm)}"
    unfolding free_space_def t(2) [symmetric] using p by blast
  have fin: "finite (?p c)" for c
    by (auto simp: free_part_def region_def split: option.split)
  have "card (\<Union>c \<in> {..<slab_next mm}. ?p c) = (\<Sum>c \<in> {..<slab_next mm}. card (?p c))"
  proof (rule card_UN_disjoint)
    show "\<forall>i \<in> {..<slab_next mm}. \<forall>j \<in> {..<slab_next mm}. i \<noteq> j \<longrightarrow> ?p i \<inter> ?p j = {}"
      using p t(1) unfolding disjoint_family_on_def by blast
  qed (simp_all add: fin)
  then have c: "(\<Sum>c \<in> {..<slab_next mm}. unat (part_size mm F (slab mm c))) = card (free_space mm F)"
    by (simp add: u part_size_card [OF assms])
  have "card (free_space mm F) \<le> unat (mm_size mm)"
    using card_mono [OF _ sub] by simp
  then have "card (free_space mm F) < 2 ^ 64"
    using unat_u64 [of "mm_size mm"] by simp
  then show "unat (\<Sum>b \<in> {..<slab_next mm}. part_size mm F (slab mm b)) = card (free_space mm F)"
    using unat_sum [of "{..<slab_next mm}" "\<lambda>b. part_size mm F (slab mm b)"] c by simp
qed

lemma avail_card:
  assumes "buddy_inv X mm"
  shows "unat (avail mm) = card (free_space mm UNIV)" "unat (clear_avail mm) = card (free_space mm {True})"
  using assms free_space_card(1) [of X mm UNIV] free_space_card(1) [of X mm "{True}"]
  by (simp_all add: buddy_inv_def counters_ok_def part_size_bytes)

lemma free_space_block:
  assumes "slab mm c = Some z" "drm_buddy_block_is_free z" "drm_buddy_block_is_clear z \<in> F"
  shows "region mm z \<subseteq> free_space mm F"
  using assms by (auto simp: free_space_def free_part_def intro!: exI [of _ c])

lemma no_clear_block:
  assumes "buddy_inv X mm" "clear_avail mm = 0" "slab mm c = Some z" "drm_buddy_block_is_free z"
  shows "\<not> drm_buddy_block_is_clear z"
proof
  assume "drm_buddy_block_is_clear z"
  then have "region mm z \<subseteq> free_space mm {True}"
    using free_space_block [OF assms(3,4)] by simp
  moreover have "finite (free_space mm {True})"
    using free_space_card(2) [of X mm "{True}"] assms(1) by (auto simp: buddy_inv_def intro: finite_subset)
  then have "free_space mm {True} = {}"
    using avail_card(2) [OF assms(1)] assms(2) by simp
  moreover have "block_start z \<in> region mm z"
    using chunk_dvd(4) [of mm z] tree_okD2(1) [of X mm] assms(1) by (simp add: region_def buddy_inv_def)
  ultimately show False
    by blast
qed

section \<open>Subtrees without allocated blocks\<close>

lemma split_children:
  assumes "tree_ok X mm" "slab mm b = Some x" "drm_buddy_block_is_split x"
  obtains l r lb rb where "left x = Some l" "right x = Some r" "slab mm l = Some lb" "slab mm r = Some rb" "l \<noteq> r"
    "Suc (drm_buddy_block_order lb) = drm_buddy_block_order x" "Suc (drm_buddy_block_order rb) = drm_buddy_block_order x"
    "block_start lb = block_start x" "block_start rb = block_start x + block_bytes mm lb"
    "block_bytes mm lb + block_bytes mm rb = block_bytes mm x" "region mm lb \<union> region mm rb = region mm x"
proof -
  have "has_children X mm b x"
    using tree_okD(5) [OF assms(1,2)] assms(3) leaf_not_split by blast
  then obtain l r lb rb where h: "left x = Some l" "right x = Some r" "l \<noteq> r" "slab mm l = Some lb" "slab mm r = Some rb"
      "Suc (drm_buddy_block_order lb) = drm_buddy_block_order x" "Suc (drm_buddy_block_order rb) = drm_buddy_block_order x"
      "block_start lb = block_start x" "block_start rb = block_start x + unat (chunk_size mm) * 2 ^ (drm_buddy_block_order x - 1)"
    unfolding has_children_def child_of_def by blast
  have o: "drm_buddy_block_order rb = drm_buddy_block_order lb" "drm_buddy_block_order x = Suc (drm_buddy_block_order lb)"
    using h(6,7) by simp_all
  show ?thesis
    by (rule that [OF h(1,2,4,5,3,6,7,8)]) (use h(8,9) o in \<open>auto simp: block_bytes_def region_def\<close>)
qed

lemma free_subtree:
  assumes "tree_ok X mm" "merged {} mm"
    and "\<And>c z. slab mm c = Some z \<Longrightarrow> drm_buddy_block_is_free z \<Longrightarrow> \<not> drm_buddy_block_is_clear z"
    and "slab mm b = Some x"
    and "\<And>c z. slab mm c = Some z \<Longrightarrow> drm_buddy_block_is_allocated z \<Longrightarrow> region mm z \<inter> region mm x = {}"
  shows "drm_buddy_block_is_free x"
  using assms(4,5)
proof (induction "drm_buddy_block_order x" arbitrary: b x rule: less_induct)
  case less
  have "region mm x \<noteq> {}"
    using chunk_dvd(4) [OF tree_okD2(1) [OF assms(1)], of x] by (simp add: region_def)
  then have na: "\<not> drm_buddy_block_is_allocated x"
    using less.prems by fastforce
  show ?case
  proof (rule ccontr)
    assume "\<not> drm_buddy_block_is_free x"
    then have sp: "drm_buddy_block_is_split x"
      using na tree_okD(5) [OF assms(1) less.prems(1)] by (auto simp: leaf_def)
    obtain l r lb rb where k: "left x = Some l" "right x = Some r" "slab mm l = Some lb" "slab mm r = Some rb" "l \<noteq> r"
      "Suc (drm_buddy_block_order lb) = drm_buddy_block_order x" "Suc (drm_buddy_block_order rb) = drm_buddy_block_order x"
      "block_start lb = block_start x" "block_start rb = block_start x + block_bytes mm lb"
      "block_bytes mm lb + block_bytes mm rb = block_bytes mm x" "region mm lb \<union> region mm rb = region mm x"
      by (rule split_children [OF assms(1) less.prems(1) sp])
    have f: "drm_buddy_block_is_free lb"
      by (rule less.hyps [OF _ k(3)]) (use k(6,11) less.prems(2) in auto)
    have g: "drm_buddy_block_is_free rb"
      by (rule less.hyps [OF _ k(4)]) (use k(7,11) less.prems(2) in auto)
    have "mergeable mm b"
      unfolding mergeable_def using less.prems(1) sp k(1-4) f g assms(3) [OF k(3) f] assms(3) [OF k(4) g] by blast
    then show False
      using assms(2) by (simp add: merged_def)
  qed
qed

section \<open>The whole walk\<close>

text \<open>Some allocated block is in the way between \<open>s\<close> and \<open>e\<close>.\<close>

definition blocked :: "drm_buddy \<Rightarrow> u64 \<Rightarrow> u64 \<Rightarrow> nat \<Rightarrow> nat \<Rightarrow> bool" where
  "blocked mm start end s e \<longleftrightarrow> (\<exists>c z. slab mm c = Some z \<and> drm_buddy_block_is_allocated z \<and>
     region mm z \<inter> rng start end \<inter> {s ..< e} \<noteq> {})"

definition range_result :: "nat set \<Rightarrow> u64 \<Rightarrow> u64 \<Rightarrow> drm_buddy \<Rightarrow> nat list \<Rightarrow> nat \<Rightarrow> nat \<Rightarrow>
    errno \<Rightarrow> nat list \<Rightarrow> nat \<Rightarrow> drm_buddy \<Rightarrow> bool" where
  "range_result X start end mm stk s e err bs t mm' \<longleftrightarrow>
     (\<forall>tot al. alloc_range_loop start end tot al stk mm = Some (err, tot + total_size mm' bs, al @ bs, mm')) \<and>
     buddy_inv X mm' \<and> claims UNIV {} bs mm mm' \<and> s \<le> t \<and> t \<le> e \<and>
     (\<Union>c \<in> set bs. region_of mm' c) = rng start end \<inter> {s ..< t} \<and>
     (err = OK \<and> t = e \<or> err = ENOSPC \<and> (merged {} mm \<longrightarrow> blocked mm start end s e))"

lemma range_result_stop:
  assumes "buddy_inv X mm" "slab mm b = Some x" "block_start x = s" "s \<le> e"
    and "drm_buddy_block_is_allocated x \<or> \<not> drm_buddy_block_is_free x \<and> clear_avail mm = 0 \<and> region mm x \<subseteq> rng start end"
    and "region mm x \<inter> rng start end \<noteq> {}" "range_ok mm start end" "s + block_bytes mm x \<le> e"
  shows "range_result X start end mm (b # dfs) s e ENOSPC [] s mm"
proof -
  have ok: "tree_ok X mm"
    using assms(1) by (simp add: buddy_inv_def)
  note w = overlaps_iff [OF ok assms(2,7)] contains_iff [OF ok assms(2), of start "end"]
  have "alloc_range_loop start end tot al (b # dfs) mm = Some (ENOSPC, tot, al, mm)" for tot al
    using assms(2,5,6) w by (subst alloc_range_loop.simps) (auto simp: block_last_def Let_def)
  moreover have "blocked mm start end s e" if m: "merged {} mm"
  proof (cases "drm_buddy_block_is_allocated x")
    case True
    then show ?thesis
      using assms(2,3,6,8) unfolding blocked_def by (intro exI [of _ b] exI [of _ x]) (auto simp: region_def)
  next
    case False
    then have "\<exists>c z. slab mm c = Some z \<and> drm_buddy_block_is_allocated z \<and> region mm z \<inter> region mm x \<noteq> {}"
      using free_subtree [OF ok m _ assms(2)] no_clear_block [OF assms(1)] assms(5) by blast
    then obtain c z where c: "slab mm c = Some z" "drm_buddy_block_is_allocated z" "region mm z \<inter> region mm x \<noteq> {}"
      by blast
    moreover have "region mm x \<subseteq> rng start end \<inter> {s ..< e}"
      using False assms(3,5,8) by (auto simp: region_def)
    ultimately show ?thesis
      unfolding blocked_def by blast
  qed
  ultimately show ?thesis
    using assms(1,4) claims_mono [OF claims_refl] by (auto simp: range_result_def)
qed

lemma range_result_walk:
  assumes "walks start end b mm bs mm1" "claims UNIV {} bs mm mm1" "(\<Union>c \<in> set bs. region_of mm1 c) = rng start end \<inter> {s ..< s'}"
    and "range_result X start end mm1 dfs s' e err cs t mm'" "s \<le> s'"
  shows "range_result X start end mm (b # dfs) s e err (bs @ cs) t mm'"
proof -
  note r = assms(4) [unfolded range_result_def]
  have cl: "claims UNIV {} cs mm1 mm'"
    using r by blast
  have al: "\<forall>b \<in> set bs. is_allocated mm1 b"
    using claimsD(4) [OF assms(2)] by blast
  note k = claims_total_size [OF cl al]
  have "alloc_range_loop start end tot al (b # dfs) mm = Some (err, tot + total_size mm' (bs @ cs), al @ bs @ cs, mm')" for tot al
    using assms(1) r k(1) by (simp add: walks_def add.assoc)
  moreover have "claims UNIV {} (bs @ cs) mm mm'"
    using claims_trans [OF assms(2) cl] by simp
  moreover have "(\<Union>c \<in> set (bs @ cs). region_of mm' c) = rng start end \<inter> {s ..< t}"
  proof -
    have "(\<Union>c \<in> set bs. region_of mm' c) = rng start end \<inter> {s ..< s'}" "(\<Union>c \<in> set cs. region_of mm' c) = rng start end \<inter> {s' ..< t}"
      using assms(3) k(2) r by auto
    then show ?thesis
      using r assms(5) by auto
  qed
  moreover have "blocked mm start end s e" if m: "err = ENOSPC" "merged {} mm"
  proof -
    have "merged {} mm1"
      using m(2) claimsD(6) [OF assms(2)] by (auto simp: merged_def)
    then obtain c z where c: "slab mm1 c = Some z" "drm_buddy_block_is_allocated z" "region mm1 z \<inter> rng start end \<inter> {s' ..< e} \<noteq> {}"
      using r m(1) by (auto simp: blocked_def)
    have "c \<notin> set bs"
    proof
      assume "c \<in> set bs"
      then have "region mm1 z \<subseteq> {s ..< s'}"
        using assms(3) c(1) by (auto simp: region_of_def split: option.splits)
      then show False
        using c(3) by auto
    qed
    then have "slab mm c = Some z"
      using releasedD(3) [OF claimsD(1) [OF assms(2)] c(2)] c(1) by blast
    moreover have "region mm1 = region mm"
      using same_shape_eqs(2) [OF claims_shape [OF assms(2)]] .
    ultimately show ?thesis
      using c(2,3) assms(5) unfolding blocked_def by (intro exI [of _ c] exI [of _ z]) auto
  qed
  ultimately show ?thesis
    using r assms(5) unfolding range_result_def by auto
qed

text \<open>The number of blocks of a tree that is split down to single chunks.\<close>

fun tree_weight :: "nat \<Rightarrow> nat" where
  "tree_weight 0 = 1"
| "tree_weight (Suc n) = tree_weight n + tree_weight n + 1"

lemma tree_weight_pos [simp]: "0 < tree_weight n"
  by (cases n) simp_all

definition stack_weight :: "drm_buddy \<Rightarrow> nat list \<Rightarrow> nat" where
  "stack_weight mm stk = sum_list (map (\<lambda>b. tree_weight (drm_buddy_block_order (the (slab mm b)))) stk)"

lemma chain_bounds: "chain mm bs s e \<Longrightarrow> s \<le> e"
  by (induction bs arbitrary: s) fastforce+

lemma claims_chain:
  assumes "claims T S cs mm mm'" "chain mm bs s e"
  shows "chain mm' bs s e" "stack_weight mm' bs = stack_weight mm bs"
proof -
  have k: "\<exists>y. slab mm' b = Some y \<and> same_block x y" if "slab mm b = Some x" for b x
    using claims_block [OF assms(1) that] by blast
  show "chain mm' bs s e"
    by (rule chain_cong [OF claims_shape [OF assms(1)] _ assms(2)]) (use k same_block_eqs in blast)
  have live: "slab mm b \<noteq> None" if "b \<in> set bs" for b
    using that assms(2) by (induction bs arbitrary: s) auto
  have "drm_buddy_block_order (the (slab mm' b)) = drm_buddy_block_order (the (slab mm b))" if b: "b \<in> set bs" for b
    using live [OF b] k [of b] by (auto simp: same_block_def)
  then show "stack_weight mm' bs = stack_weight mm bs"
    unfolding stack_weight_def by (intro arg_cong [of _ _ sum_list] map_cong) auto
qed

lemma range_loop_push:
  assumes "buddy_inv X mm" "range_ok mm start end" "chain mm (b # dfs) s e" "slab mm b = Some x" "drm_buddy_block_is_split x"
    and "region mm x \<inter> rng start end \<noteq> {}" "\<not> (region mm x \<subseteq> rng start end \<and> clear_avail mm = 0)"
  obtains l r where "chain mm (l # r # dfs) s e" "stack_weight mm (l # r # dfs) < stack_weight mm (b # dfs)"
    "\<And>tot al. alloc_range_loop start end tot al (b # dfs) mm = alloc_range_loop start end tot al (l # r # dfs) mm"
proof -
  have ok: "tree_ok X mm"
    using assms(1) by (simp add: buddy_inv_def)
  obtain l r lb rb where k: "left x = Some l" "right x = Some r" "slab mm l = Some lb" "slab mm r = Some rb" "l \<noteq> r"
      "Suc (drm_buddy_block_order lb) = drm_buddy_block_order x" "Suc (drm_buddy_block_order rb) = drm_buddy_block_order x"
      "block_start lb = block_start x" "block_start rb = block_start x + block_bytes mm lb"
      "block_bytes mm lb + block_bytes mm rb = block_bytes mm x" "region mm lb \<union> region mm rb = region mm x"
    by (rule split_children [OF ok assms(4,5)])
  have "chain mm (l # r # dfs) s e"
    using assms(3,4) k by (simp add: add.assoc)
  moreover have "drm_buddy_block_order rb = drm_buddy_block_order lb"
    using k(6,7) by simp
  then have "stack_weight mm (l # r # dfs) < stack_weight mm (b # dfs)"
    using assms(4) k(3,4) by (simp add: stack_weight_def flip: k(6))
  moreover have "alloc_range_loop start end tot al (b # dfs) mm = alloc_range_loop start end tot al (l # r # dfs) mm" for tot al
    using assms(4-7) states_exclude(3) [OF assms(5)] overlaps_iff [OF ok assms(4,2)] contains_iff [OF ok assms(4), of start "end"] k(1,2)
    by (subst alloc_range_loop.simps) (auto simp: block_last_def Let_def push_children_def)
  ultimately show ?thesis
    using that by blast
qed

lemma range_loop_step:
  assumes inv: "buddy_inv X mm" "memory_ok mm" "range_ok mm start end" and ch: "chain mm (b # dfs) s e"
    and IH: "\<And>mm' stk s. stack_weight mm' stk < stack_weight mm (b # dfs) \<Longrightarrow> buddy_inv X mm' \<Longrightarrow> memory_ok mm' \<Longrightarrow>
      range_ok mm' start end \<Longrightarrow> chain mm' stk s e \<Longrightarrow> \<exists>err bs t mm''. range_result X start end mm' stk s e err bs t mm''"
  shows "\<exists>err bs t mm'. range_result X start end mm (b # dfs) s e err bs t mm'"
proof -
  have ok: "tree_ok X mm"
    using inv(1) by (simp add: buddy_inv_def)
  obtain x where x: "slab mm b = Some x" "block_start x = s" "chain mm dfs (s + block_bytes mm x) e"
    using ch by auto
  have reg: "region mm x = {s ..< s + block_bytes mm x}"
    using x(2) by (simp add: region_def)
  have w: "stack_weight mm dfs < stack_weight mm (b # dfs)"
    using x(1) by (simp add: stack_weight_def)
  have walk: ?thesis if t: "walks start end b mm bs mm1" "claims UNIV {} bs mm mm1" "buddy_inv X mm1"
      "(\<Union>c \<in> set bs. region_of mm1 c) = region mm x \<inter> rng start end" for bs mm1
  proof -
    note sh = claims_shape [OF t(2)] and c = claims_chain [OF t(2) x(3)]
    obtain err cs t mm' where "range_result X start end mm1 dfs (s + block_bytes mm x) e err cs t mm'"
      using IH [OF _ t(3) _ _ c(1)] w c(2) inv(2,3) memory_ok_cong [OF sh] range_ok_cong [OF sh] by auto
    then show ?thesis
      using range_result_walk [OF t(1,2)] t(4) reg by (metis Int_commute le_add1)
  qed
  consider "region mm x \<inter> rng start end = {}" | "drm_buddy_block_is_free x"
    | "region mm x \<inter> rng start end \<noteq> {}" "drm_buddy_block_is_allocated x \<or>
        \<not> drm_buddy_block_is_free x \<and> clear_avail mm = 0 \<and> region mm x \<subseteq> rng start end"
    | "region mm x \<inter> rng start end \<noteq> {}" "drm_buddy_block_is_split x" "\<not> (region mm x \<subseteq> rng start end \<and> clear_avail mm = 0)"
    using tree_okD(5) [OF ok x(1)] by (auto simp: leaf_def)
  then show ?thesis
  proof cases
    case 1
    then show ?thesis
      using walk [of "[]" mm] walk_skip [OF x(1)] overlaps_iff [OF ok x(1) inv(3)] inv(1) claims_mono [OF claims_refl]
      by (simp add: walks_def)
  next
    case 2
    then obtain bs mm1 where "walked X start end b x mm bs mm1"
      using walk_free [OF inv x(1)] by blast
    then show ?thesis
      using walk [of bs mm1] claims_mono [of "{b}" "{}" bs mm mm1 UNIV "{}"] unfolding walked_def by blast
  next
    case 3
    have "s + block_bytes mm x \<le> e" "s \<le> e"
      using chain_bounds [OF x(3)] chain_bounds [OF ch] by simp_all
    then show ?thesis
      using range_result_stop [OF inv(1) x(1,2) _ 3(2,1) inv(3)] by blast
  next
    case 4
    obtain l r where p: "chain mm (l # r # dfs) s e" "stack_weight mm (l # r # dfs) < stack_weight mm (b # dfs)"
      "\<And>tot al. alloc_range_loop start end tot al (b # dfs) mm = alloc_range_loop start end tot al (l # r # dfs) mm"
      by (rule range_loop_push [OF inv(1,3) ch x(1) 4(2,1,3)]) blast
    have "\<exists>err bs t mm'. range_result X start end mm (l # r # dfs) s e err bs t mm'"
      by (rule IH [OF p(2) inv p(1)])
    then show ?thesis
      unfolding range_result_def p(3) .
  qed
qed

lemma range_loop_ok:
  assumes "buddy_inv X mm" "memory_ok mm" "range_ok mm start end" "chain mm stk s e"
  shows "\<exists>err bs t mm'. range_result X start end mm stk s e err bs t mm'"
  using assms
proof (induction "stack_weight mm stk" arbitrary: mm stk s rule: less_induct)
  case less
  show ?case
  proof (cases stk)
    case Nil
    have "alloc_range_loop start end tot al [] mm = Some (OK, tot, al, mm)" for tot al
      by (subst alloc_range_loop.simps) simp
    then have "range_result X start end mm [] s e OK [] e mm"
      using less.prems(1,4) Nil claims_mono [OF claims_refl] by (auto simp: range_result_def)
    then show ?thesis
      using Nil by blast
  next
    case (Cons b dfs)
    then show ?thesis
      using range_loop_step [OF less.prems(1-3), of b dfs s e] less.prems(4) less.hyps by blast
  qed
qed

end
