(* ===== verification/Buddy_Contig.thy ===== *)
theory Buddy_Contig
  imports Buddy_Space
begin

text \<open>
  Allocating a given range of addresses: \<^verbatim>\<open>__alloc_range\<close> and \<^verbatim>\<open>__drm_buddy_alloc_range\<close> succeed exactly if the
  whole range is free.
\<close>

section \<open>Sizes of sets of blocks\<close>

lemma leaves_disjoint:
  assumes "tree_ok X mm" "slab mm b = Some x" "leaf x" "slab mm c = Some z" "leaf z" "b \<noteq> c"
  shows "region mm x \<inter> region mm z = {}"
proof -
  have "b \<in> leaves mm" "c \<in> leaves mm"
    using assms by (auto simp: leaves_def)
  then have "region_of mm b \<inter> region_of mm c = {}"
    using tree_okD2(2) [OF assms(1)] assms(6) unfolding tiling_def disjoint_family_on_def by blast
  then show ?thesis
    using assms(2,4) by (simp add: region_of_def)
qed

lemma total_size_card:
  assumes "tree_ok X mm" "distinct bs" "\<forall>b \<in> set bs. is_allocated mm b"
  shows "unat (total_size mm bs) = card (\<Union>b \<in> set bs. region_of mm b)" "(\<Union>b \<in> set bs. region_of mm b) \<subseteq> {0 ..< unat (mm_size mm)}"
proof -
  have l: "set bs \<subseteq> leaves mm"
    using assms(3) by (auto simp: is_allocated_def leaves_def leaf_def)
  then show sub: "(\<Union>b \<in> set bs. region_of mm b) \<subseteq> {0 ..< unat (mm_size mm)}"
    using tree_okD2(2) [OF assms(1)] unfolding tiling_def by blast
  have s: "unat (drm_buddy_block_size mm (the (slab mm b))) = card (region_of mm b)" if "b \<in> set bs" for b
    using that assms(3) unat_block_size [OF assms(1), of b] by (auto simp: is_allocated_def region_of_def region_def)
  have "card (\<Union>b \<in> set bs. region_of mm b) = (\<Sum>b \<in> set bs. card (region_of mm b))"
  proof (rule card_UN_disjoint)
    show "\<forall>b \<in> set bs. \<forall>c \<in> set bs. b \<noteq> c \<longrightarrow> region_of mm b \<inter> region_of mm c = {}"
      using l tree_okD2(2) [OF assms(1)] unfolding tiling_def disjoint_family_on_def by blast
  qed (auto simp: region_of_def region_def split: option.split)
  also have "\<dots> = (\<Sum>b \<in> set bs. unat (drm_buddy_block_size mm (the (slab mm b))))"
    by (rule sum.cong) (simp_all add: s)
  finally have c: "card (\<Union>b \<in> set bs. region_of mm b) = (\<Sum>b \<in> set bs. unat (drm_buddy_block_size mm (the (slab mm b))))" .
  have "card (\<Union>b \<in> set bs. region_of mm b) < 2 ^ 64"
    using card_mono [OF _ sub] unat_u64 [of "mm_size mm"] by simp
  then have "unat (\<Sum>b \<in> set bs. drm_buddy_block_size mm (the (slab mm b))) = card (\<Union>b \<in> set bs. region_of mm b)"
    using unat_sum [of "set bs" "\<lambda>b. drm_buddy_block_size mm (the (slab mm b))"] c by simp
  then show "unat (total_size mm bs) = card (\<Union>b \<in> set bs. region_of mm b)"
    using assms(2) by (simp add: total_size_def sum_list_distinct_conv_sum_set)
qed

lemma allocated_not_free:
  assumes "tree_ok X mm" "slab mm c = Some z" "drm_buddy_block_is_allocated z"
  shows "region mm z \<inter> free_space mm F = {}"
proof -
  have "region mm z \<inter> free_part mm F (slab mm d) = {}" for d
    using leaves_disjoint [OF assms(1,2), of d] assms states_exclude(2) [OF assms(3)]
    by (cases "c = d") (auto simp: free_part_def leaf_def split: option.split)
  then show ?thesis
    by (auto simp: free_space_def)
qed

section \<open>Ranges given by start and size\<close>

definition extent :: "u64 \<Rightarrow> u64 \<Rightarrow> nat set" where
  "extent start sz = {unat start ..< unat start + unat sz}"

text \<open>
  A range that the callers ask for: aligned, and either without wrap-around or, where the start has wrapped below
  zero, beyond the managed space.
\<close>

definition extent_ok :: "drm_buddy \<Rightarrow> u64 \<Rightarrow> u64 \<Rightarrow> bool" where
  "extent_ok mm start sz \<longleftrightarrow> unat (chunk_size mm) dvd unat start \<and> unat (chunk_size mm) dvd unat sz \<and> sz \<noteq> 0 \<and>
     (unat start + unat sz \<le> 2 ^ 64 \<or> unat (mm_size mm) \<le> unat start)"

lemma extent_last:
  fixes start sz :: u64
  assumes "sz \<noteq> 0"
  shows "unat (start + sz - 1) = (unat start + unat sz - 1) mod 2 ^ 64"
proof -
  have "1 \<le> unat sz"
    using assms by (simp add: unat_gt_0 Suc_le_eq)
  then have "start + sz - 1 = of_nat (unat start + unat sz - 1)"
    by (simp add: of_nat_diff)
  then show ?thesis
    by (simp add: unat_of_nat take_bit_eq_mod)
qed

lemma extent_range:
  assumes "geometry mm" "extent_ok mm start sz"
  shows "range_ok mm start (start + sz - 1)"
    "rng start (start + sz - 1) \<inter> {0 ..< unat (mm_size mm)} = extent start sz \<inter> {0 ..< unat (mm_size mm)}"
proof -
  let ?c = "unat (chunk_size mm)"
  have sz: "0 < unat sz"
    using assms(2) by (simp add: extent_ok_def unat_gt_0)
  have l: "unat (start + sz - 1) = (unat start + unat sz - 1) mod 2 ^ 64"
    using extent_last assms(2) by (simp add: extent_ok_def)
  have "?c dvd 2 ^ 64"
    using assms(1) by (rule geometryD) (metis le_imp_power_dvd less_imp_le)
  moreover have "?c dvd unat start + unat sz"
    using assms(2) by (simp add: extent_ok_def)
  ultimately have d: "?c dvd unat start + unat sz" "?c dvd 2 ^ 64"
    by blast+
  show r: "range_ok mm start (start + sz - 1)"
  proof (cases "unat start + unat sz \<le> 2 ^ 64")
    case True
    then have "unat (start + sz - 1) = unat start + unat sz - 1"
      using sz l by (simp del: unat_sub_if')
    then show ?thesis
      using assms(2) d(1) sz by (simp add: range_ok_def extent_ok_def word_le_nat_alt) linarith
  next
    case False
    then have "unat (start + sz - 1) = unat start + unat sz - 1 - 2 ^ 64"
      using l sz unat_u64 [of start] unat_u64 [of sz] by (simp add: mod_if)
    then have "unat (start + sz - 1) + 1 = unat start + unat sz - 2 ^ 64"
      using False by linarith
    then have "?c dvd unat (start + sz - 1) + 1"
      using dvd_diff_nat [OF d] by presburger
    then show ?thesis
      using assms(2) False by (simp add: range_ok_def extent_ok_def)
  qed
  show "rng start (start + sz - 1) \<inter> {0 ..< unat (mm_size mm)} = extent start sz \<inter> {0 ..< unat (mm_size mm)}"
  proof (cases "unat start + unat sz \<le> 2 ^ 64")
    case True
    then have "unat (start + sz - 1) = unat start + unat sz - 1"
      using sz l by (simp del: unat_sub_if')
    then show ?thesis
      using sz by (auto simp: rng_def extent_def)
  next
    case False
    then show ?thesis
      using assms(2) by (auto simp: rng_def extent_def extent_ok_def)
  qed
qed

section \<open>Undoing an allocation\<close>

text \<open>The callers cannot tell the two states apart.\<close>

definition restored :: "drm_buddy \<Rightarrow> drm_buddy \<Rightarrow> bool" where
  "restored mm mm' \<longleftrightarrow> same_shape mm mm' \<and> warned mm' = warned mm \<and> avail mm' = avail mm \<and>
     (\<forall>c z. drm_buddy_block_is_allocated z \<longrightarrow> (slab mm' c = Some z \<longleftrightarrow> slab mm c = Some z)) \<and>
     (\<forall>F. free_space mm' F = free_space mm F)"

lemma restored_refl [simp]: "restored mm mm"
  by (simp add: restored_def)

lemma restored_trans: "restored a b \<Longrightarrow> restored b c \<Longrightarrow> restored a c"
  using same_shape_trans unfolding restored_def by auto

lemma released_twice: "released bs fl mm1 mm \<Longrightarrow> released bs fl mm1 mm' \<Longrightarrow> restored mm mm'"
  unfolding released_def restored_def same_shape_def by auto

lemma claims_valid: "valid mm \<Longrightarrow> claims T {} bs mm mm' \<Longrightarrow> buddy_inv {} mm' \<Longrightarrow> valid mm'"
  using claimsD(6) [of T "{}" bs mm mm'] by (auto simp: valid_def merged_def)

lemma free_list_internal_ok:
  assumes "valid mm" "distinct bs" "\<forall>b \<in> set bs. is_allocated mm b"
  obtains mm' where "drm_buddy_free_list_internal bs mm = Some mm'" "valid mm'" "released (set bs) drm_buddy_block_is_clear mm mm'"
proof -
  have "flag_of False False = drm_buddy_block_is_clear"
    by (simp add: flag_of_def fun_eq_iff)
  then show ?thesis
    using that free_list_loop_ok [OF assms, of False False]
    by (auto simp: drm_buddy_free_list_internal_def do_drm_buddy_free_list_def warn_on_def)
qed

lemma undo_claims:
  assumes "valid mm1" "claims T S bs mm mm1"
  obtains mm' where "drm_buddy_free_list_internal bs mm1 = Some mm'" "valid mm'" "restored mm mm'"
  using free_list_internal_ok [OF assms(1) claimsD(2) [OF assms(2)]] claimsD(4) [OF assms(2)]
    released_twice [OF claimsD(1) [OF assms(2)]] by blast

lemma claims_space:
  assumes "claims T S bs mm mm'"
  shows "free_space mm UNIV = free_space mm' UNIV \<union> (\<Union>b \<in> set bs. region_of mm' b)"
proof -
  have "region_of mm' b = region mm' (the (slab mm' b))" if "b \<in> set bs" for b
    using claimsD(4) [OF assms that] by (auto simp: is_allocated_def region_of_def)
  then show ?thesis
    using releasedD(5) [OF claimsD(1) [OF assms], of UNIV] by simp
qed

section \<open>Allocating a range\<close>

lemma range_resultD:
  assumes "range_result X start end mm stk s e err bs t mm'"
  shows "alloc_range_loop start end tot al stk mm = Some (err, tot + total_size mm' bs, al @ bs, mm')"
    "buddy_inv X mm'" "claims UNIV {} bs mm mm'" "s \<le> t" "t \<le> e"
    "(\<Union>c \<in> set bs. region_of mm' c) = rng start end \<inter> {s ..< t}" "err = OK \<or> err = ENOSPC"
    "merged {} mm \<Longrightarrow> \<not> blocked mm start end s e \<Longrightarrow> err = OK \<and> t = e"
  using assms unfolding range_result_def by blast+

lemma range_loop_outcome:
  assumes "valid mm" "memory_ok mm" "extent_ok mm start sz"
  obtains err bs t mm' where
    "alloc_range_loop start (start + sz - 1) 0 [] (roots mm) mm = Some (err, total_size mm' bs, bs, mm')"
    "valid mm'" "claims UNIV {} bs mm mm'" "(\<Union>b \<in> set bs. region_of mm' b) = extent start sz \<inter> {0 ..< t}"
    "err = OK \<or> err = ENOSPC"
    "err = OK \<and> sz \<le> total_size mm' bs \<longleftrightarrow> extent start sz \<subseteq> free_space mm UNIV"
    "err = OK \<and> sz \<le> total_size mm' bs \<Longrightarrow> extent start sz \<inter> {0 ..< t} = extent start sz"
proof -
  let ?last = "start + sz - 1" and ?m = "unat (mm_size mm)"
  have ok: "tree_ok {} mm" "buddy_inv {} mm"
    using assms(1) by (simp_all add: valid_def buddy_inv_def)
  note r = extent_range [OF tree_okD2(1) [OF ok(1)] assms(3)]
  obtain err bs t mm' where w: "range_result {} start ?last mm (roots mm) 0 ?m err bs t mm'"
    using range_loop_ok [OF ok(2) assms(2) r(1) tree_okD2(3) [OF ok(1)]] by blast
  note w' = range_resultD [OF w]
  note cl = w'(3) and v = claims_valid [OF assms(1) w'(3,2)] and t = w'(5)
  have lt: "A \<inter> {0 ..< t} = A \<inter> {0 ..< ?m} \<inter> {0 ..< t}" for A
    using t by force
  have "rng start ?last \<inter> {0 ..< t} = extent start sz \<inter> {0 ..< t}"
    unfolding lt [of "rng start ?last"] lt [of "extent start sz"] r(2) ..
  then have u: "(\<Union>b \<in> set bs. region_of mm' b) = extent start sz \<inter> {0 ..< t}"
    using w'(6) by simp
  have c: "unat (total_size mm' bs) = card (extent start sz \<inter> {0 ..< t})"
    using total_size_card(1) [OF validD(1) [OF v] claimsD(2) [OF cl]] claimsD(4) [OF cl] u by simp
  have fwd: "extent start sz \<inter> {0 ..< t} = extent start sz" if s: "err = OK \<and> sz \<le> total_size mm' bs"
    by (rule card_seteq) (use s c in \<open>auto simp: extent_def word_le_nat_alt\<close>)
  have "err = OK \<and> sz \<le> total_size mm' bs" if f: "extent start sz \<subseteq> free_space mm UNIV"
  proof -
    have m: "free_space mm UNIV \<subseteq> {0 ..< ?m}"
      by (rule free_space_card(2) [OF ok(1)])
    have "\<not> blocked mm start ?last 0 ?m"
    proof
      assume "blocked mm start ?last 0 ?m"
      then obtain z d where z: "slab mm d = Some z" "drm_buddy_block_is_allocated z" "region mm z \<inter> (rng start ?last \<inter> {0 ..< ?m}) \<noteq> {}"
        by (auto simp: blocked_def)
      show False
        using allocated_not_free [OF ok(1) z(1,2), of UNIV] z(3) f unfolding r(2) by blast
    qed
    then have e: "err = OK" "t = ?m"
      using w'(8) validD(5) [OF assms(1)] by blast+
    have "extent start sz \<inter> {0 ..< t} = extent start sz"
      using f m e(2) by blast
    then show ?thesis
      using e(1) c by (simp add: word_le_nat_alt extent_def)
  qed
  moreover have "extent start sz \<subseteq> free_space mm UNIV" if "err = OK \<and> sz \<le> total_size mm' bs"
    using fwd [OF that] claims_space [OF cl] u by blast
  ultimately have i: "err = OK \<and> sz \<le> total_size mm' bs \<longleftrightarrow> extent start sz \<subseteq> free_space mm UNIV"
    by (rule iffI [rotated])
  have l: "alloc_range_loop start ?last 0 [] (roots mm) mm = Some (err, total_size mm' bs, bs, mm')"
    using w'(1) [of 0 "[]"] by simp
  show ?thesis
    by (rule that [OF l v cl u w'(7) i fwd])
qed

lemma alloc_range_succeeds:
  assumes "valid mm" "memory_ok mm" "extent_ok mm start sz" "extent start sz \<subseteq> free_space mm UNIV"
  obtains bs mm' where "do_drm_buddy_alloc_range start sz want_total blocks mm = Some (OK, None, blocks @ bs, mm')"
    "valid mm'" "claims UNIV {} bs mm mm'" "(\<Union>b \<in> set bs. region_of mm' b) = extent start sz"
  by (rule range_loop_outcome [OF assms(1-3)])
    (use assms(4) that in \<open>auto simp: do_drm_buddy_alloc_range_def do_alloc_range_def\<close>)

lemma alloc_range_fails:
  assumes "valid mm" "memory_ok mm" "extent_ok mm start sz" "\<not> extent start sz \<subseteq> free_space mm UNIV"
  obtains mm' where "do_drm_buddy_alloc_range start sz False blocks mm = Some (ENOSPC, None, blocks, mm')"
    "valid mm'" "restored mm mm'"
proof (rule range_loop_outcome [OF assms(1-3)])
  fix err bs t mm1
  assume a: "alloc_range_loop start (start + sz - 1) 0 [] (roots mm) mm = Some (err, total_size mm1 bs, bs, mm1)"
    "valid mm1" "claims UNIV {} bs mm mm1" "err = OK \<or> err = ENOSPC"
    "(err = OK \<and> sz \<le> total_size mm1 bs) = (extent start sz \<subseteq> free_space mm UNIV)"
  obtain mm' where "drm_buddy_free_list_internal bs mm1 = Some mm'" "valid mm'" "restored mm mm'"
    by (rule undo_claims [OF a(2,3)])
  then show thesis
    by (intro that [of mm']) (use a(1,4,5) assms(4) in \<open>auto simp: do_drm_buddy_alloc_range_def do_alloc_range_def Let_def\<close>)
qed

lemma alloc_range_partial:
  assumes "valid mm" "memory_ok mm" "extent_ok mm start sz" "\<not> extent start sz \<subseteq> free_space mm UNIV"
  obtains bs mm' t where "do_drm_buddy_alloc_range start sz True blocks mm = Some (ENOSPC, Some (total_size mm' bs), blocks @ bs, mm')"
    "valid mm'" "claims UNIV {} bs mm mm'" "(\<Union>b \<in> set bs. region_of mm' b) = extent start sz \<inter> {0 ..< t}"
proof (rule range_loop_outcome [OF assms(1-3)])
  fix err bs t mm1
  assume a: "alloc_range_loop start (start + sz - 1) 0 [] (roots mm) mm = Some (err, total_size mm1 bs, bs, mm1)"
    "valid mm1" "claims UNIV {} bs mm mm1" "(\<Union>b \<in> set bs. region_of mm1 b) = extent start sz \<inter> {0 ..< t}"
    "err = OK \<or> err = ENOSPC" "(err = OK \<and> sz \<le> total_size mm1 bs) = (extent start sz \<subseteq> free_space mm UNIV)"
  have "do_drm_buddy_alloc_range start sz True blocks mm = Some (ENOSPC, Some (total_size mm1 bs), blocks @ bs, mm1)"
    using a(1,5,6) assms(4) by (auto simp: do_drm_buddy_alloc_range_def do_alloc_range_def Let_def)
  then show thesis
    by (rule that [OF _ a(2-4)])
qed

end
