(* ===== verification/Kernel_Arith.thy ===== *)
theory Kernel_Arith
  imports Kernel_Math
begin

text \<open>What the helpers of \<^verbatim>\<open>Kernel_Math\<close> compute, over the numbers that the words stand for.\<close>

section \<open>Powers of two\<close>

lemma pow2_word:
  assumes "unat (w :: u64) = 2 ^ k"
  shows "w = 2 ^ k" "w - 1 = mask k" "k < 64"
proof -
  have "w = of_nat (unat w)"
    by simp
  then show "w = 2 ^ k"
    by (simp add: assms)
  then show "w - 1 = mask k"
    by (simp add: mask_eq_exp_minus_1)
  have "(2 :: nat) ^ k < 2 ^ 64"
    using unat_u64 [of w] assms by simp
  then show "k < 64"
    by (rule nat_power_less_imp_less [rotated]) simp
qed

lemma unat_pow2: "k < 64 \<Longrightarrow> unat (push_bit k (1 :: u64)) = 2 ^ k"
  using unsigned_push_bit_eq [of k "1 :: u64", where ?'a = nat] power_strict_increasing [of k 64 "2 :: nat"]
  by (simp add: push_bit_eq_mult take_bit_nat_eq_self)

section \<open>Rounding\<close>

lemma unat_round_down:
  assumes "unat w = 2 ^ k"
  shows "unat (round_down x w) = unat x div 2 ^ k * 2 ^ k"
proof -
  have "round_down x w = push_bit k (drop_bit k x)"
    unfolding round_down_def pow2_word(2) [OF assms]
    by (rule bit_word_eqI) (auto simp: bit_and_iff bit_not_iff bit_mask_iff bit_push_bit_iff bit_drop_bit_eq)
  then have "unat (round_down x w) = take_bit 64 (push_bit k (drop_bit k (unat x)))"
    using unat_u64 [of x] by (simp add: unsigned_push_bit_eq unsigned_drop_bit_eq take_bit_nat_eq_self)
  also have "\<dots> = push_bit k (drop_bit k (unat x))"
    using unat_u64 [of x] order.strict_trans1 [OF div_times_less_eq_dividend]
    by (simp add: push_bit_eq_mult drop_bit_eq_div take_bit_nat_eq_self)
  finally show ?thesis
    by (simp add: push_bit_eq_mult drop_bit_eq_div)
qed

lemma unat_round_up:
  assumes "unat w = 2 ^ k" "(unat x + 2 ^ k - 1) div 2 ^ k * 2 ^ k < 2 ^ 64"
  shows "unat (round_up x w) = (unat x + 2 ^ k - 1) div 2 ^ k * 2 ^ k"
proof (cases "x = 0")
  case True
  then show ?thesis
    using pow2_word(3) [OF assms(1)] by (simp add: round_up_def)
next
  case False
  let ?y = "x - 1" and ?n = "(unat x - 1) div 2 ^ k"
  have k: "k < 64" and x: "1 \<le> unat x"
    using pow2_word(3) [OF assms(1)] False by (simp_all add: unat_gt_0 Suc_le_eq)
  have y: "unat ?y = unat x - 1"
    using False by (simp add: unat_minus_one)
  have "?y OR mask k = round_down ?y w + mask k"
    unfolding round_down_def pow2_word(2) [OF assms(1)]
    by (subst disjunctive_add) (auto intro!: bit_word_eqI simp: bit_and_iff bit_or_iff bit_not_iff bit_mask_iff)
  then have "round_up x w = round_down ?y w + 2 ^ k"
    by (simp add: round_up_def pow2_word(2) [OF assms(1)] mask_eq_exp_minus_1)
  then have "unat (round_up x w) = (?n * 2 ^ k + 2 ^ k) mod 2 ^ 64"
    using unat_round_down [OF assms(1), of ?y] y assms(1) pow2_word(1) [OF assms(1)] by (simp add: unat_word_ariths)
  moreover have e: "(unat x + 2 ^ k - 1) div 2 ^ k = ?n + 1"
  proof -
    have "unat x + 2 ^ k - 1 = unat x - 1 + 2 ^ k"
      using x by simp
    then show ?thesis
      by simp
  qed
  moreover have "?n * 2 ^ k + 2 ^ k < 2 ^ 64"
    using assms(2) e by simp
  ultimately show ?thesis
    by simp
qed

lemma IS_ALIGNED_iff:
  assumes "unat w = 2 ^ k"
  shows "IS_ALIGNED x w \<longleftrightarrow> 2 ^ k dvd unat x"
proof -
  have "IS_ALIGNED x w \<longleftrightarrow> unat (take_bit k x) = 0"
    by (simp add: IS_ALIGNED_def pow2_word(2) [OF assms] unat_eq_0 flip: take_bit_eq_mask)
  moreover have "unat (take_bit k x) = unat x mod 2 ^ k"
    using unsigned_take_bit_eq [of k x, where ?'a = nat] take_bit_eq_mod [of k "unat x"] by simp
  ultimately show ?thesis
    by (simp add: mod_eq_0_iff_dvd)
qed

lemma ceil_le:
  fixes a r t :: nat
  assumes "0 < r" "r dvd t" "a \<le> t"
  shows "(a + r - 1) div r * r \<le> t"
proof -
  obtain j where t: "t = r * j"
    using assms(2) by (auto elim!: dvdE)
  have "(a + r - 1) div r \<le> (j * r + (r - 1)) div r"
    using assms(1,3) t by (intro div_le_mono) (simp add: mult.commute)
  also have "\<dots> = j"
    using assms(1) by (intro div_nat_eqI) (simp_all add: mult.commute [of j])
  finally show ?thesis
    using t by (simp add: mult.commute)
qed

lemma ceil_ge:
  fixes a r :: nat
  assumes "0 < r"
  shows "a \<le> (a + r - 1) div r * r" "(a + r - 1) div r * r < a + r"
proof -
  have "(a + r - 1) div r * r + (a + r - 1) mod r = a + r - 1" "(a + r - 1) mod r < r"
    using assms by simp_all
  then show "a \<le> (a + r - 1) div r * r" "(a + r - 1) div r * r < a + r"
    using assms by linarith+
qed

text \<open>Rounding up only what is not aligned, as the callers do.\<close>

definition aligned_up :: "u64 \<Rightarrow> u64 \<Rightarrow> u64" where
  "aligned_up x w = (if \<not> IS_ALIGNED x w then round_up x w else x)"

lemma aligned_up_bounds:
  assumes "unat w = 2 ^ k" "unat x \<le> 2 ^ 63"
  shows "unat x \<le> unat (aligned_up x w)" "unat (aligned_up x w) \<le> 2 ^ 63" "2 ^ k dvd unat (aligned_up x w)"
    "unat (aligned_up x w) < unat x + 2 ^ k"
proof -
  let ?c = "(unat x + 2 ^ k - 1) div 2 ^ k * 2 ^ k"
  have "k \<le> 63"
    using pow2_word(3) [OF assms(1)] by simp
  then have c: "?c \<le> 2 ^ 63"
    by (intro ceil_le [OF _ le_imp_power_dvd assms(2)]) simp_all
  then have up: "unat (round_up x w) = ?c"
    by (intro unat_round_up [OF assms(1)]) (rule order.strict_trans1, assumption, simp)
  have g: "unat x \<le> ?c" "?c < unat x + 2 ^ k"
    using ceil_ge [of "2 ^ k" "unat x"] by simp_all
  show "unat x \<le> unat (aligned_up x w)" "unat (aligned_up x w) \<le> 2 ^ 63" "2 ^ k dvd unat (aligned_up x w)"
      "unat (aligned_up x w) < unat x + 2 ^ k"
    using c up g assms(2) IS_ALIGNED_iff [OF assms(1), of x] by (auto simp: aligned_up_def)
qed

section \<open>Logarithms\<close>

lemma ilog2_bounds:
  assumes "x \<noteq> 0"
  shows "2 ^ ilog2 x \<le> unat x" "unat x < 2 ^ Suc (ilog2 x)" "ilog2 x < 64"
proof -
  have x: "0 < unat x"
    using assms by (simp add: unat_gt_0)
  then have f: "0 < floorlog 2 (unat x)"
    using floorlog_eq_zero_iff [of 2 "unat x"] by linarith
  show b: "2 ^ ilog2 x \<le> unat x" "unat x < 2 ^ Suc (ilog2 x)"
    using floorlog_bounds [of "unat x" 2] x f by (simp_all add: ilog2_def fls64_def)
  have "(2 :: nat) ^ ilog2 x < 2 ^ 64"
    using b(1) unat_u64 [of x] by linarith
  then show "ilog2 x < 64"
    by (rule nat_power_less_imp_less [rotated]) simp
qed

lemma ilog2_unique:
  assumes "2 ^ k \<le> unat x" "unat x < 2 ^ Suc k"
  shows "ilog2 x = k"
proof -
  have "Suc k \<le> floorlog 2 (unat x)" "floorlog 2 (unat x) \<le> Suc k"
    using assms by (auto intro: floorlog_ge_SucI floorlog_leI)
  then show ?thesis
    by (simp add: ilog2_def fls64_def)
qed

lemma ilog2_pow2: "unat x = 2 ^ k \<Longrightarrow> ilog2 x = k"
  by (rule ilog2_unique) simp_all

lemma is_power_of_2_iff: "is_power_of_2 x \<longleftrightarrow> (\<exists>k. unat x = 2 ^ k)"
proof
  assume "\<exists>k. unat x = 2 ^ k"
  then obtain k where k: "unat x = 2 ^ k"
    by blast
  then have "x AND mask k = 0"
    using IS_ALIGNED_iff [OF k, of x] by (simp add: IS_ALIGNED_def pow2_word(2) [OF k])
  then show "is_power_of_2 x"
    using k by (auto simp: is_power_of_2_def pow2_word(2) [OF k])
next
  assume p: "is_power_of_2 x"
  define k where "k = ilog2 x"
  have x: "x \<noteq> 0" "x AND (x - 1) = 0"
    using p by (simp_all add: is_power_of_2_def)
  have b: "2 ^ k \<le> unat x" "unat x < 2 * 2 ^ k" "k < 64"
    using ilog2_bounds [OF x(1)] by (simp_all add: k_def)
  have top: "bit y k" if "2 ^ k \<le> unat y" "unat y < 2 * 2 ^ k" for y :: u64
  proof -
    have "unat y div 2 ^ k = 1"
      using that by (intro div_nat_eqI) simp_all
    then have "bit (unat y) k"
      by (simp add: bit_iff_odd)
    then show ?thesis
      by (simp add: bit_unsigned_iff)
  qed
  have "unat (x - 1) = unat x - 1"
    using x(1) by (simp add: unat_minus_one)
  then have "unat x = 2 ^ k"
    using top [of x] top [of "x - 1"] b(1,2) x(2) bit_and_iff [of x "x - 1" k] by fastforce
  then show "\<exists>k. unat x = 2 ^ k" ..
qed

lemma unat_rounddown_pow_of_two: "x \<noteq> 0 \<Longrightarrow> unat (rounddown_pow_of_two x) = 2 ^ ilog2 x"
  using ilog2_bounds(3) [of x] unat_pow2 [of "ilog2 x"] by (simp add: rounddown_pow_of_two_def ilog2_def)

lemma roundup_pow_of_two_bounds:
  assumes "x \<noteq> 0" "unat x \<le> 2 ^ 63"
  obtains k where "unat (roundup_pow_of_two x) = 2 ^ k" "unat x \<le> 2 ^ k" "2 ^ k < 2 * unat x" "k \<le> 63"
proof -
  let ?k = "fls64 (x - 1)"
  have x: "0 < unat x" "unat (x - 1) = unat x - 1"
    using assms(1) by (simp_all add: unat_gt_0 unat_minus_one)
  have "floorlog 2 (unat x - 1) \<le> 63"
    by (rule floorlog_leI) (use assms(2) x(1) in auto)
  then have k: "?k \<le> 63"
    by (simp add: fls64_def x(2))
  have "unat x \<le> 2 ^ ?k" "2 ^ ?k < 2 * unat x"
  proof -
    have "unat x - 1 < 2 ^ ?k"
      using floorlog_bounds [of "unat x - 1" 2] by (cases "unat x - 1 = 0") (simp_all add: fls64_def x(2))
    then show "unat x \<le> 2 ^ ?k"
      by simp
    show "2 ^ ?k < 2 * unat x"
    proof (cases "unat x - 1 = 0")
      case True
      then show ?thesis
        using x(1) by (simp add: fls64_def x(2) floorlog_def)
    next
      case False
      then have "0 < floorlog 2 (unat x - 1)"
        using floorlog_eq_zero_iff [of 2 "unat x - 1"] by linarith
      then obtain m where m: "?k = Suc m"
        by (metis fls64_def x(2) gr0_implies_Suc)
      have "2 ^ m \<le> unat x - 1"
        using floorlog_bounds [of "unat x - 1" 2] False m by (simp add: fls64_def x(2))
      then show ?thesis
        using m False by simp
    qed
  qed
  then show ?thesis
    using that [of ?k] k unat_pow2 [of ?k] by (simp add: roundup_pow_of_two_def)
qed

end
