(* ===== verification/Buddy_Search.thy ===== *)
theory Buddy_Search
  imports Buddy_Contig Kernel_Arith
begin

text \<open>
  The two ways to find a free block of a given order: the walk of \<^verbatim>\<open>__alloc_range_bias\<close>, restricted to a range, and
  the free lists of \<^verbatim>\<open>alloc_from_freelist\<close>. Both split larger blocks on the way.
\<close>

section \<open>Splitting down to a block\<close>

definition parents :: "drm_buddy \<Rightarrow> nat \<Rightarrow> nat set" where
  "parents mm c = {p. \<exists>y. slab mm p = Some y \<and> Some c \<in> {left y, right y}}"

text \<open>The search under \<open>b\<close> ends with the free block \<open>c\<close>, which the caller is about to claim.\<close>

definition found :: "nat set \<Rightarrow> nat \<Rightarrow> nat \<Rightarrow> drm_buddy \<Rightarrow> nat \<Rightarrow> drm_buddy \<Rightarrow> bool" where
  "found X n b mm c mm' \<longleftrightarrow> buddy_inv X mm' \<and> claims UNIV (parents mm' c) [] mm mm' \<and>
     (\<exists>x. slab mm' c = Some x \<and> drm_buddy_block_is_free x \<and> drm_buddy_block_order x = n) \<and>
     (c = b \<and> mm' = mm \<or> (\<exists>x. slab mm' b = Some x \<and> \<not> drm_buddy_block_is_free x))"

lemma found_here:
  assumes "buddy_inv X mm" "slab mm b = Some x" "drm_buddy_block_is_free x" "drm_buddy_block_order x = n"
  shows "found X n b mm b mm"
  using assms claims_mono [OF claims_refl] by (auto simp: found_def)

lemma found_below:
  assumes "buddy_inv X mm" "slab mm b = Some x" "split_store b x mm mm1" "claims {b} {b} [] mm mm1"
    and "h = slab_next mm \<or> h = Suc (slab_next mm)" "found X n h mm1 c mm'"
  shows "found X n b mm c mm'"
proof -
  note f = assms(6) [unfolded found_def]
  have cl: "claims UNIV (parents mm' c) [] mm1 mm'"
    using f by blast
  have "b < slab_next mm"
    using tree_okD(1) [OF _ assms(2)] assms(1) by (auto simp: buddy_inv_def)
  then obtain xb where xb: "slab mm1 b = Some xb" "drm_buddy_block_is_split xb" "Some h \<in> {left xb, right xb}"
    using assms(3,5) by (auto simp: split_store_def)
  then have xb': "slab mm' b = Some xb"
    using claims_keep [OF cl xb(1)] states_exclude(3) [OF xb(2)] by blast
  have "claims UNIV {b} [] mm mm1"
    using claims_mono [OF assms(4)] by blast
  then have a: "claims UNIV ({b} \<union> parents mm' c) [] mm mm'"
    using claims_trans [OF _ cl] by fastforce
  have "claims UNIV (parents mm' c) [] mm mm'"
  proof (cases "c = h")
    case True
    then have "b \<in> parents mm' c"
      using xb' xb(3) by (auto simp: parents_def)
    then show ?thesis
      using a by (simp add: insert_absorb)
  next
    case False
    then obtain y where y: "slab mm' h = Some y" "\<not> drm_buddy_block_is_free y"
      using f by blast
    then have "\<not> mergeable mm' b"
      using xb' xb(3) by (auto simp: mergeable_def)
    then show ?thesis
      using claims_mono [OF claims_except [OF a], of b UNIV "parents mm' c"] by blast
  qed
  then show ?thesis
    using f xb' states_exclude(3) [OF xb(2)] unfolding found_def by blast
qed

text \<open>Claiming the block leaves nothing to merge.\<close>

lemma found_claim:
  assumes "found X n b mm c mm1"
  obtains x mm' where "slab mm1 c = Some x" "drm_buddy_block_is_free x" "drm_buddy_block_order x = n"
    "claim_block c mm1 = Some mm'" "buddy_inv X mm'" "claims UNIV {} [c] mm mm'"
    "slab mm' = (slab mm1)(c \<mapsto> with_state DRM_BUDDY_ALLOCATED x)"
proof -
  obtain x where x: "slab mm1 c = Some x" "drm_buddy_block_is_free x" "drm_buddy_block_order x = n"
    using assms by (auto simp: found_def)
  have f: "buddy_inv X mm1" "claims UNIV (parents mm1 c) [] mm mm1"
    using assms by (simp_all add: found_def)
  obtain mm' where m: "claim_block c mm1 = Some mm'" "slab mm' = (slab mm1)(c \<mapsto> with_state DRM_BUDDY_ALLOCATED x)"
    "buddy_inv X mm'" "claims {c} {} [c] mm1 mm'"
    by (rule claim_block_ok [OF f(1) x(1,2)])
  have "claims UNIV (parents mm1 c) [c] mm mm'"
    using claims_trans [OF f(2) m(4)] by simp
  moreover have "\<not> mergeable mm' p" if p: "p \<in> parents mm1 c" for p
  proof -
    obtain y where y: "slab mm1 p = Some y" "Some c \<in> {left y, right y}"
      using p by (auto simp: parents_def)
    have "left (the (slab mm' p)) = left y" "right (the (slab mm' p)) = right y"
      using y(1) x(1) m(2) by auto
    then show ?thesis
      using y m(2) by (auto simp: mergeable_def)
  qed
  ultimately have "claims UNIV {} [c] mm mm'"
    unfolding claims_def by blast
  then show ?thesis
    using that x m(1-3) by blast
qed

section \<open>Splitting along the right halves\<close>

declare split_down.simps [simp del]

lemma split_down_ok:
  assumes "buddy_inv X mm" "memory_ok mm" "slab mm b = Some x" "drm_buddy_block_is_free x" "drm_buddy_block_order x = tmp" "n \<le> tmp"
  shows "\<exists>c mm'. split_down n tmp b mm = Some (Inr c, mm') \<and> found X n b mm c mm'"
  using assms
proof (induction tmp arbitrary: mm b x)
  case 0
  then show ?case
    using found_here [OF 0(1,3,4,5)] by (simp add: split_down.simps)
next
  case (Suc tmp)
  show ?case
  proof (cases "n = Suc tmp")
    case True
    then show ?thesis
      using found_here [OF Suc.prems(1,3,4,5)] by (simp add: split_down.simps [of _ "Suc _"])
  next
    case False
    obtain mm1 where 1: "split_block b mm = Some (OK, mm1)" "split_store b x mm mm1" "buddy_inv X mm1" "claims {b} {b} [] mm mm1"
      by (rule split_claims [OF Suc.prems(1-4)]) (use Suc.prems(5) in auto)
    have b: "b < slab_next mm"
      using tree_okD(1) [OF _ Suc.prems(3)] Suc.prems(1) by (auto simp: buddy_inv_def)
    then obtain xb rb where s: "slab mm1 b = Some xb" "right xb = Some (Suc (slab_next mm))" "slab mm1 (Suc (slab_next mm)) = Some rb"
        "drm_buddy_block_is_free rb" "drm_buddy_block_order rb = tmp"
      using 1(2) Suc.prems(5) by (auto simp: split_store_def half_of_def)
    obtain c mm' where 2: "split_down n tmp (Suc (slab_next mm)) mm1 = Some (Inr c, mm')" "found X n (Suc (slab_next mm)) mm1 c mm'"
      using Suc.IH [OF 1(3) _ s(3-5)] memory_ok_cong [OF claims_shape [OF 1(4)]] Suc.prems(2,6) False by auto
    have "split_down n (Suc tmp) b mm = Some (Inr c, mm')"
      using False 1(1) s(1,2) 2(1) by (simp add: split_down.simps [of _ "Suc _"])
    then show ?thesis
      using found_below [OF Suc.prems(1,3) 1(2,4) _ 2(2)] by blast
  qed
qed

section \<open>The free lists\<close>

text \<open>A free block that is large enough.\<close>

definition entry :: "drm_buddy \<Rightarrow> nat \<Rightarrow> nat \<Rightarrow> bool" where
  "entry mm n b \<longleftrightarrow> (\<exists>x. slab mm b = Some x \<and> drm_buddy_block_is_free x \<and> n \<le> drm_buddy_block_order x)"

lemma free_list_entry:
  assumes "lists_ok {} mm" "i \<le> max_order mm" "b \<in> set (free_list mm ! i)"
  obtains x where "slab mm b = Some x" "drm_buddy_block_is_free x" "drm_buddy_block_order x = i"
  using lists_okD(4) [OF assms(1,2)] assms(3) by (auto simp: free_of_order_def)

lemma last_compatible_ok:
  assumes "\<forall>b \<in> set fl. slab mm b \<noteq> None"
  obtains r where "last_compatible mm flags fl = Some r" "\<And>b. r = Some b \<Longrightarrow> b \<in> set fl"
proof -
  have "\<exists>r. last_compatible mm flags fl = Some r \<and> (\<forall>b. r = Some b \<longrightarrow> b \<in> set fl)"
    using assms by (induction fl) auto
  then show ?thesis
    using that by blast
qed

lemma last_compatible_list:
  assumes "lists_ok {} mm" "i \<le> max_order mm"
  obtains r where "last_compatible mm flags (rev (free_list mm ! i)) = Some r"
    "\<And>b. r = Some b \<Longrightarrow> \<exists>x. slab mm b = Some x \<and> drm_buddy_block_is_free x \<and> drm_buddy_block_order x = i"
proof (rule last_compatible_ok)
  show "\<forall>b \<in> set (rev (free_list mm ! i)). slab mm b \<noteq> None"
    by (auto elim: free_list_entry [OF assms])
  fix r
  assume r: "last_compatible mm flags (rev (free_list mm ! i)) = Some r" "\<And>b. r = Some b \<Longrightarrow> b \<in> set (rev (free_list mm ! i))"
  show thesis
  proof (rule that [OF r(1)])
    fix b assume "r = Some b"
    then have "b \<in> set (free_list mm ! i)"
      using r(2) by simp
    then show "\<exists>x. slab mm b = Some x \<and> drm_buddy_block_is_free x \<and> drm_buddy_block_order x = i"
      by (rule free_list_entry [OF assms]) blast
  qed
qed

lemma first_compatible_ok:
  assumes "lists_ok {} mm" "\<forall>i \<in> set is. i \<le> max_order mm"
  shows "\<exists>r. first_compatible mm flags is = Some r \<and> (\<forall>b i. r = Some (b, i) \<longrightarrow> i \<in> set is \<and>
    (\<exists>x. slab mm b = Some x \<and> drm_buddy_block_is_free x \<and> drm_buddy_block_order x = i))"
  using assms(2)
proof (induction "is")
  case (Cons i "is")
  then have i: "i \<le> max_order mm"
    by simp
  obtain r where "last_compatible mm flags (rev (free_list mm ! i)) = Some r"
    "\<And>b. r = Some b \<Longrightarrow> \<exists>x. slab mm b = Some x \<and> drm_buddy_block_is_free x \<and> drm_buddy_block_order x = i"
    by (rule last_compatible_list [OF assms(1) i, of flags]) blast
  then show ?case
    using Cons by (cases r) auto
qed simp

lemma first_nonempty_ok:
  assumes "lists_ok {} mm" "\<forall>i \<in> set is. i \<le> max_order mm"
  shows "first_nonempty mm is = Some (b, i) \<Longrightarrow> i \<in> set is \<and>
      (\<exists>x. slab mm b = Some x \<and> drm_buddy_block_is_free x \<and> drm_buddy_block_order x = i)"
    "first_nonempty mm is = None \<Longrightarrow> j \<in> set is \<Longrightarrow> free_list mm ! j = []"
  using assms(2)
  by (induction "is") (auto split: if_splits intro: free_list_entry [OF assms(1), of i b] dest: last_in_set)

lemma maxblock_loop_ok:
  assumes "lists_ok {} mm" "\<forall>i \<in> set is. n \<le> i \<and> i \<le> max_order mm"
    and "\<And>b. max_block = Some b \<Longrightarrow> entry mm n b" "\<And>b. block = Some b \<Longrightarrow> entry mm n b"
  shows "\<exists>r. maxblock_loop mm flags is max_block block = Some r \<and> (\<forall>b. r = Some b \<longrightarrow> entry mm n b)"
  using assms(2-)
proof (induction "is" arbitrary: max_block block)
  case (Cons i "is")
  have i: "n \<le> i" "i \<le> max_order mm"
    using Cons.prems(1) by simp_all
  obtain r where r: "last_compatible mm flags (rev (free_list mm ! i)) = Some r"
    "\<And>b. r = Some b \<Longrightarrow> \<exists>x. slab mm b = Some x \<and> drm_buddy_block_is_free x \<and> drm_buddy_block_order x = i"
    by (rule last_compatible_list [OF assms(1) i(2), of flags]) blast
  define block' where "block' = (if r = None then block else r)"
  have b': "entry mm n b" if "block' = Some b" for b
    using that r(2) [of b] Cons.prems(3) i(1) by (auto simp: block'_def entry_def split: if_splits)
  have IH: "\<exists>r. maxblock_loop mm flags is m block' = Some r \<and> (\<forall>b. r = Some b \<longrightarrow> entry mm n b)"
    if "\<And>b. m = Some b \<Longrightarrow> entry mm n b" for m
    using Cons.IH [of m block'] that b' Cons.prems(1) by simp
  show ?case
  proof (cases block')
    case None
    then show ?thesis
      using IH [of max_block] Cons.prems(2) r(1) by (simp add: Let_def block'_def [symmetric])
  next
    case (Some b)
    then obtain x where x: "slab mm b = Some x"
      using b' by (auto simp: entry_def)
    show ?thesis
    proof (cases max_block)
      case None
      then show ?thesis
        using IH [of block'] b' Some r(1) by (simp add: Let_def block'_def [symmetric])
    next
      case m: (Some m)
      then obtain y where y: "slab mm m = Some y"
        using Cons.prems(2) by (auto simp: entry_def)
      show ?thesis
        using IH [of block'] IH [of max_block] b' Cons.prems(2) x y m Some r(1) by (simp add: Let_def block'_def [symmetric])
    qed
  qed
qed simp

text \<open>The block that is split down, whatever the flags prefer.\<close>

lemma alloc_from_freelist_pick:
  assumes "buddy_inv X mm"
  shows "alloc_from_freelist n flags mm = Some (Inl ENOSPC, mm) \<and> (\<forall>b. \<not> entry mm n b) \<or>
    (\<exists>b x. slab mm b = Some x \<and> drm_buddy_block_is_free x \<and> n \<le> drm_buddy_block_order x \<and>
      alloc_from_freelist n flags mm = split_down n (drm_buddy_block_order x) b mm)"
proof -
  define js where "js = [n..<max_order mm + 1]"
  have js: "i \<in> set js \<longleftrightarrow> n \<le> i \<and> i \<le> max_order mm" for i
    by (auto simp: js_def)
  have ok: "tree_ok X mm" "lists_ok {} mm"
    using assms by (simp_all add: buddy_inv_def)
  define pick where "pick = (if flags AND DRM_BUDDY_TOPDOWN_ALLOCATION \<noteq> 0
      then do { res \<leftarrow> get_maxblock n flags mm;
                case res of None \<Rightarrow> Some None
                | Some b \<Rightarrow> do { block \<leftarrow> slab mm b; Some (Some (b, drm_buddy_block_order block)) } }
      else first_compatible mm flags js)"
  have "\<exists>r. pick = Some r \<and> (\<forall>b i. r = Some (b, i) \<longrightarrow> n \<le> i \<and>
      (\<exists>x. slab mm b = Some x \<and> drm_buddy_block_is_free x \<and> drm_buddy_block_order x = i))"
  proof (cases "flags AND DRM_BUDDY_TOPDOWN_ALLOCATION = 0")
    case True
    then show ?thesis
      using first_compatible_ok [OF ok(2), of js flags] js by (auto simp: pick_def)
  next
    case False
    obtain r where "get_maxblock n flags mm = Some r" "\<And>b. r = Some b \<Longrightarrow> entry mm n b"
      using maxblock_loop_ok [OF ok(2), of js n None None flags] js unfolding get_maxblock_def js_def [symmetric] by auto
    then show ?thesis
      using False by (cases r) (auto simp: pick_def entry_def)
  qed
  then obtain r where r: "pick = Some r" "\<And>b i. r = Some (b, i) \<Longrightarrow> n \<le> i \<and>
      (\<exists>x. slab mm b = Some x \<and> drm_buddy_block_is_free x \<and> drm_buddy_block_order x = i)"
    by blast
  define r' where "r' = (if r = None then first_nonempty mm js else r)"
  have e: "alloc_from_freelist n flags mm = (case r' of None \<Rightarrow> Some (Inl ENOSPC, mm)
      | Some (b, tmp) \<Rightarrow> do { block \<leftarrow> slab mm b;
                   if \<not> drm_buddy_block_is_free block then None else split_down n tmp b mm })"
    unfolding alloc_from_freelist_def js_def [symmetric] pick_def [symmetric] r(1) r'_def by simp
  show ?thesis
  proof (cases r')
    case None
    then have "first_nonempty mm js = None"
      by (simp add: r'_def split: if_splits)
    then have "free_list mm ! i = []" if "n \<le> i" "i \<le> max_order mm" for i
      using that first_nonempty_ok(2) [OF ok(2), of js i] js by simp
    then have "\<not> entry mm n b" for b
      using lists_okD(4) [OF ok(2)] tree_okD(2) [OF ok(1), of b] by (fastforce simp: entry_def free_of_order_def)
    then show ?thesis
      using e None by simp
  next
    case (Some p)
    obtain b i where p: "p = (b, i)"
      by (cases p)
    have "n \<le> i \<and> (\<exists>x. slab mm b = Some x \<and> drm_buddy_block_is_free x \<and> drm_buddy_block_order x = i)"
      using Some p r(2) first_nonempty_ok(1) [OF ok(2), of js b i] js by (auto simp: r'_def split: if_splits)
    then obtain x where x: "n \<le> i" "slab mm b = Some x" "drm_buddy_block_is_free x" "drm_buddy_block_order x = i"
      by blast
    then show ?thesis
      using e Some p by auto
  qed
qed

lemma alloc_from_freelist_ok:
  assumes "buddy_inv X mm" "memory_ok mm"
  shows "alloc_from_freelist n flags mm = Some (Inl ENOSPC, mm) \<and> (\<forall>b. \<not> entry mm n b) \<or>
    (\<exists>b c mm'. alloc_from_freelist n flags mm = Some (Inr c, mm') \<and> found X n b mm c mm')"
  using alloc_from_freelist_pick [OF assms(1), of n flags]
proof (elim disjE exE conjE)
  fix b x
  assume "slab mm b = Some x" "drm_buddy_block_is_free x" "n \<le> drm_buddy_block_order x"
    "alloc_from_freelist n flags mm = split_down n (drm_buddy_block_order x) b mm"
  then show ?thesis
    using split_down_ok [OF assms, of b x "drm_buddy_block_order x" n] by auto
qed simp

end
