(* ===== verification/Buddy_Bias.thy ===== *)
theory Buddy_Bias
  imports Buddy_Search
begin

text \<open>
  The search of \<^verbatim>\<open>__alloc_range_bias\<close> for a free block within a range. It splits a free block only if there is
  room for an aligned block of the wanted order in it, and then it finds one below it.
\<close>

section \<open>Room in a block\<close>

definition slot :: "drm_buddy \<Rightarrow> u64 \<Rightarrow> u64 \<Rightarrow> nat \<Rightarrow> drm_buddy_block \<Rightarrow> bool" where
  "slot mm start end n x \<longleftrightarrow> (\<exists>q. let r = unat (chunk_size mm) * 2 ^ n in
     {q * r ..< q * r + r} \<subseteq> region mm x \<inter> rng start end)"

lemma interval_inside:
  fixes a r s t u v :: nat
  assumes "0 < r"
  shows "{a ..< a + r} \<subseteq> {s ..< t} \<inter> {u .. v} \<longleftrightarrow> max s u \<le> a \<and> a + r \<le> min t (v + 1)"
proof -
  have "{u .. v} = {u ..< v + 1}"
    by auto
  moreover have "{a ..< a + r} \<subseteq> {c ..< d} \<longleftrightarrow> c \<le> a \<and> a + r \<le> d" for c d
    using assms atLeastLessThan_subset_iff [of a "a + r" c d] by auto
  ultimately show ?thesis
    by (auto simp: Int_subset_iff)
qed

lemma slot_bounds:
  assumes "geometry mm"
  shows "slot mm start end n x \<longleftrightarrow> (\<exists>q. let r = unat (chunk_size mm) * 2 ^ n in
    max (block_start x) (unat start) \<le> q * r \<and> q * r + r \<le> min (block_start x + block_bytes mm x) (unat end + 1))"
  using interval_inside [of "unat (chunk_size mm) * 2 ^ n"] chunk_dvd(3) [OF assms]
  by (simp add: slot_def Let_def region_def rng_def)

lemma multiple_between:
  fixes a m r :: nat
  assumes "0 < r"
  shows "(\<exists>q. a \<le> q * r \<and> q * r + r \<le> m) \<longleftrightarrow> (a + r - 1) div r * r < m div r * r"
proof -
  have "(a + r - 1) div r \<le> q \<longleftrightarrow> a \<le> q * r" for q
  proof -
    have "(a + r - 1) div r \<le> q \<longleftrightarrow> a + r - 1 < (q + 1) * r"
      using div_less_iff_less_mult [OF assms, of "a + r - 1" "q + 1"] by linarith
    also have "\<dots> \<longleftrightarrow> a \<le> q * r"
      using assms by (simp add: distrib_right) linarith
    finally show ?thesis .
  qed
  moreover have "q * r + r \<le> m \<longleftrightarrow> q < m div r" for q
  proof -
    have "q * r + r \<le> m \<longleftrightarrow> Suc q * r \<le> m"
      by (simp add: add.commute)
    then show ?thesis
      using assms by (simp add: less_eq_div_iff_mult_less_eq flip: Suc_le_eq)
  qed
  ultimately have "(\<exists>q. a \<le> q * r \<and> q * r + r \<le> m) \<longleftrightarrow> (\<exists>q. (a + r - 1) div r \<le> q \<and> q < m div r)"
    by metis
  also have "\<dots> \<longleftrightarrow> (a + r - 1) div r < m div r"
    by (meson le_less_trans order_refl)
  also have "\<dots> \<longleftrightarrow> (a + r - 1) div r * r < m div r * r"
    using assms by simp
  finally show ?thesis .
qed

lemma slot_arith:
  fixes r s t u v :: nat
  assumes "0 < r" "r dvd s" "r dvd t" "s < t" "a = max s u" "m = min t v"
  shows "(s < u \<or> v < t) \<and> m div r * r \<le> (a + r - 1) div r * r \<longleftrightarrow> \<not> (\<exists>q. a \<le> q * r \<and> q * r + r \<le> m)"
proof (cases "s < u \<or> v < t")
  case True
  then show ?thesis
    using multiple_between [OF assms(1), of a m] by (metis not_less)
next
  case False
  then have "a = s" "m = t"
    using assms(5,6) by auto
  moreover obtain i j where "s = r * i" "t = r * j"
    using assms(2,3) by (auto elim!: dvdE)
  moreover have "s \<le> i * r \<and> i * r + r \<le> t"
  proof -
    have "i < j"
      using assms(4) calculation by simp
    then have "r * Suc i \<le> r * j"
      by (intro mult_le_mono2) simp
    then show ?thesis
      using calculation by (simp add: mult.commute add.commute)
  qed
  ultimately show ?thesis
    using False by blast
qed

lemma no_slot_iff:
  assumes "tree_ok X mm" "slab mm b = Some x" "n \<le> drm_buddy_block_order x"
  shows "overlaps start end (drm_buddy_block_offset x) (block_last mm x) \<and>
      \<not> no_slot start end (push_bit n (chunk_size mm)) (drm_buddy_block_offset x) (block_last mm x) \<longleftrightarrow> slot mm start end n x"
proof -
  define r where "r = unat (chunk_size mm) * 2 ^ n"
  define s where "s = block_start x"
  define t where "t = block_start x + block_bytes mm x"
  define a where "a = max s (unat start)"
  define m where "m = min t (unat end + 1)"
  note g = tree_okD2(1) [OF assms(1)]
  obtain k where k: "unat (chunk_size mm) = 2 ^ k"
    by (rule geometryD [OF g])
  have r: "0 < r" "r = 2 ^ (k + n)" "r dvd block_bytes mm x"
    using k assms(3) by (simp_all add: r_def power_add block_bytes_def le_imp_power_dvd)
  have d: "r dvd s" "r dvd t"
    using tree_okD(3) [OF assms(1,2)] r(3) by (auto simp: s_def t_def intro: dvd_trans)
  have e: "t \<le> unat (mm_size mm)" "s < t" "unat (mm_size mm) < 2 ^ 64"
    using tree_okD(4) [OF assms(1,2)] chunk_dvd(4) [OF g] unat_u64 by (auto simp: s_def t_def)
  have "r \<le> block_bytes mm x"
    using dvd_imp_le [OF r(3)] chunk_dvd(4) [OF g] by simp
  then have rq: "unat (push_bit n (chunk_size mm)) = 2 ^ (k + n)"
    using e r(2) unat_push_bit [of "chunk_size mm" n] by (simp add: r_def t_def)
  have l: "unat (block_last mm x) = t - 1" "unat (drm_buddy_block_offset x) = s"
    using unat_block_last [OF assms(1,2)] by (simp_all add: s_def t_def block_start_def)
  have ov: "overlaps start end (drm_buddy_block_offset x) (block_last mm x) \<longleftrightarrow> unat start < t \<and> s \<le> unat end"
    using e(2) l by (auto simp: overlaps_def word_le_nat_alt)
  have sl: "slot mm start end n x \<longleftrightarrow> (\<exists>q. a \<le> q * r \<and> q * r + r \<le> m)"
    by (simp add: slot_bounds [OF g] Let_def r_def s_def t_def a_def m_def)
  show ?thesis
  proof (cases "unat start < t \<and> s \<le> unat end")
    case False
    have "a < m" if "a \<le> q * r" "q * r + r \<le> m" for q
      using that r(1) by linarith
    moreover have "\<not> a < m"
      using False by (auto simp: a_def m_def)
    ultimately show ?thesis
      using False ov unfolding sl by blast
  next
    case True
    have mx: "unat (max (drm_buddy_block_offset x) start) = a"
      by (simp add: max_def word_le_nat_alt l a_def)
    have "unat (min (block_last mm x) end) = min (t - 1) (unat end)"
      by (simp add: min_def word_le_nat_alt l)
    moreover have "min (t - 1) (unat end) + 1 = m"
      using e(2) by (simp add: m_def min_def) linarith
    ultimately have mn: "unat (min (block_last mm x) end + 1) = m"
      using unat_add_small [of "min (block_last mm x) end" 1] e m_def by simp
    have up: "(a + r - 1) div r * r \<le> t"
      by (rule ceil_le [OF r(1) d(2)]) (use True e(2) in \<open>simp add: a_def\<close>)
    have rd: "unat (round_down (min (block_last mm x) end + 1) (push_bit n (chunk_size mm))) = m div r * r"
      using unat_round_down [OF rq] mn r(2) by simp
    have ru: "unat (round_up (max (drm_buddy_block_offset x) start) (push_bit n (chunk_size mm))) = (a + r - 1) div r * r"
      using unat_round_up [OF rq, of "max (drm_buddy_block_offset x) start"] up e mx r(2) by simp
    have "no_slot start end (push_bit n (chunk_size mm)) (drm_buddy_block_offset x) (block_last mm x) \<longleftrightarrow>
        (s < unat start \<or> unat end + 1 < t) \<and> m div r * r \<le> (a + r - 1) div r * r"
      using e(2) by (auto simp: no_slot_def word_le_nat_alt word_less_nat_alt rd ru l)
    also have "\<dots> \<longleftrightarrow> \<not> slot mm start end n x"
      unfolding sl by (rule slot_arith [OF r(1) d e(2) a_def m_def])
    finally show ?thesis
      using ov True by blast
  qed
qed

lemma slot_contained:
  assumes "tree_ok X mm" "slab mm b = Some x" "slot mm start end (drm_buddy_block_order x) x"
  shows "region mm x \<subseteq> rng start end"
proof -
  obtain q where q: "{q * block_bytes mm x ..< q * block_bytes mm x + block_bytes mm x} \<subseteq> region mm x \<inter> rng start end"
    using assms(3) by (auto simp: slot_def Let_def block_bytes_def)
  have "0 < block_bytes mm x"
    using chunk_dvd(4) tree_okD2(1) [OF assms(1)] by simp
  then have "q * block_bytes mm x = block_start x"
    using q interval_inside [of "block_bytes mm x" "q * block_bytes mm x"] by (simp add: region_def rng_def)
  then show ?thesis
    using q by (simp add: region_def)
qed

lemma slot_half:
  assumes "tree_ok X mm" "slab mm b = Some x" "n < drm_buddy_block_order x" "slot mm start end n x"
    and "region mm lb \<union> region mm rb = region mm x" "block_start rb = block_start x + block_bytes mm lb" "block_start lb = block_start x"
    and "Suc (drm_buddy_block_order lb) = drm_buddy_block_order x" "Suc (drm_buddy_block_order rb) = drm_buddy_block_order x"
  shows "slot mm start end n lb \<or> slot mm start end n rb"
proof -
  define r where "r = unat (chunk_size mm) * 2 ^ n"
  define mid where "mid = block_start rb"
  obtain q where q: "{q * r ..< q * r + r} \<subseteq> region mm x \<inter> rng start end"
    using assms(4) by (auto simp: slot_def Let_def r_def)
  have "r dvd block_bytes mm x" "r dvd block_bytes mm lb"
    using assms(3,8) by (simp_all add: r_def block_bytes_def le_imp_power_dvd)
  then have "r dvd mid"
    using tree_okD(3) [OF assms(1,2)] assms(6) by (auto simp: mid_def intro: dvd_trans)
  then obtain j where j: "mid = j * r"
    by (metis dvd_def mult.commute)
  have l: "region mm lb = {block_start x ..< mid}" "region mm rb = {mid ..< block_start x + block_bytes mm x}"
    using assms(6-9) by (auto simp: region_def mid_def block_bytes_def simp flip: assms(8))
  consider "q < j" | "j \<le> q"
    by linarith
  then show ?thesis
  proof cases
    case 1
    then have "Suc q * r \<le> mid"
      unfolding j by (intro mult_le_mono1) simp
    then have "{q * r ..< q * r + r} \<subseteq> region mm lb \<inter> rng start end"
      using q unfolding l(1) by (auto simp: region_def)
    then show ?thesis
      by (auto simp: slot_def Let_def r_def)
  next
    case 2
    then have "mid \<le> q * r"
      unfolding j by (intro mult_le_mono1)
    then have "{q * r ..< q * r + r} \<subseteq> region mm rb \<inter> rng start end"
      using q unfolding l(2) by (auto simp: region_def)
    then show ?thesis
      by (auto simp: slot_def Let_def r_def)
  qed
qed

lemma slot_cong: "same_shape mm mm' \<Longrightarrow> slot mm' start end n x = slot mm start end n x"
  using same_shape_eqs(2) [of mm mm'] by (simp add: slot_def same_shape_def)

section \<open>The steps of the search\<close>

definition visits :: "drm_buddy \<Rightarrow> u64 \<Rightarrow> u64 \<Rightarrow> nat \<Rightarrow> u64 \<Rightarrow> bool \<Rightarrow> drm_buddy_block \<Rightarrow> bool" where
  "visits mm start end n flags fallback x \<longleftrightarrow> n \<le> drm_buddy_block_order x \<and> slot mm start end n x \<and>
     \<not> drm_buddy_block_is_allocated x \<and> (fallback \<or> \<not> block_incompatible x flags)"

lemma visits_iff:
  assumes "tree_ok X mm" "slab mm b = Some x"
  shows "visits mm start end n flags fallback x \<longleftrightarrow> \<not> (drm_buddy_block_order x < n \<or>
     \<not> overlaps start end (drm_buddy_block_offset x) (block_last mm x) \<or> drm_buddy_block_is_allocated x \<or>
     no_slot start end (push_bit n (chunk_size mm)) (drm_buddy_block_offset x) (block_last mm x) \<or>
     \<not> fallback \<and> block_incompatible x flags)"
  using no_slot_iff [OF assms, of n start "end"] by (auto simp: visits_def)

lemma bias_skip:
  assumes "tree_ok X mm" "slab mm b = Some x" "\<not> visits mm start end n flags fallback x"
  shows "alloc_range_bias_loop start end n flags fallback (b # dfs) mm = alloc_range_bias_loop start end n flags fallback dfs mm"
  using assms(2,3) visits_iff [OF assms(1,2), of start "end" n flags fallback]
  by (subst alloc_range_bias_loop.simps) (simp add: block_last_def Let_def)

lemma bias_hit:
  assumes "tree_ok X mm" "slab mm b = Some x" "visits mm start end n flags fallback x" "n = drm_buddy_block_order x"
  shows "alloc_range_bias_loop start end n flags fallback (b # dfs) mm =
    (if drm_buddy_block_is_free x then Some (Inr b, mm) else alloc_range_bias_loop start end n flags fallback dfs mm)"
proof -
  have "contains start end (drm_buddy_block_offset x) (block_last mm x)"
    using contains_iff [OF assms(1,2)] slot_contained [OF assms(1,2)] assms(3,4) by (simp add: visits_def)
  then show ?thesis
    using assms(2,3,4) visits_iff [OF assms(1,2), of start "end" n flags fallback]
    by (subst alloc_range_bias_loop.simps) (auto simp: block_last_def Let_def)
qed

lemma bias_push:
  assumes "tree_ok X mm" "slab mm b = Some x" "visits mm start end n flags fallback x" "n \<noteq> drm_buddy_block_order x"
    and "if drm_buddy_block_is_split x then mm1 = mm else split_block b mm = Some (OK, mm1)"
    and "slab mm1 b = Some xb" "left xb = Some l" "right xb = Some r"
  shows "alloc_range_bias_loop start end n flags fallback (b # dfs) mm =
    alloc_range_bias_loop start end n flags fallback (l # r # dfs) mm1"
  using assms(2-) visits_iff [OF assms(1,2), of start "end" n flags fallback]
  by (subst alloc_range_bias_loop.simps) (auto simp: block_last_def Let_def push_children_def split: if_splits)

section \<open>Searching in a free block\<close>

definition bias_found :: "nat set \<Rightarrow> u64 \<Rightarrow> u64 \<Rightarrow> nat \<Rightarrow> nat \<Rightarrow> drm_buddy \<Rightarrow> nat \<Rightarrow> drm_buddy \<Rightarrow> bool" where
  "bias_found X start end n b mm c mm' \<longleftrightarrow> found X n b mm c mm' \<and> region_of mm' c \<subseteq> rng start end"

lemma bias_free:
  assumes "buddy_inv X mm" "memory_ok mm" "slab mm b = Some x" "drm_buddy_block_is_free x" "visits mm start end n flags fallback x"
  shows "\<exists>c mm'. (\<forall>dfs. alloc_range_bias_loop start end n flags fallback (b # dfs) mm = Some (Inr c, mm')) \<and>
    bias_found X start end n b mm c mm'"
  using assms
proof (induction "drm_buddy_block_order x - n" arbitrary: mm b x)
  case 0
  have ok: "tree_ok X mm"
    using 0(2) by (simp add: buddy_inv_def)
  have n: "n = drm_buddy_block_order x"
    using 0(1,6) by (simp add: visits_def)
  have "region mm x \<subseteq> rng start end"
    using slot_contained [OF ok 0(4)] 0(6) n by (simp add: visits_def)
  then show ?case
    using bias_hit [OF ok 0(4,6) n] 0(5) found_here [OF 0(2,4,5) n [symmetric]] 0(4)
    by (auto simp: bias_found_def region_of_def)
next
  case (Suc k)
  have ok: "tree_ok X mm"
    using Suc.prems(1) by (simp add: buddy_inv_def)
  have n: "n < drm_buddy_block_order x"
    using Suc.hyps(2) by simp
  obtain mm1 where 1: "split_block b mm = Some (OK, mm1)" "split_store b x mm mm1" "buddy_inv X mm1" "claims {b} {b} [] mm mm1"
    by (rule split_claims [OF Suc.prems(1-4)]) (use n in auto)
  let ?l = "slab_next mm" and ?r = "Suc (slab_next mm)"
  obtain xb lb rb where s: "slab mm1 = (slab mm)(b \<mapsto> xb, ?l \<mapsto> lb, ?r \<mapsto> rb)" "left xb = Some ?l" "right xb = Some ?r"
      "half_of b x (block_start x) lb" "half_of b x (block_start x + unat (chunk_size mm) * 2 ^ (drm_buddy_block_order x - 1)) rb"
    using 1(2) unfolding split_store_def by blast
  have "b < ?l"
    using tree_okD(1) [OF ok Suc.prems(3)] .
  then have h: "slab mm1 b = Some xb" "slab mm1 ?l = Some lb" "slab mm1 ?r = Some rb"
    using s(1) by auto
  have f: "drm_buddy_block_is_free lb" "drm_buddy_block_is_free rb" "Suc (drm_buddy_block_order lb) = drm_buddy_block_order x"
      "Suc (drm_buddy_block_order rb) = drm_buddy_block_order x" "block_start lb = block_start x"
      "drm_buddy_block_is_clear lb = drm_buddy_block_is_clear x" "drm_buddy_block_is_clear rb = drm_buddy_block_is_clear x"
    using s(4,5) by (simp_all add: half_of_def)
  note u = half_regions [OF s(4,5)] and sh = claims_shape [OF 1(4)]
  have ok1: "tree_ok X mm1" and mem1: "memory_ok mm1"
    using 1(3) Suc.prems(2) memory_ok_cong [OF sh] by (simp_all add: buddy_inv_def)
  have vis: "visits mm1 start end n flags fallback h" if "drm_buddy_block_is_free h" "slot mm start end n h"
      "Suc (drm_buddy_block_order h) = drm_buddy_block_order x" "drm_buddy_block_is_clear h = drm_buddy_block_is_clear x" for h
    using that n Suc.prems(5) states_exclude(1) [OF that(1)] slot_cong [OF sh] by (auto simp: visits_def block_incompatible_def)
  have push: "alloc_range_bias_loop start end n flags fallback (b # dfs) mm =
      alloc_range_bias_loop start end n flags fallback (?l # ?r # dfs) mm1" for dfs
    by (rule bias_push [OF ok Suc.prems(3,5) _ _ h(1) s(2,3)]) (use n 1(1) states_exclude(1) [OF Suc.prems(4)] in auto)
  have below: "bias_found X start end n b mm c mm'" if "bias_found X start end n h mm1 c mm'" "h = ?l \<or> h = ?r" for h c mm'
    using that found_below [OF Suc.prems(1,3) 1(2,4)] by (auto simp: bias_found_def)
  show ?case
  proof (cases "visits mm1 start end n flags fallback lb")
    case True
    have "k = drm_buddy_block_order lb - n"
      using Suc.hyps(2) f(3) by simp
    from Suc.hyps(1) [OF this 1(3) mem1 h(2) f(1) True] show ?thesis
      using push below by metis
  next
    case False
    then have "slot mm start end n rb"
      using slot_half [OF ok Suc.prems(3) n _ u(1) _ f(5,3,4)] u(3) f(5) vis [OF f(1) _ f(3,6)] Suc.prems(5)
      by (auto simp: visits_def)
    then have v: "visits mm1 start end n flags fallback rb"
      by (rule vis [OF f(2) _ f(4,7)])
    have "k = drm_buddy_block_order rb - n"
      using Suc.hyps(2) f(4) by simp
    from Suc.hyps(1) [OF this 1(3) mem1 h(3) f(2) v] show ?thesis
      using push below bias_skip [OF ok1 h(2) False] by metis
  qed
qed

section \<open>The whole search\<close>

text \<open>A leaf that meets a block lies below it.\<close>

lemma leaf_below:
  assumes "tree_ok X mm" "slab mm b = Some x" "slab mm c = Some z" "leaf z" "region mm z \<inter> region mm x \<noteq> {}"
  shows "region mm z \<subseteq> region mm x \<and> (drm_buddy_block_is_split x \<longrightarrow> drm_buddy_block_order z < drm_buddy_block_order x) \<and>
    (leaf x \<longrightarrow> z = x)"
  using assms(2,5)
proof (induction "drm_buddy_block_order x" arbitrary: b x rule: less_induct)
  case less
  show ?case
  proof (cases "leaf x")
    case True
    then have "c = b"
      using leaves_disjoint [OF assms(1,3,4) less.prems(1)] less.prems(2) by blast
    then show ?thesis
      using True less.prems(1) assms(3) leaf_not_split by auto
  next
    case False
    then have sp: "drm_buddy_block_is_split x"
      using tree_okD(5) [OF assms(1) less.prems(1)] by blast
    obtain l r lb rb where k: "left x = Some l" "right x = Some r" "slab mm l = Some lb" "slab mm r = Some rb" "l \<noteq> r"
      "Suc (drm_buddy_block_order lb) = drm_buddy_block_order x" "Suc (drm_buddy_block_order rb) = drm_buddy_block_order x"
      "block_start lb = block_start x" "block_start rb = block_start x + block_bytes mm lb"
      "block_bytes mm lb + block_bytes mm rb = block_bytes mm x" "region mm lb \<union> region mm rb = region mm x"
      by (rule split_children [OF assms(1) less.prems(1) sp])
    have below: ?thesis if h: "slab mm h = Some y" "Suc (drm_buddy_block_order y) = drm_buddy_block_order x"
        "region mm z \<inter> region mm y \<noteq> {}" "region mm y \<subseteq> region mm x" for h y
    proof -
      have i: "region mm z \<subseteq> region mm y" "drm_buddy_block_is_split y \<longrightarrow> drm_buddy_block_order z < drm_buddy_block_order y"
          "leaf y \<longrightarrow> z = y"
        using less.hyps [OF _ h(1,3)] h(2) by simp_all
      have "drm_buddy_block_order z < drm_buddy_block_order x"
        using i(2,3) h(2) tree_okD(5) [OF assms(1) h(1)] by (auto simp flip: h(2))
      then show ?thesis
        using i(1) h(4) False by auto
    qed
    show ?thesis
      using below [OF k(3,6)] below [OF k(4,7)] k(11) less.prems(2) by blast
  qed
qed

definition room :: "drm_buddy \<Rightarrow> u64 \<Rightarrow> u64 \<Rightarrow> nat \<Rightarrow> nat \<Rightarrow> nat \<Rightarrow> bool" where
  "room mm start end n s e \<longleftrightarrow> (\<exists>c z. slab mm c = Some z \<and> drm_buddy_block_is_free z \<and> n \<le> drm_buddy_block_order z \<and>
     slot mm start end n z \<and> region mm z \<subseteq> {s ..< e})"

text \<open>There is no room in a block that the search passes over.\<close>

lemma room_cons:
  assumes "tree_ok X mm" "slab mm b = Some x" "block_start x = s" "room mm start end n s e"
    and "\<not> visits mm start end n flags True x \<or> n = drm_buddy_block_order x \<and> \<not> drm_buddy_block_is_free x"
  shows "room mm start end n (s + block_bytes mm x) e"
proof -
  obtain c z where z: "slab mm c = Some z" "drm_buddy_block_is_free z" "n \<le> drm_buddy_block_order z"
      "slot mm start end n z" "region mm z \<subseteq> {s ..< e}"
    using assms(4) by (auto simp: room_def)
  have lf: "leaf z"
    using z(2) by (simp add: leaf_def)
  have "region mm z \<inter> region mm x = {}"
  proof (rule ccontr)
    assume "region mm z \<inter> region mm x \<noteq> {}"
    then have l: "region mm z \<subseteq> region mm x" "drm_buddy_block_is_split x \<longrightarrow> drm_buddy_block_order z < drm_buddy_block_order x"
        "leaf x \<longrightarrow> z = x"
      using leaf_below [OF assms(1,2) z(1) lf] by blast+
    have "slot mm start end n x"
      using z(4) l(1) unfolding slot_def Let_def by blast
    then have "visits mm start end n flags True x"
      using l(2,3) z(2,3) tree_okD(5) [OF assms(1,2)] states_exclude(1) [OF z(2)] states_exclude(3) [of x]
      by (auto simp: visits_def)
    then show False
      using assms(5) l(2,3) z(2,3) tree_okD(5) [OF assms(1,2)] by auto
  qed
  then have "region mm z \<subseteq> {s + block_bytes mm x ..< e}"
    using z(5) assms(3) by (auto simp: region_def)
  then show ?thesis
    using z(1-4) by (auto simp: room_def)
qed

lemma bias_loop_ok:
  assumes "buddy_inv X mm" "memory_ok mm" "chain mm stk s e"
  shows "alloc_range_bias_loop start end n flags fallback stk mm = Some (Inl ENOSPC, mm) \<and> (fallback \<longrightarrow> \<not> room mm start end n s e) \<or>
    (\<exists>b c mm'. alloc_range_bias_loop start end n flags fallback stk mm = Some (Inr c, mm') \<and> bias_found X start end n b mm c mm')"
  using assms(3)
proof (induction "stack_weight mm stk" arbitrary: stk s rule: less_induct)
  case less
  have ok: "tree_ok X mm"
    using assms(1) by (simp add: buddy_inv_def)
  show ?case
  proof (cases stk)
    case Nil
    have "\<not> room mm start end n s s"
      using chunk_dvd(4) [OF tree_okD2(1) [OF ok]] by (auto simp: room_def region_def)
    then show ?thesis
      using Nil less.prems by (subst (1) alloc_range_bias_loop.simps) simp
  next
    case (Cons b dfs)
    then obtain x where x: "slab mm b = Some x" "block_start x = s" "chain mm dfs (s + block_bytes mm x) e"
      using less.prems by auto
    have "stack_weight mm dfs < stack_weight mm stk"
      using x(1) Cons by (simp add: stack_weight_def)
    note IH = less.hyps [OF this x(3)] and rc = room_cons [OF ok x(1,2)]
    consider "\<not> visits mm start end n flags fallback x" | "visits mm start end n flags fallback x" "drm_buddy_block_is_free x"
      | "visits mm start end n flags fallback x" "drm_buddy_block_is_split x" "n = drm_buddy_block_order x"
      | "visits mm start end n flags fallback x" "drm_buddy_block_is_split x" "n \<noteq> drm_buddy_block_order x"
      using tree_okD(5) [OF ok x(1)] by (auto simp: visits_def leaf_def)
    then show ?thesis
    proof cases
      case 1
      then show ?thesis
        using bias_skip [OF ok x(1) 1] IH rc [of start "end" n e flags] Cons by auto
    next
      case 2
      then show ?thesis
        using bias_free [OF assms(1,2) x(1) 2(2,1)] Cons by blast
    next
      case 3
      then show ?thesis
        using bias_hit [OF ok x(1) 3(1,3)] states_exclude(3) [OF 3(2)] IH rc [of start "end" n e flags] Cons by auto
    next
      case 4
      obtain l r lb rb where k: "left x = Some l" "right x = Some r" "slab mm l = Some lb" "slab mm r = Some rb" "l \<noteq> r"
        "Suc (drm_buddy_block_order lb) = drm_buddy_block_order x" "Suc (drm_buddy_block_order rb) = drm_buddy_block_order x"
        "block_start lb = block_start x" "block_start rb = block_start x + block_bytes mm lb"
        "block_bytes mm lb + block_bytes mm rb = block_bytes mm x" "region mm lb \<union> region mm rb = region mm x"
        by (rule split_children [OF ok x(1) 4(2)])
      have c: "chain mm (l # r # dfs) s e"
        using x(2,3) k by (simp add: add.assoc)
      have "drm_buddy_block_order rb = drm_buddy_block_order lb"
        using k(6,7) by simp
      then have "stack_weight mm (l # r # dfs) < stack_weight mm stk"
        using x(1) k(3,4) Cons by (simp add: stack_weight_def flip: k(6))
      from less.hyps [OF this c] show ?thesis
        using bias_push [OF ok x(1) 4(1,3) _ x(1) k(1,2), of dfs] 4(2) Cons by simp
    qed
  qed
qed

lemma alloc_range_bias_ok:
  assumes "buddy_inv X mm" "memory_ok mm"
  shows "do_drm_buddy_alloc_range_bias start end n flags mm = Some (Inl ENOSPC, mm) \<and> \<not> room mm start (end - 1) n 0 (unat (mm_size mm)) \<or>
    (\<exists>b c mm'. do_drm_buddy_alloc_range_bias start end n flags mm = Some (Inr c, mm') \<and> bias_found X start (end - 1) n b mm c mm')"
proof -
  have "chain mm (roots mm) 0 (unat (mm_size mm))"
    using assms(1) tree_okD2(3) by (auto simp: buddy_inv_def)
  note b = bias_loop_ok [OF assms this, of start "end - 1" n flags]
  show ?thesis
    using b [of False] b [of True]
    by (auto simp: do_drm_buddy_alloc_range_bias_def do_alloc_range_bias_def)
qed

end
