(* ===== verification/Buddy_Merge.thy ===== *)
theory Buddy_Merge
  imports Buddy_Bias
begin

text \<open>
  The forced merge of \<^verbatim>\<open>__force_merge\<close>, which joins free buddies that differ in the clear flag.
\<close>

section \<open>What a forced merge keeps\<close>

definition kept :: "drm_buddy \<Rightarrow> drm_buddy \<Rightarrow> bool" where
  "kept mm mm' \<longleftrightarrow> same_shape mm mm' \<and> warned mm' = warned mm \<and> avail mm' = avail mm \<and>
     (\<forall>c z. drm_buddy_block_is_allocated z \<longrightarrow> (slab mm' c = Some z \<longleftrightarrow> slab mm c = Some z)) \<and>
     free_space mm' UNIV = free_space mm UNIV"

lemma kept_refl [simp]: "kept mm mm"
  by (simp add: kept_def)

lemma kept_trans: "kept a b \<Longrightarrow> kept b c \<Longrightarrow> kept a c"
  using same_shape_trans unfolding kept_def by auto

lemma restored_kept: "restored mm mm' \<Longrightarrow> kept mm mm'"
  by (simp add: restored_def kept_def)

section \<open>Merging one block\<close>

text \<open>A free block that is unlinked and no longer counted is ready to be freed again.\<close>

lemma unlink_ok:
  assumes "valid mm" "slab mm b = Some x" "drm_buddy_block_is_free x"
  obtains mm1 where "list_del b mm = Some mm1"
    "detached b (sub_clear_avail (drm_buddy_block_is_clear x) x mm1)"
    "merged {} (as_leaf b (sub_clear_avail (drm_buddy_block_is_clear x) x mm1))"
    "slab mm1 = slab mm" "same_shape mm mm1" "slab_next mm1 = slab_next mm" "avail mm1 = avail mm" "warned mm1 = warned mm"
    "clear_avail (sub_clear_avail (drm_buddy_block_is_clear x) x mm1) = clear_avail mm - clear_part mm x"
proof -
  note v = validD [OF assms(1)]
  define mm1 where "mm1 = mm\<lparr>free_list := map (remove1 b) (free_list mm)\<rparr>"
  note d = list_del_ok [OF v(2) assms(2,3) _ tree_okD(2) [OF v(1) assms(2)], simplified, folded mm1_def]
  define mm2 where "mm2 = sub_clear_avail (drm_buddy_block_is_clear x) x mm1"
  let ?mm = "as_leaf b mm2"
  have m: "slab mm2 = slab mm" "same_shape mm mm2" "slab_next mm2 = slab_next mm" "free_list mm2 = free_list mm1"
      "clear_avail mm2 = clear_avail mm - clear_part mm x"
    by (simp_all add: mm2_def mm1_def sub_clear_avail_def same_shape_def clear_part_def drm_buddy_block_size_def)
  have s: "slab ?mm = (slab mm)(b \<mapsto> with_state DRM_BUDDY_ALLOCATED x)" "same_shape mm ?mm"
    using assms(2) m(1,2) by (auto simp: as_leaf_def same_shape_def)
  have "tree_ok {} ?mm"
    by (rule tree_ok_leaf_update [OF v(1) assms(2), of "with_state DRM_BUDDY_ALLOCATED x"])
      (use assms(3) s m in \<open>auto simp: leaf_def same_block_def\<close>)
  moreover have "lists_ok {} ?mm"
    by (rule lists_ok_unlinked [OF d(2), of b "Some (with_state DRM_BUDDY_ALLOCATED x)"])
      (use s m in \<open>auto simp: mm1_def same_shape_def\<close>)
  ultimately have "detached b mm2"
    using m(1) assms(2) by (simp add: detached_def)
  moreover have "mergeable mm q" if "mergeable ?mm q" for q
    using that unfolding mergeable_def s(1) by (auto split: if_splits)
  then have "merged {} ?mm"
    using v(5) by (auto simp: merged_def)
  ultimately show ?thesis
    using that [of mm1] d(1) m(5) by (simp add: mm2_def mm1_def same_shape_def)
qed

lemma force_free_frame:
  assumes "detached b mm" "merged {} (as_leaf b mm)" "slab mm b = Some x" "parent x = Some p"
    and "do_get_buddy b mm = Some (Some y)" "slab mm y = Some yb" "drm_buddy_block_is_free yb"
    and "do_drm_buddy_free True b mm = Some (n, mm')" "slab mm c = Some z" "drm_buddy_block_order z \<le> drm_buddy_block_order x" "c \<notin> {b, y}"
  shows "slab mm' c = Some z"
proof -
  obtain pb y' yb' where k: "slab mm p = Some pb" "drm_buddy_block_is_split pb" "\<not> drm_buddy_block_is_clear pb"
      "do_get_buddy b mm = Some (Some y')" "slab mm y' = Some yb'" "y' \<noteq> b" "p \<noteq> b" "p \<noteq> y'" "parent yb' = Some p"
      "(left pb = Some b \<and> right pb = Some y') \<or> (left pb = Some y' \<and> right pb = Some b)"
      "drm_buddy_block_order yb' = drm_buddy_block_order x" "Suc (drm_buddy_block_order x) = drm_buddy_block_order pb"
      "region mm x \<union> region mm yb' = region mm pb"
    by (rule buddy_of [OF assms(1,3,4)])
  have e: "y' = y" "yb' = yb"
    using k(4,5) assms(5,6) by simp_all
  obtain mm2 where st: "merge_step True b x p y yb mm = Some mm2" "detached p mm2"
      "slab mm2 = (slab mm)(p \<mapsto> pb, b := None, y := None)" "slab_next mm2 = slab_next mm" "chunk_size mm2 = chunk_size mm"
    using merge_step_ok [OF assms(1,3,4) k(1-3,5-8) _ k(10), of True] assms(7) e by simp
  have "merged {} (as_leaf p mm2)"
    by (rule merge_step_merged(1) [OF assms(1,3,4) k(1-3) _ _ k(7) _ _ st(3-5) assms(2), unfolded e])
      (use k(5-8) assms(7) e in auto)
  from do_drm_buddy_free_ok [OF st(2) this, of True]
  obtain n' mm3 where f: "do_drm_buddy_free True p mm2 = Some (n', mm3)" "freed True p mm2 mm3"
    by blast
  have "do_drm_buddy_free True b mm = do_drm_buddy_free True p mm2"
    using merge_up_unfold [OF assms(3-6), of True] assms(7) st(1) by (simp add: do_drm_buddy_free_def)
  then have "mm3 = mm'"
    using f(1) assms(8) by simp
  have "c \<noteq> p"
    using assms(9,10) k(1,12) by auto
  then have "slab mm2 c = Some z" "slab mm2 p = Some pb"
    using st(3) assms(9,11) k(7,8) e by auto
  then show ?thesis
    using f(2) assms(10) k(12) \<open>mm3 = mm'\<close> unfolding freed_def by auto
qed

lemma force_merge_block:
  assumes "valid mm" "slab mm b = Some x" "drm_buddy_block_is_free x" "parent x = Some p"
    and "do_get_buddy b mm = Some (Some y)" "slab mm y = Some yb" "drm_buddy_block_is_free yb"
  obtains mm1 n mm' where "list_del b mm = Some mm1"
    "do_drm_buddy_free True b (sub_clear_avail (drm_buddy_block_is_clear x) x mm1) = Some (n, mm')" "valid mm'" "kept mm mm'"
    "\<And>c z. slab mm c = Some z \<Longrightarrow> drm_buddy_block_order z \<le> drm_buddy_block_order x \<Longrightarrow> c \<notin> {b, y} \<Longrightarrow> slab mm' c = Some z"
proof -
  obtain mm1 where m1: "list_del b mm = Some mm1"
    "detached b (sub_clear_avail (drm_buddy_block_is_clear x) x mm1)"
    "merged {} (as_leaf b (sub_clear_avail (drm_buddy_block_is_clear x) x mm1))"
    "slab mm1 = slab mm" "same_shape mm mm1" "slab_next mm1 = slab_next mm" "avail mm1 = avail mm" "warned mm1 = warned mm"
    "clear_avail (sub_clear_avail (drm_buddy_block_is_clear x) x mm1) = clear_avail mm - clear_part mm x"
    by (rule unlink_ok [OF assms(1-3)])
  define mm2 where "mm2 = sub_clear_avail (drm_buddy_block_is_clear x) x mm1"
  note d2 = m1(2,3) [folded mm2_def]
  have m2: "slab mm2 = slab mm" "same_shape mm mm2" "slab_next mm2 = slab_next mm" "avail mm2 = avail mm" "warned mm2 = warned mm"
      "clear_avail mm2 = clear_avail mm - clear_part mm x"
    using m1(4-9) by (auto simp: mm2_def sub_clear_avail_def same_shape_def)
  have s: "slab mm2 b = Some x" "slab mm2 y = Some yb" "do_get_buddy b mm2 = Some (Some y)"
    using m2(1) assms(2,4,5,6) by (simp_all add: do_get_buddy_def)
  obtain n mm' where f: "do_drm_buddy_free True b mm2 = Some (n, mm')" "tree_ok {} mm'" "lists_ok {} mm'" "merged {} mm'"
      "freed True b mm2 mm'"
    by (rule do_drm_buddy_free_ok [OF d2])
  note v = validD [OF assms(1)]
  have "\<not> merge_stop True b mm2"
    using s assms(4,7) by (auto simp: merge_stop_def)
  then have g: "same_shape mm2 mm'" "avail mm' = avail mm2" "warned mm' = warned mm2"
      "free_bytes mm' = free_bytes (as_leaf b mm2) + drm_buddy_block_size mm2 x"
      "clear_avail mm' - clear_bytes mm' = clear_avail mm2 - clear_bytes (as_leaf b mm2)"
      "free_space mm' UNIV = free_space (as_leaf b mm2) UNIV \<union> space_part mm2 x UNIV"
      "\<And>c z. drm_buddy_block_is_allocated z \<Longrightarrow> (slab mm2 c = Some z \<and> c \<noteq> b) = (slab mm' c = Some z)"
    using f(5) s(1) unfolding freed_def by auto
  have l: "slab (as_leaf b mm2) = (slab mm)(b \<mapsto> with_state DRM_BUDDY_ALLOCATED x)" "same_shape mm (as_leaf b mm2)"
    using assms(2) m2(1,2) by (auto simp: as_leaf_def same_shape_def)
  have bytes: "free_bytes (as_leaf b mm2) = free_bytes mm - drm_buddy_block_size mm x"
      "clear_bytes (as_leaf b mm2) = clear_bytes mm - clear_part mm x"
    using bytes_update [OF l(1) tree_okD(1) [OF v(1) assms(2)]] m2(3) l(2) assms(2,3)
    by (auto simp: free_size_def clear_size_def clear_part_def same_shape_def)
  have sz: "drm_buddy_block_size mm2 = drm_buddy_block_size mm" "region (as_leaf b mm2) = region mm" "region mm2 = region mm"
    using same_shape_eqs [OF m2(2)] same_shape_eqs [OF l(2)] by simp_all
  have sp: "free_space mm UNIV = free_space (as_leaf b mm2) UNIV \<union> region mm x"
    using free_space_drop [OF l(1) sz(2), of UNIV] assms(2,3) by (simp add: free_part_def)
  have "valid mm'"
    using f(2-4) g(2,4,5) m2(4,6) bytes v(3,4) sz(1) by (simp add: valid_def buddy_inv_def counters_ok_def)
  moreover have "slab mm' c = Some z \<longleftrightarrow> slab mm c = Some z" if a: "drm_buddy_block_is_allocated z" for c z
    using g(7) [OF a, of c] m2(1) assms(2,3) states_exclude(2) [OF a] by auto
  then have "kept mm mm'"
    using g(1-3,6) m2(2,4,5) sp sz(3) same_shape_trans by (auto simp: kept_def space_part_def)
  moreover have "slab mm' c = Some z" if "slab mm c = Some z" "drm_buddy_block_order z \<le> drm_buddy_block_order x" "c \<notin> {b, y}" for c z
    by (rule force_free_frame [OF d2 s(1) assms(4) s(3,2) assms(7) f(1)]) (use that m2(1) in auto)
  ultimately show ?thesis
    using that [OF m1(1)] f(1) unfolding mm2_def by blast
qed

section \<open>The loop over a free list\<close>

lemma list_prev_sorted:
  fixes f :: "nat \<Rightarrow> nat"
  assumes "sorted_wrt (\<lambda>a b. f a < f b) fl" "list_prev b fl = Some a"
  shows "a \<in> set fl" "f a < f b"
proof -
  have "a \<in> set fl \<and> f a < f b"
    using assms by (induction b fl rule: list_prev.induct) (auto split: if_splits)
  then show "a \<in> set fl" "f a < f b"
    by simp_all
qed

lemma free_list_increasing:
  assumes "tree_ok X mm" "lists_ok {} mm" "i \<le> max_order mm"
  shows "sorted_wrt (\<lambda>a b. block_start (the (slab mm a)) < block_start (the (slab mm b))) (free_list mm ! i)"
proof -
  let ?fl = "free_list mm ! i" and ?s = "\<lambda>a. block_start (the (slab mm a))"
  note l = lists_okD [OF assms(2,3)]
  have off: "unat (offset_of mm a) = ?s a" if a: "a \<in> set ?fl" for a
    by (rule free_list_entry [OF assms(2,3) a]) (simp add: offset_of_def block_start_def)
  have ne: "?s a \<noteq> ?s b" if ab: "a \<in> set ?fl" "b \<in> set ?fl" "a \<noteq> b" for a b
  proof -
    obtain x where x: "slab mm a = Some x" "drm_buddy_block_is_free x" "drm_buddy_block_order x = i"
      by (rule free_list_entry [OF assms(2,3) ab(1)])
    obtain y where y: "slab mm b = Some y" "drm_buddy_block_is_free y" "drm_buddy_block_order y = i"
      by (rule free_list_entry [OF assms(2,3) ab(2)])
    have "region mm x \<inter> region mm y = {}"
      using leaves_disjoint [OF assms(1) x(1) _ y(1) _ ab(3)] x(2) y(2) by (simp add: leaf_def)
    then show ?thesis
      using chunk_dvd(4) [OF tree_okD2(1) [OF assms(1)], of x] chunk_dvd(4) [OF tree_okD2(1) [OF assms(1)], of y] x(1) y(1)
      by (auto simp: region_def)
  qed
  have "sorted_wrt (\<lambda>a b. offset_of mm a \<le> offset_of mm b \<and> a \<noteq> b) ?fl"
    using l(2,3) by (simp add: sorted_wrt_iff_nth_less sorted_map distinct_conv_nth)
  then show ?thesis
    by (rule sorted_wrt_mono_rel [rotated]) (use off ne in \<open>fastforce simp: word_le_nat_alt\<close>)
qed

lemma buddy_of_child:
  assumes "tree_ok {} mm" "slab mm b = Some x" "parent x = Some p"
  obtains y yb pb where "do_get_buddy b mm = Some (Some y)" "slab mm y = Some yb" "y \<noteq> b" "slab mm p = Some pb"
    "drm_buddy_block_is_split pb" "(left pb = Some b \<and> right pb = Some y) \<or> (left pb = Some y \<and> right pb = Some b)"
proof -
  obtain pb where pb: "slab mm p = Some pb" "drm_buddy_block_is_split pb" "Some b \<in> {left pb, right pb}"
    using tree_okD(7) [OF assms] by blast
  obtain l r lb rb where k: "left pb = Some l" "right pb = Some r" "l \<noteq> r" "slab mm l = Some lb" "slab mm r = Some rb"
    by (rule children_of [OF assms(1) pb(1,2)])
  show ?thesis
    using that [of "if l = b then r else l"] assms(2,3) pb k by (auto simp: do_get_buddy_def split: if_splits)
qed

lemma free_buddies_differ:
  assumes "merged {} mm" "slab mm p = Some pb" "drm_buddy_block_is_split pb"
    "(left pb = Some b \<and> right pb = Some y) \<or> (left pb = Some y \<and> right pb = Some b)"
    "slab mm b = Some x" "slab mm y = Some yb" "drm_buddy_block_is_free x" "drm_buddy_block_is_free yb"
  shows "drm_buddy_block_is_clear x \<noteq> drm_buddy_block_is_clear yb"
  using assms unfolding merged_def mergeable_def by (metis empty_iff)

definition pos_start :: "drm_buddy \<Rightarrow> nat option \<Rightarrow> nat" where
  "pos_start mm pos = (case pos of None \<Rightarrow> 0 | Some b \<Rightarrow> Suc (block_start (the (slab mm b))))"

lemma force_merge_list_step:
  assumes v: "valid mm" and i: "i \<le> max_order mm" and b: "b \<in> set (free_list mm ! i)"
    and IH: "\<And>pos mm'. valid mm' \<Longrightarrow> kept mm mm' \<Longrightarrow> pos_start mm' pos < pos_start mm (Some b) \<Longrightarrow>
      (\<forall>c. pos = Some c \<longrightarrow> c \<in> set (free_list mm' ! i)) \<Longrightarrow>
      \<exists>d mm''. force_merge_list start end min_order i pos mm' = Some (d, mm'') \<and> valid mm'' \<and> kept mm' mm''"
  shows "\<exists>d mm'. force_merge_list start end min_order i (Some b) mm = Some (d, mm') \<and> valid mm' \<and> kept mm mm'"
proof -
  note ok = validD [OF v]
  let ?fl = "free_list mm ! i" and ?s = "\<lambda>a. block_start (the (slab mm a))"
  define prev where "prev = list_prev b ?fl"
  note inc = free_list_increasing [OF ok(1,2) i]
  have len: "i < length (free_list mm)"
    using lists_okD(1) [OF ok(2) i] .
  have pl: "a \<in> set ?fl \<and> ?s a < ?s c" if "list_prev c ?fl = Some a" for a c
    using list_prev_sorted [OF inc that] by simp
  have skip: "\<exists>d mm'. force_merge_list start end min_order i prev mm = Some (d, mm') \<and> valid mm' \<and> kept mm mm'"
    by (rule IH [OF v kept_refl]) (use pl [of b] in \<open>auto simp: prev_def pos_start_def split: option.split\<close>)
  obtain x where x: "slab mm b = Some x" "drm_buddy_block_is_free x" "drm_buddy_block_order x = i"
    by (rule free_list_entry [OF ok(2) i b])
  show ?thesis
  proof (cases "parent x = None \<or> \<not> contains start end (drm_buddy_block_offset x) (block_last mm x)")
    case True
    then have "force_merge_list start end min_order i (Some b) mm = force_merge_list start end min_order i prev mm"
      using x(1) b len
      by (subst force_merge_list.simps) (cases "parent x", auto simp: prev_def Let_def block_last_def)
    then show ?thesis
      using skip by simp
  next
    case False
    then obtain p where p: "parent x = Some p"
      by auto
    obtain y yb pb where y: "do_get_buddy b mm = Some (Some y)" "slab mm y = Some yb" "y \<noteq> b" "slab mm p = Some pb"
      "drm_buddy_block_is_split pb" "(left pb = Some b \<and> right pb = Some y) \<or> (left pb = Some y \<and> right pb = Some b)"
      by (rule buddy_of_child [OF ok(1) x(1) p])
    show ?thesis
    proof (cases "drm_buddy_block_is_free yb")
      case nf: False
      then have "force_merge_list start end min_order i (Some b) mm = force_merge_list start end min_order i prev mm"
        using x(1) b len y(1,2) False p
        by (subst force_merge_list.simps) (auto simp: prev_def Let_def block_last_def)
      then show ?thesis
        using skip by simp
    next
      case True
      have cl: "drm_buddy_block_is_clear x \<noteq> drm_buddy_block_is_clear yb"
        by (rule free_buddies_differ [OF ok(5) y(4-6) x(1) y(2) x(2) True])
      define prev' where "prev' = (if prev = Some y then list_prev y ?fl else prev)"
      obtain mm1 n mm2 where m: "list_del b mm = Some mm1"
          "do_drm_buddy_free True b (sub_clear_avail (drm_buddy_block_is_clear x) x mm1) = Some (n, mm2)" "valid mm2" "kept mm mm2"
          "\<And>c z. slab mm c = Some z \<Longrightarrow> drm_buddy_block_order z \<le> drm_buddy_block_order x \<Longrightarrow> c \<notin> {b, y} \<Longrightarrow> slab mm2 c = Some z"
        by (rule force_merge_block [OF v x(1,2) p y(1,2) True]) blast
      have e: "force_merge_list start end min_order i (Some b) mm =
          (if min_order \<le> n then Some (True, mm2) else force_merge_list start end min_order i prev' mm2)"
        using x(1) b len y(1,2) False p True cl m(1,2)
        by (subst force_merge_list.simps) (auto simp: prev_def prev'_def Let_def block_last_def warn_on_def)
      have pr: "a \<in> set (free_list mm2 ! i) \<and> slab mm2 a = slab mm a \<and> ?s a < ?s b" if a: "prev' = Some a" for a
      proof -
        have "a \<in> set ?fl \<and> ?s a < ?s b \<and> a \<noteq> y"
          using a pl [of b] pl [of y] by (auto simp: prev'_def prev_def split: if_splits)
        moreover from this obtain z where z: "slab mm a = Some z" "drm_buddy_block_is_free z" "drm_buddy_block_order z = i"
          using free_list_entry [OF ok(2) i] by blast
        moreover have "a \<noteq> b"
          using calculation(1) by auto
        ultimately have "slab mm2 a = Some z"
          using m(5) [OF z(1)] x(3) by auto
        moreover have "i \<le> max_order mm2"
          using i m(4) by (simp add: kept_def same_shape_def)
        ultimately show ?thesis
          using lists_okD(4) [OF validD(2) [OF m(3)]] z \<open>a \<in> set ?fl \<and> ?s a < ?s b \<and> a \<noteq> y\<close> by (auto simp: free_of_order_def)
      qed
      have "\<exists>d mm'. force_merge_list start end min_order i prev' mm2 = Some (d, mm') \<and> valid mm' \<and> kept mm2 mm'"
        by (rule IH [OF m(3,4)]) (use pr in \<open>auto simp: pos_start_def split: option.split\<close>)
      then show ?thesis
        using e m(3,4) kept_trans by (cases "min_order \<le> n") auto
    qed
  qed
qed

lemma force_merge_list_ok:
  assumes "valid mm" "i \<le> max_order mm" "\<forall>b. pos = Some b \<longrightarrow> b \<in> set (free_list mm ! i)"
  shows "\<exists>d mm'. force_merge_list start end min_order i pos mm = Some (d, mm') \<and> valid mm' \<and> kept mm mm'"
  using assms
proof (induction "pos_start mm pos" arbitrary: pos mm rule: less_induct)
  case less
  show ?case
  proof (cases pos)
    case None
    then show ?thesis
      using less.prems(1) by (subst force_merge_list.simps) auto
  next
    case (Some b)
    have "i \<le> max_order mm'" if "kept mm mm'" for mm'
      using that less.prems(2) by (simp add: kept_def same_shape_def)
    then show ?thesis
      unfolding Some using less.hyps less.prems(3) Some
      by (intro force_merge_list_step [OF less.prems(1,2)]) blast+
  qed
qed

lemma force_merge_orders_ok:
  assumes "valid mm" "n \<le> Suc (max_order mm)"
  shows "\<exists>err mm'. force_merge_orders start end min_order n mm = Some (err, mm') \<and> valid mm' \<and> kept mm mm'"
  using assms
proof (induction n arbitrary: mm)
  case (Suc n)
  have "\<forall>b. list_last (free_list mm ! n) = Some b \<longrightarrow> b \<in> set (free_list mm ! n)"
    by (simp add: list_last_def)
  then obtain d mm1 where 1: "force_merge_list start end min_order n (list_last (free_list mm ! n)) mm = Some (d, mm1)"
      "valid mm1" "kept mm mm1"
    using force_merge_list_ok [OF Suc.prems(1), of n "list_last (free_list mm ! n)"] Suc.prems(2) by blast
  moreover have "n \<le> Suc (max_order mm1)"
    using Suc.prems(2) 1(3) by (simp add: kept_def same_shape_def)
  ultimately show ?case
    using Suc.IH [of mm1] kept_trans by (cases d) auto
qed simp

lemma do_force_merge_ok:
  assumes "valid mm"
  obtains err mm' where "do_force_merge start end n mm = Some (err, mm')" "valid mm'" "kept mm mm'"
proof (cases "n = 0 \<or> max_order mm < n")
  case True
  then have "do_force_merge start end n mm = Some (if n = 0 then ENOMEM else EINVAL, mm)"
    by (auto simp: do_force_merge_def)
  then show ?thesis
    using that assms kept_refl by blast
next
  case False
  then show ?thesis
    using that force_merge_orders_ok [OF assms, of n start "end" n] by (auto simp: do_force_merge_def)
qed

end
