(* ===== verification/Buddy_Take.thy ===== *)
theory Buddy_Take
  imports Buddy_Merge
begin

text \<open>
  The loops of \<^verbatim>\<open>drm_buddy_alloc_blocks\<close>: blocks of falling orders are found and claimed until the request is met.
\<close>

section \<open>What an allocation does for the caller\<close>

text \<open>
  From \<open>mm\<close> to \<open>mm'\<close> the blocks \<open>bs\<close> were taken. Unlike \<open>claims\<close> this also covers forced merges.
\<close>

definition taken :: "nat list \<Rightarrow> drm_buddy \<Rightarrow> drm_buddy \<Rightarrow> bool" where
  "taken bs mm mm' \<longleftrightarrow> same_shape mm mm' \<and> warned mm' = warned mm \<and> distinct bs \<and> (\<forall>b \<in> set bs. is_allocated mm' b) \<and>
     (\<forall>c z. drm_buddy_block_is_allocated z \<longrightarrow> (slab mm c = Some z \<longleftrightarrow> slab mm' c = Some z \<and> c \<notin> set bs)) \<and>
     avail mm = avail mm' + total_size mm' bs \<and>
     free_space mm UNIV = free_space mm' UNIV \<union> (\<Union>b \<in> set bs. region_of mm' b)"

lemma takenD:
  assumes "taken bs mm mm'"
  shows "same_shape mm mm'" "warned mm' = warned mm" "distinct bs" "\<And>b. b \<in> set bs \<Longrightarrow> is_allocated mm' b"
    "\<And>c z. drm_buddy_block_is_allocated z \<Longrightarrow> slab mm c = Some z \<longleftrightarrow> slab mm' c = Some z \<and> c \<notin> set bs"
    "avail mm = avail mm' + total_size mm' bs" "free_space mm UNIV = free_space mm' UNIV \<union> (\<Union>b \<in> set bs. region_of mm' b)"
  using assms unfolding taken_def by blast+

lemma kept_taken: "kept mm mm' \<Longrightarrow> taken [] mm mm'"
  by (auto simp: kept_def taken_def)

lemma claims_taken:
  assumes "claims T S bs mm mm'"
  shows "taken bs mm mm'"
proof -
  note c = claimsD [OF assms] and r = releasedD [OF claimsD(1) [OF assms]]
  have "(\<Sum>b \<in> set bs. drm_buddy_block_size mm' (the (slab mm' b))) = total_size mm' bs"
    using c(2) by (simp add: total_size_def sum_list_distinct_conv_sum_set)
  then have "avail mm = avail mm' + total_size mm' bs"
    using r(4) by simp
  then show ?thesis
    using c(2,4) r(2,3) claims_shape [OF assms] claims_space [OF assms] by (auto simp: taken_def)
qed

lemma taken_views:
  assumes "taken cs mm mm'" "\<forall>b \<in> set bs. is_allocated mm b"
  shows "total_size mm' bs = total_size mm bs" "\<And>b. b \<in> set bs \<Longrightarrow> region_of mm' b = region_of mm b"
    "\<And>b. b \<in> set bs \<Longrightarrow> slab mm' b = slab mm b"
proof -
  note t = takenD [OF assms(1)]
  show k: "slab mm' b = slab mm b" if "b \<in> set bs" for b
    using that assms(2) t(5) by (fastforce simp: is_allocated_def)
  note e = same_shape_eqs [OF t(1)]
  show "total_size mm' bs = total_size mm bs"
    unfolding total_size_def by (rule arg_cong [of _ _ sum_list], rule map_cong) (simp_all add: k e)
  show "region_of mm' b = region_of mm b" if "b \<in> set bs" for b
    using k [OF that] e by (simp add: region_of_def split: option.split)
qed

lemma taken_trans:
  assumes "taken bs mm mm1" "taken cs mm1 mm'"
  shows "taken (bs @ cs) mm mm'"
proof -
  note 1 = takenD [OF assms(1)] and 2 = takenD [OF assms(2)]
  have al: "\<forall>b \<in> set bs. is_allocated mm1 b"
    using 1(4) by blast
  note k = taken_views [OF assms(2) al]
  have b: "is_allocated mm' b \<and> b \<notin> set cs" if "b \<in> set bs" for b
    using al that 2(5) unfolding is_allocated_def by blast
  show ?thesis
    unfolding taken_def
  proof (intro conjI allI impI ballI)
    show "same_shape mm mm'" "warned mm' = warned mm" "distinct (bs @ cs)"
      using same_shape_trans [OF 1(1) 2(1)] 1(2,3) 2(2,3) b by auto
    show "is_allocated mm' c" if "c \<in> set (bs @ cs)" for c
      using that b 2(4) by auto
    show "slab mm c = Some z \<longleftrightarrow> slab mm' c = Some z \<and> c \<notin> set (bs @ cs)" if "drm_buddy_block_is_allocated z" for c z
      using 1(5) [OF that, of c] 2(5) [OF that, of c] by auto
    show "avail mm = avail mm' + total_size mm' (bs @ cs)"
      using 1(6) 2(6) k(1) by simp
    show "free_space mm UNIV = free_space mm' UNIV \<union> (\<Union>b \<in> set (bs @ cs). region_of mm' b)"
      using 1(7) 2(7) k(2) by auto
  qed
qed

lemma taken_released:
  assumes "taken bs mm mm1" "released (set bs) fl mm1 mm'"
  shows "kept mm mm'"
proof -
  note t = takenD [OF assms(1)] and r = releasedD [OF assms(2)]
  have "(\<Sum>b \<in> set bs. drm_buddy_block_size mm1 (the (slab mm1 b))) = total_size mm1 bs"
    using t(3) by (simp add: total_size_def sum_list_distinct_conv_sum_set)
  moreover have "region mm1 (the (slab mm1 b)) = region_of mm1 b" if "b \<in> set bs" for b
    using t(4) [OF that] by (auto simp: is_allocated_def region_of_def)
  ultimately show ?thesis
    using r(1-4) r(5) [of UNIV] t same_shape_trans by (auto simp: kept_def)
qed

lemma undo_taken:
  assumes "valid mm1" "taken bs mm mm1"
  obtains mm' where "drm_buddy_free_list_internal bs mm1 = Some mm'" "valid mm'" "kept mm mm'"
proof -
  have al: "\<forall>b \<in> set bs. is_allocated mm1 b"
    using takenD(4) [OF assms(2)] by blast
  show ?thesis
    by (rule free_list_internal_ok [OF assms(1) takenD(3) [OF assms(2)] al]) (use that taken_released [OF assms(2)] in blast)
qed

section \<open>Finding one block\<close>

definition in_range :: "u64 \<Rightarrow> u64 \<Rightarrow> u64 \<Rightarrow> nat set \<Rightarrow> bool" where
  "in_range start end flags A \<longleftrightarrow> (flags AND DRM_BUDDY_RANGE_ALLOCATION \<noteq> 0 \<longrightarrow> A \<subseteq> rng start (end - 1))"

lemma alloc_one_ok:
  assumes "buddy_inv X mm" "memory_ok mm"
  shows "do_drm_buddy_alloc_blocks start end n flags mm = Some (Inl ENOSPC, mm) \<or>
    (\<exists>b c mm'. do_drm_buddy_alloc_blocks start end n flags mm = Some (Inr c, mm') \<and> found X n b mm c mm' \<and>
       in_range start end flags (region_of mm' c))"
  using alloc_range_bias_ok [OF assms, of start "end" n flags] alloc_from_freelist_ok [OF assms, of n flags]
  by (auto simp: do_drm_buddy_alloc_blocks_def in_range_def bias_found_def)

text \<open>The block \<open>c\<close> of order \<open>n\<close> is found, possibly after a forced merge.\<close>

definition ready :: "u64 \<Rightarrow> u64 \<Rightarrow> u64 \<Rightarrow> nat \<Rightarrow> drm_buddy \<Rightarrow> nat \<Rightarrow> drm_buddy \<Rightarrow> bool" where
  "ready start end flags n mm c mm' \<longleftrightarrow> (\<exists>b mm1. valid mm1 \<and> kept mm mm1 \<and> found {} n b mm1 c mm' \<and>
     in_range start end flags (region_of mm' c))"

lemma readyI:
  "valid mm1 \<Longrightarrow> kept mm mm1 \<Longrightarrow> found {} n b mm1 c mm' \<Longrightarrow> in_range start end flags (region_of mm' c) \<Longrightarrow>
    ready start end flags n mm c mm'"
  unfolding ready_def by blast

lemma alloc_after_merge_ok:
  assumes "valid mm" "memory_ok mm"
  shows "\<exists>r mm'. alloc_after_merge start end n flags mm = Some (r, mm') \<and>
    (case r of None \<Rightarrow> valid mm' \<and> kept mm mm' | Some (c, m) \<Rightarrow> m = n \<and> ready start end flags n mm c mm')"
proof -
  obtain err mm1 where 1: "(if clear_avail mm \<noteq> 0 then do_force_merge start end n mm else Some (ENOMEM, mm)) = Some (err, mm1)"
      "valid mm1" "kept mm mm1"
  proof (cases "clear_avail mm = 0")
    case True
    then show ?thesis
      using that [of ENOMEM mm] assms(1) by simp
  next
    case False
    show ?thesis
      by (rule do_force_merge_ok [OF assms(1), of start "end" n]) (use that False in auto)
  qed
  have "memory_ok mm1" "buddy_inv {} mm1"
    using 1(2,3) assms(2) by (simp_all add: kept_def same_shape_def memory_ok_def valid_def)
  from alloc_one_ok [OF this(2,1), of start "end" n flags] show ?thesis
    using 1 by (auto simp: alloc_after_merge_def intro: readyI)
qed

definition orders_result :: "u64 \<Rightarrow> u64 \<Rightarrow> nat \<Rightarrow> u64 \<Rightarrow> nat \<Rightarrow> drm_buddy \<Rightarrow> (nat \<times> nat) option \<Rightarrow> drm_buddy \<Rightarrow> bool" where
  "orders_result start end m flags n mm r mm' \<longleftrightarrow>
     (case r of None \<Rightarrow> valid mm' \<and> kept mm mm' | Some (c, k) \<Rightarrow> m \<le> k \<and> k \<le> n \<and> ready start end flags k mm c mm')"

declare alloc_orders.simps [simp del]

lemma alloc_orders_step:
  assumes "valid mm" "memory_ok mm" "m \<le> n"
    and "(if n = m then alloc_after_merge start end m flags mm
      else case n of 0 \<Rightarrow> None | Suc k \<Rightarrow> alloc_orders start end m flags k mm) = Some (r, mm')"
    and "orders_result start end m flags n mm r mm'"
  shows "\<exists>r mm'. alloc_orders start end m flags n mm = Some (r, mm') \<and> orders_result start end m flags n mm r mm'"
proof -
  have inv: "buddy_inv {} mm"
    using assms(1) by (simp add: valid_def)
  show ?thesis
    using alloc_one_ok [OF inv assms(2), of start "end" n flags]
  proof (elim disjE exE conjE)
    assume "do_drm_buddy_alloc_blocks start end n flags mm = Some (Inl ENOSPC, mm)"
    then have "alloc_orders start end m flags n mm = Some (r, mm')"
      using assms(4) by (subst alloc_orders.simps) simp
    then show ?thesis
      using assms(5) by blast
  next
    fix b c mm2
    assume a: "do_drm_buddy_alloc_blocks start end n flags mm = Some (Inr c, mm2)" "found {} n b mm c mm2"
      "in_range start end flags (region_of mm2 c)"
    then have "alloc_orders start end m flags n mm = Some (Some (c, n), mm2)"
      by (subst alloc_orders.simps) simp
    moreover have "ready start end flags n mm c mm2"
      by (rule readyI [OF assms(1) kept_refl a(2,3)])
    ultimately show ?thesis
      using assms(3) by (fastforce simp: orders_result_def)
  qed
qed

lemma alloc_orders_ok:
  assumes "valid mm" "memory_ok mm" "m \<le> n"
  shows "\<exists>r mm'. alloc_orders start end m flags n mm = Some (r, mm') \<and> orders_result start end m flags n mm r mm'"
  using assms(3)
proof (induction n)
  case n: 0
  obtain r mm' where "alloc_after_merge start end m flags mm = Some (r, mm')"
      "case r of None \<Rightarrow> valid mm' \<and> kept mm mm' | Some (c, k) \<Rightarrow> k = m \<and> ready start end flags m mm c mm'"
    using alloc_after_merge_ok [OF assms(1,2)] by blast
  then show ?case
    using n by (intro alloc_orders_step [OF assms(1,2) n]) (auto simp: orders_result_def split: option.splits)
next
  case (Suc n)
  show ?case
  proof (cases "m = Suc n")
    case True
    obtain r mm' where "alloc_after_merge start end m flags mm = Some (r, mm')"
        "case r of None \<Rightarrow> valid mm' \<and> kept mm mm' | Some (c, k) \<Rightarrow> k = m \<and> ready start end flags m mm c mm'"
      using alloc_after_merge_ok [OF assms(1,2)] by blast
    then show ?thesis
      using True by (intro alloc_orders_step [OF assms(1,2)]) (auto simp: orders_result_def split: option.splits)
  next
    case False
    then obtain r mm' where "alloc_orders start end m flags n mm = Some (r, mm')" "orders_result start end m flags n mm r mm'"
      using Suc by auto
    then show ?thesis
      using False Suc.prems by (intro alloc_orders_step [OF assms(1,2)]) (auto simp: orders_result_def split: option.splits)
  qed
qed

section \<open>Taking pages\<close>

lemma ready_claim:
  assumes "ready start end flags n mm c mm1"
  obtains mm' where "claim_block c mm1 = Some mm'" "valid mm'" "taken [c] mm mm'" "in_range start end flags (region_of mm' c)"
    "\<exists>x. slab mm' c = Some x \<and> drm_buddy_block_order x = n"
proof -
  obtain b mm0 where r: "valid mm0" "kept mm mm0" "found {} n b mm0 c mm1" "in_range start end flags (region_of mm1 c)"
    using assms by (auto simp: ready_def)
  obtain x mm' where m: "slab mm1 c = Some x" "drm_buddy_block_is_free x" "drm_buddy_block_order x = n"
      "claim_block c mm1 = Some mm'" "buddy_inv {} mm'" "claims UNIV {} [c] mm0 mm'"
      "slab mm' = (slab mm1)(c \<mapsto> with_state DRM_BUDDY_ALLOCATED x)"
    by (rule found_claim [OF r(3)])
  have "same_shape mm0 mm1" "same_shape mm0 mm'"
    using r(3) claims_shape m(6) by (auto simp: found_def)
  then have "region mm' = region mm1"
    using same_shape_eqs(2) by metis
  then have "region_of mm' c = region_of mm1 c"
    using m(1,7) by (simp add: region_of_def region_def block_start_def block_bytes_def)
  then show ?thesis
    using that [OF m(4) claims_valid [OF r(1) m(6,5)]] taken_trans [OF kept_taken [OF r(2)] claims_taken [OF m(6)]] r(4) m(3,7)
    by simp
qed

lemma alloc_pages_unfold:
  "alloc_pages_loop start end m flags n pages allocated mm =
     (let n = min n (order_of_pages pages) in
      if max_order mm < n \<or> n < m then None
      else do { (found, mm) \<leftarrow> alloc_orders start end m flags n mm;
                case found of None \<Rightarrow> Some (False, allocated, mm)
                | Some (b, k) \<Rightarrow>
                    do { mm \<leftarrow> claim_block b mm;
                         if pages - BIT k = 0 then Some (True, allocated @ [b], mm)
                         else alloc_pages_loop start end m flags k (pages - BIT k) (allocated @ [b]) mm } })"
  by (subst alloc_pages_loop.simps) (auto simp: claim_block_def Let_def intro!: bind_option_cong split: option.split)

lemma order_of_pages_bounds:
  assumes "0 < unat pages" "unat pages < 2 ^ 32"
  shows "2 ^ order_of_pages pages \<le> unat pages" "unat pages < 2 ^ Suc (order_of_pages pages)"
proof -
  let ?p = "ucast pages :: u32"
  have u: "unat ?p = unat pages"
    using assms(2) by (simp add: unsigned_ucast_eq take_bit_nat_eq_self)
  then have "?p \<noteq> 0"
    using assms(1) by auto
  then have e: "order_of_pages pages = floorlog 2 (unat pages) - 1"
    by (simp add: order_of_pages_def fls_def u)
  have "0 < floorlog 2 (unat pages)"
    using floorlog_eq_zero_iff [of 2 "unat pages"] assms(1) by linarith
  then show "2 ^ order_of_pages pages \<le> unat pages" "unat pages < 2 ^ Suc (order_of_pages pages)"
    using floorlog_bounds [of "unat pages" 2] assms(1) by (simp_all add: e)
qed

definition pages_result :: "u64 \<Rightarrow> u64 \<Rightarrow> nat \<Rightarrow> u64 \<Rightarrow> u64 \<Rightarrow> drm_buddy \<Rightarrow> bool \<Rightarrow> nat list \<Rightarrow> drm_buddy \<Rightarrow> bool" where
  "pages_result start end m flags pages mm ok bs mm' \<longleftrightarrow> valid mm' \<and> taken bs mm mm' \<and>
     (\<forall>b \<in> set bs. in_range start end flags (region_of mm' b) \<and> (\<exists>x. slab mm' b = Some x \<and> m \<le> drm_buddy_block_order x)) \<and>
     (ok \<longrightarrow> bs \<noteq> [] \<and> total_size mm' bs = chunk_size mm * pages) \<and>
     (length bs + (if ok then 0 else 1)) * 2 ^ m \<le> unat pages"

lemma pages_result_cons:
  assumes "taken [c] mm mm1" "in_range start end flags (region_of mm1 c)" "slab mm1 c = Some x" "drm_buddy_block_order x = k" "m \<le> k"
    and "pages_result start end m flags (pages - BIT k) mm1 ok bs mm'" "2 ^ k \<le> unat pages" "k < 64"
  shows "pages_result start end m flags pages mm ok (c # bs) mm'"
proof -
  note r = assms(6) [unfolded pages_result_def]
  have t: "taken (c # bs) mm mm'"
    using taken_trans [OF assms(1)] r by fastforce
  have al: "\<forall>b \<in> set [c]. is_allocated mm1 b"
    using takenD(4) [OF assms(1)] by simp
  have k: "total_size mm' [c] = total_size mm1 [c]" "region_of mm' c = region_of mm1 c" "slab mm' c = slab mm1 c"
    using taken_views [OF _ al, of bs mm'] r by auto
  have ch: "chunk_size mm1 = chunk_size mm"
    using takenD(1) [OF assms(1)] by (simp add: same_shape_def)
  have u: "unat (pages - BIT k) = unat pages - 2 ^ k"
    using assms(7) unat_pow2 [OF assms(8)] by (simp add: BIT_def unat_sub word_le_nat_alt)
  have "total_size mm' [c] = chunk_size mm * BIT k"
    unfolding k(1) using assms(3,4) ch by (simp add: drm_buddy_block_size_def BIT_def push_bit_eq_mult)
  then have "total_size mm' (c # bs) = chunk_size mm * pages" if "total_size mm' bs = chunk_size mm1 * (pages - BIT k)"
    using that ch by (simp add: algebra_simps)
  moreover have "(Suc (length bs) + (if ok then 0 else 1)) * 2 ^ m \<le> unat pages"
  proof -
    have "(2 :: nat) ^ m \<le> 2 ^ k"
      using assms(5) by simp
    moreover have "(length bs + (if ok then 0 else 1)) * 2 ^ m \<le> unat pages - 2 ^ k"
      using r u by simp
    moreover have "(Suc (length bs) + (if ok then 0 else 1)) * 2 ^ m = (length bs + (if ok then 0 else 1)) * 2 ^ m + 2 ^ m"
      by (simp add: algebra_simps)
    ultimately show ?thesis
      using assms(7) by linarith
  qed
  ultimately show ?thesis
    using r t assms(2-5) k(2,3) unfolding pages_result_def by auto
qed

lemma pages_done:
  assumes "taken [c] mm mm1" "valid mm1" "in_range start end flags (region_of mm1 c)" "slab mm1 c = Some x"
    and "drm_buddy_block_order x = k" "m \<le> k" "pages = BIT k" "k < 64"
  shows "pages_result start end m flags pages mm True [c] mm1"
proof -
  have "chunk_size mm1 = chunk_size mm"
    using takenD(1) [OF assms(1)] by (simp add: same_shape_def)
  then show ?thesis
    using assms unat_pow2 [OF assms(8)]
    by (simp add: pages_result_def drm_buddy_block_size_def BIT_def push_bit_eq_mult)
qed

text \<open>One iteration: the loop gives up, or takes a block and goes on with the rest.\<close>

lemma alloc_pages_step:
  assumes "valid mm" "memory_ok mm" "0 < unat pages" "unat pages < 2 ^ 32" "2 ^ m dvd unat pages" "m \<le> n"
    "min n (order_of_pages pages) \<le> max_order mm"
  obtains (stop) mm1 where "alloc_orders start end m flags (min n (order_of_pages pages)) mm = Some (None, mm1)"
      "alloc_pages_loop start end m flags n pages allocated mm = Some (False, allocated, mm1)" "valid mm1" "kept mm mm1" "2 ^ m \<le> unat pages"
    | (take) c j x mm2 where "valid mm2" "taken [c] mm mm2" "in_range start end flags (region_of mm2 c)" "slab mm2 c = Some x"
      "drm_buddy_block_order x = j" "m \<le> j" "j \<le> max_order mm" "2 ^ j \<le> unat pages" "j < 64" "unat (pages - BIT j) = unat pages - 2 ^ j"
      "2 ^ m dvd unat (pages - BIT j)"
      "alloc_pages_loop start end m flags n pages allocated mm = (if pages - BIT j = 0 then Some (True, allocated @ [c], mm2)
         else alloc_pages_loop start end m flags j (pages - BIT j) (allocated @ [c]) mm2)"
proof -
  define k where "k = min n (order_of_pages pages)"
  note b = order_of_pages_bounds [OF assms(3,4)]
  have mle: "2 ^ m \<le> unat pages"
    using dvd_imp_le [OF assms(5,3)] .
  then have "(2 :: nat) ^ m < 2 ^ Suc (order_of_pages pages)"
    using b(2) by linarith
  then have "m < Suc (order_of_pages pages)"
    by (rule nat_power_less_imp_less [rotated]) simp
  then have k: "m \<le> k" "k \<le> max_order mm"
    using assms(6,7) by (auto simp: k_def)
  have "(2 :: nat) ^ k \<le> 2 ^ order_of_pages pages"
    by (rule power_increasing) (simp_all add: k_def)
  then have k3: "2 ^ k \<le> unat pages"
    using b(1) by (rule order.trans)
  obtain r mm1 where r: "alloc_orders start end m flags k mm = Some (r, mm1)" "orders_result start end m flags k mm r mm1"
    using alloc_orders_ok [OF assms(1,2) k(1)] by blast
  note u = alloc_pages_unfold [of start "end" m flags n pages allocated mm, folded k_def]
  show ?thesis
  proof (cases r)
    case None
    then have "alloc_pages_loop start end m flags n pages allocated mm = Some (False, allocated, mm1)" "valid mm1" "kept mm mm1"
      using u r k by (simp_all add: orders_result_def)
    then show ?thesis
      using stop [of mm1] r(1) None mle unfolding k_def by blast
  next
    case (Some p)
    obtain c j where p: "p = (c, j)"
      by (cases p)
    have j: "m \<le> j" "j \<le> k" "ready start end flags j mm c mm1"
      using r(2) Some p by (simp_all add: orders_result_def)
    obtain mm2 where c: "claim_block c mm1 = Some mm2" "valid mm2" "taken [c] mm mm2" "in_range start end flags (region_of mm2 c)"
        "\<exists>x. slab mm2 c = Some x \<and> drm_buddy_block_order x = j"
      by (rule ready_claim [OF j(3)])
    obtain x where x: "slab mm2 c = Some x" "drm_buddy_block_order x = j"
      using c(5) by blast
    have "(2 :: nat) ^ j \<le> 2 ^ k"
      using j(2) by simp
    then have pj: "2 ^ j \<le> unat pages"
      using k3 by linarith
    then have "(2 :: nat) ^ j < 2 ^ 32"
      using assms(4) by linarith
    then have "j < 32"
      by (rule nat_power_less_imp_less [rotated]) simp
    then have j64: "j < 64"
      by simp
    have un: "unat (pages - BIT j) = unat pages - 2 ^ j"
      using pj unat_pow2 [OF j64] by (simp add: BIT_def unat_sub word_le_nat_alt)
    have "(2 :: nat) ^ m dvd 2 ^ j"
      using j(1) by (rule le_imp_power_dvd)
    then have d: "2 ^ m dvd unat (pages - BIT j)"
      using assms(5) un by (simp add: dvd_diff_nat)
    have "j \<le> max_order mm"
      using j(2) k(2) by simp
    moreover have "alloc_pages_loop start end m flags n pages allocated mm = (if pages - BIT j = 0 then Some (True, allocated @ [c], mm2)
         else alloc_pages_loop start end m flags j (pages - BIT j) (allocated @ [c]) mm2)"
      using u r(1) Some p k c(1) by simp
    ultimately show ?thesis
      by (rule take [OF c(2-4) x j(1) _ pj j64 un d])
  qed
qed

lemma alloc_pages_ok:
  assumes "valid mm" "memory_ok mm" "0 < unat pages" "unat pages < 2 ^ 32" "2 ^ m dvd unat pages" "m \<le> n"
    "min n (order_of_pages pages) \<le> max_order mm"
  shows "\<exists>ok bs mm'. alloc_pages_loop start end m flags n pages allocated mm = Some (ok, allocated @ bs, mm') \<and>
    pages_result start end m flags pages mm ok bs mm'"
  using assms
proof (induction "unat pages" arbitrary: n pages allocated mm rule: less_induct)
  case less
  from less.prems show ?case
  proof (cases rule: alloc_pages_step [of mm pages m n start "end" flags allocated])
    case (stop mm1)
    then have "pages_result start end m flags pages mm False [] mm1"
      using kept_taken by (simp add: pages_result_def)
    then show ?thesis
      using stop(2) by auto
  next
    case (take c j x mm2)
    show ?thesis
    proof (cases "pages - BIT j = 0")
      case True
      then have "pages_result start end m flags pages mm True [c] mm2"
        by (intro pages_done [OF take(2,1,3-6) _ take(9)]) simp
      then show ?thesis
        using take(12) True by auto
    next
      case False
      have "0 < unat (pages - BIT j)"
        using False by (simp add: unat_gt_0)
      moreover have "unat (pages - BIT j) < unat pages"
        using take(10) less.prems(3) by simp
      moreover have "memory_ok mm2" "min j (order_of_pages (pages - BIT j)) \<le> max_order mm2"
        using takenD(1) [OF take(2)] less.prems(2) take(7) by (simp_all add: same_shape_def memory_ok_def)
      ultimately obtain ok bs mm' where "alloc_pages_loop start end m flags j (pages - BIT j) (allocated @ [c]) mm2 =
          Some (ok, (allocated @ [c]) @ bs, mm')" "pages_result start end m flags (pages - BIT j) mm2 ok bs mm'"
        using less.hyps [of "pages - BIT j" mm2 j "allocated @ [c]"] take(1,6,11) less.prems(4) by auto
      then show ?thesis
        using take(12) False pages_result_cons [OF take(2-6) _ take(8,9)] by auto
    qed
  qed
qed

end
