(* ===== verification/Buddy_Trim.thy ===== *)
theory Buddy_Trim
  imports Buddy_Take
begin

text \<open>
  Trimming a block (\<^verbatim>\<open>drm_buddy_block_trim\<close>): the block is freed with its parent pointer cut, so that it cannot be
  merged, the part that is kept is allocated again below it, and the parent pointer is restored.
\<close>

section \<open>Cutting and restoring a parent pointer\<close>

lemma tree_ok_reparent:
  assumes ok: "tree_ok X mm" and b: "slab mm b = Some x" and sh: "same_shape mm mm'"
    and sl: "slab mm' = (slab mm)(b \<mapsto> x\<lparr>parent := q\<rparr>)" "slab_next mm' = slab_next mm"
    and X: "X' - {b} = X - {b}" and q: "q = None \<longleftrightarrow> b \<in> set (roots mm) \<or> b \<in> X'"
    and up: "\<And>p. q = Some p \<Longrightarrow> \<exists>y. slab mm p = Some y \<and> drm_buddy_block_is_split y \<and> Some b \<in> {left y, right y}"
    and down: "\<And>p y. slab mm p = Some y \<Longrightarrow> drm_buddy_block_is_split y \<Longrightarrow> Some b \<in> {left y, right y} \<Longrightarrow>
      q = (if b \<in> X' then None else Some p)"
  shows "tree_ok X' mm'"
proof -
  note e = same_shape_eqs [OF sh]
  let ?x = "x\<lparr>parent := q\<rparr>"
  have f: "block_start ?x = block_start x" "block_bytes mm ?x = block_bytes mm x" "region mm ?x = region mm x" "leaf ?x = leaf x"
    by (simp_all add: block_start_def block_bytes_def region_def leaf_def)
  have ch: "child_of X' mm' p y c s" if "child_of X mm p y c s" "c = b \<Longrightarrow> q = (if b \<in> X' then None else Some p)" for p y c s
    using that b X f(1) by (cases "c = b") (auto simp: child_of_def sl(1))
  have hc: "has_children X' mm' p y" if h: "slab mm p = Some z" "drm_buddy_block_is_split z" "has_children X mm p z"
      "left y = left z" "right y = right z" "drm_buddy_block_order y = drm_buddy_block_order z" "block_start y = block_start z" for p y z
  proof -
    obtain l r where lr: "left z = Some l" "right z = Some r" "l \<noteq> r" "child_of X mm p z l (block_start z)"
        "child_of X mm p z r (block_start z + unat (chunk_size mm) * 2 ^ (drm_buddy_block_order z - 1))"
      using h(3) by (auto simp: has_children_def)
    have "child_of X' mm' p z l (block_start z)"
      by (rule ch [OF lr(4)]) (use down [OF h(1,2)] lr(1) in auto)
    moreover have "child_of X' mm' p z r (block_start z + unat (chunk_size mm) * 2 ^ (drm_buddy_block_order z - 1))"
      by (rule ch [OF lr(5)]) (use down [OF h(1,2)] lr(2) in auto)
    ultimately show ?thesis
      using lr(1-3) h(4-7) sh by (auto simp: has_children_def child_of_def same_shape_def)
  qed
  have par: "\<exists>y. slab mm' p = Some y \<and> drm_buddy_block_is_split y \<and> Some d \<in> {left y, right y}"
    if "\<exists>y. slab mm p = Some y \<and> drm_buddy_block_is_split y \<and> Some d \<in> {left y, right y}" for p d
    using that b by (auto simp: sl(1))
  have "block_ok X' mm' d z" if d: "slab mm' d = Some z" for d z
  proof (cases "d = b")
    case True
    then have z: "z = ?x"
      using d sl(1) by simp
    show ?thesis
      using tree_okD [OF ok b] f e(1) sh sl(2) q up par True hc [OF b, of ?x]
      unfolding block_ok_def z by (auto simp: same_shape_def)
  next
    case False
    then have z: "slab mm d = Some z"
      using d sl(1) by simp
    have "d \<in> X' \<longleftrightarrow> d \<in> X"
      using X False by blast
    then show ?thesis
      using tree_okD [OF ok z] e(1) sh sl(2) par [of _ d] hc [OF z, of z] unfolding block_ok_def by (auto simp: same_shape_def)
  qed
  moreover have "chain mm' (roots mm) 0 (unat (mm_size mm))"
    by (rule chain_cong [OF sh _ tree_okD2(3) [OF ok]]) (use b f in \<open>auto simp: sl(1)\<close>)
  moreover have "leaves mm' = leaves mm" "region_of mm' = region_of mm"
    using b f e(2) by (auto simp: leaves_def region_of_def sl(1) fun_eq_iff split: if_splits option.split)
  moreover have "\<forall>c \<in> set (roots mm) \<union> X'. slab mm' c \<noteq> None"
    using ok X unfolding tree_ok_def sl(1) by auto
  ultimately show ?thesis
    using ok sh e(3) by (simp add: tree_ok_def tiling_def same_shape_def)
qed

section \<open>Releasing the block for the trim\<close>

definition open_block :: "nat \<Rightarrow> drm_buddy_block \<Rightarrow> drm_buddy \<Rightarrow> drm_buddy option" where
  "open_block b block mm =
     do { mm \<leftarrow> mark_free b mm;
          let mm = mm\<lparr>avail := avail mm + drm_buddy_block_size mm block\<rparr>;
          let mm = add_clear_avail (drm_buddy_block_is_clear block) block mm;
          set_block b (\<lambda>x. x\<lparr>parent := None\<rparr>) mm }"

lemma open_block_ok:
  assumes "valid mm" "slab mm b = Some x" "drm_buddy_block_is_allocated x"
  obtains mm' where "open_block b x mm = Some mm'" "buddy_inv {b} mm'" "same_shape mm mm'" "slab_next mm' = slab_next mm"
    "slab mm' = (slab mm)(b \<mapsto> (with_state DRM_BUDDY_FREE x)\<lparr>parent := None\<rparr>)" "warned mm' = warned mm"
    "avail mm' = avail mm + drm_buddy_block_size mm x"
proof -
  note v = validD [OF assms(1)]
  let ?f = "with_state DRM_BUDDY_FREE x" and ?y = "(with_state DRM_BUDDY_FREE x)\<lparr>parent := None\<rparr>"
  have nf: "\<not> drm_buddy_block_is_free x"
    using states_exclude(2) [OF assms(3)] by simp
  obtain fl where fl: "mark_free b mm = Some (mm\<lparr>slab := (slab mm)(b \<mapsto> ?f), free_list := fl\<rparr>)"
      "lists_ok {} (mm\<lparr>slab := (slab mm)(b \<mapsto> ?f), free_list := fl\<rparr>)"
    using mark_free_ok [OF v(2) assms(2) tree_okD(2) [OF v(1) assms(2)]] nf by auto
  define mm1 where "mm1 = mm\<lparr>slab := (slab mm)(b \<mapsto> ?f), free_list := fl\<rparr>"
  define mm2 where "mm2 = add_clear_avail (drm_buddy_block_is_clear x) x (mm1\<lparr>avail := avail mm1 + drm_buddy_block_size mm1 x\<rparr>)"
  define mm' where "mm' = mm2\<lparr>slab := (slab mm2)(b \<mapsto> ?y)\<rparr>"
  have m2: "slab mm2 = slab mm1" "same_shape mm mm2" "slab_next mm2 = slab_next mm" "free_list mm2 = free_list mm1"
      "avail mm2 = avail mm + drm_buddy_block_size mm x" "clear_avail mm2 = clear_avail mm + clear_part mm x" "warned mm2 = warned mm"
    by (simp_all add: mm2_def mm1_def add_clear_avail_def same_shape_def clear_part_def drm_buddy_block_size_def)
  have m': "slab mm' = (slab mm)(b \<mapsto> ?y)" "same_shape mm2 mm'" "same_shape mm mm'" "slab_next mm' = slab_next mm"
      "avail mm' = avail mm + drm_buddy_block_size mm x" "clear_avail mm' = clear_avail mm + clear_part mm x" "warned mm' = warned mm"
    using m2 by (auto simp: mm'_def mm1_def same_shape_def)
  have s2: "slab mm2 b = Some ?f"
    by (simp add: m2(1) mm1_def)
  have "tree_ok {} mm2"
    by (rule tree_ok_leaf_update [OF v(1) assms(2), of ?f])
      (use assms(3) m2 in \<open>auto simp: leaf_def same_block_def mm1_def\<close>)
  then have "tree_ok {b} mm'"
    by (rule tree_ok_reparent [OF _ s2 m'(2), where q = None]) (auto simp: mm'_def)
  moreover have "lists_ok {} mm2"
    by (rule lists_ok_cong [OF m2(4) _ _ _ fl(2) [folded mm1_def]])
      (use m2(1,2) in \<open>auto simp: same_shape_def mm1_def free_of_order_def offset_of_def\<close>)
  then have "lists_ok {} mm'"
    by (rule lists_ok_update [OF _ s2, where y = ?y]) (simp_all add: mm'_def)
  moreover have "counters_ok mm'"
    using bytes_update [OF m'(1) tree_okD(1) [OF v(1) assms(2)] m'(4)] m'(3,5,6) v(3,4) assms(2) nf
    by (auto simp: counters_ok_def free_size_def clear_size_def clear_part_def same_shape_def drm_buddy_block_size_def)
  moreover have "open_block b x mm = Some mm'"
    using fl(1) s2 by (simp add: open_block_def mm'_def mm2_def mm1_def Let_def)
  ultimately show ?thesis
    using that m'(1,3,4,5,7) by (simp add: buddy_inv_def)
qed

section \<open>Closing it again\<close>

lemma mergeable_parent:
  assumes "slab mm' = (slab mm)(b \<mapsto> x\<lparr>parent := q\<rparr>)" "slab mm b = Some x" "mergeable mm' p"
  shows "mergeable mm p"
proof -
  obtain y l r lb rb where m: "slab mm' p = Some y" "drm_buddy_block_is_split y" "left y = Some l" "right y = Some r"
      "slab mm' l = Some lb" "slab mm' r = Some rb" "drm_buddy_block_is_free lb" "drm_buddy_block_is_free rb"
      "drm_buddy_block_is_clear lb = drm_buddy_block_is_clear rb"
    using assms(3) unfolding mergeable_def by blast
  have k: "\<exists>w. slab mm c = Some w \<and> left w = left z \<and> right w = right z \<and> drm_buddy_block_is_split w = drm_buddy_block_is_split z \<and>
      drm_buddy_block_is_free w = drm_buddy_block_is_free z \<and> drm_buddy_block_is_clear w = drm_buddy_block_is_clear z"
    if "slab mm' c = Some z" for c z
    using that assms(1,2) by (auto split: if_splits)
  show ?thesis
    unfolding mergeable_def using k [OF m(1)] k [OF m(5)] k [OF m(6)] m(2-4,7-9) by metis
qed

text \<open>
  \<open>mm\<close> is the state before the trim, \<open>mm1\<close> the one with the block opened, \<open>mm2\<close> the one after the walk below it.
\<close>

lemma close_block_ok:
  assumes v: "valid mm" and b: "slab mm b = Some x" "drm_buddy_block_is_allocated x"
    and o: "slab mm1 = (slab mm)(b \<mapsto> y)" "drm_buddy_block_is_free y" "same_shape mm mm1" "slab_next mm1 = slab_next mm"
    and c: "buddy_inv {b} mm2" "claims {b} {} bs mm1 mm2" "slab mm2 b = Some z" "\<not> drm_buddy_block_is_free z"
  defines "mm' \<equiv> mm2\<lparr>slab := (slab mm2)(b \<mapsto> z\<lparr>parent := parent x\<rparr>)\<rparr>"
  shows "valid mm'"
proof -
  note ok = validD [OF v]
  have t: "tree_ok {b} mm2" "lists_ok {} mm2" "avail mm2 = free_bytes mm2" "clear_avail mm2 = clear_bytes mm2"
    using c(1) by (simp_all add: buddy_inv_def counters_ok_def)
  have sh: "same_shape mm2 mm'" "same_shape mm mm2"
    using same_shape_trans [OF o(3) claims_shape [OF c(2)]] by (simp_all add: mm'_def same_shape_def)
  have old: "slab mm p = Some w" if "slab mm2 p = Some w" "drm_buddy_block_is_split w" "Some b \<in> {left w, right w}" for p w
  proof -
    have "slab mm1 p = Some w"
      using claimsD(7) [OF c(2) that] tree_okD(1) [OF ok(1) b(1)] o(4) by simp
    then show ?thesis
      using that(2) o(1,2) states_exclude(1) [OF o(2)] by (auto split: if_splits)
  qed
  have kids: "parent x = Some p" if p: "slab mm p = Some w" "drm_buddy_block_is_split w" "Some b \<in> {left w, right w}" for p w
  proof -
    obtain l r lb rb where "left w = Some l" "right w = Some r" "slab mm l = Some lb" "slab mm r = Some rb"
        "parent lb = Some p" "parent rb = Some p"
      using children_of [OF ok(1) p(1,2)] by metis
    then show ?thesis
      using p(3) b(1) by auto
  qed
  have "tree_ok {} mm'"
  proof (rule tree_ok_reparent [OF t(1) c(3) sh(1), where q = "parent x"])
    show "parent x = None \<longleftrightarrow> b \<in> set (roots mm2) \<or> b \<in> {}"
      using tree_okD(6) [OF ok(1) b(1)] sh(2) by (simp add: same_shape_def)
    fix p
    show "\<exists>y. slab mm2 p = Some y \<and> drm_buddy_block_is_split y \<and> Some b \<in> {left y, right y}" if par: "parent x = Some p"
    proof -
      obtain w where w: "slab mm p = Some w" "drm_buddy_block_is_split w" "Some b \<in> {left w, right w}"
        using tree_okD(7) [OF ok(1) b(1) par] by blast
      then have "slab mm1 p = Some w"
        using o(1) b states_exclude(3) [OF w(2)] by auto
      then show ?thesis
        using claims_keep [OF c(2)] states_exclude(3) [OF w(2)] w(2,3) by blast
    qed
    show "parent x = (if b \<in> {} then None else Some p)"
      if "slab mm2 p = Some y" "drm_buddy_block_is_split y" "Some b \<in> {left y, right y}" for y
      using kids [OF old [OF that] that(2,3)] by simp
  qed (auto simp: mm'_def)
  moreover have "lists_ok {} mm'"
    by (rule lists_ok_update [OF t(2) c(3), where y = "z\<lparr>parent := parent x\<rparr>"]) (simp_all add: mm'_def)
  moreover have "counters_ok mm'"
    using bytes_update [of mm' mm2 b "Some (z\<lparr>parent := parent x\<rparr>)"] tree_okD(1) [OF t(1) c(3)] t(3,4) c(3)
    by (auto simp: mm'_def counters_ok_def free_size_def clear_size_def drm_buddy_block_size_def)
  moreover have "\<not> mergeable mm' p" for p
  proof
    assume "mergeable mm' p"
    then have m2: "mergeable mm2 p"
      using mergeable_parent [where mm' = mm' and mm = mm2 and b = b and x = z and q = "parent x" and p = p] c(3) by (simp add: mm'_def)
    then obtain w l r lb rb where w: "slab mm2 p = Some w" "drm_buddy_block_is_split w" "left w = Some l" "right w = Some r"
        "slab mm2 l = Some lb" "slab mm2 r = Some rb" "drm_buddy_block_is_free lb" "drm_buddy_block_is_free rb"
      unfolding mergeable_def by blast
    have nb: "l \<noteq> b" "r \<noteq> b"
      using w c(3,4) by auto
    have m1: "mergeable mm1 p"
      using claimsD(6) [OF c(2) m2] by simp
    then obtain w1 where w1: "slab mm1 p = Some w1" "drm_buddy_block_is_split w1"
      unfolding mergeable_def by blast
    then have "w1 = w"
      using claims_keep [OF c(2) w1(1)] states_exclude(3) [OF w1(2)] w(1) by simp
    then have "mergeable mm p"
      using m1 w1 nb w(3,4) o(1,2) states_exclude(1) [OF o(2)] unfolding mergeable_def by (auto split: if_splits)
    then show False
      using ok(5) by (simp add: merged_def)
  qed
  ultimately show "valid mm'"
    by (simp add: valid_def buddy_inv_def merged_def)
qed

section \<open>The trim\<close>

text \<open>From \<open>mm\<close> to \<open>mm'\<close> the allocated block \<open>b\<close> was exchanged for the blocks \<open>bs\<close>, which make up \<open>A\<close>.\<close>

definition trimmed :: "nat \<Rightarrow> nat list \<Rightarrow> nat set \<Rightarrow> drm_buddy \<Rightarrow> drm_buddy \<Rightarrow> bool" where
  "trimmed b bs A mm mm' \<longleftrightarrow> same_shape mm mm' \<and> warned mm' = warned mm \<and> distinct bs \<and> (\<forall>c \<in> set bs. is_allocated mm' c) \<and>
     is_allocated mm b \<and>
     (\<forall>c z. drm_buddy_block_is_allocated z \<longrightarrow> (slab mm c = Some z \<and> c \<noteq> b \<longleftrightarrow> slab mm' c = Some z \<and> c \<notin> set bs)) \<and>
     avail mm + total_size mm [b] = avail mm' + total_size mm' bs \<and>
     free_space mm UNIV \<union> region_of mm b = free_space mm' UNIV \<union> A \<and>
     A \<subseteq> region_of mm b \<and> (\<Union>c \<in> set bs. region_of mm' c) = A"

lemma taken_trimmed:
  assumes "taken (as @ [b]) mm0 mm" "trimmed b bs A mm mm'"
  shows "taken (as @ bs) mm0 mm'" "total_size mm' (as @ bs) + total_size mm [b] = total_size mm (as @ [b]) + total_size mm' bs"
proof -
  note t = takenD [OF assms(1)] and r = assms(2) [unfolded trimmed_def]
  have sh: "same_shape mm mm'"
    using r by blast
  have ma: "slab mm c = Some z \<and> c \<noteq> b \<longleftrightarrow> slab mm' c = Some z \<and> c \<notin> set bs" if "drm_buddy_block_is_allocated z" for c z
    using r that by blast
  have as: "slab mm' c = slab mm c \<and> is_allocated mm' c \<and> c \<notin> set bs" if c: "c \<in> set as" for c
  proof -
    obtain z where "slab mm c = Some z" "drm_buddy_block_is_allocated z"
      using t(4) [of c] c by (auto simp: is_allocated_def)
    moreover have "c \<noteq> b"
      using t(3) c by auto
    ultimately show ?thesis
      using ma [of z c] by (auto simp: is_allocated_def)
  qed
  note e = same_shape_eqs [OF sh]
  have sz: "total_size mm' as = total_size mm as"
    unfolding total_size_def by (rule arg_cong [of _ _ sum_list], rule map_cong) (simp_all add: as e)
  have rg: "region_of mm' c = region_of mm c" if "c \<in> set as" for c
    using as [OF that] e by (simp add: region_of_def split: option.split)
  show "total_size mm' (as @ bs) + total_size mm [b] = total_size mm (as @ [b]) + total_size mm' bs"
    using sz by (simp add: algebra_simps)
  show "taken (as @ bs) mm0 mm'"
    unfolding taken_def
  proof (intro conjI allI impI ballI)
    show "same_shape mm0 mm'" "warned mm' = warned mm0" "distinct (as @ bs)"
      using same_shape_trans [OF t(1) sh] r t(2,3) as by auto
    show "is_allocated mm' c" if "c \<in> set (as @ bs)" for c
      using that as r by auto
    show "slab mm0 c = Some z \<longleftrightarrow> slab mm' c = Some z \<and> c \<notin> set (as @ bs)" if "drm_buddy_block_is_allocated z" for c z
      using t(5) [OF that, of c] ma [OF that, of c] by auto
    show "avail mm0 = avail mm' + total_size mm' (as @ bs)"
    proof -
      have "avail mm + total_size mm [b] = avail mm' + total_size mm' bs"
        using r by blast
      then show ?thesis
        using t(6) sz by (simp add: algebra_simps)
    qed
    have "free_space mm UNIV \<union> region_of mm b = free_space mm' UNIV \<union> (\<Union>c \<in> set bs. region_of mm' c)"
      using r by blast
    then show "free_space mm0 UNIV = free_space mm' UNIV \<union> (\<Union>c \<in> set (as @ bs). region_of mm' c)"
      using t(7) rg by auto
  qed
qed

lemma walk_one:
  assumes "walks start end b mm bs mm'"
  shows "alloc_range_loop start end 0 [] [b] mm = Some (OK, total_size mm' bs, bs, mm')"
  using assms by (simp add: walks_def) (subst alloc_range_loop.simps, simp)

lemma extent_in_block:
  assumes "tree_ok X mm" "slab mm b = Some x" "extent_ok mm start sz" "extent start sz \<subseteq> region mm x"
  shows "region mm x \<inter> rng start (start + sz - 1) = extent start sz" "range_ok mm start (start + sz - 1)"
proof -
  note r = extent_range [OF tree_okD2(1) [OF assms(1)] assms(3)]
  have sub: "region mm x \<subseteq> {0 ..< unat (mm_size mm)}"
    using tree_okD(4) [OF assms(1,2)] by (auto simp: region_def)
  then have "region mm x \<inter> rng start (start + sz - 1) = region mm x \<inter> (rng start (start + sz - 1) \<inter> {0 ..< unat (mm_size mm)})"
    by blast
  also have "\<dots> = extent start sz"
    unfolding r(2) using sub assms(4) by blast
  finally show "region mm x \<inter> rng start (start + sz - 1) = extent start sz" .
  show "range_ok mm start (start + sz - 1)"
    by (rule r(1))
qed

text \<open>Changing the parent pointer of a block that is neither free nor in \<open>bs\<close> changes no view of the state.\<close>

lemma reparent_views:
  fixes q :: "nat option"
  assumes "slab mm b = Some z" "\<not> drm_buddy_block_is_free z"
  defines "mm' \<equiv> mm\<lparr>slab := (slab mm)(b \<mapsto> z\<lparr>parent := q\<rparr>)\<rparr>"
  shows "free_space mm' F = free_space mm F" "region_of mm' = region_of mm" "b \<notin> set bs \<Longrightarrow> total_size mm' bs = total_size mm bs"
proof -
  have r: "region mm' = region mm" "drm_buddy_block_size mm' = drm_buddy_block_size mm"
    by (auto simp: mm'_def region_def block_bytes_def drm_buddy_block_size_def fun_eq_iff)
  show "free_space mm' F = free_space mm F"
    using free_space_drop [of mm' mm b "Some (z\<lparr>parent := q\<rparr>)" F] r(1) assms(1,2) by (simp add: mm'_def free_part_def)
  have "region mm (z\<lparr>parent := q\<rparr>) = region mm z"
    by (simp add: region_def block_start_def block_bytes_def)
  then show "region_of mm' = region_of mm"
    using assms(1) r(1) by (auto simp: region_of_def mm'_def fun_eq_iff split: option.split)
  show "total_size mm' bs = total_size mm bs" if "b \<notin> set bs"
    unfolding total_size_def
    by (rule arg_cong [of _ _ sum_list], rule map_cong) (use that r(2) in \<open>auto simp: mm'_def\<close>)
qed

lemma trim_walk:
  assumes "valid mm" "memory_ok mm" "slab mm b = Some x" "drm_buddy_block_is_allocated x"
    and "extent_ok mm start sz" "extent start sz \<subseteq> region mm x" "unat sz < block_bytes mm x"
  obtains mm1 mm2 bs y z where "open_block b x mm = Some mm1" "do_alloc_range [b] start sz [] False mm1 = Some (OK, None, bs, mm2)"
    "slab mm1 = (slab mm)(b \<mapsto> y)" "drm_buddy_block_is_free y" "region mm y = region mm x" "same_shape mm mm1"
    "slab_next mm1 = slab_next mm" "warned mm1 = warned mm" "avail mm1 = avail mm + drm_buddy_block_size mm x"
    "buddy_inv {b} mm2" "claims {b} {} bs mm1 mm2" "slab mm2 b = Some z" "\<not> drm_buddy_block_is_free z" "b \<notin> set bs"
    "(\<Union>c \<in> set bs. region_of mm2 c) = extent start sz"
proof -
  obtain mm1 where o: "open_block b x mm = Some mm1" "buddy_inv {b} mm1" "same_shape mm mm1" "slab_next mm1 = slab_next mm"
    "slab mm1 = (slab mm)(b \<mapsto> (with_state DRM_BUDDY_FREE x)\<lparr>parent := None\<rparr>)" "warned mm1 = warned mm"
    "avail mm1 = avail mm + drm_buddy_block_size mm x"
    by (rule open_block_ok [OF assms(1,3,4)])
  define y where "y = (with_state DRM_BUDDY_FREE x)\<lparr>parent := None\<rparr>"
  have y: "slab mm1 = (slab mm)(b \<mapsto> y)" "drm_buddy_block_is_free y" "region mm y = region mm x" "slab mm1 b = Some y"
    using o(5) by (simp_all add: y_def region_def block_start_def block_bytes_def)
  note e = same_shape_eqs(2) [OF o(3)]
  have ok1: "tree_ok {b} mm1" and ext: "extent_ok mm1 start sz" and sub: "extent start sz \<subseteq> region mm1 y"
    using o(2,3) assms(5,6) y(3) e by (simp_all add: buddy_inv_def extent_ok_def same_shape_def)
  note i = extent_in_block [OF ok1 y(4) ext sub]
  have "memory_ok mm1"
    using assms(2) memory_ok_cong [OF o(3)] by simp
  then obtain bs mm2 where w: "walked {b} start (start + sz - 1) b y mm1 bs mm2"
    using walk_free [OF o(2) _ i(2) y(4,2)] by blast
  then have w': "walks start (start + sz - 1) b mm1 bs mm2" "buddy_inv {b} mm2" "claims {b} {} bs mm1 mm2"
      "(\<Union>c \<in> set bs. region_of mm2 c) = extent start sz"
    using i(1) by (simp_all add: walked_def)
  have sz: "0 < unat sz"
    using assms(5) by (simp add: extent_ok_def unat_gt_0)
  then have "extent start sz \<noteq> {}"
    by (auto simp: extent_def)
  then obtain z where z: "slab mm2 b = Some z" "\<not> drm_buddy_block_is_free z"
    using w i(1) by (auto simp: walked_def)
  have ok2: "tree_ok {b} mm2"
    using w'(2) by (simp add: buddy_inv_def)
  have "b \<notin> set bs"
  proof
    assume b: "b \<in> set bs"
    have "same_block y z"
      using claims_block [OF w'(3) y(4)] z(1) by fastforce
    then have "region_of mm2 b = region mm x"
      unfolding region_of_def z(1) option.case
      using same_block_eqs(3) same_shape_eqs(2) [OF claims_shape [OF w'(3)]] e y(3) by metis
    then have "region mm x \<subseteq> extent start sz"
      using w'(4) b by blast
    then have "card (region mm x) \<le> card (extent start sz)"
      by (intro card_mono) (simp_all add: extent_def)
    then show False
      using assms(7) by (simp add: region_def extent_def)
  qed
  moreover have "unat (total_size mm2 bs) = unat sz"
    using total_size_card(1) [OF ok2 claimsD(2) [OF w'(3)]] claimsD(4) [OF w'(3)] w'(4) by (simp add: extent_def)
  then have "do_alloc_range [b] start sz [] False mm1 = Some (OK, None, bs, mm2)"
    using walk_one [OF w'(1)] by (simp add: do_alloc_range_def word_le_nat_alt)
  ultimately show ?thesis
    using that [OF o(1) _ y(1-3) o(3,4,6,7) w'(2,3) z _ w'(4)] by blast
qed

lemma trim_core:
  assumes "valid mm" "memory_ok mm" "slab mm b = Some x" "drm_buddy_block_is_allocated x"
    and "extent_ok mm start sz" "extent start sz \<subseteq> region mm x" "unat sz < block_bytes mm x"
  obtains mm1 mm2 bs mm' where "open_block b x mm = Some mm1" "do_alloc_range [b] start sz [] False mm1 = Some (OK, None, bs, mm2)"
    "set_block b (\<lambda>z. z\<lparr>parent := parent x\<rparr>) mm2 = Some mm'" "valid mm'" "trimmed b bs (extent start sz) mm mm'"
proof -
  obtain mm1 mm2 bs y z where w: "open_block b x mm = Some mm1" "do_alloc_range [b] start sz [] False mm1 = Some (OK, None, bs, mm2)"
    "slab mm1 = (slab mm)(b \<mapsto> y)" "drm_buddy_block_is_free y" "region mm y = region mm x" "same_shape mm mm1"
    "slab_next mm1 = slab_next mm" "warned mm1 = warned mm" "avail mm1 = avail mm + drm_buddy_block_size mm x"
    "buddy_inv {b} mm2" "claims {b} {} bs mm1 mm2" "slab mm2 b = Some z" "\<not> drm_buddy_block_is_free z" "b \<notin> set bs"
    "(\<Union>c \<in> set bs. region_of mm2 c) = extent start sz"
    by (rule trim_walk [OF assms])
  define mm' where "mm' = mm2\<lparr>slab := (slab mm2)(b \<mapsto> z\<lparr>parent := parent x\<rparr>)\<rparr>"
  have v: "valid mm'"
    unfolding mm'_def by (rule close_block_ok [OF assms(1,3,4) w(3,4,6,7,10-13)])
  note t = takenD [OF claims_taken [OF w(11)]] and rv = reparent_views [OF w(12,13), where q = "parent x", folded mm'_def]
  have sh: "same_shape mm mm'"
    using same_shape_trans [OF w(6) t(1)] by (simp add: mm'_def same_shape_def)
  have nz: "\<not> drm_buddy_block_is_allocated z"
    using t(5) [of z b] w(3,4,12,14) states_exclude(1) [OF w(4)] by auto
  have sp: "free_space mm1 UNIV = free_space mm UNIV \<union> region mm x"
    using free_space_add [OF w(3) same_shape_eqs(2) [OF w(6)], of UNIV] assms(3) w(4,5) states_exclude(2) [OF assms(4)]
    by (simp add: free_part_def)
  have al: "slab mm c = Some u \<and> c \<noteq> b \<longleftrightarrow> slab mm' c = Some u \<and> c \<notin> set bs" if "drm_buddy_block_is_allocated u" for c u
    using t(5) [OF that, of c] w(3,14) nz that by (cases "c = b") (auto simp: mm'_def)
  have bs: "is_allocated mm' c" if "c \<in> set bs" for c
    using t(4) [OF that] w(14) that by (auto simp: is_allocated_def mm'_def)
  have "set_block b (\<lambda>z. z\<lparr>parent := parent x\<rparr>) mm2 = Some mm'"
    using w(12) by (simp add: mm'_def)
  moreover have "avail mm' = avail mm2" "warned mm' = warned mm"
    using w(8) t(2) by (simp_all add: mm'_def)
  then have "trimmed b bs (extent start sz) mm mm'"
    unfolding trimmed_def
    using sh t(3,6,7) bs al assms(3,4,6) w(9,14,15) rv sp by (auto simp: is_allocated_def region_of_def [of mm b])
  ultimately show ?thesis
    using that [OF w(1,2) _ v] by blast
qed

text \<open>The arguments that the function accepts.\<close>

definition trim_start :: "u64 option \<Rightarrow> drm_buddy_block \<Rightarrow> u64" where
  "trim_start start x = (case start of None \<Rightarrow> drm_buddy_block_offset x | Some s \<Rightarrow> s)"

definition trim_accepts :: "u64 option \<Rightarrow> u64 \<Rightarrow> drm_buddy_block \<Rightarrow> drm_buddy \<Rightarrow> bool" where
  "trim_accepts start sz x mm \<longleftrightarrow> extent_ok mm (trim_start start x) sz \<and> extent (trim_start start x) sz \<subseteq> region mm x"

lemma trim_accepts_iff:
  fixes start :: "u64 option"
  assumes "tree_ok X mm" "slab mm b = Some x"
  defines "s \<equiv> trim_start start x"
  shows "trim_accepts start sz x mm \<longleftrightarrow> sz \<noteq> 0 \<and> unat (chunk_size mm) dvd unat s \<and> unat (chunk_size mm) dvd unat sz \<and>
    {unat s ..< unat s + unat sz} \<subseteq> region mm x"
proof -
  have "unat s + unat sz \<le> 2 ^ 64" if "sz \<noteq> 0" "{unat s ..< unat s + unat sz} \<subseteq> region mm x"
  proof -
    have "0 < unat sz"
      using that(1) by (simp add: unat_gt_0)
    then have "unat s + unat sz - 1 \<in> region mm x"
      using that(2) by (auto simp del: atLeastLessThan_subset_iff)
    then have "unat s + unat sz - 1 < block_start x + block_bytes mm x"
      by (simp add: region_def)
    then have "unat s + unat sz \<le> unat (mm_size mm)"
      using tree_okD(4) [OF assms(1,2)] by linarith
    then show ?thesis
      using unat_u64 [of "mm_size mm"] by linarith
  qed
  then show ?thesis
    by (auto simp: trim_accepts_def extent_ok_def extent_def s_def)
qed

lemma trim_checks:
  fixes start :: "u64 option"
  assumes "tree_ok X mm" "slab mm b = Some x" "sz \<noteq> 0" "sz < drm_buddy_block_size mm x"
  defines "s \<equiv> trim_start start x"
  shows "IS_ALIGNED sz (chunk_size mm) \<and> (start = None \<or> \<not> (s < drm_buddy_block_offset x \<or> \<not> IS_ALIGNED s (chunk_size mm) \<or>
      range_overflows s sz (drm_buddy_block_offset x + drm_buddy_block_size mm x))) \<longleftrightarrow> trim_accepts start sz x mm"
proof -
  note g = tree_okD2(1) [OF assms(1)]
  obtain k where k: "unat (chunk_size mm) = 2 ^ k"
    by (rule geometryD [OF g])
  define e where "e = block_start x + block_bytes mm x"
  have e: "e \<le> unat (mm_size mm)" "unat (mm_size mm) < 2 ^ 64" "unat (drm_buddy_block_size mm x) = block_bytes mm x"
    using tree_okD(4) [OF assms(1,2)] unat_u64 unat_block_size [OF assms(1,2)] by (simp_all add: e_def)
  then have ue: "unat (drm_buddy_block_offset x + drm_buddy_block_size mm x) = e"
    using unat_add_small [of "drm_buddy_block_offset x" "drm_buddy_block_size mm x"] by (simp add: e_def block_start_def)
  have sz: "0 < unat sz" "unat sz < block_bytes mm x"
    using assms(3,4) e(3) by (simp_all add: unat_gt_0 word_less_nat_alt)
  have al: "IS_ALIGNED w (chunk_size mm) \<longleftrightarrow> unat (chunk_size mm) dvd unat w" for w
    using IS_ALIGNED_iff [OF k] k by simp
  have dv: "unat (chunk_size mm) dvd block_start x"
    using tree_okD(3) [OF assms(1,2)] by (auto simp: block_bytes_def elim!: dvd_mult_left)
  have ov: "\<not> (s < drm_buddy_block_offset x \<or> range_overflows s sz (drm_buddy_block_offset x + drm_buddy_block_size mm x)) \<longleftrightarrow>
      block_start x \<le> unat s \<and> unat s + unat sz \<le> e"
  proof (cases "unat s < e")
    case True
    then show ?thesis
      using ue by (auto simp: range_overflows_def word_le_nat_alt word_less_nat_alt unat_sub block_start_def)
  next
    case False
    then show ?thesis
      using ue sz(1) by (auto simp: range_overflows_def word_le_nat_alt word_less_nat_alt)
  qed
  have sub: "extent s sz \<subseteq> region mm x \<longleftrightarrow> block_start x \<le> unat s \<and> unat s + unat sz \<le> e"
    using sz(1) atLeastLessThan_subset_iff [of "unat s" "unat s + unat sz" "block_start x" e]
    by (auto simp: extent_def region_def e_def)
  have "start = None \<Longrightarrow> block_start x \<le> unat s \<and> unat s + unat sz \<le> e \<and> unat (chunk_size mm) dvd unat s"
    using sz(2) dv by (simp add: s_def trim_start_def block_start_def e_def)
  moreover have "unat s + unat sz \<le> e \<Longrightarrow> unat s + unat sz \<le> 2 ^ 64"
    using e(1,2) by linarith
  ultimately show ?thesis
    using ov sub assms(3) unfolding trim_accepts_def s_def [symmetric] extent_ok_def al by blast
qed

lemma block_trim_ok:
  assumes "valid mm" "memory_ok mm" "slab mm b = Some x" "drm_buddy_block_is_allocated x"
    and "trim_accepts start sz x mm" "sz \<noteq> drm_buddy_block_size mm x"
  obtains bs mm' where "drm_buddy_block_trim start sz [b] mm = Some (OK, bs, mm')" "valid mm'"
    "trimmed b bs (extent (trim_start start x) sz) mm mm'"
proof -
  note ok = validD(1) [OF assms(1)]
  have a: "extent_ok mm (trim_start start x) sz" "extent (trim_start start x) sz \<subseteq> region mm x"
    using assms(5) by (simp_all add: trim_accepts_def)
  have nz: "sz \<noteq> 0"
    using a(1) by (simp add: extent_ok_def)
  have "unat sz \<le> block_bytes mm x"
    using card_mono [OF _ a(2)] by (simp add: region_def extent_def)
  moreover have "unat sz \<noteq> block_bytes mm x"
    using assms(6) unat_block_size [OF ok assms(3)] by (metis word_unat_eq_iff)
  ultimately have lt: "unat sz < block_bytes mm x" "sz < drm_buddy_block_size mm x"
    using unat_block_size [OF ok assms(3)] by (simp_all add: word_less_nat_alt)
  obtain mm1 mm2 bs mm' where t: "open_block b x mm = Some mm1"
    "do_alloc_range [b] (trim_start start x) sz [] False mm1 = Some (OK, None, bs, mm2)"
    "set_block b (\<lambda>z. z\<lparr>parent := parent x\<rparr>) mm2 = Some mm'" "valid mm'" "trimmed b bs (extent (trim_start start x) sz) mm mm'"
    by (rule trim_core [OF assms(1-4) a lt(1)])
  have "drm_buddy_block_trim start sz [b] mm = Some (OK, bs, mm')"
    using t(1-3) assms(3,4,6) nz lt(2) trim_checks [OF ok assms(3) nz lt(2), of start] assms(5)
    by (auto simp: drm_buddy_block_trim_def open_block_def trim_start_def Let_def split: bind_splits)
  then show ?thesis
    using that t(4,5) by blast
qed

lemma block_trim_rejects:
  assumes "valid mm" "slab mm b = Some x" "drm_buddy_block_is_allocated x"
    and "\<not> trim_accepts start sz x mm" "sz \<noteq> drm_buddy_block_size mm x"
  shows "drm_buddy_block_trim start sz [b] mm = Some (EINVAL, [b], mm)"
proof (cases "drm_buddy_block_size mm x < sz \<or> sz = 0")
  case True
  then show ?thesis
    using assms(2,3) by (auto simp: drm_buddy_block_trim_def Let_def)
next
  case False
  then have "sz \<noteq> 0" "sz < drm_buddy_block_size mm x"
    using assms(5) by auto
  with trim_checks [OF validD(1) [OF assms(1)] assms(2) this, of start] show ?thesis
    using assms(2-5) by (auto simp: drm_buddy_block_trim_def trim_start_def Let_def)
qed

lemma block_trim_same:
  assumes "tree_ok X mm" "slab mm b = Some x" "drm_buddy_block_is_allocated x"
  shows "drm_buddy_block_trim start (drm_buddy_block_size mm x) [b] mm = Some (OK, [b], mm)"
proof -
  obtain k where k: "unat (chunk_size mm) = 2 ^ k"
    by (rule geometryD [OF tree_okD2(1) [OF assms(1)]])
  have "unat (drm_buddy_block_size mm x) = block_bytes mm x" "0 < block_bytes mm x"
    using unat_block_size [OF assms(1,2)] chunk_dvd(4) [OF tree_okD2(1) [OF assms(1)]] by simp_all
  then have "drm_buddy_block_size mm x \<noteq> 0" "IS_ALIGNED (drm_buddy_block_size mm x) (chunk_size mm)"
    using IS_ALIGNED_iff [OF k] k by (auto simp: block_bytes_def)
  then show ?thesis
    using assms(2,3) by (simp add: drm_buddy_block_trim_def Let_def)
qed

end
