(* ===== verification/Buddy_Survive.thy ===== *)
theory Buddy_Survive
  imports Buddy_Trim
begin

text \<open>
  A state without pending merges is determined by its allocated blocks and its free space, so a free block is back
  at its address once everything that was allocated after it is freed again.
\<close>

section \<open>Blocks of uniform free space\<close>

lemma region_nonempty: "tree_ok X mm \<Longrightarrow> block_start x \<in> region mm x"
  using chunk_dvd(4) tree_okD2(1) by (simp add: region_def)

lemma free_space_leaf:
  assumes "tree_ok X mm" "slab mm b = Some x" "leaf x" "a \<in> region mm x" "a \<in> free_space mm F"
  shows "drm_buddy_block_is_free x \<and> drm_buddy_block_is_clear x \<in> F"
proof -
  obtain c where "a \<in> free_part mm F (slab mm c)"
    using assms(5) by (auto simp: free_space_def)
  then obtain z where z: "slab mm c = Some z" "drm_buddy_block_is_free z" "drm_buddy_block_is_clear z \<in> F" "a \<in> region mm z"
    by (auto simp: free_part_def split: option.splits if_splits)
  have "c = b"
    using leaves_disjoint [OF assms(1-3) z(1)] z(2,4) assms(4) by (auto simp: leaf_def)
  then show ?thesis
    using z assms(2) by simp
qed

lemma free_subtree_flag:
  assumes "tree_ok X mm" "merged {} mm" "slab mm b = Some x" "region mm x \<subseteq> free_space mm {f}"
  shows "drm_buddy_block_is_free x \<and> drm_buddy_block_is_clear x = f"
  using assms(3,4)
proof (induction "drm_buddy_block_order x" arbitrary: b x rule: less_induct)
  case less
  show ?case
  proof (cases "leaf x")
    case True
    then show ?thesis
      using free_space_leaf [OF assms(1) less.prems(1) True region_nonempty [OF assms(1)]] less.prems(2)
        region_nonempty [OF assms(1)] by blast
  next
    case False
    then have sp: "drm_buddy_block_is_split x"
      using tree_okD(5) [OF assms(1) less.prems(1)] by blast
    obtain l r lb rb where k: "left x = Some l" "right x = Some r" "slab mm l = Some lb" "slab mm r = Some rb" "l \<noteq> r"
      "Suc (drm_buddy_block_order lb) = drm_buddy_block_order x" "Suc (drm_buddy_block_order rb) = drm_buddy_block_order x"
      "block_start lb = block_start x" "block_start rb = block_start x + block_bytes mm lb"
      "block_bytes mm lb + block_bytes mm rb = block_bytes mm x" "region mm lb \<union> region mm rb = region mm x"
      by (rule split_children [OF assms(1) less.prems(1) sp])
    have "drm_buddy_block_is_free lb \<and> drm_buddy_block_is_clear lb = f"
      by (rule less.hyps [OF _ k(3)]) (use k(6,11) less.prems(2) in auto)
    moreover have "drm_buddy_block_is_free rb \<and> drm_buddy_block_is_clear rb = f"
      by (rule less.hyps [OF _ k(4)]) (use k(7,11) less.prems(2) in auto)
    ultimately have "mergeable mm b"
      unfolding mergeable_def using less.prems(1) sp k(1-4) by blast
    then show ?thesis
      using assms(2) by (simp add: merged_def)
  qed
qed

section \<open>The place of a parent\<close>

definition up_region :: "drm_buddy \<Rightarrow> drm_buddy_block \<Rightarrow> nat set" where
  "up_region mm x = (let r = 2 * block_bytes mm x in {block_start x div r * r ..< block_start x div r * r + r})"

lemma up_region_parent:
  assumes "geometry mm" "block_bytes mm pb dvd block_start pb" "region mm x \<subseteq> region mm pb"
    "Suc (drm_buddy_block_order x) = drm_buddy_block_order pb"
  shows "up_region mm x = region mm pb"
proof -
  have r: "block_bytes mm pb = 2 * block_bytes mm x"
    by (simp add: block_bytes_def flip: assms(4))
  have pos: "0 < block_bytes mm x"
    using chunk_dvd(4) [OF assms(1)] by simp
  then have "block_start x \<in> region mm x"
    by (simp add: region_def)
  then have "block_start x \<in> region mm pb"
    using assms(3) by blast
  moreover obtain j where j: "block_start pb = block_bytes mm pb * j"
    using assms(2) by (auto elim: dvdE)
  ultimately have "block_start x div block_bytes mm pb = j"
    by (intro div_nat_eqI) (auto simp: region_def)
  then show ?thesis
    using j r by (simp add: up_region_def region_def Let_def mult.commute)
qed

lemma up_region_cong: "same_shape mm mm' \<Longrightarrow> same_block x y \<Longrightarrow> up_region mm' y = up_region mm x"
  using same_shape_eqs(1) [of mm mm'] same_block_eqs(1,2) [of x y] by (simp add: up_region_def)

text \<open>
  A block stays where it is, or its parent's place has become free space with one clear flag.
\<close>

definition survives :: "drm_buddy \<Rightarrow> drm_buddy \<Rightarrow> bool" where
  "survives mm mm' \<longleftrightarrow> (\<forall>c z. slab mm c = Some z \<longrightarrow> (\<exists>z'. slab mm' c = Some z' \<and> same_block z z') \<or>
     parent z \<noteq> None \<and> (\<exists>f. up_region mm z \<subseteq> free_space mm' {f}))"

lemma survives_trans:
  assumes "survives mm mm1" "survives mm1 mm'" "same_shape mm mm1" "\<And>F. free_space mm1 F \<subseteq> free_space mm' F"
  shows "survives mm mm'"
  unfolding survives_def
proof (intro allI impI)
  fix c z assume "slab mm c = Some z"
  then consider (live) z1 where "slab mm1 c = Some z1" "same_block z z1"
    | (gone) f where "parent z \<noteq> None" "up_region mm z \<subseteq> free_space mm1 {f}"
    using assms(1) unfolding survives_def by blast
  then show "(\<exists>z'. slab mm' c = Some z' \<and> same_block z z') \<or> parent z \<noteq> None \<and> (\<exists>f. up_region mm z \<subseteq> free_space mm' {f})"
  proof cases
    case live
    then have "(\<exists>z'. slab mm' c = Some z' \<and> same_block z1 z') \<or> parent z1 \<noteq> None \<and> (\<exists>f. up_region mm1 z1 \<subseteq> free_space mm' {f})"
      using assms(2) unfolding survives_def by blast
    then show ?thesis
      using same_block_trans [OF live(2)] up_region_cong [OF assms(3) live(2)] same_block_eqs(4) [OF live(2)] by auto
  next
    case gone
    then show ?thesis
      using assms(4) by blast
  qed
qed

lemma claims_survives: "claims T S bs mm mm' \<Longrightarrow> survives mm mm'"
  unfolding survives_def by (metis claims_block)

text \<open>If the same space is free again, so is the same block.\<close>

lemma free_block_back:
  assumes "valid mm" "valid mm'" "same_shape mm mm'" "\<And>F. free_space mm' F = free_space mm F" "survives mm mm'"
    and "slab mm b = Some x" "drm_buddy_block_is_free x"
  obtains x' where "slab mm' b = Some x'" "same_block x x'" "drm_buddy_block_is_free x'"
proof -
  note ok = validD [OF assms(1)] and ok' = validD [OF assms(2)]
  have own: "region mm x \<subseteq> free_space mm {drm_buddy_block_is_clear x}"
    by (rule free_space_block [OF assms(6,7)]) simp
  show ?thesis
  proof (cases "\<exists>x'. slab mm' b = Some x' \<and> same_block x x'")
    case True
    then obtain x' where x': "slab mm' b = Some x'" "same_block x x'"
      by blast
    have "region mm' x' = region mm x"
      using same_block_eqs(3) [OF x'(2)] same_shape_eqs(2) [OF assms(3)] by simp
    then have "drm_buddy_block_is_free x'"
      using free_subtree_flag [OF ok'(1,5) x'(1)] own assms(4) by blast
    then show ?thesis
      using that x' by blast
  next
    case False
    then obtain f p where f: "parent x = Some p" "up_region mm x \<subseteq> free_space mm' {f}"
      using assms(5,6) unfolding survives_def by blast
    obtain y yb pb where y: "do_get_buddy b mm = Some (Some y)" "slab mm y = Some yb" "y \<noteq> b" "slab mm p = Some pb"
      "drm_buddy_block_is_split pb" "(left pb = Some b \<and> right pb = Some y) \<or> (left pb = Some y \<and> right pb = Some b)"
      by (rule buddy_of_child [OF ok(1) assms(6) f(1)])
    obtain l r lb rb where k: "left pb = Some l" "right pb = Some r" "slab mm l = Some lb" "slab mm r = Some rb" "l \<noteq> r"
      "Suc (drm_buddy_block_order lb) = drm_buddy_block_order pb" "Suc (drm_buddy_block_order rb) = drm_buddy_block_order pb"
      "block_start lb = block_start pb" "block_start rb = block_start pb + block_bytes mm lb"
      "block_bytes mm lb + block_bytes mm rb = block_bytes mm pb" "region mm lb \<union> region mm rb = region mm pb"
      by (rule split_children [OF ok(1) y(4,5)])
    have "up_region mm x = region mm pb"
      by (rule up_region_parent [OF tree_okD2(1) [OF ok(1)] tree_okD(3) [OF ok(1) y(4)]]) (use y(6) k assms(6) in auto)
    then have "drm_buddy_block_is_free pb"
      using free_subtree_flag [OF ok(1,5) y(4)] f(2) assms(4) by blast
    then show ?thesis
      using states_exclude(3) [OF y(5)] by blast
  qed
qed

section \<open>Freeing\<close>

lemma merge_up_frame:
  assumes "detached b mm" "merged E (as_leaf b mm)" "merge_up False b mm = Some (b', mm')" "slab mm b = Some x" "slab mm' b' = Some x'"
  shows "region mm x \<subseteq> region mm x' \<and> (\<forall>c z. slab mm c = Some z \<longrightarrow>
    (\<exists>z'. slab mm' c = Some z' \<and> same_block z z') \<or> parent z \<noteq> None \<and> up_region mm z \<subseteq> region mm x')"
  using assms
proof (induction "max_order mm - drm_buddy_block_order x" arbitrary: b mm x rule: less_induct)
  case less
  have stop: ?case if "merge_up False b mm = Some (b, mm)"
    using that less.prems(3-5) by (auto simp: same_block_def)
  show ?case
  proof (cases "parent x")
    case None
    then have "merge_up False b mm = Some (b, mm)"
      using less.prems(4) by (subst merge_up.simps) simp
    then show ?thesis
      by (rule stop)
  next
    case (Some p)
    obtain pb y yb where k: "slab mm p = Some pb" "drm_buddy_block_is_split pb" "\<not> drm_buddy_block_is_clear pb"
        "do_get_buddy b mm = Some (Some y)" "slab mm y = Some yb" "y \<noteq> b" "p \<noteq> b" "p \<noteq> y" "parent yb = Some p"
        "(left pb = Some b \<and> right pb = Some y) \<or> (left pb = Some y \<and> right pb = Some b)"
        "drm_buddy_block_order yb = drm_buddy_block_order x" "Suc (drm_buddy_block_order x) = drm_buddy_block_order pb"
        "region mm x \<union> region mm yb = region mm pb"
      by (rule buddy_of [OF less.prems(1,4) Some])
    note u = merge_up_unfold [OF less.prems(4) Some k(4,5), of False]
    show ?thesis
    proof (cases "drm_buddy_block_is_free yb \<and> drm_buddy_block_is_clear x = drm_buddy_block_is_clear yb")
      case False
      then have "merge_up False b mm = Some (b, mm)"
        using u by auto
      then show ?thesis
        by (rule stop)
    next
      case True
      define pb' where "pb' = (if drm_buddy_block_is_clear x then with_clear pb else pb)"
      define mm2 where "mm2 = mm\<lparr>slab := (slab mm)(p \<mapsto> pb', b := None, y := None), free_list := map (remove1 y) (free_list mm)\<rparr>"
      have st: "merge_step False b x p y yb mm = Some mm2" "detached p mm2"
        using merge_step_ok [OF less.prems(1,4) Some k(1-3,5-8) conjunct1 [OF True] k(10), of False] by (simp_all add: mm2_def pb'_def)
      have m: "merged E (as_leaf p mm2)"
        by (rule merge_step_merged(1) [OF less.prems(1,4) Some k(1-3,5-8) conjunct1 [OF True] _ _ _ less.prems(2), of mm2 pb'])
          (simp_all add: mm2_def)
      have sb: "same_block pb pb'" and s2: "slab mm2 p = Some pb'" and sh: "same_shape mm mm2"
        using k(7,8) by (simp_all add: pb'_def same_block_def mm2_def same_shape_def)
      note e = same_shape_eqs [OF sh] and eb = same_block_eqs [OF sb]
      have t: "tree_ok {} (as_leaf b mm)" "slab (as_leaf b mm) p = Some pb"
        using less.prems(1) k(1,7) by (simp_all add: detached_def)
      note el = same_shape_eqs [OF same_shape_as_leaf(1) [of mm b]]
      have g: "geometry mm" "block_bytes mm pb dvd block_start pb" "drm_buddy_block_order pb \<le> max_order mm"
        using tree_okD2(1) [OF t(1)] tree_okD(2,3) [OF t] el by simp_all
      have up: "up_region mm x = region mm pb" "up_region mm yb = region mm pb"
        using up_region_parent [OF g(1,2), of x] up_region_parent [OF g(1,2), of yb] k(11-13) by auto
      have "max_order mm2 - drm_buddy_block_order pb' < max_order mm - drm_buddy_block_order x"
        using k(12) g(3) eb(5) by (simp add: mm2_def)
      moreover have "merge_up False p mm2 = Some (b', mm')"
        using u True st(1) less.prems(3) by simp
      ultimately have IH: "region mm2 pb' \<subseteq> region mm2 x'" "\<And>c z. slab mm2 c = Some z \<Longrightarrow>
          (\<exists>z'. slab mm' c = Some z' \<and> same_block z z') \<or> parent z \<noteq> None \<and> up_region mm2 z \<subseteq> region mm2 x'"
        using less.hyps [OF _ st(2) m _ s2 less.prems(5)] by blast+
      have top: "region mm pb \<subseteq> region mm x'"
        using IH(1) e(2) eb(3) by simp
      have "(\<exists>z'. slab mm' c = Some z' \<and> same_block z z') \<or> parent z \<noteq> None \<and> up_region mm z \<subseteq> region mm x'"
        if c: "slab mm c = Some z" for c z
      proof -
        consider "c = b" | "c = y" | "c = p" | "slab mm2 c = Some z"
          using c by (cases "c \<in> {b, y, p}") (auto simp: mm2_def)
        then show ?thesis
        proof cases
          case 1
          then show ?thesis
            using c less.prems(4) Some up(1) top by auto
        next
          case 2
          then show ?thesis
            using c k(5,9) up(2) top by auto
        next
          case 3
          then have "z = pb"
            using c k(1) by simp
          then show ?thesis
            using IH(2) [OF s2] 3 same_block_trans [OF sb] up_region_cong [OF sh sb] eb(4) e(2) by auto
        next
          case 4
          have "up_region mm2 z = up_region mm z"
            using e(1) by (simp add: up_region_def)
          then show ?thesis
            using IH(2) [OF 4] e(2) by simp
        qed
      qed
      then show ?thesis
        using top k(13) by blast
    qed
  qed
qed

lemma free_survives:
  assumes "detached b mm" "merged E (as_leaf b mm)" "do_drm_buddy_free False b mm = Some (n, mm')"
  shows "survives mm mm'"
proof -
  obtain b' mm1 where up: "merge_up False b mm = Some (b', mm1)" "detached b' mm1" "merge_rel False b mm b' mm1"
    using merge_up_ok [OF assms(1,2)] by blast
  obtain x x' where x: "slab mm b = Some x" "slab mm1 b' = Some x'" "same_shape mm mm1"
    using up(3) unfolding merge_rel_def by blast
  obtain mm2 fl where m: "mark_free b' mm1 = Some mm2"
      "mm2 = mm1\<lparr>slab := (slab mm1)(b' \<mapsto> with_state DRM_BUDDY_FREE x'), free_list := fl\<rparr>"
    by (rule mark_free_detached [OF up(2) x(2)])
  have mm': "mm' = mm2"
    using assms(3) up(1) x(2) m(1) by (simp add: do_drm_buddy_free_def Let_def)
  have "region mm2 (with_state DRM_BUDDY_FREE x') = region mm x'"
    using x(3) by (simp add: m(2) region_def block_bytes_def block_start_def same_shape_def)
  then have "region mm x' \<subseteq> free_space mm' {drm_buddy_block_is_clear x'}"
    using free_space_block [of mm2 b' "with_state DRM_BUDDY_FREE x'" "{drm_buddy_block_is_clear x'}"] by (simp add: mm' m(2))
  moreover have "\<exists>w. slab mm' c = Some w \<and> same_block z w" if "slab mm1 c = Some z" for c z
    using that x(2) by (auto simp: mm' m(2) same_block_def)
  ultimately show ?thesis
    using merge_up_frame [OF assms(1,2) up(1) x(1,2)] same_block_trans unfolding survives_def by (meson subset_trans)
qed

lemma free_block_survives:
  assumes "valid mm" "slab mm b = Some x" "drm_buddy_block_is_allocated x" "drm_buddy_free_block b mm = Some mm'"
  shows "survives mm mm'"
proof -
  define mm1 where "mm1 = add_clear_avail (drm_buddy_block_is_clear x) x (mm\<lparr>avail := avail mm + drm_buddy_block_size mm x\<rparr>)"
  have m1: "slab mm1 = slab mm" "same_shape mm mm1" "slab_next mm1 = slab_next mm" "free_list mm1 = free_list mm"
    by (simp_all add: mm1_def add_clear_avail_def same_shape_def)
  note v = validD [OF assms(1)]
  have s1: "slab mm1 b = Some x"
    using assms(2) m1(1) by simp
  note l = as_leaf_allocated [OF s1 assms(3)]
  have "tree_ok {} mm1"
    using tree_ok_cong [OF m1(2,1,3)] v(1) by simp
  moreover have "lists_ok {} mm1"
    by (rule lists_ok_cong [OF m1(4) _ _ _ v(2)]) (use m1(1,2) in \<open>auto simp: same_shape_def free_of_order_def offset_of_def\<close>)
  ultimately have d: "detached b mm1"
    using s1 by (simp add: detached_def l)
  have m: "merged {} (as_leaf b mm1)"
    using v(5) m1(1) by (simp add: l merged_def mergeable_def)
  obtain n where "do_drm_buddy_free False b mm1 = Some (n, mm')"
    using assms(2-4) by (auto simp: drm_buddy_free_block_def mm1_def Let_def split: bind_splits)
  then have "survives mm1 mm'"
    by (rule free_survives [OF d m])
  then show ?thesis
    using same_shape_eqs(1) [OF m1(2)] by (simp add: survives_def m1(1) up_region_def)
qed

lemma free_list_survives:
  assumes "valid mm" "distinct bs" "\<forall>b \<in> set bs. is_allocated mm b" "drm_buddy_free_list_internal bs mm = Some mm'"
  shows "survives mm mm'"
  using assms
proof (induction bs arbitrary: mm)
  case Nil
  then show ?case
    by (auto simp: drm_buddy_free_list_internal_def do_drm_buddy_free_list_def warn_on_def survives_def same_block_def)
next
  case (Cons b bs)
  obtain x where x: "slab mm b = Some x" "drm_buddy_block_is_allocated x"
    using Cons.prems(3) by (auto simp: is_allocated_def)
  obtain mm1 where f: "drm_buddy_free_block b mm = Some mm1" "valid mm1" "released {b} drm_buddy_block_is_clear mm mm1"
    by (rule free_block_ok [OF Cons.prems(1) x])
  note r = releasedD [OF f(3)]
  have al: "\<forall>c \<in> set bs. is_allocated mm1 c"
    using Cons.prems(2,3) r(3) unfolding is_allocated_def by (metis distinct.simps(2) list.set_intros(2) singletonD)
  have rest: "drm_buddy_free_list_internal bs mm1 = Some mm'"
    using Cons.prems(4) f(1) by (simp add: drm_buddy_free_list_internal_def do_drm_buddy_free_list_def warn_on_def)
  obtain mm2 where "drm_buddy_free_list_internal bs mm1 = Some mm2" "released (set bs) drm_buddy_block_is_clear mm1 mm2"
    by (rule free_list_internal_ok [OF f(2) _ al]) (use Cons.prems(2) in auto)
  then have "\<And>F. free_space mm1 F \<subseteq> free_space mm' F"
    using rest releasedD(5) by fastforce
  moreover have "survives mm1 mm'"
    using Cons.IH [OF f(2) _ al rest] Cons.prems(2) by simp
  ultimately show ?case
    using survives_trans [OF free_block_survives [OF Cons.prems(1) x f(1)] _ r(1)] by blast
qed

end
