(* ===== verification/Buddy_Harder.thy ===== *)
theory Buddy_Harder
  imports Buddy_Survive
begin

text \<open>
  The second attempt at a contiguous allocation (\<^verbatim>\<open>__alloc_contig_try_harder\<close>): for each free block of a large
  order, from the last to the first, the range that begins there is allocated as far as it is free, and the rest
  is taken from the space before it.
\<close>

section \<open>Undoing\<close>

lemma released_restored:
  assumes "released bs fl mm1 mm" "restored mm1 mm2" "\<forall>b \<in> bs. is_allocated mm1 b"
  shows "released bs fl mm2 mm"
proof -
  note r = releasedD [OF assms(1)] and t = assms(2) [unfolded restored_def]
  have e: "slab mm2 b = slab mm1 b" if "b \<in> bs" for b
    using that assms(3) t unfolding is_allocated_def by fastforce
  have sh: "same_shape mm1 mm2" "same_shape mm2 mm"
    using t r(1) by (auto simp: same_shape_def)
  note s = same_shape_eqs [OF sh(1)]
  have "(\<Sum>b \<in> bs. drm_buddy_block_size mm2 (the (slab mm2 b))) = (\<Sum>b \<in> bs. drm_buddy_block_size mm1 (the (slab mm1 b)))"
    by (rule sum.cong) (simp_all add: e s)
  moreover have "(\<Union>b \<in> {b \<in> bs. fl (the (slab mm2 b)) \<in> F}. region mm2 (the (slab mm2 b))) =
      (\<Union>b \<in> {b \<in> bs. fl (the (slab mm1 b)) \<in> F}. region mm1 (the (slab mm1 b)))" for F
    using e by (auto simp: s)
  ultimately show ?thesis
    using r t sh(2) unfolding released_def by auto
qed

lemma undo_claims_survives:
  assumes "valid mm1" "claims T S bs mm mm1" "restored mm1 mm2" "survives mm1 mm2" "valid mm2"
  obtains mm' where "drm_buddy_free_list_internal bs mm2 = Some mm'" "valid mm'" "restored mm mm'" "survives mm mm'"
proof -
  note c = claimsD [OF assms(2)]
  have al: "\<forall>b \<in> set bs. is_allocated mm2 b"
    using c(4) assms(3) unfolding restored_def is_allocated_def by blast
  obtain mm' where m: "drm_buddy_free_list_internal bs mm2 = Some mm'" "valid mm'" "released (set bs) drm_buddy_block_is_clear mm2 mm'"
    by (rule free_list_internal_ok [OF assms(5) c(2) al])
  have "released (set bs) drm_buddy_block_is_clear mm2 mm"
    using released_restored [OF c(1) assms(3)] c(4) by blast
  then have "restored mm mm'"
    using released_twice m(3) by blast
  moreover have "survives mm mm2"
    by (rule survives_trans [OF claims_survives [OF assms(2)] assms(4) claims_shape [OF assms(2)]])
      (use assms(3) in \<open>auto simp: restored_def\<close>)
  then have "survives mm mm'"
    by (rule survives_trans [OF _ free_list_survives [OF assms(5) c(2) al m(1)]])
      (use releasedD(5) [OF m(3)] same_shape_trans [OF claims_shape [OF assms(2)]] assms(3) in \<open>auto simp: restored_def\<close>)
  ultimately show ?thesis
    using that m(1,2) by blast
qed

lemma survives_refl [simp]: "survives mm mm"
  by (auto simp: survives_def same_block_def)

lemma alloc_range_undone:
  assumes "valid mm" "memory_ok mm" "extent_ok mm start sz" "\<not> extent start sz \<subseteq> free_space mm UNIV"
  obtains mm' where "do_drm_buddy_alloc_range start sz False blocks mm = Some (ENOSPC, None, blocks, mm')"
    "valid mm'" "restored mm mm'" "survives mm mm'"
proof (rule range_loop_outcome [OF assms(1-3)])
  fix err bs t mm1
  assume a: "alloc_range_loop start (start + sz - 1) 0 [] (roots mm) mm = Some (err, total_size mm1 bs, bs, mm1)"
    "valid mm1" "claims UNIV {} bs mm mm1" "err = OK \<or> err = ENOSPC"
    "(err = OK \<and> sz \<le> total_size mm1 bs) = (extent start sz \<subseteq> free_space mm UNIV)"
  obtain mm' where "drm_buddy_free_list_internal bs mm1 = Some mm'" "valid mm'" "restored mm mm'" "survives mm mm'"
    by (rule undo_claims_survives [OF a(2,3) restored_refl survives_refl a(2)])
  then show thesis
    by (intro that [of mm']) (use a(1,4,5) assms(4) in \<open>auto simp: do_drm_buddy_alloc_range_def do_alloc_range_def Let_def\<close>)
qed

section \<open>Sizes\<close>

lemma total_size_dvd:
  assumes "geometry mm"
  shows "unat (chunk_size mm) dvd unat (total_size mm bs)"
proof -
  obtain k where k: "unat (chunk_size mm) = 2 ^ k" "k < 64"
    by (rule geometryD [OF assms])
  have "\<exists>m. total_size mm bs = chunk_size mm * m"
  proof (induction bs)
    case (Cons b bs)
    then obtain m where "total_size mm bs = chunk_size mm * m"
      by blast
    then show ?case
      by (intro exI [of _ "2 ^ drm_buddy_block_order (the (slab mm b)) + m"])
        (simp add: drm_buddy_block_size_def push_bit_eq_mult algebra_simps)
  qed (auto intro: exI [of _ 0])
  then obtain m where "total_size mm bs = chunk_size mm * m"
    by blast
  then have "unat (total_size mm bs) = (2 ^ k * unat m) mod 2 ^ 64"
    using k(1) by (simp add: unat_word_ariths)
  moreover have "(2 :: nat) ^ k dvd 2 ^ 64"
    using k(2) by (intro le_imp_power_dvd) simp
  ultimately show ?thesis
    by (simp only: k(1) dvd_mod dvd_triv_left)
qed

text \<open>The size that is taken from the space before the block.\<close>

definition lhs_size :: "u64 \<Rightarrow> u64 \<Rightarrow> u64 \<Rightarrow> u64" where
  "lhs_size sz filled min_block_size = aligned_up (max (sz - filled) min_block_size) min_block_size"

lemma lhs_size_bounds:
  assumes "geometry mm" "unat min_block_size = 2 ^ k" "unat (chunk_size mm) \<le> unat min_block_size" "unat sz \<le> 2 ^ 63" "filled \<le> sz"
  shows "unat sz \<le> unat (lhs_size sz filled min_block_size) + unat filled" "unat (lhs_size sz filled min_block_size) \<le> 2 ^ 63"
    "unat (chunk_size mm) dvd unat (lhs_size sz filled min_block_size)" "lhs_size sz filled min_block_size \<noteq> 0"
proof -
  let ?m = "max (sz - filled) min_block_size"
  obtain j where j: "unat (chunk_size mm) = 2 ^ j"
    by (rule geometryD [OF assms(1)])
  have "k \<le> 63"
    using pow2_word(3) [OF assms(2)] by simp
  then have "(2 :: nat) ^ k \<le> 2 ^ 63"
    by (rule power_increasing) simp
  moreover have m: "unat ?m = max (unat sz - unat filled) (2 ^ k)"
    using assms(2,5) by (simp add: max_def word_le_nat_alt unat_sub)
  ultimately have "unat ?m \<le> 2 ^ 63"
    using assms(4) by simp
  note a = aligned_up_bounds [OF assms(2) this, folded lhs_size_def]
  show "unat sz \<le> unat (lhs_size sz filled min_block_size) + unat filled"
    using a(1) m by linarith
  show "unat (lhs_size sz filled min_block_size) \<le> 2 ^ 63"
    by (rule a(2))
  have "j \<le> k"
    using assms(2,3) j by simp
  then have "(2 :: nat) ^ j dvd 2 ^ k"
    by (rule le_imp_power_dvd)
  then show "unat (chunk_size mm) dvd unat (lhs_size sz filled min_block_size)"
    using a(3) j dvd_trans by metis
  have "0 < unat ?m"
    using m by (simp add: less_max_iff_disj)
  then show "lhs_size sz filled min_block_size \<noteq> 0"
    using a(1) by auto
qed

lemma extent_before:
  assumes "geometry mm" "unat (mm_size mm) \<le> 2 ^ 63" "unat (chunk_size mm) dvd unat off" "unat (chunk_size mm) dvd unat l"
    and "l \<noteq> 0" "unat l \<le> 2 ^ 63"
  shows "extent_ok mm (off - l) l" "extent (off - l) l \<subseteq> {0 ..< unat (mm_size mm)} \<Longrightarrow> unat l \<le> unat off \<and> unat (off - l) = unat off - unat l"
proof -
  obtain k where k: "unat (chunk_size mm) = 2 ^ k" "k < 64"
    by (rule geometryD [OF assms(1)])
  have "(2 :: nat) ^ k dvd 2 ^ 64"
    using k(2) by (intro le_imp_power_dvd) simp
  then have c: "unat (chunk_size mm) dvd 2 ^ 64"
    by (simp only: k(1))
  have u: "unat (off - l) = (if unat l \<le> unat off then unat off - unat l else unat off + 2 ^ 64 - unat l)"
    by (simp add: unat_sub_if')
  have "unat (chunk_size mm) dvd unat (off - l)"
    unfolding u using assms(3,4) c by (simp add: dvd_diff_nat del: power_numeral)
  moreover have "unat (off - l) + unat l \<le> 2 ^ 64 \<or> unat (mm_size mm) \<le> unat (off - l)"
    using u assms(2,6) unat_u64 [of off] by (auto split: if_splits)
  ultimately show "extent_ok mm (off - l) l"
    using assms(4,5) by (simp add: extent_ok_def)
  have "unat (off - l) \<in> extent (off - l) l"
    using assms(5) by (simp add: extent_def unat_gt_0)
  then show "extent (off - l) l \<subseteq> {0 ..< unat (mm_size mm)} \<Longrightarrow> unat l \<le> unat off \<and> unat (off - l) = unat off - unat l"
    using u assms(2,6) by (auto split: if_splits dest!: subsetD)
qed

section \<open>The loop\<close>

lemma taken_swap:
  assumes "taken (bs @ cs) mm mm'"
  shows "taken (cs @ bs) mm mm'"
proof -
  have "total_size mm' (cs @ bs) = total_size mm' (bs @ cs)" "set (cs @ bs) = set (bs @ cs)" "distinct (cs @ bs) = distinct (bs @ cs)"
    by (auto simp: add.commute)
  then show ?thesis
    using assms unfolding taken_def by simp
qed

lemma restored_taken: "restored mm mm' \<Longrightarrow> taken [] mm mm'"
  using kept_taken restored_kept by blast

text \<open>The blocks make up one interval of at least \<open>n\<close> bytes.\<close>

definition one_piece :: "drm_buddy \<Rightarrow> nat list \<Rightarrow> nat \<Rightarrow> bool" where
  "one_piece mm bs n \<longleftrightarrow> (\<exists>s m. (\<Union>b \<in> set bs. region_of mm b) = {s ..< s + m} \<and> n \<le> m)"

definition harder_result :: "u64 \<Rightarrow> drm_buddy \<Rightarrow> errno \<Rightarrow> nat list \<Rightarrow> drm_buddy \<Rightarrow> bool" where
  "harder_result sz mm err bs mm' \<longleftrightarrow> valid mm' \<and>
     (err = OK \<and> taken bs mm mm' \<and> one_piece mm' bs (unat sz) \<or> err = ENOSPC \<and> bs = [] \<and> restored mm mm')"

lemma harder_result_restored: "restored mm mm1 \<Longrightarrow> harder_result sz mm1 err bs mm' \<Longrightarrow> harder_result sz mm err bs mm'"
  using taken_trans [OF restored_taken] restored_trans unfolding harder_result_def by fastforce

lemma try_harder_unfold:
  assumes "slab mm b = Some x"
  shows "try_harder_loop order sz min_block_size (Some b) [] mm =
    do { (err, filled, blocks, mm) \<leftarrow> do_drm_buddy_alloc_range (drm_buddy_block_offset x) sz True [] mm;
         if err \<noteq> ENOSPC then Some (err, blocks, mm)
         else do {
           filled \<leftarrow> filled;
           block \<leftarrow> slab mm b;
           (err, _, blocks_lhs, mm) \<leftarrow>
             do_drm_buddy_alloc_range (drm_buddy_block_offset block - lhs_size sz filled min_block_size) (lhs_size sz filled min_block_size) False [] mm;
           if err = OK then Some (OK, blocks_lhs @ blocks, mm)
           else do {
             mm \<leftarrow> drm_buddy_free_list_internal blocks mm;
             if err \<noteq> ENOSPC then Some (err, [], mm)
             else if b \<in> set (free_list mm ! order)
             then try_harder_loop order sz min_block_size (list_prev b (free_list mm ! order)) [] mm
             else None } } }"
  unfolding lhs_size_def aligned_up_def by (subst try_harder_loop.simps) (simp only: assms Let_def option.case bind.bind_lunit)

lemma harder_pieces:
  assumes "(\<Union>b \<in> set bs. region_of mm b) = extent off sz \<inter> {0 ..< t}" "(\<Union>b \<in> set cs. region_of mm b) = extent (off - l) l"
    and "unat l \<le> unat off" "unat (off - l) = unat off - unat l" "unat sz \<le> unat l + card (extent off sz \<inter> {0 ..< t})"
  shows "one_piece mm (cs @ bs) (unat sz)"
proof -
  define e where "e = max (unat off) (min (unat off + unat sz) t)"
  have r: "extent off sz \<inter> {0 ..< t} = {unat off ..< e}" "extent (off - l) l = {unat off - unat l ..< unat off}"
    using assms(3,4) by (auto simp: extent_def e_def)
  then have "(\<Union>b \<in> set (cs @ bs). region_of mm b) = {unat off - unat l ..< unat off} \<union> {unat off ..< e}"
    using assms(1,2) by auto
  also have "\<dots> = {unat off - unat l ..< unat off - unat l + (unat l + (e - unat off))}"
    using assms(3) by (subst ivl_disj_un) (auto simp: e_def)
  finally show ?thesis
    using assms(5) r(1) unfolding one_piece_def by (metis card_atLeastLessThan)
qed

definition harder_args :: "u64 \<Rightarrow> u64 \<Rightarrow> drm_buddy \<Rightarrow> bool" where
  "harder_args sz min_block_size mm \<longleftrightarrow> unat (mm_size mm) \<le> 2 ^ 63 \<and> sz \<noteq> 0 \<and> unat (chunk_size mm) dvd unat sz \<and>
     unat sz \<le> 2 ^ 63 \<and> is_power_of_2 min_block_size \<and> chunk_size mm \<le> min_block_size"

text \<open>One attempt that fails restores the state, and the block is free again.\<close>

lemma try_harder_step:
  assumes v: "valid mm" "memory_ok mm" "harder_args sz min_block_size mm" and i: "order \<le> max_order mm" "b \<in> set (free_list mm ! order)"
  shows "(\<exists>bs mm'. try_harder_loop order sz min_block_size (Some b) [] mm = Some (OK, bs, mm') \<and> harder_result sz mm OK bs mm') \<or>
    (\<exists>mm'. try_harder_loop order sz min_block_size (Some b) [] mm =
        try_harder_loop order sz min_block_size (list_prev b (free_list mm' ! order)) [] mm' \<and>
      valid mm' \<and> restored mm mm' \<and> b \<in> set (free_list mm' ! order) \<and> offset_of mm' b = offset_of mm b)"
proof -
  note ok = validD [OF v(1)] and g = tree_okD2(1) [OF validD(1) [OF v(1)]]
  have a: "unat (mm_size mm) \<le> 2 ^ 63" "sz \<noteq> 0" "unat (chunk_size mm) dvd unat sz" "unat sz \<le> 2 ^ 63"
      "unat (chunk_size mm) \<le> unat min_block_size"
    using v(3) by (simp_all add: harder_args_def word_le_nat_alt)
  obtain k where k: "unat min_block_size = 2 ^ k"
    using v(3) is_power_of_2_iff by (auto simp: harder_args_def)
  obtain x where x: "slab mm b = Some x" "drm_buddy_block_is_free x" "drm_buddy_block_order x = order"
    by (rule free_list_entry [OF ok(2) i])
  let ?off = "drm_buddy_block_offset x"
  have off: "unat (chunk_size mm) dvd unat ?off" "unat ?off < 2 ^ 63"
  proof -
    show "unat (chunk_size mm) dvd unat ?off"
      using tree_okD(3) [OF ok(1) x(1)] by (auto simp: block_bytes_def block_start_def elim!: dvd_mult_left)
    show "unat ?off < 2 ^ 63"
      using tree_okD(4) [OF ok(1) x(1)] chunk_dvd(4) [OF g, of x] a(1) by (simp add: block_start_def)
  qed
  then have ext: "extent_ok mm ?off sz"
    using a(2-4) by (simp add: extent_ok_def)
  note u = try_harder_unfold [OF x(1), of order sz min_block_size]
  show ?thesis
  proof (cases "extent ?off sz \<subseteq> free_space mm UNIV")
    case True
    obtain bs mm' where r: "do_drm_buddy_alloc_range ?off sz True [] mm = Some (OK, None, [] @ bs, mm')"
        "valid mm'" "claims UNIV {} bs mm mm'" "(\<Union>b \<in> set bs. region_of mm' b) = extent ?off sz"
      by (rule alloc_range_succeeds [OF v(1,2) ext True])
    then have "harder_result sz mm OK bs mm'"
      using claims_taken [OF r(3)] by (auto simp: harder_result_def one_piece_def extent_def)
    then show ?thesis
      using u r(1) by auto
  next
    case False
    obtain bs mm1 t where r: "do_drm_buddy_alloc_range ?off sz True [] mm = Some (ENOSPC, Some (total_size mm1 bs), [] @ bs, mm1)"
        "valid mm1" "claims UNIV {} bs mm mm1" "(\<Union>b \<in> set bs. region_of mm1 b) = extent ?off sz \<inter> {0 ..< t}"
      by (rule alloc_range_partial [OF v(1,2) ext False])
    let ?l = "lhs_size sz (total_size mm1 bs) min_block_size"
    have al: "\<forall>b \<in> set bs. is_allocated mm1 b"
      using claimsD(4) [OF r(3)] by blast
    have fil: "unat (total_size mm1 bs) = card (extent ?off sz \<inter> {0 ..< t})"
      using total_size_card(1) [OF validD(1) [OF r(2)] claimsD(2) [OF r(3)] al] r(4) by simp
    also have "\<dots> \<le> unat sz"
      using card_mono [of "extent ?off sz" "extent ?off sz \<inter> {0 ..< t}"] by (simp add: extent_def)
    finally have le: "total_size mm1 bs \<le> sz"
      by (simp add: word_le_nat_alt)
    note l = lhs_size_bounds [OF g k a(5,4) le]
    note sh = claims_shape [OF r(3)]
    obtain x1 where x1: "slab mm1 b = Some x1" "same_block x x1"
      by (rule claims_block [OF r(3) x(1)])
    have e: "drm_buddy_block_offset x1 = ?off"
      using x1(2) by (simp add: same_block_def)
    have mm1: "geometry mm1" "unat (mm_size mm1) \<le> 2 ^ 63" "unat (chunk_size mm1) dvd unat ?off" "unat (chunk_size mm1) dvd unat ?l" "memory_ok mm1"
      using g a(1) off(1) l(3) sh v(2) memory_ok_cong [OF sh] by (simp_all add: same_shape_def geometry_def)
    note eb = extent_before [OF mm1(1-4) l(4,2)]
    show ?thesis
    proof (cases "extent (?off - ?l) ?l \<subseteq> free_space mm1 UNIV")
      case True
      obtain cs mm2 where c: "do_drm_buddy_alloc_range (?off - ?l) ?l False [] mm1 = Some (OK, None, [] @ cs, mm2)"
          "valid mm2" "claims UNIV {} cs mm1 mm2" "(\<Union>b \<in> set cs. region_of mm2 b) = extent (?off - ?l) ?l"
        by (rule alloc_range_succeeds [OF r(2) mm1(5) eb(1) True])
      have "extent (?off - ?l) ?l \<subseteq> {0 ..< unat (mm_size mm1)}"
        using True free_space_card(2) [OF validD(1) [OF r(2)]] by blast
      note w = eb(2) [OF this]
      have "(\<Union>b \<in> set bs. region_of mm2 b) = extent ?off sz \<inter> {0 ..< t}"
        using r(4) claims_total_size(2) [OF c(3) al] by simp
      then have "one_piece mm2 (cs @ bs) (unat sz)"
        by (rule harder_pieces [OF _ c(4)]) (use w l(1) fil in simp_all)
      moreover have "taken (cs @ bs) mm mm2"
        by (rule taken_swap [OF taken_trans [OF claims_taken [OF r(3)] claims_taken [OF c(3)]]])
      ultimately have "harder_result sz mm OK (cs @ bs) mm2"
        using c(2) by (simp add: harder_result_def)
      then show ?thesis
        using u r(1) x1(1) e c(1) by auto
    next
      case False
      obtain mm2 where c: "do_drm_buddy_alloc_range (?off - ?l) ?l False [] mm1 = Some (ENOSPC, None, [], mm2)"
          "valid mm2" "restored mm1 mm2" "survives mm1 mm2"
        by (rule alloc_range_undone [OF r(2) mm1(5) eb(1) False])
      obtain mm3 where m: "drm_buddy_free_list_internal bs mm2 = Some mm3" "valid mm3" "restored mm mm3" "survives mm mm3"
        by (rule undo_claims_survives [OF r(2,3) c(3,4,2)])
      obtain x3 where x3: "slab mm3 b = Some x3" "same_block x x3" "drm_buddy_block_is_free x3"
        by (rule free_block_back [OF v(1) m(2) _ _ m(4) x(1,2)]) (use m(3) in \<open>auto simp: restored_def\<close>)
      have "order \<le> max_order mm3"
        using i(1) m(3) by (simp add: restored_def same_shape_def)
      then have b3: "b \<in> set (free_list mm3 ! order)"
        using lists_okD(4) [OF validD(2) [OF m(2)]] x3 x(3) by (auto simp: free_of_order_def same_block_def)
      moreover have "offset_of mm3 b = offset_of mm b"
        using x3(1,2) x(1) by (simp add: offset_of_def same_block_def)
      moreover have "try_harder_loop order sz min_block_size (Some b) [] mm =
          try_harder_loop order sz min_block_size (list_prev b (free_list mm3 ! order)) [] mm3"
        using u r(1) x1(1) e c(1) m(1) b3 by simp
      ultimately show ?thesis
        using m(2,3) by blast
    qed
  qed
qed

lemma try_harder_loop_ok:
  assumes "valid mm" "memory_ok mm" "harder_args sz min_block_size mm" "order \<le> max_order mm"
    "\<forall>b. pos = Some b \<longrightarrow> b \<in> set (free_list mm ! order)"
  shows "\<exists>err bs mm'. try_harder_loop order sz min_block_size pos [] mm = Some (err, bs, mm') \<and> harder_result sz mm err bs mm'"
  using assms
proof (induction "pos_start mm pos" arbitrary: pos mm rule: less_induct)
  case less
  show ?case
  proof (cases pos)
    case None
    then have "try_harder_loop order sz min_block_size pos [] mm = Some (ENOSPC, [], mm)"
      by (subst try_harder_loop.simps) simp
    then show ?thesis
      using less.prems(1) by (auto simp: harder_result_def)
  next
    case (Some b)
    then have b: "b \<in> set (free_list mm ! order)"
      using less.prems(5) by simp
    have "\<exists>err bs mm'. try_harder_loop order sz min_block_size (Some b) [] mm = Some (err, bs, mm') \<and> harder_result sz mm err bs mm'"
      using try_harder_step [OF less.prems(1-4) b]
    proof (elim disjE exE conjE)
      fix mm1 :: drm_buddy
      let ?pos = "list_prev b (free_list mm1 ! order)"
      assume s: "try_harder_loop order sz min_block_size (Some b) [] mm = try_harder_loop order sz min_block_size ?pos [] mm1"
        "valid mm1" "restored mm mm1" "b \<in> set (free_list mm1 ! order)" "offset_of mm1 b = offset_of mm b"
      have sh: "same_shape mm mm1"
        using s(3) by (simp add: restored_def)
      have o1: "order \<le> max_order mm1"
        using less.prems(4) sh by (simp add: same_shape_def)
      note ok1 = validD [OF s(2)]
      have bs: "block_start (the (slab mm1 b)) = block_start (the (slab mm b))"
        by (rule free_list_entry [OF ok1(2) o1 s(4)], rule free_list_entry [OF validD(2) [OF less.prems(1)] less.prems(4) b])
          (use s(5) in \<open>simp add: offset_of_def block_start_def\<close>)
      have pr: "c \<in> set (free_list mm1 ! order) \<and> block_start (the (slab mm1 c)) < block_start (the (slab mm1 b))" if "?pos = Some c" for c
        using list_prev_sorted [OF free_list_increasing [OF ok1(1,2) o1] that] by simp
      have "pos_start mm1 ?pos < pos_start mm pos"
        using pr bs Some by (auto simp: pos_start_def split: option.split)
      moreover have "memory_ok mm1" "harder_args sz min_block_size mm1"
        using less.prems(2,3) sh by (simp_all add: memory_ok_def harder_args_def same_shape_def)
      ultimately obtain err bs mm' where "try_harder_loop order sz min_block_size ?pos [] mm1 = Some (err, bs, mm')"
          "harder_result sz mm1 err bs mm'"
        using less.hyps [of mm1 ?pos] s(2) o1 pr by blast
      then show "\<exists>err bs mm'. try_harder_loop order sz min_block_size (Some b) [] mm = Some (err, bs, mm') \<and> harder_result sz mm err bs mm'"
        using s(1) harder_result_restored [OF s(3)] by auto
    qed auto
    then show ?thesis
      using Some by simp
  qed
qed

lemma unat_drop_bit: "unat (drop_bit k (w :: u64)) = unat w div 2 ^ k"
  using unsigned_drop_bit_eq [of k w, where ?'a = nat] drop_bit_eq_div [of k "unat w"] unat_u64 [of w]
  by (simp add: take_bit_nat_eq_self)

lemma order_of_pages_unique:
  assumes "2 ^ j \<le> unat pages" "unat pages < 2 ^ Suc j" "unat pages < 2 ^ 32"
  shows "order_of_pages pages = j"
proof -
  have "(0 :: nat) < 2 ^ j"
    by simp
  then have "0 < unat pages"
    using assms(1) by linarith
  note b = order_of_pages_bounds [OF this assms(3)]
  have "(2 :: nat) ^ order_of_pages pages < 2 ^ Suc j" "(2 :: nat) ^ j < 2 ^ Suc (order_of_pages pages)"
    using b assms(1,2) by linarith+
  then have "order_of_pages pages < Suc j" "j < Suc (order_of_pages pages)"
    by (simp_all only: power_strict_increasing_iff one_less_numeral_iff semiring_norm)
  then show ?thesis
    by simp
qed

lemma try_harder_ok:
  assumes "valid mm" "memory_ok mm" "harder_args sz min_block_size mm"
    and "unat (chunk_size mm) \<le> unat sz" "unat sz div unat (chunk_size mm) < 2 ^ 32" "unat sz < 2 ^ Suc (max_order mm) * unat (chunk_size mm)"
  shows "\<exists>err bs mm'. do_alloc_contig_try_harder sz min_block_size [] mm = Some (err, bs, mm') \<and> harder_result sz mm err bs mm'"
proof -
  note g = tree_okD2(1) [OF validD(1) [OF assms(1)]]
  obtain k where k: "unat (chunk_size mm) = 2 ^ k"
    by (rule geometryD [OF g])
  have sz: "sz \<noteq> 0"
    using assms(3) by (simp add: harder_args_def)
  define n where "n = ilog2 sz"
  have b: "2 ^ n \<le> unat sz" "unat sz < 2 ^ Suc n" "n < 64"
    using ilog2_bounds [OF sz] by (simp_all add: n_def)
  have "(2 :: nat) ^ k < 2 ^ Suc n"
    using assms(4) b(2) k by linarith
  then have kn: "k \<le> n"
    using nat_power_less_imp_less [of 2 k "Suc n"] by simp
  define pages where "pages = drop_bit (ilog2 (chunk_size mm)) (rounddown_pow_of_two sz)"
  have "unat pages = 2 ^ n div 2 ^ k"
    using unat_rounddown_pow_of_two [OF sz] ilog2_pow2 [OF k] by (simp add: pages_def unat_drop_bit n_def)
  then have pg: "unat pages = 2 ^ (n - k)"
    using kn by (simp add: power_diff)
  have "(2 :: nat) ^ n div 2 ^ k \<le> unat sz div 2 ^ k"
    by (rule div_le_mono [OF b(1)])
  then have lt: "unat pages < 2 ^ 32"
    using assms(5) k \<open>unat pages = 2 ^ n div 2 ^ k\<close> by simp
  have ord: "order_of_pages pages = n - k"
    by (rule order_of_pages_unique [OF _ _ lt]) (simp_all add: pg)
  have "(2 :: nat) ^ n < 2 ^ (Suc (max_order mm) + k)"
    using order.strict_trans1 [OF b(1) assms(6)] unfolding k power_add .
  then have "n < Suc (max_order mm) + k"
    by (rule power_less_imp_less_exp [rotated]) simp
  then have o: "order_of_pages pages \<le> max_order mm" "order_of_pages pages < length (free_list mm)"
    using ord lists_okD(1) [OF validD(2) [OF assms(1)], of "n - k"] by simp_all
  have e: "do_alloc_contig_try_harder sz min_block_size [] mm =
      (if order_of_pages pages = 0 \<or> free_list mm ! order_of_pages pages = [] then Some (ENOSPC, [], mm)
       else try_harder_loop (order_of_pages pages) sz min_block_size (list_last (free_list mm ! order_of_pages pages)) [] mm)"
    using o(2) by (simp add: do_alloc_contig_try_harder_def Let_def pages_def)
  have "\<exists>err bs mm'. try_harder_loop (order_of_pages pages) sz min_block_size (list_last (free_list mm ! order_of_pages pages)) [] mm =
      Some (err, bs, mm') \<and> harder_result sz mm err bs mm'"
    by (rule try_harder_loop_ok [OF assms(1-3) o(1)]) (simp add: list_last_def)
  then show ?thesis
    using e assms(1) by (auto simp: harder_result_def)
qed

end
