(* ===== verification/Buddy_Alloc.thy ===== *)
theory Buddy_Alloc
  imports Buddy_Harder
begin

text \<open>
  The entry point \<^verbatim>\<open>drm_buddy_alloc_blocks\<close>: checking and rounding the request, trimming what was rounded up, and
  undoing an allocation that fails.
\<close>

section \<open>Checked and rounded requests\<close>

lemma IS_ALIGNED_or: "IS_ALIGNED (a OR b) w \<longleftrightarrow> IS_ALIGNED a w \<and> IS_ALIGNED b w"
  by (simp add: IS_ALIGNED_def bit.conj_disj_distrib2 or_eq_0_iff)

lemma alloc_params:
  assumes "geometry mm" "alloc_params_valid start end sz min_block_size mm"
  obtains c k where "unat (chunk_size mm) = 2 ^ c" "unat min_block_size = 2 ^ k" "c \<le> k" "unat (chunk_size mm) \<le> unat sz"
    "unat (chunk_size mm) dvd unat start" "unat (chunk_size mm) dvd unat end" "unat (chunk_size mm) dvd unat sz"
    "unat end \<le> unat (mm_size mm)" "unat start + unat sz \<le> unat (mm_size mm)" "sz \<noteq> 0"
proof -
  note p = assms(2) [unfolded alloc_params_valid_def]
  obtain c where c: "unat (chunk_size mm) = 2 ^ c"
    by (rule geometryD [OF assms(1)])
  obtain k where k: "unat min_block_size = 2 ^ k"
    using p is_power_of_2_iff by blast
  have le: "unat (chunk_size mm) \<le> unat min_block_size" "unat (chunk_size mm) \<le> unat sz" "unat end \<le> unat (mm_size mm)"
    using p by (simp_all add: word_le_nat_alt not_less)
  then have "(2 :: nat) ^ c \<le> 2 ^ k"
    by (simp add: c k)
  then have ck: "c \<le> k"
    by simp
  have al: "IS_ALIGNED start (chunk_size mm)" "IS_ALIGNED end (chunk_size mm)" "IS_ALIGNED sz (chunk_size mm)"
    using p by (simp_all add: IS_ALIGNED_or)
  have "start < mm_size mm" "sz \<le> mm_size mm - start"
    using p by (auto simp: range_overflows_def)
  then have sum: "unat start + unat sz \<le> unat (mm_size mm)"
    by (simp add: word_less_nat_alt word_le_nat_alt unat_sub)
  have "sz \<noteq> 0"
    using le(2) c by auto
  then show ?thesis
    using that [OF c k ck le(2)] al le(3) sum IS_ALIGNED_iff [OF c] c by simp
qed

definition contiguous :: "u64 \<Rightarrow> bool" where
  "contiguous flags \<longleftrightarrow> flags AND DRM_BUDDY_CONTIGUOUS_ALLOCATION \<noteq> 0"

definition ranged :: "u64 \<Rightarrow> bool" where
  "ranged flags \<longleftrightarrow> flags AND DRM_BUDDY_RANGE_ALLOCATION \<noteq> 0"

definition trims :: "u64 \<Rightarrow> bool" where
  "trims flags \<longleftrightarrow> flags AND DRM_BUDDY_TRIM_DISABLE = 0"

lemma rounded:
  assumes "unat min_block_size = 2 ^ k" "sz \<noteq> 0" "unat sz \<le> 2 ^ 63" "c \<le> k" "2 ^ c dvd unat sz" "2 ^ c \<le> unat sz"
  obtains rsz m j where "rounded_sizes sz min_block_size flags = (rsz, m)" "unat m = 2 ^ j" "c \<le> j" "2 ^ j dvd unat rsz"
    "unat sz \<le> unat rsz" "unat rsz < unat sz + 2 ^ j" "contiguous flags \<Longrightarrow> unat rsz = 2 ^ j"
proof (cases "contiguous flags")
  case True
  obtain j where j: "unat (roundup_pow_of_two sz) = 2 ^ j" "unat sz \<le> 2 ^ j" "2 ^ j < 2 * unat sz"
    by (rule roundup_pow_of_two_bounds [OF assms(2,3)])
  have "(2 :: nat) ^ c \<le> 2 ^ j"
    using assms(6) j(2) by linarith
  then have "c \<le> j"
    by simp
  moreover have "2 ^ j < unat sz + 2 ^ j"
    using assms(2) by (simp add: unat_gt_0)
  moreover have "rounded_sizes sz min_block_size flags = (roundup_pow_of_two sz, roundup_pow_of_two sz)"
    using True by (simp add: rounded_sizes_def contiguous_def)
  ultimately show ?thesis
    using that [of "roundup_pow_of_two sz" "roundup_pow_of_two sz" j] j by simp
next
  case False
  have e: "rounded_sizes sz min_block_size flags = (aligned_up sz min_block_size, min_block_size)"
    using False by (simp add: rounded_sizes_def contiguous_def aligned_up_def)
  note a = aligned_up_bounds [OF assms(1,3)]
  show ?thesis
    by (rule that [OF e assms(1,4) a(3,1,4)]) (use False in simp)
qed

section \<open>Trimming the last block\<close>

text \<open>The blocks are the taken ones, and make up \<open>sz\<close> bytes within \<open>A\<close>.\<close>

lemma trim_last:
  assumes "valid mm1" "memory_ok mm1" "taken (as @ [b]) mm mm1" "slab mm1 b = Some x"
    and "t \<noteq> 0" "unat (chunk_size mm1) dvd unat t" "t < drm_buddy_block_size mm1 x"
  obtains bs mm' where "drm_buddy_block_trim None t [b] mm1 = Some (OK, bs, mm')" "valid mm'" "taken (as @ bs) mm mm'"
    "total_size mm' (as @ bs) + drm_buddy_block_size mm1 x = total_size mm1 (as @ [b]) + t"
    "\<And>c. c \<in> set as \<Longrightarrow> region_of mm' c = region_of mm1 c" "\<And>c. c \<in> set bs \<Longrightarrow> region_of mm' c \<subseteq> region_of mm1 b"
    "(\<Union>c \<in> set bs. region_of mm' c) = {block_start x ..< block_start x + unat t}"
proof -
  note ok = validD(1) [OF assms(1)]
  have al: "drm_buddy_block_is_allocated x"
    using takenD(4) [OF assms(3), of b] assms(4) by (simp add: is_allocated_def)
  have lt: "unat t < block_bytes mm1 x"
    using assms(7) unat_block_size [OF ok assms(4)] by (simp add: word_less_nat_alt)
  have "unat (chunk_size mm1) dvd block_start x"
    using tree_okD(3) [OF ok assms(4)] by (auto simp: block_bytes_def elim!: dvd_mult_left)
  moreover have "block_start x + unat t \<le> 2 ^ 64"
    using tree_okD(4) [OF ok assms(4)] lt unat_u64 [of "mm_size mm1"] by linarith
  moreover have ex: "extent (trim_start None x) t = {block_start x ..< block_start x + unat t}"
    by (simp add: extent_def trim_start_def block_start_def)
  ultimately have acc: "trim_accepts None t x mm1"
    using assms(5,6) lt by (auto simp: trim_accepts_def extent_ok_def trim_start_def block_start_def region_def)
  obtain bs mm' where t: "drm_buddy_block_trim None t [b] mm1 = Some (OK, bs, mm')" "valid mm'"
      "trimmed b bs (extent (trim_start None x) t) mm1 mm'"
    by (rule block_trim_ok [OF assms(1,2,4) al acc]) (use assms(7) in auto)
  note r = t(3) [unfolded trimmed_def]
  have al': "\<forall>c \<in> set bs. is_allocated mm' c" "distinct bs" "(\<Union>c \<in> set bs. region_of mm' c) = extent (trim_start None x) t"
      "extent (trim_start None x) t \<subseteq> region_of mm1 b" "same_shape mm1 mm'"
    using r by blast+
  have "unat (total_size mm' bs) = unat t"
    using total_size_card(1) [OF validD(1) [OF t(2)] al'(2,1)] al'(3) ex by simp
  then have sz: "total_size mm' bs = t"
    by (simp add: word_unat_eq_iff)
  note tt = taken_trimmed [OF assms(3) t(3)]
  have as: "region_of mm' c = region_of mm1 c" if c: "c \<in> set as" for c
  proof -
    obtain z where z: "slab mm1 c = Some z" "drm_buddy_block_is_allocated z" "c \<noteq> b"
      using takenD(3,4) [OF assms(3)] c by (fastforce simp: is_allocated_def)
    then have "slab mm' c = Some z"
      using r by blast
    moreover have "region mm' = region mm1"
      by (rule same_shape_eqs(2) [OF al'(5)])
    ultimately show ?thesis
      using z(1) by (simp add: region_of_def)
  qed
  have "total_size mm' (as @ bs) + drm_buddy_block_size mm1 x = total_size mm1 (as @ [b]) + t"
    using tt(2) sz assms(4) by simp
  then show ?thesis
    by (rule that [OF t(1,2) tt(1) _ as]) (use al'(3,4) ex in auto)
qed

lemma trim_allocated_ok:
  assumes "valid mm1" "memory_ok mm1" "taken bs mm mm1" "bs \<noteq> []" "total_size mm1 bs = rsz" "sz < rsz"
    and "slab mm1 (last bs) = Some x" "rsz - sz < drm_buddy_block_size mm1 x"
    and "unat (chunk_size mm1) dvd unat sz" "unat (chunk_size mm1) dvd unat rsz"
  obtains bs' mm' where "trim_allocated sz rsz bs mm1 = Some (bs', mm')" "valid mm'" "taken bs' mm mm'" "total_size mm' bs' = sz"
    "\<And>c. c \<in> set bs' \<Longrightarrow> \<exists>d \<in> set bs. region_of mm' c \<subseteq> region_of mm1 d"
    "length bs = 1 \<Longrightarrow> one_piece mm' bs' (unat sz)"
proof -
  let ?b = "last bs" and ?t = "drm_buddy_block_size mm1 x - (rsz - sz)"
  note ok = validD(1) [OF assms(1)]
  have bs: "butlast bs @ [?b] = bs"
    using assms(4) by simp
  have ut: "unat ?t = block_bytes mm1 x - (unat rsz - unat sz)" "unat (rsz - sz) = unat rsz - unat sz"
    using assms(6,8) unat_block_size [OF ok assms(7)] by (simp_all add: unat_sub word_less_nat_alt word_le_nat_alt)
  have lt: "unat rsz - unat sz < block_bytes mm1 x" "unat sz < unat rsz"
    using assms(6,8) ut(2) unat_block_size [OF ok assms(7)] by (simp_all add: word_less_nat_alt)
  have "unat (chunk_size mm1) dvd block_bytes mm1 x"
    by (simp add: block_bytes_def)
  then have t: "?t \<noteq> 0" "unat (chunk_size mm1) dvd unat ?t" "?t < drm_buddy_block_size mm1 x"
    using ut lt assms(9,10) unat_block_size [OF ok assms(7)] by (auto simp: word_less_nat_alt intro!: dvd_diff_nat)
  have tk: "taken (butlast bs @ [?b]) mm mm1"
    using assms(3) bs by simp
  obtain cs mm' where r: "drm_buddy_block_trim None ?t [?b] mm1 = Some (OK, cs, mm')" "valid mm'" "taken (butlast bs @ cs) mm mm'"
    "total_size mm' (butlast bs @ cs) + drm_buddy_block_size mm1 x = total_size mm1 (butlast bs @ [?b]) + ?t"
    "\<And>c. c \<in> set (butlast bs) \<Longrightarrow> region_of mm' c = region_of mm1 c" "\<And>c. c \<in> set cs \<Longrightarrow> region_of mm' c \<subseteq> region_of mm1 ?b"
    "(\<Union>c \<in> set cs. region_of mm' c) = {block_start x ..< block_start x + unat ?t}"
    by (rule trim_last [OF assms(1,2) tk assms(7) t]) blast
  have tot: "total_size mm' (butlast bs @ cs) = sz"
    using r(4) bs assms(5) by (simp add: algebra_simps)
  have one: "bs = [?b]" "sz = ?t" if "length bs = 1"
    using that assms(5,7) by (auto simp: length_Suc_conv)
  have "trim_allocated sz rsz bs mm1 = Some (butlast bs @ cs, mm')"
  proof (cases "length bs = 1")
    case True
    then have "drm_buddy_block_trim None sz bs mm1 = Some (OK, cs, mm')" "butlast bs = []"
      using one r(1) by (metis, metis butlast.simps(2))
    then show ?thesis
      using True by (simp add: trim_allocated_def)
  next
    case False
    then show ?thesis
      using r(1) assms(7) by (simp add: trim_allocated_def Let_def)
  qed
  moreover have "\<exists>d \<in> set bs. region_of mm' c \<subseteq> region_of mm1 d" if "c \<in> set (butlast bs @ cs)" for c
  proof (cases "c \<in> set cs")
    case True
    then show ?thesis
      using r(6) last_in_set [OF assms(4)] by blast
  next
    case False
    then have "c \<in> set bs" "region_of mm' c = region_of mm1 c"
      using that r(5) in_set_butlastD by auto
    then show ?thesis
      by blast
  qed
  moreover have "one_piece mm' (butlast bs @ cs) (unat sz)" if "length bs = 1"
  proof -
    have "butlast bs = []"
      using that by (auto simp: length_Suc_conv)
    then show ?thesis
      using r(7) one(2) [OF that] by (auto simp: one_piece_def)
  qed
  ultimately show ?thesis
    using that r(2,3) tot by blast
qed

section \<open>The whole allocation\<close>

definition alloc_result :: "u64 \<Rightarrow> u64 \<Rightarrow> u64 \<Rightarrow> u64 \<Rightarrow> drm_buddy \<Rightarrow> nat list \<Rightarrow> drm_buddy \<Rightarrow> bool" where
  "alloc_result start end sz flags mm bs mm' \<longleftrightarrow> valid mm' \<and> taken bs mm mm' \<and>
     unat sz \<le> card (\<Union>b \<in> set bs. region_of mm' b) \<and>
     (trims flags \<and> (contiguous flags \<longrightarrow> ranged flags) \<longrightarrow> total_size mm' bs = sz) \<and>
     (contiguous flags \<longrightarrow> one_piece mm' bs (unat sz)) \<and>
     (ranged flags \<longrightarrow> (\<forall>b \<in> set bs. region_of mm' b \<subseteq> rng start (end - 1)))"

lemma taken_card:
  assumes "valid mm'" "taken bs mm mm'"
  shows "card (\<Union>b \<in> set bs. region_of mm' b) = unat (total_size mm' bs)"
  using total_size_card(1) [OF validD(1) [OF assms(1)] takenD(3) [OF assms(2)]] takenD(4) [OF assms(2)] by simp

text \<open>The request does not make the code stop at an assertion: its order is not above the largest one.\<close>

definition request_fits :: "u64 \<Rightarrow> u64 \<Rightarrow> u64 \<Rightarrow> drm_buddy \<Rightarrow> bool" where
  "request_fits sz min_block_size flags mm \<longleftrightarrow> (let n = unat (fst (rounded_sizes sz min_block_size flags)) div unat (chunk_size mm)
     in n < 2 ^ 32 \<and> n < 2 ^ Suc (max_order mm))"

lemma alloc_exact:
  assumes "valid mm" "memory_ok mm" "alloc_params_valid start end sz min_block_size mm" "start + sz = end"
    "IS_ALIGNED (start OR end) min_block_size"
  shows "if extent start sz \<subseteq> free_space mm UNIV
    then \<exists>bs mm'. drm_buddy_alloc_blocks start end sz min_block_size blocks flags mm = Some (OK, blocks @ bs, mm') \<and>
      alloc_result start end sz flags mm bs mm' \<and> (\<Union>b \<in> set bs. region_of mm' b) = extent start sz
    else \<exists>mm'. drm_buddy_alloc_blocks start end sz min_block_size blocks flags mm = Some (ENOSPC, blocks, mm') \<and>
      valid mm' \<and> restored mm mm'"
proof -
  note g = tree_okD2(1) [OF validD(1) [OF assms(1)]]
  obtain c k where p: "unat (chunk_size mm) = 2 ^ c" "unat min_block_size = 2 ^ k" "c \<le> k" "unat (chunk_size mm) \<le> unat sz"
    "unat (chunk_size mm) dvd unat start" "unat (chunk_size mm) dvd unat end" "unat (chunk_size mm) dvd unat sz"
    "unat end \<le> unat (mm_size mm)" "unat start + unat sz \<le> unat (mm_size mm)" "sz \<noteq> 0"
    by (rule alloc_params [OF g assms(3)])
  have sum: "unat start + unat sz < 2 ^ 64"
    using p(9) unat_u64 [of "mm_size mm"] by linarith
  then have ext: "extent_ok mm start sz"
    using p(5,7,10) by (simp add: extent_ok_def)
  have e: "drm_buddy_alloc_blocks start end sz min_block_size blocks flags mm =
      do { (err, _, blocks, mm) \<leftarrow> do_drm_buddy_alloc_range start sz False blocks mm; Some (err, blocks, mm) }"
    using assms(3-5) by (simp add: drm_buddy_alloc_blocks_def)
  show ?thesis
  proof (cases "extent start sz \<subseteq> free_space mm UNIV")
    case True
    obtain bs mm' where r: "do_drm_buddy_alloc_range start sz False blocks mm = Some (OK, None, blocks @ bs, mm')"
        "valid mm'" "claims UNIV {} bs mm mm'" "(\<Union>b \<in> set bs. region_of mm' b) = extent start sz"
      by (rule alloc_range_succeeds [OF assms(1,2) ext True])
    note t = claims_taken [OF r(3)]
    have "unat (total_size mm' bs) = unat sz"
      using taken_card [OF r(2) t] r(4) by (simp add: extent_def)
    then have sz: "total_size mm' bs = sz"
      by (simp add: word_unat_eq_iff)
    have "unat (end - 1) = unat start + unat sz - 1"
      using extent_last [OF p(10), of start] assms(4) sum by (simp del: unat_sub_if')
    then have "extent start sz \<subseteq> rng start (end - 1)"
      by (auto simp: extent_def rng_def)
    then have "alloc_result start end sz flags mm bs mm'"
      using r(2,4) t sz by (auto simp: alloc_result_def one_piece_def extent_def)
    then show ?thesis
      using True e r(1,4) by auto
  next
    case False
    obtain mm' where "do_drm_buddy_alloc_range start sz False blocks mm = Some (ENOSPC, None, blocks, mm')" "valid mm'" "restored mm mm'"
      by (rule alloc_range_fails [OF assms(1,2) ext False])
    then show ?thesis
      using False e by auto
  qed
qed

text \<open>The arguments of the loop over the orders.\<close>

lemma loop_args:
  assumes "valid mm" "alloc_params_valid start end sz min_block_size mm" "unat (mm_size mm) \<le> 2 ^ 63" "request_fits sz min_block_size flags mm"
  obtains rsz m where "rounded_sizes sz min_block_size flags = (rsz, m)" "unat (chunk_size mm) dvd unat rsz" "unat (chunk_size mm) dvd unat sz"
    "sz \<le> rsz" "chunk_size mm * drop_bit (ilog2 (chunk_size mm)) rsz = rsz"
    "0 < unat (drop_bit (ilog2 (chunk_size mm)) rsz)" "unat (drop_bit (ilog2 (chunk_size mm)) rsz) < 2 ^ 32"
    "2 ^ (ilog2 m - ilog2 (chunk_size mm)) dvd unat (drop_bit (ilog2 (chunk_size mm)) rsz)"
    "ilog2 m - ilog2 (chunk_size mm) \<le> order_of_pages (drop_bit (ilog2 (chunk_size mm)) rsz)"
    "order_of_pages (drop_bit (ilog2 (chunk_size mm)) rsz) \<le> max_order mm"
    "contiguous flags \<Longrightarrow> unat (drop_bit (ilog2 (chunk_size mm)) rsz) = 2 ^ (ilog2 m - ilog2 (chunk_size mm))"
    "unat (rsz - sz) < unat (chunk_size mm) * 2 ^ (ilog2 m - ilog2 (chunk_size mm))"
proof -
  note g = tree_okD2(1) [OF validD(1) [OF assms(1)]]
  obtain c k where p: "unat (chunk_size mm) = 2 ^ c" "unat min_block_size = 2 ^ k" "c \<le> k" "unat (chunk_size mm) \<le> unat sz"
    "unat (chunk_size mm) dvd unat start" "unat (chunk_size mm) dvd unat end" "unat (chunk_size mm) dvd unat sz"
    "unat end \<le> unat (mm_size mm)" "unat start + unat sz \<le> unat (mm_size mm)" "sz \<noteq> 0"
    by (rule alloc_params [OF g assms(2)])
  have "unat sz \<le> 2 ^ 63"
    using p(9) assms(3) by linarith
  then obtain rsz m j where r: "rounded_sizes sz min_block_size flags = (rsz, m)" "unat m = 2 ^ j" "c \<le> j" "2 ^ j dvd unat rsz"
    "unat sz \<le> unat rsz" "unat rsz < unat sz + 2 ^ j" "contiguous flags \<Longrightarrow> unat rsz = 2 ^ j"
    using rounded [OF p(2,10) _ p(3)] p(1,4,7) by metis
  define pages where "pages = drop_bit (ilog2 (chunk_size mm)) rsz"
  have il: "ilog2 (chunk_size mm) = c" "ilog2 m = j"
    using ilog2_pow2 p(1) r(2) by blast+
  have pg: "unat pages = unat rsz div 2 ^ c"
    by (simp add: pages_def unat_drop_bit il)
  have "(2 :: nat) ^ c dvd 2 ^ j"
    by (rule le_imp_power_dvd [OF r(3)])
  then have cd: "2 ^ c dvd unat rsz"
    using r(4) dvd_trans by blast
  then have mul: "unat rsz = 2 ^ c * unat pages"
    using pg by simp
  have "chunk_size mm * pages = rsz"
    using mul p(1) unat_u64 [of rsz] by (simp add: word_unat_eq_iff unat_word_ariths)
  moreover have pos: "0 < unat pages"
    using mul p(1,4) r(5) by (rule_tac ccontr) simp
  moreover have fit: "unat pages < 2 ^ 32" "unat pages < 2 ^ Suc (max_order mm)"
    using assms(4) r(1) pg p(1) by (simp_all add: request_fits_def Let_def)
  moreover have jc: "(2 :: nat) ^ j = 2 ^ c * 2 ^ (j - c)"
    using r(3) by (simp flip: power_add)
  have dv: "2 ^ (j - c) dvd unat pages"
    using r(4) unfolding mul jc by simp
  note ob = order_of_pages_bounds [OF pos fit(1)]
  have "(2 :: nat) ^ (j - c) < 2 ^ Suc (order_of_pages pages)" "(2 :: nat) ^ order_of_pages pages < 2 ^ Suc (max_order mm)"
    using dvd_imp_le [OF dv pos] ob fit(2) by linarith+
  then have "j - c < Suc (order_of_pages pages)" "order_of_pages pages < Suc (max_order mm)"
    by (simp_all only: power_strict_increasing_iff one_less_numeral_iff semiring_norm)
  moreover have "unat pages = 2 ^ (j - c)" if "contiguous flags"
    using r(7) [OF that] unfolding mul jc by simp
  moreover have le: "sz \<le> rsz"
    using r(5) by (simp add: word_le_nat_alt)
  moreover have "unat (rsz - sz) < 2 ^ c * 2 ^ (j - c)"
    using r(5,6) jc unat_sub [OF le] by linarith
  ultimately show ?thesis
    using that [OF r(1)] cd dv p(1,7) unfolding il pages_def [unfolded il, symmetric] by simp
qed

text \<open>What the loop has taken is enough.\<close>

lemma pages_result_trim:
  assumes "valid mm" "memory_ok mm" "pages_result start end m flags pages mm True bs mm1" "chunk_size mm * pages = rsz"
    and "unat (chunk_size mm) dvd unat sz" "unat (chunk_size mm) dvd unat rsz" "sz \<le> rsz" "unat (rsz - sz) < unat (chunk_size mm) * 2 ^ m"
    and "contiguous flags \<Longrightarrow> unat pages = 2 ^ m"
  obtains bs' mm' where "(if flags AND DRM_BUDDY_TRIM_DISABLE = 0 \<and> sz \<noteq> rsz then trim_allocated sz rsz bs mm1 else Some (bs, mm1)) = Some (bs', mm')"
    "alloc_result start end sz flags mm bs' mm'"
proof -
  have r: "valid mm1" "taken bs mm mm1" "bs \<noteq> []" "total_size mm1 bs = rsz" "length bs * 2 ^ m \<le> unat pages"
      "\<And>b. b \<in> set bs \<Longrightarrow> in_range start end flags (region_of mm1 b)"
      "\<And>b. b \<in> set bs \<Longrightarrow> \<exists>x. slab mm1 b = Some x \<and> m \<le> drm_buddy_block_order x"
    using assms(3,4) unfolding pages_result_def by simp_all
  note ok = validD(1) [OF r(1)] and sh = takenD(1) [OF r(2)]
  have single: "length bs = 1" if "contiguous flags"
  proof -
    have "length bs * 2 ^ m \<le> 1 * 2 ^ m"
      using r(5) assms(9) [OF that] by simp
    then have "length bs \<le> 1"
      by (simp only: mult_le_cancel2) simp
    then show ?thesis
      using r(3) by (cases bs) auto
  qed
  show ?thesis
  proof (cases "trims flags \<and> sz \<noteq> rsz")
    case True
    obtain x where x: "slab mm1 (last bs) = Some x" "m \<le> drm_buddy_block_order x"
      using r(7) last_in_set [OF r(3)] by blast
    have "unat (chunk_size mm) * 2 ^ m \<le> unat (chunk_size mm) * 2 ^ drm_buddy_block_order x"
      using x(2) by (intro mult_le_mono2 power_increasing) simp_all
    then have "unat (rsz - sz) < unat (chunk_size mm) * 2 ^ drm_buddy_block_order x"
      using assms(8) by linarith
    then have lt: "rsz - sz < drm_buddy_block_size mm1 x"
      using unat_block_size [OF ok x(1)] sh by (simp add: word_less_nat_alt block_bytes_def same_shape_def)
    have mem: "memory_ok mm1" and dv: "unat (chunk_size mm1) dvd unat sz" "unat (chunk_size mm1) dvd unat rsz"
      using assms(2,5,6) sh by (simp_all add: memory_ok_def same_shape_def)
    have "sz < rsz"
      using True assms(7) order.not_eq_order_implies_strict by blast
    then obtain bs' mm' where t: "trim_allocated sz rsz bs mm1 = Some (bs', mm')" "valid mm'" "taken bs' mm mm'" "total_size mm' bs' = sz"
        "\<And>c. c \<in> set bs' \<Longrightarrow> \<exists>d \<in> set bs. region_of mm' c \<subseteq> region_of mm1 d"
        "length bs = 1 \<Longrightarrow> one_piece mm' bs' (unat sz)"
      using trim_allocated_ok [OF r(1) mem r(2-4) _ x(1) lt dv] by metis
    have "region_of mm' c \<subseteq> rng start (end - 1)" if "ranged flags" "c \<in> set bs'" for c
      using t(5) [OF that(2)] r(6) that(1) by (fastforce simp: in_range_def ranged_def)
    then have "alloc_result start end sz flags mm bs' mm'"
      using t(2-4,6) taken_card [OF t(2,3)] single by (simp add: alloc_result_def)
    then show ?thesis
      using that [of bs' mm'] t(1) True by (simp add: trims_def)
  next
    case False
    have "unat sz \<le> unat rsz"
      using assms(7) by (simp add: word_le_nat_alt)
    moreover have "one_piece mm1 bs (unat sz)" if ct: "contiguous flags"
    proof -
      obtain b where b: "bs = [b]"
        using single [OF ct] by (auto simp: length_Suc_conv)
      obtain x where x: "slab mm1 b = Some x"
        using r(7) b by auto
      then have "unat rsz = block_bytes mm1 x"
        using r(4) b unat_block_size [OF ok x] by simp
      then show ?thesis
        using b x \<open>unat sz \<le> unat rsz\<close> by (auto simp: one_piece_def region_of_def region_def)
    qed
    ultimately have "alloc_result start end sz flags mm bs mm1"
      using r False taken_card [OF r(1,2)] by (auto simp: alloc_result_def in_range_def ranged_def)
    then show ?thesis
      using that [of bs mm1] False by (auto simp: trims_def)
  qed
qed

lemma taken_nil_kept: "taken [] mm mm' \<Longrightarrow> kept mm mm'"
  by (auto simp: kept_def taken_def)

lemma try_harder_result:
  assumes "valid mm" "memory_ok mm" "alloc_params_valid start end sz min_block_size mm"
    "unat (mm_size mm) \<le> 2 ^ 63" "request_fits sz min_block_size flags mm"
    and "valid mm1" "taken [] mm mm1" "contiguous flags" "\<not> ranged flags"
  shows "(\<exists>bs mm'. do_alloc_contig_try_harder sz min_block_size [] mm1 = Some (OK, bs, mm') \<and> alloc_result start end sz flags mm bs mm') \<or>
    (\<exists>mm'. do_alloc_contig_try_harder sz min_block_size [] mm1 = Some (ENOSPC, [], mm') \<and> valid mm' \<and> kept mm mm')"
proof -
  note g = tree_okD2(1) [OF validD(1) [OF assms(1)]] and sh = takenD(1) [OF assms(7)]
  obtain rsz m where l: "rounded_sizes sz min_block_size flags = (rsz, m)" "sz \<le> rsz"
    by (rule loop_args [OF assms(1,3-5)])
  obtain c k where p: "unat (chunk_size mm) = 2 ^ c" "unat min_block_size = 2 ^ k" "c \<le> k" "unat (chunk_size mm) \<le> unat sz"
    "unat (chunk_size mm) dvd unat start" "unat (chunk_size mm) dvd unat end" "unat (chunk_size mm) dvd unat sz"
    "unat end \<le> unat (mm_size mm)" "unat start + unat sz \<le> unat (mm_size mm)" "sz \<noteq> 0"
    by (rule alloc_params [OF g assms(3)])
  have "unat rsz div unat (chunk_size mm) < 2 ^ 32" "unat rsz div unat (chunk_size mm) < 2 ^ Suc (max_order mm)"
    using assms(5) l(1) by (simp_all add: request_fits_def Let_def)
  moreover have "unat sz div unat (chunk_size mm) \<le> unat rsz div unat (chunk_size mm)"
    using l(2) by (simp add: div_le_mono word_le_nat_alt)
  ultimately have q: "unat sz div unat (chunk_size mm) < 2 ^ 32" "unat sz div unat (chunk_size mm) < 2 ^ Suc (max_order mm)"
    by linarith+
  have lt: "unat sz < 2 ^ Suc (max_order mm) * unat (chunk_size mm)"
    using q(2) p(1) by (simp add: div_less_iff_less_mult)
  have "is_power_of_2 min_block_size" "chunk_size mm \<le> min_block_size"
    using p(1-3) is_power_of_2_iff by (auto simp: word_le_nat_alt)
  then have a: "harder_args sz min_block_size mm"
    using assms(4) p by (simp add: harder_args_def)
  have "memory_ok mm1" "harder_args sz min_block_size mm1" "unat (chunk_size mm1) \<le> unat sz" "unat sz div unat (chunk_size mm1) < 2 ^ 32"
      "unat sz < 2 ^ Suc (max_order mm1) * unat (chunk_size mm1)"
    using assms(2) a p(4) q(1) lt sh by (simp_all add: memory_ok_def harder_args_def same_shape_def word_le_nat_alt)
  then obtain err bs mm' where h: "do_alloc_contig_try_harder sz min_block_size [] mm1 = Some (err, bs, mm')" "harder_result sz mm1 err bs mm'"
    using try_harder_ok [OF assms(6)] by blast
  show ?thesis
  proof (cases "err = OK")
    case True
    then have t: "valid mm'" "taken bs mm mm'" "one_piece mm' bs (unat sz)"
      using h(2) taken_trans [OF assms(7)] unfolding harder_result_def by auto
    then have "unat sz \<le> card (\<Union>b \<in> set bs. region_of mm' b)"
      by (auto simp: one_piece_def)
    then have "alloc_result start end sz flags mm bs mm'"
      using t assms(8,9) by (simp add: alloc_result_def)
    then show ?thesis
      using h(1) True by blast
  next
    case False
    then have "err = ENOSPC" "bs = []" "valid mm'" "restored mm1 mm'"
      using h(2) unfolding harder_result_def by auto
    then show ?thesis
      using h(1) kept_trans [OF taken_nil_kept [OF assms(7)] restored_kept] by simp
  qed
qed

lemma alloc_search:
  assumes "valid mm" "memory_ok mm" "alloc_params_valid start end sz min_block_size mm" "start + sz \<noteq> end"
    "unat (mm_size mm) \<le> 2 ^ 63" "request_fits sz min_block_size flags mm" "contiguous flags \<and> \<not> ranged flags \<longrightarrow> blocks = []"
  shows "(\<exists>bs mm'. drm_buddy_alloc_blocks start end sz min_block_size blocks flags mm = Some (OK, blocks @ bs, mm') \<and>
      alloc_result start end sz flags mm bs mm') \<or>
    (\<exists>mm'. drm_buddy_alloc_blocks start end sz min_block_size blocks flags mm = Some (ENOSPC, blocks, mm') \<and> valid mm' \<and> kept mm mm')"
proof -
  obtain rsz m where l: "rounded_sizes sz min_block_size flags = (rsz, m)" "unat (chunk_size mm) dvd unat rsz" "unat (chunk_size mm) dvd unat sz"
    "sz \<le> rsz" "chunk_size mm * drop_bit (ilog2 (chunk_size mm)) rsz = rsz"
    "0 < unat (drop_bit (ilog2 (chunk_size mm)) rsz)" "unat (drop_bit (ilog2 (chunk_size mm)) rsz) < 2 ^ 32"
    "2 ^ (ilog2 m - ilog2 (chunk_size mm)) dvd unat (drop_bit (ilog2 (chunk_size mm)) rsz)"
    "ilog2 m - ilog2 (chunk_size mm) \<le> order_of_pages (drop_bit (ilog2 (chunk_size mm)) rsz)"
    "order_of_pages (drop_bit (ilog2 (chunk_size mm)) rsz) \<le> max_order mm"
    "contiguous flags \<Longrightarrow> unat (drop_bit (ilog2 (chunk_size mm)) rsz) = 2 ^ (ilog2 m - ilog2 (chunk_size mm))"
    "unat (rsz - sz) < unat (chunk_size mm) * 2 ^ (ilog2 m - ilog2 (chunk_size mm))"
    by (rule loop_args [OF assms(1,3,5,6)]) blast
  let ?pages = "drop_bit (ilog2 (chunk_size mm)) rsz"
  let ?n = "order_of_pages ?pages"
  let ?m = "ilog2 m - ilog2 (chunk_size mm)"
  have "min ?n ?n \<le> max_order mm"
    using l(10) by simp
  then obtain ok bs mm1 where r: "alloc_pages_loop start end ?m flags ?n ?pages [] mm = Some (ok, bs, mm1)"
      "pages_result start end ?m flags ?pages mm ok bs mm1"
    using alloc_pages_ok [OF assms(1,2) l(6-9), of start "end" flags "[]"] by auto
  have e: "drm_buddy_alloc_blocks start end sz min_block_size blocks flags mm =
     (if ok
      then do {
        (allocated, mm) \<leftarrow> if flags AND DRM_BUDDY_TRIM_DISABLE = 0 \<and> sz \<noteq> rsz then trim_allocated sz rsz bs mm1 else Some (bs, mm1);
        Some (OK, blocks @ allocated, mm) }
      else if contiguous flags \<and> \<not> ranged flags then do_alloc_contig_try_harder sz min_block_size blocks mm1
      else do { mm \<leftarrow> drm_buddy_free_list_internal bs mm1; Some (ENOSPC, blocks, mm) })"
    using assms(3,4) l(1) r(1) by (simp add: drm_buddy_alloc_blocks_def contiguous_def ranged_def Let_def)
  have v: "valid mm1" "taken bs mm mm1" "(length bs + (if ok then 0 else 1)) * 2 ^ ?m \<le> unat ?pages"
    using r(2) unfolding pages_result_def by blast+
  consider "ok" | "\<not> ok" "contiguous flags" "\<not> ranged flags" | "\<not> ok" "\<not> (contiguous flags \<and> \<not> ranged flags)"
    by blast
  then show ?thesis
  proof cases
    case 1
    then have "pages_result start end ?m flags ?pages mm True bs mm1"
      using r(2) by simp
    then obtain bs' mm' where
        "(if flags AND DRM_BUDDY_TRIM_DISABLE = 0 \<and> sz \<noteq> rsz then trim_allocated sz rsz bs mm1 else Some (bs, mm1)) = Some (bs', mm')"
        "alloc_result start end sz flags mm bs' mm'"
      by (rule pages_result_trim [OF assms(1,2) _ l(5,3,2,4,12,11)])
    then show ?thesis
      using e 1 by simp
  next
    case 2
    then have "bs = []"
      using v(3) l(11) by simp
    then show ?thesis
      using try_harder_result [OF assms(1-3,5,6) v(1)] v(2) 2 assms(7) e by simp
  next
    case 3
    obtain mm' where "drm_buddy_free_list_internal bs mm1 = Some mm'" "valid mm'" "kept mm mm'"
      by (rule undo_taken [OF v(1,2)])
    then show ?thesis
      using e 3 by auto
  qed
qed

text \<open>The three outcomes together.\<close>

lemma alloc_outcome:
  assumes "valid mm" "memory_ok mm" "unat (mm_size mm) \<le> 2 ^ 63"
    and "start + sz \<noteq> end \<longrightarrow> request_fits sz min_block_size flags mm" "contiguous flags \<and> \<not> ranged flags \<longrightarrow> blocks = []"
  shows "\<exists>err bs mm'. drm_buddy_alloc_blocks start end sz min_block_size blocks flags mm = Some (err, blocks @ bs, mm') \<and>
    (if \<not> alloc_params_valid start end sz min_block_size mm \<or> start + sz = end \<and> \<not> IS_ALIGNED (start OR end) min_block_size
     then err = EINVAL \<and> bs = [] \<and> mm' = mm
     else err = OK \<and> alloc_result start end sz flags mm bs mm' \<or> err = ENOSPC \<and> bs = [] \<and> valid mm' \<and> kept mm mm')"
proof -
  consider "\<not> alloc_params_valid start end sz min_block_size mm \<or> start + sz = end \<and> \<not> IS_ALIGNED (start OR end) min_block_size"
    | "alloc_params_valid start end sz min_block_size mm" "start + sz = end" "IS_ALIGNED (start OR end) min_block_size"
    | "alloc_params_valid start end sz min_block_size mm" "start + sz \<noteq> end"
    by blast
  then show ?thesis
  proof cases
    case 1
    then have "drm_buddy_alloc_blocks start end sz min_block_size blocks flags mm = Some (EINVAL, blocks @ [], mm)"
      by (auto simp: drm_buddy_alloc_blocks_def)
    then show ?thesis
      using 1 by (intro exI [of _ EINVAL] exI [of _ "[]"] exI [of _ mm]) simp
  next
    case 2
    then show ?thesis
      using alloc_exact [OF assms(1,2) 2, of blocks flags] restored_kept by (fastforce split: if_splits)
  next
    case 3
    then show ?thesis
      using alloc_search [OF assms(1,2) 3 assms(3) _ assms(5)] assms(4) by fastforce
  qed
qed

end
