(* ===== verification/Buddy_Init.thy ===== *)
theory Buddy_Init
  imports Buddy_Alloc
begin

text \<open>
  Setting up the allocator: \<^verbatim>\<open>drm_buddy_init\<close> cuts the managed size into one root block per bit of the size, the
  largest first, and links each of them as free.
\<close>

section \<open>Adding a root\<close>

lemma tree_ok_add_root:
  assumes ok: "tree_ok {} mm" and y: "leaf y" "parent y = None" "drm_buddy_block_order y \<le> max_order mm"
      "block_start y = unat (mm_size mm)" "block_bytes mm y dvd block_start y"
    and mm': "slab mm' = (slab mm)(slab_next mm \<mapsto> y)" "slab_next mm' = Suc (slab_next mm)" "roots mm' = roots mm @ [slab_next mm]"
      "unat (mm_size mm') = unat (mm_size mm) + block_bytes mm y" "chunk_size mm' = chunk_size mm" "max_order mm' = max_order mm"
  shows "tree_ok {} mm'"
proof -
  let ?b = "slab_next mm"
  have new: "slab mm ?b = None" "?b \<notin> set (roots mm)"
    using tree_okD(1) [OF ok] tree_ok_live(2) [OF ok] by (auto, fastforce+)
  have e: "block_bytes mm' = block_bytes mm" "region mm' = region mm"
    using mm'(5) by (simp_all add: block_bytes_def region_def fun_eq_iff)
  have c: "child_of {} mm' d z k s" if "child_of {} mm d z k s" for d z k s
    using that new mm'(1) by (auto simp: child_of_def)
  have h: "has_children {} mm' d z" if "has_children {} mm d z" for d z
    using that mm'(5) by (auto simp: has_children_def intro: c)
  have pp: "\<exists>w. slab mm' p = Some w \<and> drm_buddy_block_is_split w \<and> Some d \<in> {left w, right w}"
    if "slab mm d = Some z" "parent z = Some p" for d z p
    using tree_okD(7) [OF ok that] new(1) mm'(1) by auto
  have "block_ok {} mm' d z" if d: "slab mm' d = Some z" for d z
  proof (cases "d = ?b")
    case True
    then show ?thesis
      using d y mm' by (simp add: block_ok_def e)
  next
    case False
    then have z: "slab mm d = Some z"
      using d mm'(1) by simp
    show ?thesis
      using tree_okD [OF ok z] h [of d z] pp [OF z] mm' False unfolding block_ok_def e by auto
  qed
  moreover have "tiling mm' (leaves mm')"
  proof -
    have l: "leaves mm' = insert ?b (leaves mm)"
      using y(1) new(1) mm'(1) by (auto simp: leaves_def)
    have nb: "?b \<notin> leaves mm"
      using new(1) by (simp add: leaves_def)
    have R: "region_of mm' d = (if d = ?b then {unat (mm_size mm) ..< unat (mm_size mm')} else region_of mm d)" for d
      unfolding region_of_def e(2) using mm'(1,4) y(4) by (simp add: region_def)
    have t: "disjoint_family_on (region_of mm) (leaves mm)" "(\<Union>b \<in> leaves mm. region_of mm b) = {0 ..< unat (mm_size mm)}"
      using tree_okD2(2) [OF ok] by (simp_all add: tiling_def)
    have u: "(\<Union>b \<in> leaves mm. region_of mm' b) = {0 ..< unat (mm_size mm)}"
      unfolding t(2) [symmetric] using nb by (intro SUP_cong) (auto simp: R)
    have "disjoint_family_on (region_of mm') (leaves mm)"
      using t(1) nb by (auto simp: disjoint_family_on_def R)
    moreover have "region_of mm' ?b \<inter> (\<Union>b \<in> leaves mm. region_of mm' b) = {}"
      unfolding u by (auto simp: R)
    ultimately have "disjoint_family_on (region_of mm') (insert ?b (leaves mm))"
      using nb by (auto simp: disjoint_family_on_insert)
    moreover have "(\<Union>b \<in> insert ?b (leaves mm). region_of mm' b) = {0 ..< unat (mm_size mm')}"
      using mm'(4) by (simp add: u) (auto simp: R)
    ultimately show ?thesis
      by (simp add: tiling_def l)
  qed
  moreover have "chain mm' (bs @ [?b]) s (unat (mm_size mm'))" if "chain mm bs s (unat (mm_size mm))" "?b \<notin> set bs" for bs s
    using that by (induction bs arbitrary: s) (auto simp: e mm'(1,4) y(4))
  ultimately show ?thesis
    using ok new mm' unfolding tree_ok_def by (auto simp: geometry_def)
qed

text \<open>The state while the roots are built: the blocks so far are free roots and make up the space below \<open>off\<close>.\<close>

definition rooted :: "u64 \<Rightarrow> drm_buddy \<Rightarrow> bool" where
  "rooted off mm \<longleftrightarrow> tree_ok {} (mm\<lparr>mm_size := off\<rparr>) \<and> lists_ok {} mm \<and> free_bytes mm = off \<and> clear_bytes mm = 0 \<and>
     (\<forall>b x. slab mm b = Some x \<longrightarrow> b \<in> set (roots mm) \<and> drm_buddy_block_is_free x)"

lemma rooted_valid:
  assumes "rooted (mm_size mm) mm" "avail mm = mm_size mm" "clear_avail mm = 0"
  shows "valid mm" "free_space mm UNIV = {0 ..< unat (mm_size mm)}"
proof -
  note r = assms(1) [unfolded rooted_def]
  have ok: "tree_ok {} mm"
    using r by simp
  have "merged {} mm"
    unfolding merged_def mergeable_def using r states_exclude(1) by blast
  then show "valid mm"
    using r ok assms(2,3) by (simp add: valid_def buddy_inv_def counters_ok_def)
  have "free_part mm UNIV (slab mm b) = (if b \<in> leaves mm then region_of mm b else {})" for b
    using r by (auto simp: free_part_def leaves_def leaf_def region_of_def split: option.split)
  then have "free_space mm UNIV = (\<Union>b \<in> leaves mm. region_of mm b)"
    unfolding free_space_def by (auto split: if_splits)
  then show "free_space mm UNIV = {0 ..< unat (mm_size mm)}"
    using tree_okD2(2) [OF ok] by (simp add: tiling_def)
qed

lemma rooted_dom:
  assumes "rooted off mm"
  shows "dom (slab mm) = set (roots mm)" "distinct (roots mm)"
proof -
  have ok: "tree_ok {} (mm\<lparr>mm_size := off\<rparr>)" and s: "\<forall>b x. slab mm b = Some x \<longrightarrow> b \<in> set (roots mm)"
    using assms by (simp_all add: rooted_def)
  have "b \<in> dom (slab mm)" if "b \<in> set (roots mm)" for b
    using tree_ok_live(1) [OF ok, of b] that by (simp add: domIff)
  then show "dom (slab mm) = set (roots mm)"
    using s by blast
  show "distinct (roots mm)"
    using tree_okD2(4) [OF ok] by simp
qed

lemma rooted_empty:
  assumes "slab mm = Map.empty" "roots mm = []" "free_list mm = replicate (Suc (max_order mm)) []" "geometry mm"
  shows "rooted 0 mm"
proof -
  have "free_bytes mm = 0" "clear_bytes mm = 0"
    using assms(1) by (simp_all add: free_bytes_def clear_bytes_def free_size_def clear_size_def)
  moreover have "lists_ok {} mm"
    using assms(1,3) by (auto simp: lists_ok_def free_of_order_def nth_replicate simp del: replicate_Suc)
  ultimately show ?thesis
    using assms by (simp add: rooted_def tree_ok_def leaves_def tiling_def geometry_def disjoint_family_on_def)
qed

lemma bytes_new:
  assumes "slab mm' = (slab mm)(slab_next mm \<mapsto> x)" "slab_next mm' = Suc (slab_next mm)" "chunk_size mm' = chunk_size mm"
  shows "free_bytes mm' = free_bytes mm + free_size mm (Some x)" "clear_bytes mm' = clear_bytes mm + clear_size mm (Some x)"
  using assms(1,2) size_views [OF assms(3)] by (simp_all add: free_bytes_def clear_bytes_def)

lemma rooted_add:
  assumes "rooted off mm" "n \<le> max_order mm" "unat (chunk_size mm) * 2 ^ n dvd unat off"
    and "unat off + unat (chunk_size mm) * 2 ^ n < 2 ^ 64" "slab_ok mm (slab_next mm)"
  obtains mm1 mm2 x where "drm_block_alloc None n off mm = Some (Some (slab_next mm), mm1)" "mark_free (slab_next mm) mm1 = Some mm2"
    "slab mm2 (slab_next mm) = Some x" "drm_buddy_block_size mm2 x = push_bit n (chunk_size mm)"
    "rooted (off + push_bit n (chunk_size mm)) (mm2\<lparr>roots := roots mm @ [slab_next mm]\<rparr>)"
    "same_shape mm mm2" "avail mm2 = avail mm" "clear_avail mm2 = clear_avail mm" "warned mm2 = warned mm"
proof -
  note r = assms(1) [unfolded rooted_def]
  let ?b = "slab_next mm" and ?y = "new_block None n off"
  let ?x = "with_state DRM_BUDDY_FREE ?y"
  let ?mm = "mm\<lparr>mm_size := off\<rparr>"
  have ok: "tree_ok {} ?mm" and li: "lists_ok {} mm"
    using r by simp_all
  obtain k where k: "12 \<le> k" "unat (chunk_size mm) = 2 ^ k" "max_order mm \<le> 51"
    using geometryD [OF tree_okD2(1) [OF ok]] by auto
  have n: "n \<le> 51"
    using assms(2) k(3) by simp
  have "(2 :: nat) ^ 12 dvd 2 ^ k"
    by (rule le_imp_power_dvd [OF k(1)])
  then have "2 ^ 12 dvd unat off"
    using assms(3) k(2) by (metis dvd_mult2 dvd_trans)
  then have d: "4096 dvd unat off"
    by simp
  note f = new_block_fields [OF d n, of None]
  have fresh: "slab mm ?b = None"
    using tree_okD(1) [OF ok, of ?b] by (cases "slab mm ?b") auto
  define mm1 where "mm1 = mm\<lparr>slab_next := Suc ?b, slab := (slab mm)(?b \<mapsto> ?y)\<rparr>"
  have 1: "drm_block_alloc None n off mm = Some (Some ?b, mm1)"
    unfolding mm1_def by (rule drm_block_alloc_ok [OF d n assms(5)])
  have "lists_ok {} mm1"
    by (rule lists_ok_cong [OF _ _ _ _ li]) (use f(3) fresh in \<open>auto simp: mm1_def free_of_order_def offset_of_def\<close>)
  then obtain fl where fl: "mark_free ?b mm1 = Some (mm1\<lparr>slab := (slab mm1)(?b \<mapsto> ?x), free_list := fl\<rparr>)"
      "lists_ok {} (mm1\<lparr>slab := (slab mm1)(?b \<mapsto> ?x), free_list := fl\<rparr>)"
    using mark_free_ok [of "{}" mm1 ?b ?y] f(2,3) assms(2) by (auto simp: mm1_def)
  define mm2 where "mm2 = mm1\<lparr>slab := (slab mm1)(?b \<mapsto> ?x), free_list := fl\<rparr>"
  let ?mm' = "mm2\<lparr>roots := roots mm @ [?b]\<rparr>"
  have s2: "slab mm2 = (slab mm)(?b \<mapsto> ?x)" "slab_next mm2 = Suc ?b" "chunk_size mm2 = chunk_size mm" "max_order mm2 = max_order mm"
    by (simp_all add: mm2_def mm1_def)
  have sz: "drm_buddy_block_size mm2 ?x = push_bit n (chunk_size mm)" "drm_buddy_block_size mm ?x = push_bit n (chunk_size mm)"
      "block_bytes mm ?x = unat (chunk_size mm) * 2 ^ n"
    using f(2) s2(3) by (simp_all add: drm_buddy_block_size_def block_bytes_def)
  have "unat (push_bit n (chunk_size mm)) = unat (chunk_size mm) * 2 ^ n"
    using assms(4) by (intro unat_push_bit) linarith
  then have usz: "unat (off + push_bit n (chunk_size mm)) = unat off + unat (chunk_size mm) * 2 ^ n"
    using assms(4) by (simp add: unat_word_ariths)
  have "tree_ok {} (?mm'\<lparr>mm_size := off + push_bit n (chunk_size mm)\<rparr>)"
    by (rule tree_ok_add_root [OF ok, of ?x])
      (use f assms(2,3) s2 sz(3) usz in \<open>simp_all add: leaf_def block_start_def block_bytes_def\<close>)
  moreover have "free_bytes mm2 = off + push_bit n (chunk_size mm)" "clear_bytes mm2 = 0"
    using bytes_new [OF s2(1-3)] r sz(2) f(6) by (simp_all add: free_size_def clear_size_def)
  moreover have "lists_ok {} ?mm'"
    by (rule lists_ok_cong [OF _ _ _ _ fl(2)]) (simp_all add: mm2_def free_of_order_def offset_of_def)
  moreover have "free_bytes ?mm' = free_bytes mm2" "clear_bytes ?mm' = clear_bytes mm2"
    by (rule bytes_cong; simp)+
  ultimately have "rooted (off + push_bit n (chunk_size mm)) ?mm'"
    using r s2(1) by (auto simp: rooted_def split: if_splits)
  then show ?thesis
    using that [OF 1, of mm2 ?x] fl(1) sz(1) s2 unfolding mm2_def by (simp add: mm1_def same_shape_def)
qed

section \<open>Bits of the size\<close>

lemma hweight64_card: "hweight64 w = card {i. i < 64 \<and> bit w i}"
proof -
  have "{i. i < length [0..<64] \<and> bit w ([0..<64] ! i)} = {i. i < 64 \<and> bit w i}"
    by auto
  then show ?thesis
    unfolding hweight64_def length_filter_conv_card by simp
qed

lemma hweight64_top:
  assumes "unat r < 2 ^ k" "k < 64"
  shows "hweight64 (2 ^ k + r) = Suc (hweight64 r)"
proof -
  have n: "\<not> bit r i" if "k \<le> i" for i
  proof -
    have "unat r < 2 ^ i"
      using assms(1) power_increasing [OF that, of "2 :: nat"] by linarith
    then have "\<not> bit (unat r) i"
      by (simp add: bit_iff_odd)
    then show ?thesis
      by (simp add: bit_unsigned_iff)
  qed
  have "2 ^ k + r = 2 ^ k OR r"
    by (rule disjunctive_add) (use n in \<open>auto simp: bit_exp_iff\<close>)
  then have "{i. i < 64 \<and> bit (2 ^ k + r) i} = insert k {i. i < 64 \<and> bit r i}"
    using assms(2) by (auto simp: bit_or_iff bit_exp_iff)
  then show ?thesis
    using n [of k] by (simp add: hweight64_card)
qed

lemma hweight64_0 [simp]: "hweight64 0 = 0"
  by (simp add: hweight64_card)

section \<open>The loop over the roots\<close>

text \<open>Where the loop stands: \<open>sz\<close> bytes from \<open>off\<close> on are still to be covered.\<close>

definition root_args :: "u64 \<Rightarrow> u64 \<Rightarrow> drm_buddy \<Rightarrow> bool" where
  "root_args sz off mm \<longleftrightarrow> rooted off mm \<and> sz \<noteq> 0 \<and> unat off + unat sz = unat (mm_size mm) \<and> unat (chunk_size mm) dvd unat sz \<and>
     2 ^ Suc (ilog2 sz) dvd unat off \<and> length (roots mm) + (ilog2 sz - ilog2 (chunk_size mm)) \<le> max_order mm \<and>
     length (roots mm) + hweight64 sz = n_roots mm"

lemma ilog2_mono_dvd:
  assumes "unat c dvd unat sz" "sz \<noteq> 0"
  shows "ilog2 c \<le> ilog2 sz"
proof -
  have "c \<noteq> 0"
    using assms by (auto simp: unat_eq_0)
  then have "2 ^ ilog2 c \<le> unat c" "unat c \<le> unat sz" "unat sz < 2 ^ Suc (ilog2 sz)"
    using ilog2_bounds assms dvd_imp_le [OF assms(1)] by (blast, simp add: unat_gt_0, blast)
  then have "(2 :: nat) ^ ilog2 c < 2 ^ Suc (ilog2 sz)"
    by linarith
  then show ?thesis
    by (simp only: power_strict_increasing_iff one_less_numeral_iff semiring_norm less_Suc_eq_le)
qed

lemma root_args_next:
  assumes "root_args sz off mm"
  obtains n where "n = ilog2 sz - ilog2 (chunk_size mm)" "n \<le> max_order mm" "unat (chunk_size mm) * 2 ^ n dvd unat off"
    "unat (push_bit n (chunk_size mm)) = unat (chunk_size mm) * 2 ^ n" "unat (chunk_size mm) * 2 ^ n = 2 ^ ilog2 sz" "2 ^ ilog2 sz \<le> unat sz"
    "unat off + unat (chunk_size mm) * 2 ^ n < 2 ^ 64" "length (roots mm) \<le> max_order mm" "length (roots mm) < n_roots mm"
    "unat (sz - push_bit n (chunk_size mm)) = unat sz - 2 ^ ilog2 sz"
    "hweight64 sz = Suc (hweight64 (sz - push_bit n (chunk_size mm)))"
    "sz - push_bit n (chunk_size mm) \<noteq> 0 \<Longrightarrow> ilog2 (sz - push_bit n (chunk_size mm)) < ilog2 sz"
    "chunk_size mm \<le> push_bit n (chunk_size mm)" "unat (off + push_bit n (chunk_size mm)) = unat off + 2 ^ ilog2 sz"
    "ilog2 (chunk_size mm) \<le> ilog2 sz"
proof -
  note r = assms [unfolded root_args_def]
  let ?n = "ilog2 sz - ilog2 (chunk_size mm)"
  have ok: "tree_ok {} (mm\<lparr>mm_size := off\<rparr>)"
    using r by (simp add: rooted_def)
  obtain k where k: "unat (chunk_size mm) = 2 ^ k"
    using geometryD [OF tree_okD2(1) [OF ok]] by auto
  have il: "ilog2 (chunk_size mm) = k"
    by (rule ilog2_pow2 [OF k])
  have b: "2 ^ ilog2 sz \<le> unat sz" "unat sz < 2 ^ Suc (ilog2 sz)" "ilog2 sz < 64"
    using ilog2_bounds r by blast+
  have kl: "k \<le> ilog2 sz"
    using ilog2_mono_dvd [of "chunk_size mm" sz] r il by blast
  then have e: "unat (chunk_size mm) * 2 ^ ?n = 2 ^ ilog2 sz"
    using k il by (simp flip: power_add)
  have s64: "unat off + 2 ^ ilog2 sz < 2 ^ 64"
    using r b(1) unat_u64 [of "mm_size mm"] by linarith
  have p: "unat (push_bit ?n (chunk_size mm)) = unat (chunk_size mm) * 2 ^ ?n"
    using e s64 by (intro unat_push_bit) linarith
  have s: "unat (sz - push_bit ?n (chunk_size mm)) = unat sz - 2 ^ ilog2 sz"
    using p e b(1) by (simp add: unat_sub word_le_nat_alt)
  have w: "push_bit ?n (chunk_size mm) = 2 ^ ilog2 sz"
    using p e unat_pow2 [OF b(3)] by (simp add: word_unat_eq_iff)
  have h: "hweight64 sz = Suc (hweight64 (sz - push_bit ?n (chunk_size mm)))"
    using hweight64_top [of "sz - push_bit ?n (chunk_size mm)" "ilog2 sz"] s b unfolding w by simp
  have l: "ilog2 (sz - push_bit ?n (chunk_size mm)) < ilog2 sz" if nz: "sz - push_bit ?n (chunk_size mm) \<noteq> 0"
  proof -
    have "(2 :: nat) ^ ilog2 (sz - push_bit ?n (chunk_size mm)) < 2 ^ ilog2 sz"
      using ilog2_bounds(1) [OF nz] s b(1,2) unfolding power_Suc by linarith
    then show ?thesis
      by (simp only: power_strict_increasing_iff one_less_numeral_iff semiring_norm)
  qed
  have "2 ^ ilog2 sz dvd unat off"
    using r by (metis dvd_trans le_imp_power_dvd le_Suc_eq order_refl)
  moreover have "chunk_size mm \<le> push_bit ?n (chunk_size mm)"
    using p by (simp add: word_le_nat_alt)
  moreover have "unat (off + push_bit ?n (chunk_size mm)) = unat off + 2 ^ ilog2 sz"
    using s64 p e by (subst unat_add_small) simp_all
  moreover have "?n \<le> max_order mm" "length (roots mm) \<le> max_order mm" "length (roots mm) < n_roots mm"
    using r h by linarith+
  ultimately show ?thesis
    using that [of ?n] e p s h l s64 b(1) kl il by simp
qed

text \<open>What the loop leaves alone.\<close>

definition same_sizes :: "drm_buddy \<Rightarrow> drm_buddy \<Rightarrow> bool" where
  "same_sizes mm mm' \<longleftrightarrow> chunk_size mm' = chunk_size mm \<and> mm_size mm' = mm_size mm \<and> max_order mm' = max_order mm \<and>
     slab_ok mm' = slab_ok mm \<and> avail mm' = avail mm \<and> clear_avail mm' = clear_avail mm \<and> warned mm' = warned mm"

definition roots_result :: "drm_buddy \<Rightarrow> bool \<Rightarrow> drm_buddy \<Rightarrow> bool" where
  "roots_result mm ok mm' \<longleftrightarrow> same_sizes mm mm' \<and> (memory_ok mm \<longrightarrow> ok) \<and> (ok \<longrightarrow> rooted (mm_size mm) mm') \<and>
     (\<not> ok \<longrightarrow> distinct (roots mm') \<and> dom (slab mm') = set (roots mm'))"

lemma init_roots_ok:
  "root_args sz off mm \<Longrightarrow> \<exists>ok mm'. init_roots sz off mm = Some (ok, mm') \<and> roots_result mm ok mm'"
proof (induction "unat sz" arbitrary: sz off mm rule: less_induct)
  case less
  note r = less.prems [unfolded root_args_def]
  obtain n where n: "n = ilog2 sz - ilog2 (chunk_size mm)" "n \<le> max_order mm" "unat (chunk_size mm) * 2 ^ n dvd unat off"
    "unat (push_bit n (chunk_size mm)) = unat (chunk_size mm) * 2 ^ n" "unat (chunk_size mm) * 2 ^ n = 2 ^ ilog2 sz" "2 ^ ilog2 sz \<le> unat sz"
    "unat off + unat (chunk_size mm) * 2 ^ n < 2 ^ 64" "length (roots mm) \<le> max_order mm" "length (roots mm) < n_roots mm"
    "unat (sz - push_bit n (chunk_size mm)) = unat sz - 2 ^ ilog2 sz"
    "hweight64 sz = Suc (hweight64 (sz - push_bit n (chunk_size mm)))"
    "sz - push_bit n (chunk_size mm) \<noteq> 0 \<Longrightarrow> ilog2 (sz - push_bit n (chunk_size mm)) < ilog2 sz"
    "chunk_size mm \<le> push_bit n (chunk_size mm)" "unat (off + push_bit n (chunk_size mm)) = unat off + 2 ^ ilog2 sz"
    "ilog2 (chunk_size mm) \<le> ilog2 sz"
    by (rule root_args_next [OF less.prems]) blast
  have ro: "rooted off mm"
    using r by blast
  show ?case
  proof (cases "slab_ok mm (slab_next mm)")
    case False
    have g: "geometry (mm\<lparr>mm_size := off\<rparr>)"
      using ro unfolding rooted_def by (blast dest: tree_okD2(1))
    note rooted_dom [OF ro]
    moreover have "drm_block_alloc None n off mm = Some (None, mm\<lparr>slab_next := Suc (slab_next mm)\<rparr>)"
      using False g n(2) by (auto simp: geometry_def drm_block_alloc_def Let_def DRM_BUDDY_MAX_ORDER_def)
    ultimately show ?thesis
      using False unfolding init_roots.simps [of sz off mm] n(1) [symmetric] Let_def
      by (auto simp: roots_result_def same_sizes_def memory_ok_def)
  next
    case True
    obtain mm1 mm2 x where a: "drm_block_alloc None n off mm = Some (Some (slab_next mm), mm1)" "mark_free (slab_next mm) mm1 = Some mm2"
        "slab mm2 (slab_next mm) = Some x" "drm_buddy_block_size mm2 x = push_bit n (chunk_size mm)"
        "rooted (off + push_bit n (chunk_size mm)) (mm2\<lparr>roots := roots mm @ [slab_next mm]\<rparr>)"
        "same_shape mm mm2" "avail mm2 = avail mm" "clear_avail mm2 = clear_avail mm" "warned mm2 = warned mm"
      by (rule rooted_add [OF ro n(2,3,7) True])
    let ?mm = "mm2\<lparr>roots := roots mm @ [slab_next mm]\<rparr>" and ?sz = "sz - push_bit n (chunk_size mm)"
    have e: "init_roots sz off mm = (if ?sz \<noteq> 0 then init_roots ?sz (off + push_bit n (chunk_size mm)) ?mm else Some (True, ?mm))"
      using a(1-4,6) n(8,9) leD [OF n(13)] unfolding init_roots.simps [of sz off mm] n(1) [symmetric] Let_def
      by (simp add: same_shape_def)
    have res: "roots_result mm ok mm'" if "roots_result ?mm ok mm'" for ok mm'
      using that a(6-9) by (simp add: roots_result_def same_sizes_def same_shape_def memory_ok_def)
    show ?thesis
    proof (cases "?sz = 0")
      case True
      then have "off + push_bit n (chunk_size mm) = mm_size mm"
        using n(6,10,14) r by (simp add: word_unat_eq_iff)
      then have "roots_result ?mm True ?mm"
        using a(5,6) by (simp add: roots_result_def same_sizes_def same_shape_def)
      then show ?thesis
        using e True res by auto
    next
      case False
      have cd: "unat (chunk_size mm) dvd unat ?sz"
        using r n(5,10) by (metis dvd_diff_nat dvd_triv_left)
      then have "ilog2 (chunk_size mm) \<le> ilog2 ?sz"
        using ilog2_mono_dvd False by blast
      then have "Suc (length (roots mm)) + (ilog2 ?sz - ilog2 (chunk_size mm)) \<le> max_order mm"
        using r n(12) [OF False] by linarith
      moreover have "(2 :: nat) ^ Suc (ilog2 ?sz) dvd 2 ^ ilog2 sz"
        using n(12) [OF False] by (intro le_imp_power_dvd) simp
      then have "2 ^ Suc (ilog2 ?sz) dvd unat off + 2 ^ ilog2 sz"
        using n(3,5) by (metis dvd_add dvd_trans)
      ultimately have "root_args ?sz (off + push_bit n (chunk_size mm)) ?mm"
        using a(5,6) False r cd n(6,10,11,14) by (simp add: root_args_def same_shape_def)
      moreover have "unat ?sz < unat sz"
        using n(6,10) r by (simp add: unat_gt_0)
      ultimately obtain ok mm' where "init_roots ?sz (off + push_bit n (chunk_size mm)) ?mm = Some (ok, mm')" "roots_result ?mm ok mm'"
        using less.hyps by blast
      then show ?thesis
        using e False res by simp
    qed
  qed
qed

section \<open>The whole initialisation\<close>

lemma free_blocks_of_ok:
  "distinct bs \<Longrightarrow> set bs \<subseteq> dom (slab mm) \<Longrightarrow> free_blocks_of bs mm = Some (mm\<lparr>slab := slab mm |` (- set bs)\<rparr>)"
proof (induction bs arbitrary: mm)
  case (Cons b bs)
  then obtain x where x: "slab mm b = Some x"
    by auto
  let ?mm = "mm\<lparr>slab := (slab mm)(b := None)\<rparr>"
  have "free_blocks_of bs ?mm = Some (?mm\<lparr>slab := slab ?mm |` (- set bs)\<rparr>)"
    by (rule Cons.IH) (use Cons.prems in auto)
  moreover have "slab ?mm |` (- set bs) = slab mm |` (- set (b # bs))"
    by (auto simp: restrict_map_def fun_eq_iff)
  ultimately show ?case
    using x by (simp add: drm_block_free_def)
qed (simp add: restrict_map_def)

definition init_args :: "u64 \<Rightarrow> u64 \<Rightarrow> bool" where
  "init_args sz chunk \<longleftrightarrow> chunk \<le> sz \<and> SZ_4K \<le> chunk \<and> is_power_of_2 chunk"

text \<open>The state in which the loop starts.\<close>

definition init_state :: "u64 \<Rightarrow> u64 \<Rightarrow> drm_buddy \<Rightarrow> drm_buddy" where
  "init_state sz chunk mm = mm\<lparr>mm_size := sz, avail := sz, clear_avail := 0, chunk_size := chunk, max_order := ilog2 sz - ilog2 chunk,
     free_list := replicate (Suc (ilog2 sz - ilog2 chunk)) [], n_roots := hweight64 sz, roots := []\<rparr>"

lemma init_start:
  assumes "init_args sz chunk" "slab mm = Map.empty"
  shows "root_args (round_down sz chunk) 0 (init_state (round_down sz chunk) chunk mm)"
    "ilog2 (round_down sz chunk) - ilog2 chunk \<le> DRM_BUDDY_MAX_ORDER"
proof -
  obtain k where k: "unat chunk = 2 ^ k"
    using assms(1) is_power_of_2_iff by (auto simp: init_args_def)
  have "2 ^ 12 \<le> unat chunk" and cs: "unat chunk \<le> unat sz"
    using assms(1) by (simp_all add: init_args_def SZ_4K_def word_le_nat_alt)
  then have "(2 :: nat) ^ 12 \<le> 2 ^ k"
    unfolding k by simp
  then have k12: "12 \<le> k"
    by (simp only: power_increasing_iff one_less_numeral_iff semiring_norm)
  let ?sz = "round_down sz chunk"
  have u: "unat ?sz = unat sz div 2 ^ k * 2 ^ k"
    using unat_round_down [OF k] by simp
  have "1 * 2 ^ k \<le> unat sz div 2 ^ k * 2 ^ k"
    using cs k by (intro mult_le_mono1) (simp add: Suc_leI div_greater_zero_iff)
  then have nz: "?sz \<noteq> 0"
    using u by (auto simp: unat_eq_0)
  have il: "ilog2 chunk = k" "ilog2 ?sz < 64"
    using ilog2_pow2 [OF k] ilog2_bounds(3) [OF nz] by simp_all
  then show m: "ilog2 ?sz - ilog2 chunk \<le> DRM_BUDDY_MAX_ORDER"
    using k12 by (simp add: DRM_BUDDY_MAX_ORDER_def)
  have "rooted 0 (init_state ?sz chunk mm)"
    by (rule rooted_empty) (use assms(2) m k k12 in \<open>auto simp: init_state_def geometry_def\<close>)
  then show "root_args ?sz 0 (init_state ?sz chunk mm)"
    using nz u k by (simp add: root_args_def init_state_def)
qed

lemma drm_buddy_init_unfold:
  assumes "init_args sz chunk" "slab mm = Map.empty" "mem_free_list" "mem_roots"
  shows "drm_buddy_init mem_free_list mem_roots sz chunk mm =
    do { (done, mm) \<leftarrow> init_roots (round_down sz chunk) 0 (init_state (round_down sz chunk) chunk mm);
         if done then Some (OK, mm) else do { mm \<leftarrow> free_blocks_of (rev (roots mm)) mm; Some (ENOMEM, mm) } }"
proof -
  have "\<not> sz < chunk" "\<not> chunk < SZ_4K" "is_power_of_2 chunk"
    using assms(1) by (auto simp: init_args_def)
  moreover have "\<not> DRM_BUDDY_MAX_ORDER < ilog2 (round_down sz chunk) - ilog2 chunk"
    using init_start(2) [OF assms(1,2)] by simp
  ultimately show ?thesis
    using assms(3,4) by (simp add: drm_buddy_init_def init_state_def Let_def)
qed

definition init_result :: "u64 \<Rightarrow> u64 \<Rightarrow> drm_buddy \<Rightarrow> drm_buddy \<Rightarrow> bool" where
  "init_result sz chunk mm mm' \<longleftrightarrow> valid mm' \<and> slab_ok mm' = slab_ok mm \<and> warned mm' = warned mm \<and> chunk_size mm' = chunk \<and>
     mm_size mm' = round_down sz chunk \<and> avail mm' = mm_size mm' \<and> clear_avail mm' = 0 \<and>
     free_space mm' UNIV = {0 ..< unat (mm_size mm')} \<and> max_order mm' = ilog2 (mm_size mm') - ilog2 chunk"

lemma drm_buddy_init_ok:
  assumes "slab mm = Map.empty"
  shows "\<exists>err mm'. drm_buddy_init mem_free_list mem_roots sz chunk mm = Some (err, mm') \<and>
    (if \<not> init_args sz chunk then err = EINVAL \<and> mm' = mm
     else if err = OK then init_result sz chunk mm mm'
     else err = ENOMEM \<and> slab mm' = Map.empty \<and> \<not> (mem_free_list \<and> mem_roots \<and> memory_ok mm))"
proof (cases "init_args sz chunk \<and> mem_free_list \<and> mem_roots")
  case True
  let ?mm = "init_state (round_down sz chunk) chunk mm"
  obtain ok mm' where r: "init_roots (round_down sz chunk) 0 ?mm = Some (ok, mm')" "roots_result ?mm ok mm'"
    using init_roots_ok [OF init_start(1) [OF conjunct1 [OF True] assms]] by blast
  show ?thesis
  proof (cases ok)
    case ok: True
    have "rooted (mm_size mm') mm'" "avail mm' = mm_size mm'" "clear_avail mm' = 0"
      using r(2) ok by (simp_all add: roots_result_def same_sizes_def init_state_def)
    note v = rooted_valid [OF this]
    have "init_result sz chunk mm mm'"
      using v r(2) by (simp add: init_result_def roots_result_def same_sizes_def init_state_def)
    then show ?thesis
      using drm_buddy_init_unfold [OF _ assms, of sz chunk mem_free_list mem_roots] True r(1) ok by simp
  next
    case fail: False
    have d: "distinct (roots mm')" "dom (slab mm') = set (roots mm')" and m: "\<not> memory_ok mm"
      using r(2) fail by (auto simp: roots_result_def memory_ok_def init_state_def)
    have "free_blocks_of (rev (roots mm')) mm' = Some (mm'\<lparr>slab := slab mm' |` (- set (rev (roots mm')))\<rparr>)"
      by (rule free_blocks_of_ok) (use d in simp_all)
    moreover have "slab mm' |` (- set (rev (roots mm'))) = Map.empty"
      using d(2) by (auto simp: restrict_map_def fun_eq_iff)
    ultimately show ?thesis
      using drm_buddy_init_unfold [OF _ assms, of sz chunk mem_free_list mem_roots] True r(1) fail m by simp
  qed
next
  case False
  then show ?thesis
    using assms init_start(2) [OF _ assms, of sz chunk] by (auto simp: drm_buddy_init_def init_args_def Let_def not_less not_le)
qed

end
