(* ===== verification/Buddy_Calls.thy ===== *)
theory Buddy_Calls
  imports Buddy_Init
begin

text \<open>
  The interface of the allocator as a whole: calls by a client, the abstract view of a state as free
  space and owned regions, and sequences of calls.
\<close>

section \<open>Calls\<close>

datatype buddy_call =
    Alloc u64 u64 u64 u64 u64
  | Free "nat list" u64
  | Trim nat "u64 option" u64

fun run_call :: "buddy_call \<Rightarrow> drm_buddy \<Rightarrow> drm_buddy option" where
  "run_call (Alloc start end sz min_block_size flags) mm =
     do { (_, _, mm) \<leftarrow> drm_buddy_alloc_blocks start end sz min_block_size [] flags mm; Some mm }"
| "run_call (Free bs flags) mm = drm_buddy_free_list bs flags mm"
| "run_call (Trim b start sz) mm = do { (_, _, mm) \<leftarrow> drm_buddy_block_trim start sz [b] mm; Some mm }"

text \<open>What a client has to observe: it frees and trims only blocks it has, each once.\<close>

fun legal_call :: "buddy_call \<Rightarrow> drm_buddy \<Rightarrow> bool" where
  "legal_call (Alloc start end sz min_block_size flags) mm \<longleftrightarrow>
     alloc_params_valid start end sz min_block_size mm \<and> start + sz \<noteq> end \<longrightarrow> request_fits sz min_block_size flags mm"
| "legal_call (Free bs flags) mm \<longleftrightarrow> distinct bs \<and> (\<forall>b \<in> set bs. is_allocated mm b)"
| "legal_call (Trim b start sz) mm \<longleftrightarrow> is_allocated mm b"

fun touched :: "buddy_call \<Rightarrow> nat set" where
  "touched (Alloc start end sz min_block_size flags) = {}"
| "touched (Free bs flags) = set bs"
| "touched (Trim b start sz) = {b}"

fun run_calls :: "buddy_call list \<Rightarrow> drm_buddy \<Rightarrow> drm_buddy option" where
  "run_calls [] mm = Some mm"
| "run_calls (c # cs) mm = do { mm \<leftarrow> run_call c mm; run_calls cs mm }"

fun legal_calls :: "buddy_call list \<Rightarrow> drm_buddy \<Rightarrow> bool" where
  "legal_calls [] mm \<longleftrightarrow> True"
| "legal_calls (c # cs) mm \<longleftrightarrow> legal_call c mm \<and> (case run_call c mm of None \<Rightarrow> True | Some mm' \<Rightarrow> legal_calls cs mm')"

definition buddy_state :: "drm_buddy \<Rightarrow> bool" where
  "buddy_state mm \<longleftrightarrow> valid mm \<and> memory_ok mm \<and> unat (mm_size mm) \<le> 2 ^ 63"

section \<open>The abstract view\<close>

definition owned :: "drm_buddy \<Rightarrow> nat \<rightharpoonup> nat set" where
  "owned mm b = (if is_allocated mm b then Some (region_of mm b) else None)"

definition part_of :: "drm_buddy \<Rightarrow> nat list \<Rightarrow> nat \<rightharpoonup> nat set" where
  "part_of mm bs = owned mm |` set bs"

text \<open>An abstract state is the free space with the map of the owned regions.\<close>

type_synonym space = "nat set \<times> (nat \<rightharpoonup> nat set)"

definition space_of :: "drm_buddy \<Rightarrow> space" where
  "space_of mm = (free_space mm UNIV, owned mm)"

definition grants :: "u64 \<Rightarrow> u64 \<Rightarrow> u64 \<Rightarrow> u64 \<Rightarrow> nat set \<Rightarrow> bool" where
  "grants start end sz flags A \<longleftrightarrow> unat sz \<le> card A \<and> (contiguous flags \<longrightarrow> (\<exists>s m. A = {s ..< s + m})) \<and>
     (ranged flags \<longrightarrow> A \<subseteq> rng start (end - 1))"

inductive spec_call :: "buddy_call \<Rightarrow> space \<Rightarrow> space \<Rightarrow> bool" where
  grant: "dom N \<inter> dom M = {} \<Longrightarrow> \<Union> (ran N) \<subseteq> F \<Longrightarrow> grants start end sz flags (\<Union> (ran N)) \<Longrightarrow>
    spec_call (Alloc start end sz min_block_size flags) (F, M) (F - \<Union> (ran N), M ++ N)"
| refuse: "spec_call (Alloc start end sz min_block_size flags) (F, M) (F, M)"
| give_back: "spec_call (Free bs flags) (F, M) (F \<union> \<Union> (ran (M |` set bs)), M |` (- set bs))"
| shrink: "M b = Some R \<Longrightarrow> \<Union> (ran N) \<subseteq> R \<Longrightarrow> dom N \<inter> (dom M - {b}) = {} \<Longrightarrow>
    spec_call (Trim b start sz) (F, M) (F \<union> (R - \<Union> (ran N)), M |` (- {b}) ++ N)"

lemma owned_frame:
  assumes "same_shape mm mm'"
    and "\<And>c z. drm_buddy_block_is_allocated z \<Longrightarrow> slab mm c = Some z \<and> c \<notin> D \<longleftrightarrow> slab mm' c = Some z \<and> c \<notin> N"
  shows "owned mm' |` (- N) = owned mm |` (- D)"
proof
  fix c
  have o: "(owned mm |` (- D)) c = Some A \<longleftrightarrow> (\<exists>z. drm_buddy_block_is_allocated z \<and> slab mm c = Some z \<and> c \<notin> D \<and> A = region mm z)" for mm D A
    by (auto simp: restrict_map_def owned_def is_allocated_def region_of_def)
  have "(owned mm' |` (- N)) c = Some A \<longleftrightarrow> (owned mm |` (- D)) c = Some A" for A
    unfolding o using assms(2) [of _ c] same_shape_eqs(2) [OF assms(1)] by auto
  then show "(owned mm' |` (- N)) c = (owned mm |` (- D)) c"
    by (metis option.exhaust)
qed

lemma owned_split: "owned mm = owned mm |` (- set bs) ++ part_of mm bs"
  by (auto simp: part_of_def restrict_map_def map_add_def fun_eq_iff split: option.split)

lemma part_of_regions:
  assumes "\<And>b. b \<in> set bs \<Longrightarrow> is_allocated mm b"
  shows "dom (part_of mm bs) = set bs" "\<Union> (ran (part_of mm bs)) = (\<Union>b \<in> set bs. region_of mm b)"
  using assms by (auto simp: part_of_def restrict_map_def owned_def ran_def dom_def split: if_splits)

text \<open>Free and owned space make up everything and do not overlap.\<close>

lemma owned_tiles:
  assumes "valid mm"
  shows "free_space mm UNIV \<union> \<Union> (ran (owned mm)) = {0 ..< unat (mm_size mm)}"
    and "owned mm a = Some A \<Longrightarrow> owned mm b = Some B \<Longrightarrow> a \<noteq> b \<Longrightarrow> A \<inter> B = {}"
    and "owned mm a = Some A \<Longrightarrow> A \<inter> free_space mm UNIV = {}"
proof -
  note ok = validD(1) [OF assms]
  have t: "disjoint_family_on (region_of mm) (leaves mm)" "(\<Union>b \<in> leaves mm. region_of mm b) = {0 ..< unat (mm_size mm)}"
    using tree_okD2(2) [OF ok] by (simp_all add: tiling_def)
  have f: "free_space mm UNIV = (\<Union>b \<in> {b. \<exists>x. slab mm b = Some x \<and> drm_buddy_block_is_free x}. region_of mm b)"
  proof -
    have "x \<in> free_part mm UNIV (slab mm c) \<longleftrightarrow> (\<exists>z. slab mm c = Some z \<and> drm_buddy_block_is_free z \<and> x \<in> region mm z)" for x c
      by (cases "slab mm c") (simp_all add: free_part_def)
    then show ?thesis
      by (fastforce simp: free_space_def region_of_def)
  qed
  have o: "\<Union> (ran (owned mm)) = (\<Union>b \<in> {b. is_allocated mm b}. region_of mm b)"
    by (auto simp: ran_def owned_def split: if_splits)
  have l: "leaves mm = {b. \<exists>x. slab mm b = Some x \<and> drm_buddy_block_is_free x} \<union> {b. is_allocated mm b}"
    by (auto simp: leaves_def leaf_def is_allocated_def)
  show "free_space mm UNIV \<union> \<Union> (ran (owned mm)) = {0 ..< unat (mm_size mm)}"
    unfolding f o t(2) [symmetric] l by blast
  show "A \<inter> B = {}" if "owned mm a = Some A" "owned mm b = Some B" "a \<noteq> b"
  proof -
    have "a \<in> leaves mm" "b \<in> leaves mm" "A = region_of mm a" "B = region_of mm b"
      using that unfolding l by (auto simp: owned_def split: if_splits)
    then show ?thesis
      using disjoint_family_onD [OF t(1)] that(3) by blast
  qed
  show "A \<inter> free_space mm UNIV = {}" if "owned mm a = Some A"
  proof -
    have a: "is_allocated mm a" "A = region_of mm a"
      using that by (auto simp: owned_def split: if_splits)
    have "region_of mm a \<inter> region_of mm b = {}" if "slab mm b = Some x" "drm_buddy_block_is_free x" for b x
    proof -
      have "a \<in> leaves mm" "b \<in> leaves mm" "a \<noteq> b"
        using a(1) that states_exclude(1) [OF that(2)] unfolding l by (auto simp: is_allocated_def)
      then show ?thesis
        using disjoint_family_onD [OF t(1)] by blast
    qed
    then show ?thesis
      unfolding f a(2) by blast
  qed
qed

lemma space_disjoint:
  assumes "valid mm" "\<And>b. b \<in> set bs \<Longrightarrow> is_allocated mm b"
  shows "free_space mm UNIV \<inter> (\<Union>b \<in> set bs. region_of mm b) = {}"
proof -
  have "region_of mm b \<inter> free_space mm UNIV = {}" if "b \<in> set bs" for b
    by (rule owned_tiles(3) [OF assms(1), of b]) (simp add: owned_def assms(2) [OF that])
  then show ?thesis
    by blast
qed

section \<open>Refinement\<close>

lemma taken_space:
  assumes "valid mm'" "taken bs mm mm'"
  shows "space_of mm' = (free_space mm UNIV - \<Union> (ran (part_of mm' bs)), owned mm ++ part_of mm' bs)"
    "dom (part_of mm' bs) \<inter> dom (owned mm) = {}" "\<Union> (ran (part_of mm' bs)) \<subseteq> free_space mm UNIV"
    "\<Union> (ran (part_of mm' bs)) = (\<Union>b \<in> set bs. region_of mm' b)"
proof -
  note t = takenD [OF assms(2)]
  have p: "dom (part_of mm' bs) = set bs" "\<Union> (ran (part_of mm' bs)) = (\<Union>b \<in> set bs. region_of mm' b)"
    by (rule part_of_regions; rule t(4); assumption)+
  have "owned mm' |` (- set bs) = owned mm |` (- {})"
    by (rule owned_frame [OF t(1)]) (use t(5) in auto)
  then have o: "owned mm' |` (- set bs) = owned mm"
    by (simp add: restrict_map_def)
  have "free_space mm' UNIV = free_space mm UNIV - (\<Union>b \<in> set bs. region_of mm' b)"
    using t(7) space_disjoint [OF assms(1) t(4)] by blast
  then show "space_of mm' = (free_space mm UNIV - \<Union> (ran (part_of mm' bs)), owned mm ++ part_of mm' bs)"
    using owned_split [of mm' bs] o p(2) by (simp add: space_of_def)
  have "owned mm c = None" if "c \<in> set bs" for c
    using fun_cong [OF o, of c] that by (simp add: restrict_map_def)
  then show "dom (part_of mm' bs) \<inter> dom (owned mm) = {}"
    unfolding p(1) by fastforce
  show "\<Union> (ran (part_of mm' bs)) \<subseteq> free_space mm UNIV" "\<Union> (ran (part_of mm' bs)) = (\<Union>b \<in> set bs. region_of mm' b)"
    using p(2) t(7) by auto
qed

lemma kept_space: "kept mm mm' \<Longrightarrow> space_of mm' = space_of mm"
proof -
  assume k: "kept mm mm'"
  have "owned mm' |` (- {}) = owned mm |` (- {})"
    by (rule owned_frame) (use k in \<open>auto simp: kept_def\<close>)
  then show ?thesis
    using k by (simp add: space_of_def restrict_map_def kept_def)
qed

lemma released_space:
  assumes "released (set bs) fl mm mm'" "\<forall>b \<in> set bs. is_allocated mm b"
  shows "space_of mm' = (free_space mm UNIV \<union> \<Union> (ran (owned mm |` set bs)), owned mm |` (- set bs))"
proof -
  note r = releasedD [OF assms(1)]
  have "owned mm' |` (- {}) = owned mm |` (- set bs)"
    by (rule owned_frame [OF r(1)]) (use r(3) in auto)
  moreover have "(\<Union>b \<in> set bs. region mm (the (slab mm b))) = \<Union> (ran (owned mm |` set bs))"
  proof -
    have "region mm (the (slab mm b)) = region_of mm b" if "b \<in> set bs" for b
      using that assms(2) by (fastforce simp: is_allocated_def region_of_def)
    then show ?thesis
      using part_of_regions(2) [of bs mm] assms(2) by (simp add: part_of_def)
  qed
  ultimately show ?thesis
    using r(5) [of UNIV] by (simp add: space_of_def restrict_map_def)
qed

lemma trimmed_owned:
  assumes "trimmed b bs A mm mm'"
  shows "owned mm' |` (- set bs) = owned mm |` (- {b})"
proof (rule owned_frame)
  show "same_shape mm mm'"
    using assms unfolding trimmed_def by blast
  show "slab mm c = Some z \<and> c \<notin> {b} \<longleftrightarrow> slab mm' c = Some z \<and> c \<notin> set bs" if "drm_buddy_block_is_allocated z" for c z
    using assms that unfolding trimmed_def by blast
qed

lemma trimmed_space:
  assumes "valid mm" "valid mm'" "trimmed b bs A mm mm'"
  shows "space_of mm' = (free_space mm UNIV \<union> (region_of mm b - \<Union> (ran (part_of mm' bs))), owned mm |` (- {b}) ++ part_of mm' bs)"
    "\<Union> (ran (part_of mm' bs)) \<subseteq> region_of mm b" "dom (part_of mm' bs) \<inter> (dom (owned mm) - {b}) = {}" "\<Union> (ran (part_of mm' bs)) = A"
proof -
  have t: "same_shape mm mm'" "\<And>c. c \<in> set bs \<Longrightarrow> is_allocated mm' c" "is_allocated mm b" "distinct bs"
      "free_space mm UNIV \<union> region_of mm b = free_space mm' UNIV \<union> A" "A \<subseteq> region_of mm b" "(\<Union>c \<in> set bs. region_of mm' c) = A"
    using assms(3) unfolding trimmed_def by blast+
  have p: "dom (part_of mm' bs) = set bs" "\<Union> (ran (part_of mm' bs)) = (\<Union>b \<in> set bs. region_of mm' b)"
    by (rule part_of_regions; rule t(2); assumption)+
  note o = trimmed_owned [OF assms(3)]
  have "free_space mm UNIV \<inter> region_of mm b = {}"
    using space_disjoint [OF assms(1), of "[b]"] t(3) by simp
  moreover have "free_space mm' UNIV \<inter> A = {}"
    unfolding t(7) [symmetric] by (rule space_disjoint [OF assms(2) t(2)])
  ultimately have "free_space mm' UNIV = free_space mm UNIV \<union> (region_of mm b - A)"
    using t(5,6) by blast
  then show "space_of mm' = (free_space mm UNIV \<union> (region_of mm b - \<Union> (ran (part_of mm' bs))), owned mm |` (- {b}) ++ part_of mm' bs)"
    using owned_split [of mm' bs] o p(2) t(7) by (simp add: space_of_def)
  have "owned mm c = None" if "c \<in> set bs" "c \<noteq> b" for c
    using fun_cong [OF o, of c] that by (simp add: restrict_map_def)
  then show "dom (part_of mm' bs) \<inter> (dom (owned mm) - {b}) = {}"
    unfolding p(1) by fastforce
  show "\<Union> (ran (part_of mm' bs)) \<subseteq> region_of mm b" "\<Union> (ran (part_of mm' bs)) = A"
    using p(2) t(6,7) by auto
qed

text \<open>What one call does: it returns, keeps the state valid and is a step of the abstract system.\<close>

definition refines :: "buddy_call \<Rightarrow> drm_buddy \<Rightarrow> drm_buddy \<Rightarrow> bool" where
  "refines c mm mm' \<longleftrightarrow> valid mm' \<and> same_shape mm mm' \<and> warned mm' = warned mm \<and> spec_call c (space_of mm) (space_of mm')"

lemma alloc_result_refines:
  assumes "alloc_result start end sz flags mm bs mm'"
  shows "refines (Alloc start end sz min_block_size flags) mm mm'"
proof -
  have r: "valid mm'" "taken bs mm mm'" "unat sz \<le> card (\<Union>b \<in> set bs. region_of mm' b)"
      "contiguous flags \<Longrightarrow> one_piece mm' bs (unat sz)" "ranged flags \<Longrightarrow> \<forall>b \<in> set bs. region_of mm' b \<subseteq> rng start (end - 1)"
    using assms unfolding alloc_result_def by blast+
  note t = taken_space [OF r(1,2)]
  have "grants start end sz flags (\<Union> (ran (part_of mm' bs)))"
    unfolding t(4) grants_def
  proof (intro conjI impI)
    show "\<exists>s m. (\<Union>b \<in> set bs. region_of mm' b) = {s ..< s + m}" if "contiguous flags"
      using r(4) [OF that] unfolding one_piece_def by blast
    show "(\<Union>b \<in> set bs. region_of mm' b) \<subseteq> rng start (end - 1)" if "ranged flags"
      using r(5) [OF that] by blast
  qed (rule r(3))
  then show ?thesis
    using spec_call.grant [OF t(2,3)] r(1) takenD(1,2) [OF r(2)] unfolding refines_def t(1) by (simp add: space_of_def)
qed

lemma kept_refines:
  assumes "valid mm'" "kept mm mm'"
  shows "refines (Alloc start end sz min_block_size flags) mm mm'"
  using assms(1) kept_space [OF assms(2)] assms(2) spec_call.refuse [of start "end" sz min_block_size flags "free_space mm UNIV" "owned mm"]
  by (simp add: refines_def kept_def space_of_def)

lemma alloc_legal:
  assumes "valid mm" "memory_ok mm" "unat (mm_size mm) \<le> 2 ^ 63" "legal_call (Alloc start end sz min_block_size flags) mm"
  shows "\<exists>err bs mm'. drm_buddy_alloc_blocks start end sz min_block_size [] flags mm = Some (err, bs, mm') \<and>
    (err = OK \<and> alloc_result start end sz flags mm bs mm' \<or> err \<noteq> OK \<and> bs = [] \<and> valid mm' \<and> kept mm mm')"
proof (cases "alloc_params_valid start end sz min_block_size mm")
  case True
  then have "start + sz \<noteq> end \<longrightarrow> request_fits sz min_block_size flags mm"
    using assms(4) by simp
  then obtain err bs mm' where "drm_buddy_alloc_blocks start end sz min_block_size [] flags mm = Some (err, [] @ bs, mm')"
      "if \<not> alloc_params_valid start end sz min_block_size mm \<or> start + sz = end \<and> \<not> IS_ALIGNED (start OR end) min_block_size
       then err = EINVAL \<and> bs = [] \<and> mm' = mm
       else err = OK \<and> alloc_result start end sz flags mm bs mm' \<or> err = ENOSPC \<and> bs = [] \<and> valid mm' \<and> kept mm mm'"
    using alloc_outcome [OF assms(1-3), of start sz "end" min_block_size flags "[]"] by blast
  then show ?thesis
    using assms(1) by (auto split: if_splits)
next
  case False
  then show ?thesis
    using assms(1) by (simp add: drm_buddy_alloc_blocks_def)
qed

lemma run_alloc:
  assumes "buddy_state mm" "legal_call (Alloc start end sz min_block_size flags) mm"
  shows "\<exists>mm'. run_call (Alloc start end sz min_block_size flags) mm = Some mm' \<and> refines (Alloc start end sz min_block_size flags) mm mm'"
proof -
  obtain err bs mm' where r: "drm_buddy_alloc_blocks start end sz min_block_size [] flags mm = Some (err, bs, mm')"
      "err = OK \<and> alloc_result start end sz flags mm bs mm' \<or> err \<noteq> OK \<and> bs = [] \<and> valid mm' \<and> kept mm mm'"
    using alloc_legal [OF _ _ _ assms(2)] assms(1) by (auto simp: buddy_state_def)
  then show ?thesis
    using alloc_result_refines kept_refines by auto
qed

lemma run_free:
  assumes "valid mm" "distinct bs" "\<forall>b \<in> set bs. is_allocated mm b"
  shows "\<exists>mm'. drm_buddy_free_list bs flags mm = Some mm' \<and> valid mm' \<and>
    released (set bs) (\<lambda>_. flags AND DRM_BUDDY_CLEARED \<noteq> 0) mm mm'"
proof -
  let ?c = "flags AND DRM_BUDDY_CLEARED \<noteq> 0"
  have "flag_of ?c (\<not> ?c) = (\<lambda>_. ?c)"
    by (auto simp: flag_of_def fun_eq_iff)
  then show ?thesis
    using free_list_loop_ok [OF assms, of ?c "\<not> ?c"]
    by (simp add: drm_buddy_free_list_def do_drm_buddy_free_list_def Let_def warn_on_def)
qed

lemma run_trim:
  assumes "buddy_state mm" "is_allocated mm b"
  shows "\<exists>mm'. run_call (Trim b start sz) mm = Some mm' \<and> refines (Trim b start sz) mm mm'"
proof -
  have s: "valid mm" "memory_ok mm"
    using assms(1) by (simp_all add: buddy_state_def)
  obtain x where x: "slab mm b = Some x" "drm_buddy_block_is_allocated x"
    using assms(2) by (auto simp: is_allocated_def)
  have ob: "owned mm b = Some (region_of mm b)"
    using assms(2) by (simp add: owned_def)
  have same: "refines (Trim b start sz) mm mm"
  proof -
    have m: "owned mm |` (- {b}) ++ [b \<mapsto> region_of mm b] = owned mm"
      using ob by (auto simp: restrict_map_def map_add_def fun_eq_iff)
    show ?thesis
      using spec_call.shrink [where M = "owned mm" and N = "[b \<mapsto> region_of mm b]", OF ob, of start sz "free_space mm UNIV"] s(1) m
      by (simp add: refines_def space_of_def)
  qed
  consider "sz = drm_buddy_block_size mm x" | "sz \<noteq> drm_buddy_block_size mm x" "\<not> trim_accepts start sz x mm"
    | "sz \<noteq> drm_buddy_block_size mm x" "trim_accepts start sz x mm"
    by blast
  then show ?thesis
  proof cases
    case 1
    then show ?thesis
      using block_trim_same [OF validD(1) [OF s(1)] x] same by simp
  next
    case 2
    then show ?thesis
      using block_trim_rejects [OF s(1) x 2(2,1)] same by simp
  next
    case 3
    obtain bs mm' where m: "drm_buddy_block_trim start sz [b] mm = Some (OK, bs, mm')" "valid mm'"
        "trimmed b bs (extent (trim_start start x) sz) mm mm'"
      by (rule block_trim_ok [OF s x 3(2,1)])
    note t = trimmed_space [OF s(1) m(2,3)]
    have "spec_call (Trim b start sz) (space_of mm) (space_of mm')"
      unfolding t(1) space_of_def [of mm] by (rule spec_call.shrink [OF ob t(2,3)])
    then show ?thesis
      using m by (simp add: refines_def trimmed_def)
  qed
qed

lemma run_call_refines:
  assumes "buddy_state mm" "legal_call c mm"
  shows "\<exists>mm'. run_call c mm = Some mm' \<and> buddy_state mm' \<and> refines c mm mm'"
proof -
  have "\<exists>mm'. run_call c mm = Some mm' \<and> refines c mm mm'"
  proof (cases c)
    case (Alloc start "end" sz min_block_size flags)
    then show ?thesis
      using run_alloc [OF assms(1)] assms(2) by blast
  next
    case (Free bs flags)
    then have l: "distinct bs" "\<forall>b \<in> set bs. is_allocated mm b" and v: "valid mm"
      using assms by (simp_all add: buddy_state_def)
    obtain mm' where m: "drm_buddy_free_list bs flags mm = Some mm'" "valid mm'"
        "released (set bs) (\<lambda>_. flags AND DRM_BUDDY_CLEARED \<noteq> 0) mm mm'"
      using run_free [OF v l] by blast
    have "spec_call (Free bs flags) (space_of mm) (space_of mm')"
      unfolding released_space [OF m(3) l(2)] space_of_def [of mm] by (rule spec_call.give_back)
    then show ?thesis
      using m releasedD(1,2) [OF m(3)] Free by (simp add: refines_def)
  next
    case (Trim b start sz)
    then show ?thesis
      using run_trim [OF assms(1)] assms(2) by simp
  qed
  then show ?thesis
    using assms(1) by (fastforce simp: buddy_state_def refines_def same_shape_def memory_ok_def)
qed

section \<open>Sequences of calls\<close>

text \<open>
  A service that hands out regions of a space: each legal call returns, and leaves alone the regions
  of the handles it does not name.
\<close>

locale region_service =
  fixes inv :: "'s \<Rightarrow> bool" and unowned :: "'s \<Rightarrow> nat set" and regions :: "'s \<Rightarrow> 'h \<rightharpoonup> nat set" and limit :: "'s \<Rightarrow> nat"
    and run :: "'c \<Rightarrow> 's \<Rightarrow> 's option" and legal :: "'c \<Rightarrow> 's \<Rightarrow> bool" and names :: "'c \<Rightarrow> 'h set"
    and runs :: "'c list \<Rightarrow> 's \<Rightarrow> 's option" and legals :: "'c list \<Rightarrow> 's \<Rightarrow> bool"
  assumes run_ok: "inv s \<Longrightarrow> legal c s \<Longrightarrow> \<exists>s'. run c s = Some s' \<and> inv s' \<and> limit s' = limit s \<and>
      (\<forall>h A. h \<notin> names c \<longrightarrow> regions s h = Some A \<longrightarrow> regions s' h = Some A)"
    and runs_Nil: "runs [] s = Some s"
    and runs_Cons: "run c s = Some s' \<Longrightarrow> runs (c # cs) s = runs cs s'"
    and legals_Cons: "legals (c # cs) s \<Longrightarrow> legal c s" "legals (c # cs) s \<Longrightarrow> run c s = Some s' \<Longrightarrow> legals cs s'"
    and tiles: "inv s \<Longrightarrow> unowned s \<union> \<Union> (ran (regions s)) = {0 ..< limit s}"
    and apart: "inv s \<Longrightarrow> regions s a = Some A \<Longrightarrow> A \<inter> unowned s = {}"
begin

lemma runs_ok:
  assumes "inv s" "legals cs s"
  shows "\<exists>s'. runs cs s = Some s' \<and> inv s' \<and> limit s' = limit s \<and>
    (\<forall>h A. h \<notin> (\<Union>c \<in> set cs. names c) \<longrightarrow> regions s h = Some A \<longrightarrow> regions s' h = Some A)"
  using assms
proof (induction cs arbitrary: s)
  case (Cons c cs)
  obtain s1 where 1: "run c s = Some s1" "inv s1" "limit s1 = limit s"
      "\<forall>h A. h \<notin> names c \<longrightarrow> regions s h = Some A \<longrightarrow> regions s1 h = Some A"
    using run_ok [OF Cons.prems(1) legals_Cons(1) [OF Cons.prems(2)]] by blast
  obtain s' where "runs cs s1 = Some s'" "inv s'" "limit s' = limit s1"
      "\<forall>h A. h \<notin> (\<Union>c \<in> set cs. names c) \<longrightarrow> regions s1 h = Some A \<longrightarrow> regions s' h = Some A"
    using Cons.IH [OF 1(2) legals_Cons(2) [OF Cons.prems(2) 1(1)]] by blast
  then show ?case
    using runs_Cons [OF 1(1)] 1(3,4) by simp
qed (simp add: runs_Nil)

lemma accounts:
  assumes "inv s"
  shows "card (unowned s) + card (\<Union> (ran (regions s))) = limit s"
proof -
  have "unowned s \<inter> \<Union> (ran (regions s)) = {}"
    using apart [OF assms] by (fastforce simp: ran_def)
  moreover have "finite (unowned s)" "finite (\<Union> (ran (regions s)))"
    using tiles [OF assms] by (metis finite_Un finite_atLeastLessThan)+
  ultimately show ?thesis
    using card_Un_disjoint [of "unowned s" "\<Union> (ran (regions s))"] tiles [OF assms] by simp
qed

end

lemma spec_call_frame:
  assumes "spec_call c (F, M) (F', M')" "h \<notin> touched c" "M h = Some A"
  shows "M' h = Some A"
  using assms by (cases rule: spec_call.cases) (auto simp: restrict_map_def map_add_def dom_def split: option.split)

interpretation buddy: region_service buddy_state "\<lambda>mm. free_space mm UNIV" owned "\<lambda>mm. unat (mm_size mm)" run_call legal_call touched
  run_calls legal_calls
proof
  fix mm c
  assume "buddy_state mm" "legal_call c mm"
  then obtain mm' where m: "run_call c mm = Some mm'" "buddy_state mm'" "refines c mm mm'"
    using run_call_refines by blast
  then have "spec_call c (free_space mm UNIV, owned mm) (free_space mm' UNIV, owned mm')" "mm_size mm' = mm_size mm"
    by (simp_all add: refines_def space_of_def same_shape_def)
  then show "\<exists>mm'. run_call c mm = Some mm' \<and> buddy_state mm' \<and> unat (mm_size mm') = unat (mm_size mm) \<and>
      (\<forall>h A. h \<notin> touched c \<longrightarrow> owned mm h = Some A \<longrightarrow> owned mm' h = Some A)"
    using m(1,2) spec_call_frame by (intro exI [of _ mm']) simp
qed (auto simp: buddy_state_def owned_tiles(1) dest: owned_tiles(3))

end
