(* ===== verification/Buddy_Live.thy ===== *)
theory Buddy_Live
  imports Buddy_Calls
begin

text \<open>
  When allocation succeeds: a request without range and contiguity whose blocks may be as small as a
  chunk is refused only if there is less free space than it asks for.
\<close>

section \<open>Enough free space\<close>

lemma no_entry_avail:
  assumes "valid mm" "\<forall>b. \<not> entry mm 0 b"
  shows "avail mm = 0"
proof -
  have "free_size mm (slab mm b) = 0" for b
    using assms(2) by (auto simp: free_size_def entry_def split: option.split)
  then show ?thesis
    using validD(3) [OF assms(1)] by (simp add: free_bytes_def)
qed

lemma alloc_orders_none:
  assumes "valid mm" "memory_ok mm" "\<not> ranged flags" "alloc_orders start end 0 flags n mm = Some (None, mm')"
  shows "avail mm = 0"
  using assms(4)
proof (induction n)
  case n: 0
  have inv: "buddy_inv {} mm"
    using assms(1) by (simp add: valid_def)
  have e: "do_drm_buddy_alloc_blocks start end 0 flags mm = alloc_from_freelist 0 flags mm"
    using assms(3) by (simp add: do_drm_buddy_alloc_blocks_def ranged_def)
  from alloc_from_freelist_ok [OF inv assms(2), of 0 flags] show ?case
    using n no_entry_avail [OF assms(1)] by (auto simp: alloc_orders.simps [of _ _ _ _ 0] e)
next
  case (Suc n)
  have inv: "buddy_inv {} mm"
    using assms(1) by (simp add: valid_def)
  have e: "do_drm_buddy_alloc_blocks start end (Suc n) flags mm = alloc_from_freelist (Suc n) flags mm"
    using assms(3) by (simp add: do_drm_buddy_alloc_blocks_def ranged_def)
  from alloc_from_freelist_ok [OF inv assms(2), of "Suc n" flags] show ?case
    using Suc by (auto simp: alloc_orders.simps [of _ _ _ _ "Suc n"] e)
qed

lemma taken_avail:
  assumes "valid mm" "valid mm'" "taken bs mm mm'"
  shows "unat (avail mm) = unat (avail mm') + unat (total_size mm' bs)"
proof -
  note t = takenD [OF assms(3)]
  have "buddy_inv {} mm" "buddy_inv {} mm'"
    using assms(1,2) by (simp_all add: valid_def)
  moreover have "finite (free_space mm UNIV)"
    using free_space_card(2) [OF validD(1) [OF assms(1)]] finite_subset by blast
  moreover have "free_space mm' UNIV \<inter> (\<Union>b \<in> set bs. region_of mm' b) = {}"
    by (rule space_disjoint [OF assms(2) t(4)])
  ultimately show ?thesis
    using t(7) avail_card(1) taken_card [OF assms(2,3)] by (simp add: card_Un_disjoint)
qed

lemma alloc_pages_enough:
  assumes "valid mm" "memory_ok mm" "0 < unat pages" "unat pages < 2 ^ 32" "\<not> ranged flags"
    "min n (order_of_pages pages) \<le> max_order mm" "unat (chunk_size mm) * unat pages \<le> unat (avail mm)"
    "alloc_pages_loop start end 0 flags n pages allocated mm = Some (ok, bs, mm')"
  shows "ok"
  using assms
proof (induction "unat pages" arbitrary: n pages allocated mm rule: less_induct)
  case less
  have d: "2 ^ 0 dvd unat pages" "0 \<le> n"
    by simp_all
  have cp: "0 < unat (chunk_size mm)"
    using chunk_dvd(3) tree_okD2(1) validD(1) less.prems(1) by blast
  from less.prems(1-4) d less.prems(6) show ?case
  proof (cases rule: alloc_pages_step [of mm pages 0 n start "end" flags allocated])
    case (stop mm1)
    then have "avail mm = 0"
      using alloc_orders_none [OF less.prems(1,2,5)] by blast
    then show ?thesis
      using less.prems(3,7) cp by simp
  next
    case (take c j x mm2)
    show ?thesis
    proof (cases "pages - BIT j = 0")
      case True
      then show ?thesis
        using take(12) less.prems(8) by simp
    next
      case False
      have sh: "chunk_size mm2 = chunk_size mm" "memory_ok mm2" "max_order mm2 = max_order mm"
        using takenD(1) [OF take(2)] less.prems(2) by (simp_all add: same_shape_def memory_ok_def)
      have "unat (total_size mm2 [c]) = unat (chunk_size mm) * 2 ^ j"
        using unat_block_size [OF validD(1) [OF take(1)] take(4)] take(4,5) sh(1) by (simp add: block_bytes_def)
      then have "unat (avail mm) = unat (avail mm2) + unat (chunk_size mm) * 2 ^ j"
        using taken_avail [OF less.prems(1) take(1,2)] by simp
      then have "unat (chunk_size mm2) * unat (pages - BIT j) \<le> unat (avail mm2)"
        using less.prems(7) unfolding sh(1) take(10) by (simp add: diff_mult_distrib2)
      moreover have "unat (pages - BIT j) < unat pages"
        using take(10) less.prems(3) by simp
      moreover have "0 < unat (pages - BIT j)"
        using False by (simp add: unat_gt_0)
      moreover have "alloc_pages_loop start end 0 flags j (pages - BIT j) (allocated @ [c]) mm2 = Some (ok, bs, mm')"
        using take(12) less.prems(8) False by simp
      ultimately show ?thesis
        using less.hyps [of "pages - BIT j" mm2 j "allocated @ [c]"] take(1,7) sh(2,3) less.prems(4,5) by simp
    qed
  qed
qed

lemma alloc_enough:
  assumes "valid mm" "memory_ok mm" "alloc_params_valid start end sz (chunk_size mm) mm" "start + sz \<noteq> end"
    "unat (mm_size mm) \<le> 2 ^ 63" "request_fits sz (chunk_size mm) flags mm" "\<not> contiguous flags" "\<not> ranged flags" "sz \<le> avail mm"
  shows "\<exists>bs mm'. drm_buddy_alloc_blocks start end sz (chunk_size mm) blocks flags mm = Some (OK, blocks @ bs, mm') \<and>
    alloc_result start end sz flags mm bs mm'"
proof -
  obtain k where k: "unat (chunk_size mm) = 2 ^ k"
    by (rule geometryD [OF tree_okD2(1) [OF validD(1) [OF assms(1)]]])
  obtain rsz m where l: "rounded_sizes sz (chunk_size mm) flags = (rsz, m)" "unat (chunk_size mm) dvd unat rsz" "unat (chunk_size mm) dvd unat sz"
    "sz \<le> rsz" "chunk_size mm * drop_bit (ilog2 (chunk_size mm)) rsz = rsz"
    "0 < unat (drop_bit (ilog2 (chunk_size mm)) rsz)" "unat (drop_bit (ilog2 (chunk_size mm)) rsz) < 2 ^ 32"
    "2 ^ (ilog2 m - ilog2 (chunk_size mm)) dvd unat (drop_bit (ilog2 (chunk_size mm)) rsz)"
    "ilog2 m - ilog2 (chunk_size mm) \<le> order_of_pages (drop_bit (ilog2 (chunk_size mm)) rsz)"
    "order_of_pages (drop_bit (ilog2 (chunk_size mm)) rsz) \<le> max_order mm"
    by (rule loop_args [OF assms(1,3,5,6)]) blast
  have r: "rsz = sz" "m = chunk_size mm"
    using l(1,3) IS_ALIGNED_iff [OF k] k assms(7) by (auto simp: rounded_sizes_def contiguous_def)
  let ?pages = "drop_bit (ilog2 (chunk_size mm)) sz"
  have "unat ?pages = unat sz div 2 ^ k"
    using ilog2_pow2 [OF k] by (simp add: unat_drop_bit)
  then have "unat (chunk_size mm) * unat ?pages \<le> unat (avail mm)"
    using l(3) k assms(9) by (simp add: word_le_nat_alt)
  moreover have "min (order_of_pages ?pages) (order_of_pages ?pages) \<le> max_order mm"
    using l(10) r by simp
  ultimately have "ok" if "alloc_pages_loop start end 0 flags (order_of_pages ?pages) ?pages [] mm = Some (ok, bs, mm')" for ok bs mm'
    using alloc_pages_enough [OF assms(1,2) l(6,7) [unfolded r] assms(8) _ _ that] by blast
  then have "err = OK" if "drm_buddy_alloc_blocks start end sz (chunk_size mm) blocks flags mm = Some (err, bs, mm')" for err bs mm'
    using that assms(3,4) l(1) r by (auto simp: drm_buddy_alloc_blocks_def Let_def Option.bind_eq_Some_conv split: if_splits)
  then show ?thesis
    using alloc_search [OF assms(1-6), of blocks] assms(7) by fastforce
qed

section \<open>Splits that fail\<close>

text \<open>
  When the cache has no block for the left half, the block stays free and linked; the path that undoes the search
  frees it again, which links it a second time.
\<close>

lemma split_block_fails:
  assumes "slab mm b = Some x" "drm_buddy_block_is_free x" "0 < drm_buddy_block_order x" "drm_buddy_block_order x \<le> 51"
    "\<not> slab_ok mm (slab_next mm)"
  shows "split_block b mm = Some (ENOMEM, mm\<lparr>slab_next := Suc (slab_next mm), slab := (slab mm)(b \<mapsto> x\<lparr>left := None\<rparr>)\<rparr>)"
  using assms by (simp add: split_block_def drm_block_alloc_def DRM_BUDDY_MAX_ORDER_def Let_def)

lemma failed_split:
  assumes "valid mm" "slab mm b = Some x" "drm_buddy_block_is_free x" "n < drm_buddy_block_order x" "\<not> slab_ok mm (slab_next mm)"
  shows "split_down n (drm_buddy_block_order x) b mm = None"
proof -
  note v = validD [OF assms(1)]
  define mm1 where "mm1 = mm\<lparr>slab_next := Suc (slab_next mm), slab := (slab mm)(b \<mapsto> x\<lparr>left := None\<rparr>)\<rparr>"
  obtain k where k: "drm_buddy_block_order x = Suc k"
    using assms(4) by (cases "drm_buddy_block_order x") auto
  have "drm_buddy_block_order x \<le> 51"
    using tree_okD(2) [OF v(1) assms(2)] geometryD [OF tree_okD2(1) [OF v(1)]] by (metis order.trans)
  then have s: "split_block b mm = Some (ENOMEM, mm1)"
    unfolding mm1_def using assms(4) by (intro split_block_fails [OF assms(2,3) _ _ assms(5)]) simp_all
  have b1: "slab mm1 b = Some (x\<lparr>left := None\<rparr>)"
    by (simp add: mm1_def)
  have "merge_up False b mm1 = Some (b, mm1)"
  proof (cases "parent x")
    case None
    then show ?thesis
      using b1 by (subst merge_up.simps) simp
  next
    case (Some p)
    obtain y yb pb where y: "do_get_buddy b mm = Some (Some y)" "slab mm y = Some yb" "y \<noteq> b" "slab mm p = Some pb"
        "drm_buddy_block_is_split pb" "(left pb = Some b \<and> right pb = Some y) \<or> (left pb = Some y \<and> right pb = Some b)"
      by (rule buddy_of_child [OF v(1) assms(2) Some])
    have "p \<noteq> b"
      using y(4,5) assms(2,3) states_exclude(1) by auto
    then have "do_get_buddy b mm1 = Some (Some y)" "slab mm1 y = Some yb"
      using y(1-4) Some assms(2) by (auto simp: do_get_buddy_def mm1_def)
    moreover have "drm_buddy_block_is_clear x \<noteq> drm_buddy_block_is_clear yb" if "drm_buddy_block_is_free yb"
      by (rule free_buddies_differ [OF v(5) y(4-6) assms(2) y(2) assms(3) that])
    ultimately show ?thesis
      using merge_up_unfold [OF b1, of p y yb False] Some by auto
  qed
  moreover have "b \<in> free_of_order mm (drm_buddy_block_order x)"
    using assms(2,3) by (simp add: free_of_order_def)
  then have "list_ex (\<lambda>fl. b \<in> set fl) (free_list mm)"
    using list_ex_linked [OF v(2), of b] tree_okD(2) [OF v(1) assms(2)] by auto
  then have "mark_free b mm1 = None"
    using b1 by (simp add: mark_free_def list_insert_sorted_def mm1_def)
  ultimately have "do_drm_buddy_free False b mm1 = None"
    using b1 by (simp add: do_drm_buddy_free_def Let_def)
  then show ?thesis
    using s k assms(4) by (simp add: split_down.simps [of n "Suc k"])
qed

lemma alloc_from_freelist_fails:
  assumes "valid mm" "entry mm n b" "free_of_order mm n = {}" "\<not> slab_ok mm (slab_next mm)"
  shows "alloc_from_freelist n flags mm = None"
proof -
  have "buddy_inv {} mm"
    using assms(1) by (simp add: valid_def)
  then obtain c x where x: "slab mm c = Some x" "drm_buddy_block_is_free x" "n \<le> drm_buddy_block_order x"
      "alloc_from_freelist n flags mm = split_down n (drm_buddy_block_order x) c mm"
    using alloc_from_freelist_pick [of "{}" mm n flags] assms(2) by blast
  moreover have "n \<noteq> drm_buddy_block_order x"
    using assms(3) x(1,2) by (auto simp: free_of_order_def)
  ultimately show ?thesis
    using failed_split [OF assms(1) x(1,2) _ assms(4), of n] by simp
qed

end
