(* ===== verification/Buddy_Props.thy ===== *)
theory Buddy_Props
  imports Buddy_Live
begin

text \<open>
  The properties of the buddy allocator, with a small allocator of seven chunks on which they are used.
\<close>

section \<open>A small allocator\<close>

text \<open>Seven chunks of 4 KiB, so that there are three roots, of orders two, one and zero.\<close>

definition blank :: drm_buddy where
  "blank = \<lparr>free_list = [], roots = [], n_roots = 0, max_order = 0, chunk_size = 0, mm_size = 0, avail = 0, clear_avail = 0,
     slab = Map.empty, slab_next = 0, slab_ok = (\<lambda>_. True), warned = False\<rparr>"

definition seven :: drm_buddy where
  "seven = snd (the (drm_buddy_init True True 28672 4096 blank))"

lemma blank_fields [simp]: "slab blank = Map.empty" "memory_ok blank"
  by (simp_all add: blank_def memory_ok_def)

lemma seven_args: "init_args 28672 4096" "round_down 28672 4096 = 28672" "ilog2 28672 = 14" "ilog2 4096 = 12"
proof -
  show "init_args 28672 4096"
    by (simp add: init_args_def is_power_of_2_def SZ_4K_def)
  show "round_down 28672 4096 = 28672"
    by (simp add: round_down_def)
  show "ilog2 28672 = 14" "ilog2 4096 = 12"
    by (rule ilog2_unique; simp)+
qed

lemma seven_init: "drm_buddy_init True True 28672 4096 blank = Some (OK, seven)" "init_result 28672 4096 blank seven"
  using drm_buddy_init_ok [of blank True True 28672 4096] by (auto simp: seven_def seven_args split: if_splits)

lemma seven_fields:
  "valid seven" "memory_ok seven" "chunk_size seven = 4096" "mm_size seven = 28672" "avail seven = 28672" "max_order seven = 2"
  "free_space seven UNIV = {0 ..< 28672}" "buddy_state seven"
  using seven_init(2) by (simp_all add: init_result_def seven_args buddy_state_def memory_ok_def blank_def)

text \<open>The first three chunks, taken as an exact range.\<close>

definition three_blocks :: "nat list" where
  "three_blocks = fst (snd (the (drm_buddy_alloc_blocks 0 12288 12288 4096 [] 0 seven)))"

definition three_taken :: drm_buddy where
  "three_taken = snd (snd (the (drm_buddy_alloc_blocks 0 12288 12288 4096 [] 0 seven)))"

lemma seven_range:
  "alloc_params_valid 0 12288 12288 4096 seven" "IS_ALIGNED (0 OR 12288) 4096" "extent 0 12288 \<subseteq> free_space seven UNIV"
  by (simp_all add: alloc_params_valid_def is_power_of_2_def IS_ALIGNED_def range_overflows_def seven_fields extent_def)

lemma three_alloc:
  "drm_buddy_alloc_blocks 0 12288 12288 4096 [] 0 seven = Some (OK, three_blocks, three_taken)"
  "alloc_result 0 12288 12288 0 seven three_blocks three_taken"
  using alloc_exact [OF seven_fields(1,2) seven_range(1) _ seven_range(2), of "[]" 0] seven_range(3)
  by (auto simp: three_blocks_def three_taken_def)

lemma three_fields:
  "valid three_taken" "taken three_blocks seven three_taken" "distinct three_blocks" "\<forall>b \<in> set three_blocks. is_allocated three_taken b"
  "three_blocks \<noteq> []" "buddy_state three_taken" "chunk_size three_taken = 4096" "max_order three_taken = 2"
proof -
  show v: "valid three_taken" "taken three_blocks seven three_taken"
    using three_alloc(2) by (simp_all add: alloc_result_def)
  then show "distinct three_blocks" "\<forall>b \<in> set three_blocks. is_allocated three_taken b"
    using takenD(3,4) by blast+
  have "12288 \<le> card (\<Union>b \<in> set three_blocks. region_of three_taken b)"
    using three_alloc(2) by (simp add: alloc_result_def)
  then show "three_blocks \<noteq> []"
    by auto
  show "buddy_state three_taken" "chunk_size three_taken = 4096" "max_order three_taken = 2"
    using v(1) takenD(1) [OF v(2)] seven_fields by (simp_all add: buddy_state_def memory_ok_def same_shape_def)
qed

lemma three_first: "is_allocated three_taken (hd three_blocks)"
  using three_fields(4,5) by simp

section \<open>Setting up\<close>

text \<open>
  C21: \<^verbatim>\<open>drm_buddy_init\<close> always returns. It rejects a size below the chunk size and a chunk size that is not a power of two of at
  least 4 KiB. Otherwise, when the memory suffices, the allocator is valid, all of the rounded size is free and the counters
  say so; when it does not, the error is \<^verbatim>\<open>ENOMEM\<close> and no block is left behind.
\<close>

theorem buddy_init_outcome:
  assumes "slab mm = Map.empty"
  shows "\<exists>err mm'. drm_buddy_init mem_free_list mem_roots sz chunk mm = Some (err, mm') \<and>
    (if sz < chunk \<or> chunk < SZ_4K \<or> \<not> is_power_of_2 chunk then err = EINVAL \<and> mm' = mm
     else if err = OK then valid mm' \<and> chunk_size mm' = chunk \<and> mm_size mm' = round_down sz chunk \<and>
       free_space mm' UNIV = {0 ..< unat (mm_size mm')} \<and> avail mm' = mm_size mm' \<and> clear_avail mm' = 0
     else err = ENOMEM \<and> slab mm' = Map.empty \<and> \<not> (mem_free_list \<and> mem_roots \<and> memory_ok mm))"
proof -
  have e: "sz < chunk \<or> chunk < SZ_4K \<or> \<not> is_power_of_2 chunk \<longleftrightarrow> \<not> init_args sz chunk"
    by (auto simp: init_args_def)
  obtain err mm' where "drm_buddy_init mem_free_list mem_roots sz chunk mm = Some (err, mm')"
      "if \<not> init_args sz chunk then err = EINVAL \<and> mm' = mm else if err = OK then init_result sz chunk mm mm'
       else err = ENOMEM \<and> slab mm' = Map.empty \<and> \<not> (mem_free_list \<and> mem_roots \<and> memory_ok mm)"
    using drm_buddy_init_ok [OF assms] by blast
  then show ?thesis
    unfolding e by (intro exI [of _ err] exI [of _ mm']) (simp add: init_result_def split: if_splits)
qed

theorem buddy_init_outcome_witness:
  "\<exists>mm'. drm_buddy_init True True 28672 4096 blank = Some (OK, mm') \<and> valid mm' \<and> avail mm' = mm_size mm'"
  using buddy_init_outcome [of blank True True 28672 4096] seven_args(1) by (auto simp: init_args_def split: if_splits)

section \<open>Sequences of calls\<close>

lemma seven_calls: "legal_calls [Alloc 0 12288 12288 4096 0] seven"
  by (simp split: option.split)

text \<open>
  C1: from a fresh allocator every sequence of calls that only frees and trims blocks the client has returns without reaching
  an assertion or a bad pointer, and leaves the allocator valid: the free space and the regions of the allocated blocks make
  up the managed space, no two of them overlap, and \<^verbatim>\<open>avail\<close> is the number of free bytes.
\<close>

theorem buddy_calls_partition:
  assumes "slab mm0 = Map.empty" "memory_ok mm0" "unat sz \<le> 2 ^ 63" "drm_buddy_init True True sz chunk mm0 = Some (OK, mm)"
    and "legal_calls cs mm"
  shows "\<exists>mm'. run_calls cs mm = Some mm' \<and> valid mm' \<and>
    free_space mm' UNIV \<union> \<Union> (ran (owned mm')) = {0 ..< unat (mm_size mm)} \<and>
    (\<forall>a b A B. owned mm' a = Some A \<longrightarrow> owned mm' b = Some B \<longrightarrow> a \<noteq> b \<longrightarrow> A \<inter> B = {}) \<and>
    unat (avail mm') + card (\<Union> (ran (owned mm'))) = unat (mm_size mm)"
proof -
  have i: "init_result sz chunk mm0 mm" "init_args sz chunk"
    using drm_buddy_init_ok [OF assms(1), of True True sz chunk] assms(4) by (auto split: if_splits)
  have "unat (mm_size mm) \<le> unat sz"
    using i(1) by (simp add: init_result_def round_down_def word_and_le2 flip: word_le_nat_alt)
  then have "buddy_state mm"
    using i(1) assms(2,3) by (simp add: buddy_state_def init_result_def memory_ok_def)
  then obtain mm' where m: "run_calls cs mm = Some mm'" "buddy_state mm'" "unat (mm_size mm') = unat (mm_size mm)"
    using buddy.runs_ok [OF _ assms(5)] by blast
  then have v: "valid mm'" "buddy_inv {} mm'"
    by (simp_all add: buddy_state_def valid_def)
  show ?thesis
    using m owned_tiles [OF v(1)] buddy.accounts [OF m(2)] avail_card(1) [OF v(2)] v(1) by (intro exI [of _ mm']) auto
qed

theorem buddy_calls_partition_witness:
  "\<exists>mm'. run_calls [Alloc 0 12288 12288 4096 0] seven = Some mm' \<and> valid mm' \<and>
    unat (avail mm') + card (\<Union> (ran (owned mm'))) = 28672"
  using buddy_calls_partition [OF blank_fields _ seven_init(1) seven_calls] by (auto simp: seven_fields)

lemma three_calls: "legal_calls [Alloc 0 28672 4096 4096 0] three_taken"
  by (auto simp: request_fits_def rounded_sizes_def IS_ALIGNED_def three_fields split: option.split)

text \<open>
  C2: no call touches memory it does not name: whatever sequence of legal calls other clients make, a block that none of
  them frees or trims stays allocated with the region it had.
\<close>

theorem buddy_owned_stable:
  assumes "buddy_state mm" "legal_calls cs mm" "owned mm h = Some A" "h \<notin> (\<Union>c \<in> set cs. touched c)"
  shows "\<exists>mm'. run_calls cs mm = Some mm' \<and> owned mm' h = Some A"
  using buddy.runs_ok [OF assms(1,2)] assms(3,4) by blast

theorem buddy_owned_stable_witness:
  "\<exists>mm'. run_calls [Alloc 0 28672 4096 4096 0] three_taken = Some mm' \<and>
    owned mm' (hd three_blocks) = Some (region_of three_taken (hd three_blocks))"
  by (rule buddy_owned_stable [OF three_fields(6) three_calls]) (simp_all add: owned_def three_first)

text \<open>
  C3: every legal call refines a step of the abstract allocator, which only knows the free space and the regions of the
  allocated blocks: an allocation is refused and changes nothing or grants fresh disjoint regions out of the free space that
  are large enough, contiguous and in range as the flags ask; freeing gives the regions back; trimming keeps a part.
\<close>

theorem buddy_call_refines:
  assumes "buddy_state mm" "legal_call c mm"
  shows "\<exists>mm'. run_call c mm = Some mm' \<and> buddy_state mm' \<and> spec_call c (space_of mm) (space_of mm')"
  using run_call_refines [OF assms] by (auto simp: refines_def)

theorem buddy_call_refines_witness:
  "\<exists>mm'. run_call (Free three_blocks 0) three_taken = Some mm' \<and> buddy_state mm' \<and>
    spec_call (Free three_blocks 0) (space_of three_taken) (space_of mm')"
  by (rule buddy_call_refines [OF three_fields(6)]) (simp add: three_fields)

section \<open>Allocation\<close>



text \<open>
  C5: a request for an exact range, given by a start and an end that are the size apart, succeeds if and only if every byte of
  the range is free. The blocks handed out then make up exactly this range; otherwise nothing has changed.
\<close>

theorem alloc_exact_range_iff_free:
  assumes "valid mm" "memory_ok mm" "alloc_params_valid start end sz min_block_size mm" "start + sz = end"
    and "IS_ALIGNED (start OR end) min_block_size"
  shows "if {unat start ..< unat start + unat sz} \<subseteq> free_space mm UNIV
    then \<exists>bs mm'. drm_buddy_alloc_blocks start end sz min_block_size blocks flags mm = Some (OK, blocks @ bs, mm') \<and> valid mm' \<and>
      taken bs mm mm' \<and> (\<Union>b \<in> set bs. region_of mm' b) = {unat start ..< unat start + unat sz}
    else \<exists>mm'. drm_buddy_alloc_blocks start end sz min_block_size blocks flags mm = Some (ENOSPC, blocks, mm') \<and> valid mm' \<and>
      restored mm mm'"
  using alloc_exact [OF assms, of blocks flags] by (auto simp: extent_def alloc_result_def split: if_splits)

theorem alloc_exact_range_iff_free_witness:
  "\<exists>bs mm'. drm_buddy_alloc_blocks 0 12288 12288 4096 [] 0 seven = Some (OK, bs, mm') \<and> valid mm' \<and>
    (\<Union>b \<in> set bs. region_of mm' b) = {0 ..< 12288}"
  using alloc_exact_range_iff_free [OF seven_fields(1,2) seven_range(1) _ seven_range(2), of "[]" 0] by (auto simp: seven_fields)

text \<open>
  C6: a request without range and contiguity whose blocks may be as small as a chunk never fails for fragmentation: it succeeds
  whenever the free bytes counted by \<^verbatim>\<open>avail\<close> suffice.
\<close>

theorem alloc_succeeds_when_avail:
  assumes "valid mm" "memory_ok mm" "unat (mm_size mm) \<le> 2 ^ 63" "alloc_params_valid start end sz (chunk_size mm) mm" "start + sz \<noteq> end"
    and "request_fits sz (chunk_size mm) flags mm" "\<not> contiguous flags" "\<not> ranged flags" "sz \<le> avail mm"
  shows "\<exists>bs mm'. drm_buddy_alloc_blocks start end sz (chunk_size mm) blocks flags mm = Some (OK, blocks @ bs, mm') \<and> valid mm' \<and>
    taken bs mm mm' \<and> unat sz \<le> card (\<Union>b \<in> set bs. region_of mm' b)"
  using alloc_enough [OF assms(1,2,4,5,3,6-9), of blocks] by (auto simp: alloc_result_def)

theorem alloc_succeeds_when_avail_witness:
  "\<exists>bs mm'. drm_buddy_alloc_blocks 0 0 20480 4096 [] 0 seven = Some (OK, bs, mm') \<and> valid mm' \<and> taken bs seven mm' \<and>
    20480 \<le> card (\<Union>b \<in> set bs. region_of mm' b)"
proof -
  have "alloc_params_valid 0 0 20480 4096 seven" "request_fits 20480 4096 0 seven" "\<not> contiguous 0" "\<not> ranged 0"
    by (simp_all add: alloc_params_valid_def is_power_of_2_def IS_ALIGNED_def range_overflows_def request_fits_def rounded_sizes_def
        contiguous_def ranged_def seven_fields)
  then show ?thesis
    using alloc_succeeds_when_avail [of seven 0 0 20480 0 "[]"] by (simp add: seven_fields)
qed

section \<open>Freeing\<close>

text \<open>
  C7: \<^verbatim>\<open>drm_buddy_free_list\<close> returns for any list of distinct allocated blocks and leaves the allocator valid, with every pair
  of free buddies of equal clear flag merged. Exactly the listed blocks are no longer allocated, their bytes are free, dirty or
  cleared as the flag says, and counted in \<^verbatim>\<open>avail\<close>.
\<close>

theorem free_list_gives_back:
  fixes flags :: u64
  assumes "valid mm" "distinct bs" "\<forall>b \<in> set bs. is_allocated mm b"
  defines "cleared \<equiv> flags AND DRM_BUDDY_CLEARED \<noteq> 0"
  shows "\<exists>mm'. drm_buddy_free_list bs flags mm = Some mm' \<and> valid mm' \<and> owned mm' = owned mm |` (- set bs) \<and>
    free_space mm' {cleared} = free_space mm {cleared} \<union> (\<Union>b \<in> set bs. region_of mm b) \<and>
    free_space mm' {\<not> cleared} = free_space mm {\<not> cleared} \<and> avail mm' = avail mm + total_size mm bs"
proof -
  obtain mm' where m: "drm_buddy_free_list bs flags mm = Some mm'" "valid mm'" "released (set bs) (\<lambda>_. cleared) mm mm'"
    using run_free [OF assms(1-3), of flags] unfolding cleared_def by blast
  note r = releasedD [OF m(3)]
  have "region mm (the (slab mm b)) = region_of mm b" if "b \<in> set bs" for b
    using that assms(3) by (fastforce simp: is_allocated_def region_of_def)
  moreover have "owned mm' = owned mm |` (- set bs)"
    using released_space [OF m(3) assms(3)] by (simp add: space_of_def)
  moreover have "avail mm' = avail mm + total_size mm bs"
    using r(4) assms(2) by (simp add: total_size_def sum_list_distinct_conv_sum_set)
  ultimately show ?thesis
    using m(1,2) r(5) by simp
qed

theorem free_list_gives_back_witness:
  "\<exists>mm'. drm_buddy_free_list three_blocks 0 three_taken = Some mm' \<and> valid mm' \<and>
    avail mm' = avail three_taken + total_size three_taken three_blocks"
  using free_list_gives_back [OF three_fields(1,3,4), of 0] by blast

text \<open>
  C8: freeing what an allocation handed out undoes it: the free space, \<^verbatim>\<open>avail\<close> and the allocated blocks are again what they
  were before the allocation.
\<close>

theorem alloc_free_roundtrip:
  assumes "buddy_state mm" "legal_call (Alloc start end sz min_block_size flags) mm"
    and "drm_buddy_alloc_blocks start end sz min_block_size [] flags mm = Some (OK, bs, mm1)"
  shows "\<exists>mm'. drm_buddy_free_list bs free_flags mm1 = Some mm' \<and> valid mm' \<and> free_space mm' UNIV = free_space mm UNIV \<and>
    avail mm' = avail mm \<and> owned mm' = owned mm"
proof -
  have "valid mm" "memory_ok mm" "unat (mm_size mm) \<le> 2 ^ 63"
    using assms(1) by (simp_all add: buddy_state_def)
  then have "alloc_result start end sz flags mm bs mm1"
    using alloc_legal [OF _ _ _ assms(2)] assms(3) by (fastforce split: if_splits)
  then have v: "valid mm1" "taken bs mm mm1"
    by (simp_all add: alloc_result_def)
  note t = takenD [OF v(2)]
  have al: "\<forall>b \<in> set bs. is_allocated mm1 b"
    using t(4) by blast
  obtain mm' where m: "drm_buddy_free_list bs free_flags mm1 = Some mm'" "valid mm'"
      "released (set bs) (\<lambda>_. free_flags AND DRM_BUDDY_CLEARED \<noteq> 0) mm1 mm'"
    using run_free [OF v(1) t(3) al] by blast
  have k: "kept mm mm'"
    by (rule taken_released [OF v(2) m(3)])
  show ?thesis
    using m(1,2) k kept_space [OF k] by (auto simp: kept_def space_of_def)
qed

theorem alloc_free_roundtrip_witness:
  "\<exists>mm'. drm_buddy_free_list three_blocks 0 three_taken = Some mm' \<and> free_space mm' UNIV = {0 ..< 28672} \<and> owned mm' = owned seven"
  using alloc_free_roundtrip [OF seven_fields(8) _ three_alloc(1), of 0] by (auto simp: seven_fields)

text \<open>
  C22: freeing one block returns: the loop that merges a block with its buddy and goes on with the parent ends, at the latest at
  a root, and no pair of free buddies with equal clear flags is left.
\<close>

theorem free_block_merges:
  assumes "valid mm" "is_allocated mm b"
  shows "\<exists>mm'. drm_buddy_free_block b mm = Some mm' \<and> valid mm' \<and> (\<forall>p. \<not> mergeable mm' p) \<and> owned mm' = (owned mm)(b := None)"
proof -
  obtain x where x: "slab mm b = Some x" "drm_buddy_block_is_allocated x"
    using assms(2) by (auto simp: is_allocated_def)
  obtain mm' where m: "drm_buddy_free_block b mm = Some mm'" "valid mm'" "released {b} drm_buddy_block_is_clear mm mm'"
    by (rule free_block_ok [OF assms(1) x])
  have "owned mm' = owned mm |` (- {b})"
    using released_space [of "[b]"] m(3) assms(2) by (simp add: space_of_def)
  then show ?thesis
    using m(1,2) validD(5) [OF m(2)] by (auto simp: merged_def restrict_map_def)
qed

theorem free_block_merges_witness:
  "\<exists>mm'. drm_buddy_free_block (hd three_blocks) three_taken = Some mm' \<and> valid mm' \<and> owned mm' (hd three_blocks) = None"
  using free_block_merges [OF three_fields(1) three_first] by auto

text \<open>
  C23: merging by force, which joins cleared with dirty buddies when the memory is too fragmented, always returns, keeps the
  allocator valid and changes neither the free space nor the allocated blocks.
\<close>

theorem force_merge_keeps_space:
  assumes "valid mm"
  shows "\<exists>err mm'. do_force_merge start end min_order mm = Some (err, mm') \<and> valid mm' \<and>
    free_space mm' UNIV = free_space mm UNIV \<and> avail mm' = avail mm \<and> owned mm' = owned mm"
proof -
  obtain err mm' where "do_force_merge start end min_order mm = Some (err, mm')" "valid mm'" "kept mm mm'"
    by (rule do_force_merge_ok [OF assms])
  then show ?thesis
    using kept_space by (auto simp: space_of_def kept_def)
qed

theorem force_merge_keeps_space_witness:
  "\<exists>err mm'. do_force_merge 0 28672 2 three_taken = Some (err, mm') \<and> valid mm' \<and> owned mm' = owned three_taken"
  using force_merge_keeps_space [OF three_fields(1)] by blast

section \<open>Trimming\<close>

text \<open>
  C9: trimming an allocated block to its own size does nothing. Trimming it to a smaller part of it that is not empty and
  aligned to chunks gives blocks that make up exactly this part and frees the rest. Any other request is rejected and changes
  nothing.
\<close>

theorem block_trim_outcome:
  fixes start :: "u64 option"
  assumes "valid mm" "memory_ok mm" "slab mm b = Some x" "drm_buddy_block_is_allocated x"
  defines "s \<equiv> (case start of None \<Rightarrow> drm_buddy_block_offset x | Some t \<Rightarrow> t)"
  shows "if sz = drm_buddy_block_size mm x then drm_buddy_block_trim start sz [b] mm = Some (OK, [b], mm)
    else if sz \<noteq> 0 \<and> unat (chunk_size mm) dvd unat s \<and> unat (chunk_size mm) dvd unat sz \<and> {unat s ..< unat s + unat sz} \<subseteq> region mm x
    then \<exists>bs mm'. drm_buddy_block_trim start sz [b] mm = Some (OK, bs, mm') \<and> valid mm' \<and> (\<forall>c \<in> set bs. is_allocated mm' c) \<and>
      (\<Union>c \<in> set bs. region_of mm' c) = {unat s ..< unat s + unat sz} \<and>
      free_space mm' UNIV = free_space mm UNIV \<union> (region mm x - {unat s ..< unat s + unat sz}) \<and>
      owned mm' |` (- set bs) = (owned mm)(b := None)
    else drm_buddy_block_trim start sz [b] mm = Some (EINVAL, [b], mm)"
proof -
  have s: "trim_start start x = s"
    by (simp add: s_def trim_start_def)
  note a = trim_accepts_iff [OF validD(1) [OF assms(1)] assms(3), of start sz, unfolded s]
  have al: "is_allocated mm b"
    using assms(3,4) by (simp add: is_allocated_def)
  consider "sz = drm_buddy_block_size mm x" | "sz \<noteq> drm_buddy_block_size mm x" "trim_accepts start sz x mm"
    | "sz \<noteq> drm_buddy_block_size mm x" "\<not> trim_accepts start sz x mm"
    by blast
  then show ?thesis
  proof cases
    case 1
    then show ?thesis
      using block_trim_same [OF validD(1) [OF assms(1)] assms(3,4)] by simp
  next
    case 2
    obtain bs mm' where t: "drm_buddy_block_trim start sz [b] mm = Some (OK, bs, mm')" "valid mm'" "trimmed b bs (extent s sz) mm mm'"
      by (rule block_trim_ok [OF assms(1-4) 2(2,1), unfolded s])
    note v = trimmed_space [OF assms(1) t(2,3)]
    have "owned mm' |` (- set bs) = (owned mm)(b := None)"
      using trimmed_owned [OF t(3)] by (auto simp: restrict_map_def)
    moreover have "free_space mm' UNIV = free_space mm UNIV \<union> (region mm x - extent s sz)"
      using v(1,4) assms(3) by (simp add: space_of_def region_of_def)
    moreover have "\<forall>c \<in> set bs. is_allocated mm' c" "(\<Union>c \<in> set bs. region_of mm' c) = extent s sz"
      using t(3) unfolding trimmed_def by blast+
    ultimately show ?thesis
      using t(1,2) 2 a by (auto simp: extent_def)
  next
    case 3
    then show ?thesis
      using block_trim_rejects [OF assms(1,3,4) 3(2,1)] a by simp
  qed
qed

theorem block_trim_outcome_witness: "\<exists>bs mm'. drm_buddy_block_trim None 4096 [hd three_blocks] three_taken = Some (OK, bs, mm')"
proof -
  obtain x where x: "slab three_taken (hd three_blocks) = Some x" "drm_buddy_block_is_allocated x"
    using three_first by (auto simp: is_allocated_def)
  have ok: "tree_ok {} three_taken" and mem: "memory_ok three_taken"
    using three_fields(1,6) by (simp_all add: valid_def buddy_inv_def buddy_state_def)
  have d: "4096 dvd block_bytes three_taken x" "0 < block_bytes three_taken x"
    using chunk_dvd(2,4) [OF tree_okD2(1) [OF ok]] by blast+
  then have "4096 dvd unat (drm_buddy_block_offset x)" "4096 \<le> block_bytes three_taken x"
    using tree_okD(3) [OF ok x(1)] dvd_trans dvd_imp_le [OF d] by (auto simp: block_start_def)
  then show ?thesis
    using block_trim_outcome [OF three_fields(1) mem x, of 4096 None] three_fields(7)
    by (auto simp: region_def block_start_def split: if_splits)
qed

section \<open>Bookkeeping\<close>



text \<open>
  C26: inserting into a free list by walking to the first entry with a larger offset is the insertion of insertion sort, for
  a block whose offset is not in the list.
\<close>

theorem insert_entry_is_insort:
  assumes "\<forall>c \<in> set fl. slab mm c \<noteq> None \<and> offset_of mm c \<noteq> offset_of mm b"
  shows "insert_entry mm (offset_of mm b) b fl = Some (insort_key (offset_of mm) b fl)"
  using assms
proof (induction fl)
  case (Cons c fl)
  then show ?case
    by (cases "slab mm c") (auto simp: offset_of_def)
qed simp

definition three_headers :: drm_buddy where
  "three_headers = blank\<lparr>slab := (\<lambda>n. if n < 3 then Some \<lparr>header = of_nat n * 4096, left = None, right = None, parent = None\<rparr> else None)\<rparr>"

theorem insert_entry_is_insort_witness: "insert_entry three_headers (offset_of three_headers 1) 1 [0, 2] = Some [0, 1, 2]"
proof -
  have "offset_of three_headers 0 = 0" "offset_of three_headers 1 = 4096" "offset_of three_headers 2 = 8192"
      "slab three_headers 0 \<noteq> None" "slab three_headers 2 \<noteq> None"
    by (simp_all add: three_headers_def offset_of_def block_field_defs header_masks GENMASK_ULL_def mask_eq_exp_minus_1)
  then show ?thesis
    using insert_entry_is_insort [of "[0, 2]" three_headers 1] by simp
qed



section \<open>Requests that stop the code\<close>

text \<open>
  C27: a well-formed request whose rounded size has an order above the largest one does not fail with an error: it reaches the
  assertion on the order in the allocation loop.
\<close>

theorem oversized_request_asserts:
  assumes "alloc_params_valid start end sz min_block_size mm" "start + sz \<noteq> end"
    and "max_order mm < order_of_pages (drop_bit (ilog2 (chunk_size mm)) (fst (rounded_sizes sz min_block_size flags)))"
  shows "drm_buddy_alloc_blocks start end sz min_block_size blocks flags mm = None"
proof -
  obtain rsz m where r: "rounded_sizes sz min_block_size flags = (rsz, m)"
    by fastforce
  have "alloc_pages_loop start end n flags (order_of_pages pages) pages [] mm = None" if "max_order mm < order_of_pages pages" for n pages
    using that by (simp add: alloc_pages_unfold)
  then show ?thesis
    using assms r by (simp add: drm_buddy_alloc_blocks_def Let_def)
qed

theorem oversized_request_asserts_witness:
  "drm_buddy_alloc_blocks 0 28672 20480 4096 [] DRM_BUDDY_CONTIGUOUS_ALLOCATION seven = None"
proof -
  have "alloc_params_valid 0 28672 20480 4096 seven"
    by (simp add: alloc_params_valid_def is_power_of_2_def IS_ALIGNED_def range_overflows_def seven_fields)
  moreover have "roundup_pow_of_two 20480 = 32768"
  proof -
    have "ilog2 20479 = 14"
      by (rule ilog2_unique) simp_all
    then have "fls64 20479 = 15"
      by (simp add: ilog2_def)
    then show ?thesis
      by (simp add: roundup_pow_of_two_def)
  qed
  then have "order_of_pages (drop_bit (ilog2 (chunk_size seven)) (fst (rounded_sizes 20480 4096 DRM_BUDDY_CONTIGUOUS_ALLOCATION))) = 3"
    by (intro order_of_pages_unique)
      (simp_all add: rounded_sizes_def DRM_BUDDY_CONTIGUOUS_ALLOCATION_def BIT_def seven_fields seven_args drop_bit_eq_div)
  ultimately show ?thesis
    using oversized_request_asserts [of 0 28672 20480 4096 seven DRM_BUDDY_CONTIGUOUS_ALLOCATION "[]"] by (simp add: seven_fields)
qed






end
