(* ===== verification/Spec2Isabelle.thy ===== *)
theory Spec2Isabelle
  imports Vmid Hdcp_Props Buddy_Props
begin

text \<open>
  A verification library for parts of the AMD GPU kernel driver (\<^verbatim>\<open>src/src-tree\<close>).

  \<^bold>\<open>The program.\<close>  The driver consists of a base driver, a compute driver, power management, the
  display core and several self-contained modules.  This library covers modules that are pure
  algorithms or state machines over their own data:

  \<^item> the HDCP module (\<^verbatim>\<open>amd/display/modules/hdcp\<close>), which authenticates a display link under HDCP 1.4
    or 2.2.  Its caller adds and removes displays and delivers events (callback, watchdog, interrupt);
    the module talks to the sink over DDC or AUX and to two applications on the security processor, and
    answers each event with requests for timers;
  \<^item> the VMID module (\<^verbatim>\<open>amd/display/modules/vmid\<close>) with the VM helper of the display core
    (\<^verbatim>\<open>dc/core/dc_vm_helper.c\<close>), which assigns virtual memory contexts to page tables;
  \<^item> the DRM buddy allocator (\<^verbatim>\<open>drm_buddy.c\<close>), which hands out ranges of video memory in blocks whose sizes
    are powers of two.

  \<^bold>\<open>Theories of the HDCP module.\<close>

  \<^item> \<^verbatim>\<open>Hdcp_Types\<close> has the data of \<^verbatim>\<open>mod_hdcp.h\<close>, \<^verbatim>\<open>Hdcp\<close> the data and inline helpers of \<^verbatim>\<open>hdcp.h\<close>.
    The union of transition inputs is a function from byte offsets to bytes, as the code clears it with
    memset and passes pointers to its members.
  \<^item> \<^verbatim>\<open>Hdcp_Env\<close> has the environment: DDC and AUX callbacks and the two applications of the security
    processor, over an arbitrary type of worlds.  Nothing is assumed of them unless a theorem says so.
  \<^item> \<^verbatim>\<open>Hdcp_Ddc\<close> models \<^verbatim>\<open>hdcp_ddc.c\<close>, \<^verbatim>\<open>Hdcp_Psp\<close> models \<^verbatim>\<open>hdcp_psp.c\<close>; \<^verbatim>\<open>Hdcp_Exec\<close>, \<^verbatim>\<open>Hdcp1_Exec\<close>
    and \<^verbatim>\<open>Hdcp2_Exec\<close> model \<^verbatim>\<open>hdcp1_execution.c\<close> and \<^verbatim>\<open>hdcp2_execution.c\<close>; \<^verbatim>\<open>Hdcp_Trans1\<close> and
    \<^verbatim>\<open>Hdcp_Trans2\<close> model the transition functions, one definition per case label; \<^verbatim>\<open>Hdcp_Top\<close> models
    \<^verbatim>\<open>hdcp.c\<close>.
  \<^item> An access outside an array or through a null pointer sets the ghost flag \<^verbatim>\<open>fault\<close> of the module and
    the model goes on; theorems speak about that flag where memory safety is the point.
  \<^item> \<^verbatim>\<open>Hdcp_Frame\<close> says what each action leaves unchanged.  \<^verbatim>\<open>Hdcp_Machine\<close> has, per state, the checks
    that must have passed before it, and the locale \<^verbatim>\<open>hdcp_machine\<close>, the contract of one of the four
    machines (version and link type), interpreted for all four.  \<^verbatim>\<open>Hdcp_Inv\<close> has the invariant of the
    module, its preservation by every interface function, and reachability.
  \<^item> \<^verbatim>\<open>Hdcp_Run\<close> has the abstract machine of phases and remaining attempts, the simulation, runs and
    completion.  \<^verbatim>\<open>Hdcp_Sample\<close> runs the module on a concrete sink.  \<^verbatim>\<open>Hdcp_Msg\<close> and \<^verbatim>\<open>Hdcp_Props\<close> hold
    the properties: reachable states, the handshake behind an authenticated link, refinement, the bound
    on attempts, completion and timers, displays, sessions, transfers in transactions, the key selection
    vector and buffer bounds.

  \<^bold>\<open>Theory of the VMID module.\<close>  \<^verbatim>\<open>Vmid\<close> has the VM helper and the VMID table, its invariant, and the
  behaviour of a lookup.

  \<^bold>\<open>Theories of the buddy allocator.\<close>

  \<^item> \<^verbatim>\<open>Kernel_Math\<close> and \<^verbatim>\<open>Kernel_Arith\<close> have the arithmetic of the kernel headers (masks, logarithms, rounding) and its
    meaning on natural numbers.  \<^verbatim>\<open>Buddy\<close> has the data and all operations of \<^verbatim>\<open>drm_buddy.c\<close>, under the names of the
    code, with a leading double underscore written \<^verbatim>\<open>do_\<close>.  Blocks live in a store from addresses to blocks with parent and child
    pointers; addresses are never reused.  The intrusive lists are lists of addresses, which is what they are as long as no
    block is linked twice.  The result \<^term>\<open>None\<close> stands for everything that is not a return: a failed \<^verbatim>\<open>BUG_ON\<close>, an
    access to a freed block or through a null pointer, linking a linked entry, unlinking an unlinked one, and a loop that does not
    end.  \<^verbatim>\<open>WARN_ON\<close> sets a ghost flag.  Whether the cache has a block left is the field \<^verbatim>\<open>slab_ok\<close>, per allocation.
  \<^item> \<^verbatim>\<open>Buddy_Inv\<close> and \<^verbatim>\<open>Buddy_Ops\<close> have the invariant: the blocks form binary trees whose leaves tile the managed space, the
    free lists are exact and sorted, the counters are sums over the free blocks.  \<^verbatim>\<open>Buddy_Split\<close> and \<^verbatim>\<open>Buddy_Free\<close> show
    that splitting, and freeing with its merge loop, keep it; \<^verbatim>\<open>valid\<close> adds that no two free buddies with equal clear
    flags are left apart.
  \<^item> \<^verbatim>\<open>Buddy_Claim\<close>, \<^verbatim>\<open>Buddy_Range\<close>, \<^verbatim>\<open>Buddy_Space\<close> and \<^verbatim>\<open>Buddy_Contig\<close> treat the allocation of an exact range, in
    terms of the free space as a set of bytes; \<^verbatim>\<open>Buddy_Search\<close> and \<^verbatim>\<open>Buddy_Bias\<close> the search for one block by order, in the
    free lists and in a range; \<^verbatim>\<open>Buddy_Merge\<close> the forced merge; \<^verbatim>\<open>Buddy_Take\<close> the loops over orders and pages;
    \<^verbatim>\<open>Buddy_Trim\<close> trimming; \<^verbatim>\<open>Buddy_Survive\<close> and \<^verbatim>\<open>Buddy_Harder\<close> the fallback for contiguous requests;
    \<^verbatim>\<open>Buddy_Alloc\<close> the entry point \<^verbatim>\<open>drm_buddy_alloc_blocks\<close>; \<^verbatim>\<open>Buddy_Init\<close> initialisation.
  \<^item> \<^verbatim>\<open>Buddy_Calls\<close> has calls by a client, the abstract allocator of free space and owned regions, the simulation, and the
    locale \<^verbatim>\<open>region_service\<close> for sequences of calls, interpreted for the allocator.  \<^verbatim>\<open>Buddy_Live\<close> shows when a request must
    succeed, and what a failing cache does.  \<^verbatim>\<open>Buddy_Props\<close> holds the properties.
  \<^item> The properties assume that the cache does not run out of blocks (\<^verbatim>\<open>memory_ok\<close>), as one of them shows that the code
    does not survive this; that the managed size is at most \<^term>\<open>2 ^ 63 :: nat\<close> bytes, so that rounding up does not
    wrap; and that the order of the rounded request is one the allocator has (\<^verbatim>\<open>request_fits\<close>), as one of them
    shows that the code stops at an assertion otherwise.  The fallback for contiguous requests is treated for an empty
    list of blocks, as it frees what the list held before.

  \<^bold>\<open>Loops and bounds.\<close>  Loops over arrays are recursion on lists or on the remaining count and total.
  The bit-counting loop of \<^verbatim>\<open>validate_bksv\<close> and the transfer loops terminate by a measure.  Polling loops
  carry the attempt counter of the code.  The loops of the buddy allocator that follow pointers are partial functions into
  the option type, so that the theorems that an operation returns include that its loops end; no fuel is used.

  \<^bold>\<open>Not modelled.\<close>  Logging and tracing, sleeping and locking have no effect in the model: each
  interface call of a module is one atomic step, as its caller holds the module's mutex.  The base
  driver, the compute driver, power management, the rest of the display core, TTM and the scheduler
  consist mostly of register programming and of concurrency through primitives of the kernel that are
  not part of the sources.  Of the buddy allocator the printing of its state and the creation of the cache at module load are
  left out; tearing down (\<^verbatim>\<open>drm_buddy_fini\<close>) is defined, but no property is about it.
\<close>

end
